(* ===== verification/Prelude.thy ===== *)
theory Prelude
  imports Complex_Main "HOL-Library.Multiset" "HOL-Library.AList"
begin

text \<open>
  Shared material of the development: the collections the component proofs add to the
  simplifier, JavaScript strings and \<open>Map\<close> objects as they are used by the sources, the
  interface of an insertion-ordered map (locale \<open>ordered_map\<close>) with its instance on
  association lists, the interface of a transition system with an inductive invariant
  (locale \<open>inductive_invariant\<close>), and generic facts on lists and multisets.

  Strings are \<open>string\<close>, read as the UTF-8 bytes of the JavaScript string. Searching for a
  substring and comparing for equality give the same answers on UTF-8 bytes as on code units.
  Lower-casing changes ASCII letters only.
\<close>

named_theorems task_move "multiset equations that say where an operation moves tasks"
named_theorems frame "which parts of a state an operation leaves alone"

section \<open>JavaScript strings\<close>

text \<open>The byte sequences that \<open>String.prototype.trim\<close> strips: ASCII white space and line
  terminators, then U+00A0, U+1680, U+2000 to U+200A, U+2028, U+2029, U+202F, U+205F, U+3000
  and U+FEFF.\<close>

definition white_space :: "string list" where
  "white_space =
     [[CHR 0x09], [CHR 0x0A], [CHR 0x0B], [CHR 0x0C], [CHR 0x0D], [CHR 0x20],
      [CHR 0xC2, CHR 0xA0], [CHR 0xE1, CHR 0x9A, CHR 0x80],
      [CHR 0xE2, CHR 0x80, CHR 0x80], [CHR 0xE2, CHR 0x80, CHR 0x81],
      [CHR 0xE2, CHR 0x80, CHR 0x82], [CHR 0xE2, CHR 0x80, CHR 0x83],
      [CHR 0xE2, CHR 0x80, CHR 0x84], [CHR 0xE2, CHR 0x80, CHR 0x85],
      [CHR 0xE2, CHR 0x80, CHR 0x86], [CHR 0xE2, CHR 0x80, CHR 0x87],
      [CHR 0xE2, CHR 0x80, CHR 0x88], [CHR 0xE2, CHR 0x80, CHR 0x89],
      [CHR 0xE2, CHR 0x80, CHR 0x8A], [CHR 0xE2, CHR 0x80, CHR 0xA8],
      [CHR 0xE2, CHR 0x80, CHR 0xA9], [CHR 0xE2, CHR 0x80, CHR 0xAF],
      [CHR 0xE2, CHR 0x81, CHR 0x9F], [CHR 0xE3, CHR 0x80, CHR 0x80],
      [CHR 0xEF, CHR 0xBB, CHR 0xBF]]"

definition starts_with :: "string \<Rightarrow> string \<Rightarrow> bool" where
  "starts_with s p = (take (length p) s = p)"

fun strip :: "string list \<Rightarrow> nat \<Rightarrow> string \<Rightarrow> string" where
  "strip ws 0 s = s"
| "strip ws (Suc fuel) s =
     (case find (starts_with s) ws of
        None \<Rightarrow> s
      | Some w \<Rightarrow> strip ws fuel (drop (length w) s))"

definition trim_start :: "string \<Rightarrow> string" where
  "trim_start s = strip white_space (length s) s"

definition trim_end :: "string \<Rightarrow> string" where
  "trim_end s = rev (strip (map rev white_space) (length s) (rev s))"

definition trim :: "string \<Rightarrow> string" where
  "trim s = trim_end (trim_start s)"

definition lower_char :: "char \<Rightarrow> char" where
  "lower_char c =
     (let n = (of_char c :: nat) in if 65 \<le> n \<and> n \<le> 90 then char_of (n + 32) else c)"

definition upper_char :: "char \<Rightarrow> char" where
  "upper_char c =
     (let n = (of_char c :: nat) in if 97 \<le> n \<and> n \<le> 122 then char_of (n - 32) else c)"

text \<open>\<open>toLowerCase\<close> on the bytes, as far as its result can contain ASCII: beside the ASCII capitals these
  are the Kelvin sign, which becomes \<open>k\<close>, and the capital \<open>I\<close> with a dot, which becomes \<open>i\<close> and a
  combining dot. Other letters stay as they are; the program only compares the result with ASCII words.\<close>

fun to_lower :: "string \<Rightarrow> string" where
  "to_lower [] = []"
| "to_lower (c # s) =
     (if c = CHR 0xE2 \<and> take 2 s = [CHR 0x84, CHR 0xAA] then CHR ''k'' # to_lower (drop 2 s)
      else if c = CHR 0xC4 \<and> take 1 s = [CHR 0xB0] then [CHR ''i'', CHR 0xCC, CHR 0x87] @ to_lower (drop 1 s)
      else lower_char c # to_lower s)"

lemma to_lower_Nil [simp]: "to_lower s = [] \<longleftrightarrow> s = []"
  by (cases s) simp_all

definition to_upper :: "string \<Rightarrow> string" where
  "to_upper = map upper_char"

fun str_includes :: "string \<Rightarrow> string \<Rightarrow> bool" where
  "str_includes [] p = (p = [])"
| "str_includes (c # s) p = (starts_with (c # s) p \<or> str_includes s p)"

definition ends_with :: "string \<Rightarrow> string \<Rightarrow> bool" where
  "ends_with s p = starts_with (rev s) (rev p)"

fun split_on :: "char \<Rightarrow> string \<Rightarrow> string list" where
  "split_on d [] = [[]]"
| "split_on d (c # s) =
     (if c = d then [] # split_on d s
      else case split_on d s of [] \<Rightarrow> [[c]] | w # ws \<Rightarrow> (c # w) # ws)"

text \<open>Decimal rendering of an integer, as \<open>String(n)\<close> and template literals give it.\<close>

fun show_digits :: "nat \<Rightarrow> string" where
  "show_digits n =
     (if n < 10 then [char_of (48 + n)]
      else show_digits (n div 10) @ [char_of (48 + n mod 10)])"

declare show_digits.simps [simp del]

definition show_int :: "int \<Rightarrow> string" where
  "show_int i = (if i < 0 then CHR ''-'' # show_digits (nat (- i)) else show_digits (nat i))"

section \<open>Results\<close>

text \<open>Sequencing of steps that may throw: \<open>Inl\<close> is the error and skips the rest.\<close>

fun and_then :: "'e + 'a \<Rightarrow> ('a \<Rightarrow> 'e + 'b) \<Rightarrow> 'e + 'b" where
  "and_then (Inl e) f = Inl e"
| "and_then (Inr a) f = f a"

lemma and_then_Inr: "and_then r f = Inr b \<longleftrightarrow> (\<exists>a. r = Inr a \<and> f a = Inr b)"
  by (cases r) auto

lemma and_then_Inl: "and_then r f = Inl e \<longleftrightarrow> r = Inl e \<or> (\<exists>a. r = Inr a \<and> f a = Inl e)"
  by (cases r) auto

section \<open>Interfaces\<close>

text \<open>The part of a JavaScript \<open>Map\<close> the sources use: \<open>get\<close>, \<open>set\<close>, \<open>delete\<close> and the
  iteration order of \<open>entries()\<close>, which is the order of first insertion.\<close>

locale ordered_map =
  fixes get :: "'m \<Rightarrow> 'k \<Rightarrow> 'v option"
    and put :: "'k \<Rightarrow> 'v \<Rightarrow> 'm \<Rightarrow> 'm"
    and del :: "'k \<Rightarrow> 'm \<Rightarrow> 'm"
    and keys :: "'m \<Rightarrow> 'k list"
    and wf :: "'m \<Rightarrow> bool"
  assumes get_put: "wf m \<Longrightarrow> get (put k v m) = (get m)(k \<mapsto> v)"
    and get_del: "wf m \<Longrightarrow> get (del k m) = (get m)(k := None)"
    and keys_get: "wf m \<Longrightarrow> set (keys m) = dom (get m)"
    and keys_put: "wf m \<Longrightarrow> keys (put k v m) = (if k \<in> set (keys m) then keys m else keys m @ [k])"
    and keys_del: "wf m \<Longrightarrow> keys (del k m) = filter (\<lambda>x. x \<noteq> k) (keys m)"
    and wf_keys: "wf m \<Longrightarrow> distinct (keys m)"
    and wf_put: "wf m \<Longrightarrow> wf (put k v m)"
    and wf_del: "wf m \<Longrightarrow> wf (del k m)"
begin

lemma get_put_del:
  "wf m \<Longrightarrow> get (put k v (del k m)) = get (put k v m)"
  by (simp add: get_put get_del wf_del)

lemma keys_put_del:
  "wf m \<Longrightarrow> keys (put k v (del k m)) = filter (\<lambda>x. x \<noteq> k) (keys m) @ [k]"
  by (simp add: keys_put keys_del wf_del)

lemma get_none_iff: "wf m \<Longrightarrow> get m k = None \<longleftrightarrow> k \<notin> set (keys m)"
  by (simp add: keys_get domIff)

lemma length_keys_del:
  assumes "wf m" and "k \<in> set (keys m)"
  shows "Suc (length (keys (del k m))) = length (keys m)"
proof -
  have "length (keys (del k m)) = length (remove1 k (keys m))"
    using assms by (simp add: keys_del wf_keys distinct_remove1_removeAll removeAll_filter_not_eq
        neq_commute)
  moreover have "0 < length (keys m)"
    using assms(2) by auto
  ultimately show ?thesis
    using assms by (simp add: length_remove1)
qed

end

text \<open>A transition system and a predicate that its start states have and every step keeps.\<close>

locale inductive_invariant =
  fixes start :: "'s \<Rightarrow> bool"
    and step :: "'s \<Rightarrow> 's \<Rightarrow> bool"
    and inv :: "'s \<Rightarrow> bool"
  assumes inv_start: "start s \<Longrightarrow> inv s"
    and inv_step: "inv s \<Longrightarrow> step s t \<Longrightarrow> inv t"
begin

lemma inv_steps: "step\<^sup>*\<^sup>* s t \<Longrightarrow> inv s \<Longrightarrow> inv t"
  by (induction rule: rtranclp_induct) (auto intro: inv_step)

lemma inv_reachable: "start s \<Longrightarrow> step\<^sup>*\<^sup>* s t \<Longrightarrow> inv t"
  using inv_start inv_steps by blast

end

section \<open>Association lists as insertion-ordered maps\<close>

interpretation alist: ordered_map map_of AList.update AList.delete "map fst" "\<lambda>m. distinct (map fst m)"
proof unfold_locales
  fix m :: "('a \<times> 'b) list" and k v
  assume d: "distinct (map fst m)"
  show "map_of (AList.update k v m) = (map_of m)(k \<mapsto> v)" by (rule AList.update_conv')
  show "map_of (AList.delete k m) = (map_of m)(k := None)" by (rule AList.delete_conv')
  show "set (map fst m) = dom (map_of m)" by (simp add: dom_map_of_conv_image_fst)
  show "map fst (AList.update k v m) = (if k \<in> set (map fst m) then map fst m else map fst m @ [k])"
    by (rule AList.update_keys)
  show "map fst (AList.delete k m) = filter (\<lambda>x. x \<noteq> k) (map fst m)"
    by (simp add: AList.delete_keys removeAll_filter_not_eq neq_commute)
  show "distinct (map fst m)" by (fact d)
  show "distinct (map fst (AList.update k v m))" using d by (rule AList.distinct_update)
  show "distinct (map fst (AList.delete k m))" using d by (rule AList.distinct_delete)
qed

lemmas alist_simps = alist.get_put alist.get_del alist.keys_put alist.keys_del

text \<open>The values of an association list laid end to end, and how an update moves them.\<close>

lemma alist_split:
  assumes "map_of m k = Some v" and "distinct (map fst m)"
  obtains xs ys where "m = xs @ (k, v) # ys" "k \<notin> set (map fst xs)" "k \<notin> set (map fst ys)"
proof -
  from assms(1) have "(k, v) \<in> set m" by (rule map_of_SomeD)
  then obtain xs ys where "m = xs @ (k, v) # ys" by (auto simp: in_set_conv_decomp)
  with assms(2) show ?thesis by (intro that) auto
qed

lemma alist_update_absent: "k \<notin> set (map fst m) \<Longrightarrow> AList.update k v m = m @ [(k, v)]"
  by (induction m) auto

lemma alist_update_present:
  "k \<notin> set (map fst xs) \<Longrightarrow> AList.update k v (xs @ (k, w) # ys) = xs @ (k, v) # ys"
  by (induction xs) auto

lemma alist_delete_absent: "k \<notin> set (map fst m) \<Longrightarrow> AList.delete k m = m"
  by (induction m) (auto simp: AList.delete_eq)

lemma alist_delete_present:
  assumes "k \<notin> set (map fst xs)" "k \<notin> set (map fst ys)"
  shows "AList.delete k (xs @ (k, w) # ys) = xs @ ys"
  using assms alist_delete_absent [of k xs] alist_delete_absent [of k ys]
  by (simp add: AList.delete_eq)

lemma mset_concat_update:
  assumes "map_of m k = Some v" and "distinct (map fst m)"
  shows "mset (concat (map (f \<circ> snd) (AList.update k w m))) + mset (f v) =
         mset (concat (map (f \<circ> snd) m)) + mset (f w)"
proof -
  obtain xs ys where "m = xs @ (k, v) # ys" "k \<notin> set (map fst xs)" "k \<notin> set (map fst ys)"
    using assms by (rule alist_split)
  then show ?thesis by (simp add: alist_update_present)
qed

lemma mset_concat_delete:
  assumes "map_of m k = Some v" and "distinct (map fst m)"
  shows "mset (concat (map (f \<circ> snd) (AList.delete k m))) + mset (f v) =
         mset (concat (map (f \<circ> snd) m))"
proof -
  obtain xs ys where "m = xs @ (k, v) # ys" "k \<notin> set (map fst xs)" "k \<notin> set (map fst ys)"
    using assms by (rule alist_split)
  then show ?thesis by (simp add: alist_delete_present)
qed

lemma concat_update_absent:
  "map_of m k = None \<Longrightarrow>
   concat (map (f \<circ> snd) (AList.update k w m)) = concat (map (f \<circ> snd) m) @ f w"
  by (simp add: alist_update_absent map_of_eq_None_iff)

lemma delete_absent_map_of: "map_of m k = None \<Longrightarrow> AList.delete k m = m"
  by (simp add: alist_delete_absent map_of_eq_None_iff)

section \<open>Generic facts\<close>

lemma str_includes_iff: "str_includes s p \<longleftrightarrow> (\<exists>a b. s = a @ p @ b)"
proof (induction s)
  case Nil
  then show ?case by auto
next
  case (Cons c s)
  have "starts_with (c # s) p \<longleftrightarrow> (\<exists>b. c # s = p @ b)"
    unfolding starts_with_def by (metis append_eq_conv_conj append_take_drop_id)
  moreover have "(\<exists>a b. c # s = a @ p @ b) \<longleftrightarrow>
      (\<exists>b. c # s = p @ b) \<or> (\<exists>a b. s = a @ p @ b)"
    by (metis append_Cons append_Nil list.exhaust list.inject)
  ultimately show ?case using Cons by simp
qed

lemma str_includes_append_right: "str_includes t p \<Longrightarrow> str_includes (s @ t) p"
  unfolding str_includes_iff by (metis append_assoc)

lemma str_includes_append_left: "str_includes s p \<Longrightarrow> str_includes (s @ t) p"
  unfolding str_includes_iff by (metis append_assoc)

lemma strip_decreases: "length (strip ws fuel s) \<le> length s"
  by (induction ws fuel s rule: strip.induct)
     (auto split: option.splits dest: order_trans [OF _ diff_le_self])

lemma show_digits_not_empty [simp]: "show_digits n \<noteq> []"
  by (subst show_digits.simps) simp

lemma distinct_iff_count: "distinct xs \<longleftrightarrow> (\<forall>a. count (mset xs) a \<le> 1)"
proof -
  have "count (mset xs) a = (if a \<in> set xs then 1 else 0) \<longleftrightarrow> count (mset xs) a \<le> 1" for a
    by (cases "a \<in> set xs") (auto simp: count_mset_0_iff le_Suc_eq)
  then show ?thesis by (simp add: distinct_count_atmost_1)
qed

lemma mset_sorted_list: "finite A \<Longrightarrow> mset (sorted_list_of_set A) = mset_set A"
  by (metis distinct_sorted_list_of_set mset_set_set set_sorted_list_of_set)

lemma distinct_subset_mset:
  assumes "mset xs \<subseteq># mset ys" and "distinct ys"
  shows "distinct xs"
  using assms by (meson distinct_iff_count le_trans mset_subset_eq_count)

lemma remove1_by_key:
  assumes "x \<in> set xs" and "distinct (map f xs)"
  shows "remove1 x xs = filter (\<lambda>y. f y \<noteq> f x) xs"
  using assms
proof (induction xs)
  case (Cons a xs)
  have "filter (\<lambda>y. f y \<noteq> f a) xs = xs"
    using Cons.prems(2) by (simp add: filter_id_conv image_iff) (metis image_eqI)
  with Cons show ?case by auto
qed simp

lemma sum_list_remove1:
  "x \<in> set xs \<Longrightarrow> f x + sum_list (map f (remove1 x xs)) = sum_list (map (f :: _ \<Rightarrow> int) xs)"
  by (simp add: sum_list_map_remove1)

end
