(* ===== verification/JsValue.thy ===== *)
theory JsValue
  imports Prelude
begin

text \<open>
  The JavaScript values and number conversions the sources rely on: \<open>typeof\<close> tests,
  truthiness, \<open>Number(string)\<close>, \<open>Number.isInteger\<close>, \<open>Number.parseInt(raw, 10)\<close> and
  \<open>String(v)\<close>, for which the text of a number is an argument.
  A number is an exact rational, an infinity or NaN. A literal that is too large for a double
  is an infinity; rounding of smaller literals to the nearest double is not modelled, so the
  conversions are exact on every decimal that a double represents exactly.
\<close>

datatype jsnum = Fin rat | PosInf | NegInf | NaN

datatype jsval =
    Undefined
  | Null
  | Bool bool
  | Num jsnum
  | Str string
  | Arr "jsval list"
  | Obj "(string \<times> jsval) list"

type_synonym jsobj = "(string \<times> jsval) list"

fun truthy :: "jsval \<Rightarrow> bool" where
  "truthy Undefined = False"
| "truthy Null = False"
| "truthy (Bool b) = b"
| "truthy (Num n) = (n \<noteq> Fin 0 \<and> n \<noteq> NaN)"
| "truthy (Str s) = (s \<noteq> [])"
| "truthy (Arr _) = True"
| "truthy (Obj _) = True"

text \<open>Reading a property of an object: a missing property is \<open>undefined\<close>.\<close>

definition prop_of :: "jsobj \<Rightarrow> string \<Rightarrow> jsval" where
  "prop_of ob k = (case map_of ob k of None \<Rightarrow> Undefined | Some v \<Rightarrow> v)"

definition digit_value :: "nat \<Rightarrow> char \<Rightarrow> nat option" where
  "digit_value base c =
     (let n = (of_char c :: nat);
          d = (if 48 \<le> n \<and> n \<le> 57 then n - 48
               else if 97 \<le> n \<and> n \<le> 122 then n - 87
               else if 65 \<le> n \<and> n \<le> 90 then n - 55
               else base)
      in if d < base then Some d else None)"

definition is_digit :: "char \<Rightarrow> bool" where
  "is_digit c = (digit_value 10 c \<noteq> None)"

fun digits_value :: "nat \<Rightarrow> nat \<Rightarrow> string \<Rightarrow> nat" where
  "digits_value base acc [] = acc"
| "digits_value base acc (c # s) =
     digits_value base (acc * base + (case digit_value base c of None \<Rightarrow> 0 | Some d \<Rightarrow> d)) s"

definition all_digits :: "nat \<Rightarrow> string \<Rightarrow> bool" where
  "all_digits base s = list_all (\<lambda>c. digit_value base c \<noteq> None) s"

text \<open>The least magnitude that rounds to an infinity: \<open>2 ^ 1024 - 2 ^ 970\<close>.\<close>

definition DOUBLE_OVERFLOW :: int where
  "DOUBLE_OVERFLOW = 179769313486231580793728971405303415079934132710037826936173778980444968292764750946649017977587207096330286416692887910946555547851940402630657488671505820681908902000708383676273854845817711531764475730270069855571366959622842914819860834936475292719074168444365510704342711559699508093042880177904174497792"

text \<open>\<open>Number.parseInt(raw, 10)\<close>: leading white space, a sign, then the longest run of
  decimal digits. What follows the digits is ignored. \<open>None\<close> is NaN or an infinity, the
  values that \<open>Number.isFinite\<close> refuses.\<close>

definition parse_int :: "string \<Rightarrow> int option" where
  "parse_int raw =
     (let s = trim_start raw;
          (neg, t) = (case s of
                        c # r \<Rightarrow> if c = CHR ''-'' then (True, r)
                                 else if c = CHR ''+'' then (False, r) else (False, s)
                      | [] \<Rightarrow> (False, []));
          ds = takeWhile is_digit t;
          n = digits_value 10 0 ds
      in if ds = [] \<or> int n \<ge> DOUBLE_OVERFLOW then None
         else Some (if neg then - int n else int n))"

definition finite_or_inf :: "rat \<Rightarrow> jsnum" where
  "finite_or_inf r = (if r \<ge> of_int DOUBLE_OVERFLOW then PosInf else Fin r)"

text \<open>\<open>Number(string)\<close> (StringToNumber): the trimmed text is empty, a 0x/0o/0b literal, or a
  signed decimal literal with optional fraction and exponent, or \<open>Infinity\<close>; NaN otherwise.\<close>

definition radix_literal :: "nat \<Rightarrow> string \<Rightarrow> jsnum" where
  "radix_literal base ds =
     (if ds \<noteq> [] \<and> all_digits base ds then finite_or_inf (of_nat (digits_value base 0 ds)) else NaN)"

definition exponent :: "string \<Rightarrow> int option" where
  "exponent s =
     (case s of
        [] \<Rightarrow> Some 0
      | e # r \<Rightarrow>
          if e \<noteq> CHR ''e'' \<and> e \<noteq> CHR ''E'' then None
          else (let (neg, ds) = (case r of
                     c # t \<Rightarrow> if c = CHR ''-'' then (True, t)
                              else if c = CHR ''+'' then (False, t) else (False, r)
                   | [] \<Rightarrow> (False, []))
                in if ds \<noteq> [] \<and> all_digits 10 ds
                   then Some ((if neg then - 1 else 1) * int (digits_value 10 0 ds)) else None))"

definition scale10 :: "rat \<Rightarrow> int \<Rightarrow> rat" where
  "scale10 r e = (if 0 \<le> e then r * 10 ^ nat e else r / 10 ^ nat (- e))"

definition unsigned_decimal :: "string \<Rightarrow> jsnum" where
  "unsigned_decimal s =
     (if s = ''Infinity'' then PosInf
      else
        let i = takeWhile is_digit s;
            r1 = dropWhile is_digit s;
            (f, r2) = (case r1 of
                         c # r \<Rightarrow> if c = CHR ''.'' then (takeWhile is_digit r, dropWhile is_digit r)
                                  else ([], r1)
                       | [] \<Rightarrow> ([], []))
        in if i = [] \<and> f = [] then NaN
           else (case exponent r2 of
                   None \<Rightarrow> NaN
                 | Some e \<Rightarrow>
                     finite_or_inf
                       (scale10 (of_nat (digits_value 10 0 (i @ f))) (e - int (length f)))))"

fun negate_num :: "jsnum \<Rightarrow> jsnum" where
  "negate_num (Fin r) = Fin (- r)"
| "negate_num PosInf = NegInf"
| "negate_num NegInf = PosInf"
| "negate_num NaN = NaN"

definition string_to_number :: "string \<Rightarrow> jsnum" where
  "string_to_number raw =
     (let s = trim raw; p = to_lower (take 2 s) in
      if s = [] then Fin 0
      else if p = ''0x'' then radix_literal 16 (drop 2 s)
      else if p = ''0o'' then radix_literal 8 (drop 2 s)
      else if p = ''0b'' then radix_literal 2 (drop 2 s)
      else case s of
             c # r \<Rightarrow> if c = CHR ''-'' then negate_num (unsigned_decimal r)
                      else if c = CHR ''+'' then unsigned_decimal r
                      else unsigned_decimal s
           | [] \<Rightarrow> NaN)"

text \<open>\<open>Number.isInteger\<close>, and the integer it holds.\<close>

definition rat_int :: "rat \<Rightarrow> int option" where
  "rat_int r = (if of_int \<lfloor>r\<rfloor> = r then Some \<lfloor>r\<rfloor> else None)"

fun as_integer :: "jsnum \<Rightarrow> int option" where
  "as_integer (Fin r) = rat_int r"
| "as_integer _ = None"

definition num_of_int :: "int \<Rightarrow> jsnum" where
  "num_of_int i = Fin (of_int i)"

fun join_text :: "string \<Rightarrow> string list \<Rightarrow> string" where
  "join_text sep [] = []"
| "join_text sep [w] = w"
| "join_text sep (w # v # ws) = w @ sep @ join_text sep (v # ws)"

text \<open>\<open>String(v)\<close>. An element that is \<open>null\<close> is empty in the text of an array.\<close>

fun js_text :: "(jsnum \<Rightarrow> string) \<Rightarrow> jsval \<Rightarrow> string" where
  "js_text num_text Undefined = ''undefined''"
| "js_text num_text Null = ''null''"
| "js_text num_text (Bool b) = (if b then ''true'' else ''false'')"
| "js_text num_text (Num n) = num_text n"
| "js_text num_text (Str s) = s"
| "js_text num_text (Arr vs) =
     join_text '','' (map (\<lambda>v. if v = Null \<or> v = Undefined then [] else js_text num_text v) vs)"
| "js_text num_text (Obj ob) = ''[object Object]''"

section \<open>Facts\<close>

lemma as_integer_of_int [simp]: "as_integer (num_of_int i) = Some i"
  by (simp add: num_of_int_def rat_int_def)

lemma as_integer_Some: "as_integer n = Some i \<longleftrightarrow> n = num_of_int i"
  by (cases n) (auto simp: num_of_int_def rat_int_def)

lemma of_char_digit:
  assumes "n < 10"
  shows "digit_value 10 (char_of (48 + n)) = Some n"
  using assms by (simp add: digit_value_def Let_def)

lemma is_digit_char: "(n :: nat) < 10 \<Longrightarrow> is_digit (char_of (48 + n))"
  unfolding is_digit_def by (simp add: of_char_digit)

lemma digits_value_append:
  "digits_value b acc (xs @ ys) = digits_value b (digits_value b acc xs) ys"
  by (induction xs arbitrary: acc) auto

text \<open>Printing an integer and parsing it back.\<close>

lemma show_digits_digits: "list_all is_digit (show_digits n)"
proof (induction n rule: show_digits.induct)
  case (1 n)
  show ?case
  proof (cases "n < 10")
    case True
    then show ?thesis
      by (subst show_digits.simps) (simp add: is_digit_char)
  next
    case False
    with 1 show ?thesis
      by (subst show_digits.simps) (simp add: is_digit_char)
  qed
qed

lemma digits_value_show: "digits_value 10 0 (show_digits n) = n"
proof (induction n rule: show_digits.induct)
  case (1 n)
  show ?case
  proof (cases "n < 10")
    case True
    then show ?thesis by (subst show_digits.simps) (simp add: of_char_digit)
  next
    case False
    with 1 show ?thesis
      by (subst show_digits.simps) (simp add: of_char_digit digits_value_append)
  qed
qed

lemma not_white_space_start:
  assumes "s \<noteq> []" and "\<And>w. w \<in> set white_space \<Longrightarrow> hd w \<noteq> hd s"
  shows "trim_start s = s"
proof -
  have "find (starts_with s) white_space = None"
  proof (rule ccontr)
    assume "find (starts_with s) white_space \<noteq> None"
    then obtain w where w: "w \<in> set white_space" "starts_with s w"
      by (auto simp: find_None_iff)
    then have "w \<noteq> []" by (auto simp: white_space_def)
    with w(2) assms(1) have "hd w = hd s"
      by (cases w; cases s) (auto simp: starts_with_def)
    with assms(2) w(1) show False by blast
  qed
  then show ?thesis
    by (cases s) (auto simp: trim_start_def)
qed

lemma hd_white_space:
  "w \<in> set white_space \<Longrightarrow> of_char (hd w) \<in> {9, 10, 11, 12, 13, 32, 194, 225, 226, 227, 239 :: nat}"
  by (auto simp: white_space_def)

lemma is_digit_code: "is_digit c \<longleftrightarrow> 48 \<le> (of_char c :: nat) \<and> of_char c \<le> (57 :: nat)"
  by (auto simp: is_digit_def digit_value_def Let_def)

lemma trim_start_digits:
  assumes "list_all is_digit s" and "s \<noteq> []"
  shows "trim_start s = s"
proof (rule not_white_space_start)
  show "s \<noteq> []" by fact
  fix w assume w: "w \<in> set white_space"
  have "is_digit (hd s)" using assms by (cases s) auto
  then show "hd w \<noteq> hd s" using hd_white_space [OF w] by (auto simp: is_digit_code)
qed

lemma parse_int_show_digits:
  assumes "int n < DOUBLE_OVERFLOW"
  shows "parse_int (show_digits n) = Some (int n)"
proof -
  have d: "list_all is_digit (show_digits n)" by (rule show_digits_digits)
  obtain c r where cr: "show_digits n = c # r"
    by (cases "show_digits n") auto
  have "is_digit c" using d cr by simp
  then have nz: "c \<noteq> CHR ''-''" "c \<noteq> CHR ''+''" by (auto simp: is_digit_code)
  have tw: "takeWhile is_digit (c # r) = c # r"
    using d cr by (simp add: takeWhile_eq_all_conv list_all_iff)
  have "trim_start (c # r) = c # r"
    using trim_start_digits [OF d] cr by simp
  then show ?thesis
    using nz tw digits_value_show [of n] cr assms unfolding parse_int_def by (simp add: Let_def)
qed

end
