(* ===== verification/QueueTypes.thy ===== *)
theory QueueTypes
  imports JsValue
begin

text \<open>
  The data of the queue (\<open>src/queue/interfaces/queue-task.interface.ts\<close>): workload types,
  tasks, batches, enqueue options, worker task data and the snapshot format, and the errors the
  queue services raise.

  A task's \<open>execute\<close>, \<open>resolve\<close> and \<open>reject\<close> closures are not fields: the outcome of
  \<open>execute\<close> is an event of the environment, and a call of \<open>resolve\<close> or \<open>reject\<close> is recorded
  against the task's id, which is unique because it is drawn from a counter that only grows.
\<close>

datatype WorkloadType = CPU | MEMORY | CUSTOM | UNKNOWN

fun workload_name :: "WorkloadType \<Rightarrow> string" where
  "workload_name CPU = ''cpu''"
| "workload_name MEMORY = ''memory''"
| "workload_name CUSTOM = ''custom''"
| "workload_name UNKNOWN = ''unknown''"

record QueueTask =
  task_id :: nat
  requestId :: jsval
  timestamp :: int
  priority :: int
  category :: "string option"
  task_size :: "int option"
  workloadType :: "WorkloadType option"
  params :: "jsobj option"
  functionCode :: "string option"
  task_timeout :: "int option"

record TaskBatch =
  tasks :: "QueueTask list"
  batch_category :: string
  totalSize :: int
  createdAt :: int

type_synonym batches = "(string \<times> TaskBatch) list"

record SerializedTask =
  ser_id :: nat
  ser_requestId :: jsval
  ser_timestamp :: int
  ser_priority :: int
  ser_category :: "string option"
  ser_size :: "int option"

record QueueSnapshot =
  snap_timestamp :: int
  snap_high :: "SerializedTask list"
  snap_normal :: "SerializedTask list"
  snap_low :: "SerializedTask list"
  snap_totalProcessed :: nat
  snap_totalRejected :: nat
  snap_totalTimeout :: nat
  snap_taskIdCounter :: nat

record WorkerTaskData =
  wtask :: QueueTask
  wtype :: "WorkloadType option"
  woperation :: "string option"
  wparams :: jsobj
  wfunctionCode :: "string option"
  wtimeout :: "int option"

text \<open>The options of \<open>enqueue\<close> arrive unvalidated, so each field is any JavaScript value.\<close>

record EnqueueOptions =
  opt_priority :: jsval
  opt_requestId :: jsval
  opt_category :: jsval
  opt_batch :: jsval
  opt_size :: jsval
  opt_timeout :: jsval
  opt_workloadType :: jsval
  opt_params :: jsval
  opt_functionCode :: jsval

text \<open>\<open>task.size ?? 1\<close> and \<open>task.size || 1\<close>.\<close>

definition size_nullish :: "QueueTask \<Rightarrow> int" where
  "size_nullish t = (case task_size t of None \<Rightarrow> 1 | Some n \<Rightarrow> n)"

definition size_or :: "QueueTask \<Rightarrow> int" where
  "size_or t = (case task_size t of None \<Rightarrow> 1 | Some n \<Rightarrow> if n = 0 then 1 else n)"

definition category_or_empty :: "QueueTask \<Rightarrow> string" where
  "category_or_empty t = (case category t of None \<Rightarrow> [] | Some c \<Rightarrow> c)"

text \<open>The errors of the queue services. \<open>Thrown m\<close> is any other error with message \<open>m\<close>: one
  thrown by a task's own code or reported by a worker.\<close>

datatype queue_error =
    OptionNotPositive string
  | PriorityNotInteger
  | CategoryNotString
  | CategoryEmpty
  | ParamsNotObject
  | FunctionCodeNotString
  | CustomDisabled
  | WorkloadTypeNotString
  | ServerOverloaded
  | QueueFull
  | QueueWaitTimeout
  | ResourceShortage
  | ProcessingDelayed
  | BatchTimeout
  | UnknownWorkload
  | WorkerFailed
  | ExecutionTimeout int
  | WorkerPostFailed string
  | WorkerCrashed string
  | Thrown string

datatype outcome = Resolved jsval | Rejected queue_error

section \<open>Priority levels\<close>

text \<open>The three queues as a linear order: the level decides which queue a task waits in, and a
  higher level is served first.\<close>

datatype level = Low | Normal | High

definition level_of :: "int \<Rightarrow> level" where
  "level_of p = (if p \<ge> 5 then High else if p \<ge> 0 then Normal else Low)"

fun level_rank :: "level \<Rightarrow> nat" where
  "level_rank Low = 0"
| "level_rank Normal = 1"
| "level_rank High = 2"

lemma level_rank_inject [simp]: "level_rank a = level_rank b \<longleftrightarrow> a = b"
  by (cases a; cases b) auto

instantiation level :: linorder
begin

definition less_eq_level :: "level \<Rightarrow> level \<Rightarrow> bool" where
  "less_eq_level a b \<longleftrightarrow> level_rank a \<le> level_rank b"

definition less_level :: "level \<Rightarrow> level \<Rightarrow> bool" where
  "less_level a b \<longleftrightarrow> level_rank a < level_rank b"

instance
  by standard (auto simp: less_eq_level_def less_level_def)

end

lemma level_of_mono: "p \<le> q \<Longrightarrow> level_of p \<le> level_of q"
  by (auto simp: level_of_def less_eq_level_def)

lemma Low_least [simp]: "Low \<le> l"
  by (simp add: less_eq_level_def)

lemma High_greatest [simp]: "l \<le> High"
  by (cases l) (simp_all add: less_eq_level_def)

section \<open>Sizes\<close>

definition positive_size :: "QueueTask \<Rightarrow> bool" where
  "positive_size t = (case task_size t of None \<Rightarrow> True | Some n \<Rightarrow> 0 < n)"

lemma size_or_nullish: "positive_size t \<Longrightarrow> size_or t = size_nullish t"
  by (auto simp: positive_size_def size_or_def size_nullish_def split: option.splits)

lemma size_nullish_pos: "positive_size t \<Longrightarrow> 0 < size_nullish t"
  by (auto simp: positive_size_def size_nullish_def split: option.splits)

end
