(* ===== verification/QueueState.thy ===== *)
theory QueueState
  imports QueueTypes
begin

text \<open>
  The state shared by the queue services (\<open>src/queue/queue-state.holder.ts\<close>, class
  \<open>QueueStateHolder\<close>) and the counters of \<open>src/queue/queue-stats.service.ts\<close>: the three
  priority queues, the batch queues, and the operations on them. The well-formedness of the
  batch queues (\<open>wf_batches\<close>) says that a batch is filed under its own category, is not empty,
  holds tasks of that category only and carries the sum of their sizes.
\<close>

section \<open>Configuration and state\<close>

record QueueConfig =
  concurrentTasks :: int
  maxConcurrentRequests :: int
  taskTimeoutMs :: int
  executionTimeoutMs :: int
  queueOverflowThreshold :: int

record QueueState =
  highPriorityQueue :: "QueueTask list"
  normalPriorityQueue :: "QueueTask list"
  lowPriorityQueue :: "QueueTask list"
  batchQueues :: batches
  taskIdCounter :: nat
  activeRequests :: int
  isProcessingQueue :: bool
  processSignalPending :: bool

definition init_queue_state :: QueueState where
  "init_queue_state = \<lparr>highPriorityQueue = [], normalPriorityQueue = [], lowPriorityQueue = [],
     batchQueues = [], taskIdCounter = 0, activeRequests = 0, isProcessingQueue = False,
     processSignalPending = False\<rparr>"

definition allQueues :: "QueueState \<Rightarrow> QueueTask list list" where
  "allQueues s = [highPriorityQueue s, normalPriorityQueue s, lowPriorityQueue s]"

section \<open>Operations\<close>

fun countBatchTasks :: "nat \<Rightarrow> batches \<Rightarrow> nat" where
  "countBatchTasks cnt [] = cnt"
| "countBatchTasks cnt ((_, batch) # bs) = countBatchTasks (cnt + length (tasks batch)) bs"

definition getBatchTaskCount :: "QueueState \<Rightarrow> nat" where
  "getBatchTaskCount s = countBatchTasks 0 (batchQueues s)"

definition getTotalQueueLength :: "QueueState \<Rightarrow> nat" where
  "getTotalQueueLength s =
     length (highPriorityQueue s) + length (normalPriorityQueue s) +
     length (lowPriorityQueue s) + getBatchTaskCount s"

definition decrementActiveRequests :: "QueueState \<Rightarrow> QueueState" where
  "decrementActiveRequests s = s\<lparr>activeRequests := max 0 (activeRequests s - 1)\<rparr>"

text \<open>\<open>indexOf\<close> followed by \<open>splice(index, 1)\<close>: the removed task and the rest, or \<open>None\<close> when
  the task is not in the array.\<close>

fun splice_task :: "nat \<Rightarrow> QueueTask list \<Rightarrow> (QueueTask \<times> QueueTask list) option" where
  "splice_task i [] = None"
| "splice_task i (t # ts) =
     (if task_id t = i then Some (t, ts)
      else case splice_task i ts of None \<Rightarrow> None | Some (r, rs) \<Rightarrow> Some (r, t # rs))"

fun find_batch :: "nat \<Rightarrow> batches \<Rightarrow> (string \<times> TaskBatch \<times> QueueTask \<times> QueueTask list) option" where
  "find_batch i [] = None"
| "find_batch i ((key, batch) # bs) =
     (case splice_task i (tasks batch) of
        Some (r, rs) \<Rightarrow> Some (key, batch, r, rs)
      | None \<Rightarrow> find_batch i bs)"

definition removeTaskFromQueues :: "nat \<Rightarrow> QueueState \<Rightarrow> bool \<times> QueueState" where
  "removeTaskFromQueues i s =
     (case splice_task i (highPriorityQueue s) of
        Some (_, rest) \<Rightarrow> (True, s\<lparr>highPriorityQueue := rest\<rparr>)
      | None \<Rightarrow>
     (case splice_task i (normalPriorityQueue s) of
        Some (_, rest) \<Rightarrow> (True, s\<lparr>normalPriorityQueue := rest\<rparr>)
      | None \<Rightarrow>
     (case splice_task i (lowPriorityQueue s) of
        Some (_, rest) \<Rightarrow> (True, s\<lparr>lowPriorityQueue := rest\<rparr>)
      | None \<Rightarrow>
     (case find_batch i (batchQueues s) of
        Some (key, batch, removed, rest) \<Rightarrow>
          (True, s\<lparr>batchQueues :=
             (if rest = [] then AList.delete (batch_category batch) (batchQueues s)
              else AList.update key
                     (batch\<lparr>tasks := rest, totalSize := totalSize batch - size_nullish removed\<rparr>)
                     (batchQueues s))\<rparr>)
      | None \<Rightarrow> (False, s)))))"

section \<open>Counters\<close>

record QueueStats =
  totalProcessed :: nat
  totalRejected :: nat
  totalTimeout :: nat
  recentProcessed :: nat
  recentRejected :: nat
  recentTimeout :: nat

definition init_stats :: QueueStats where
  "init_stats = \<lparr>totalProcessed = 0, totalRejected = 0, totalTimeout = 0,
     recentProcessed = 0, recentRejected = 0, recentTimeout = 0\<rparr>"

definition incrementProcessed :: "nat \<Rightarrow> QueueStats \<Rightarrow> QueueStats" where
  "incrementProcessed n st =
     st\<lparr>totalProcessed := totalProcessed st + n, recentProcessed := recentProcessed st + n\<rparr>"

definition incrementRejected :: "nat \<Rightarrow> QueueStats \<Rightarrow> QueueStats" where
  "incrementRejected n st =
     st\<lparr>totalRejected := totalRejected st + n, recentRejected := recentRejected st + n\<rparr>"

definition incrementTimeout :: "nat \<Rightarrow> QueueStats \<Rightarrow> QueueStats" where
  "incrementTimeout n st =
     st\<lparr>totalTimeout := totalTimeout st + n, recentTimeout := recentTimeout st + n\<rparr>"

definition logStats :: "QueueStats \<Rightarrow> QueueStats" where
  "logStats st = st\<lparr>recentProcessed := 0, recentRejected := 0, recentTimeout := 0\<rparr>"

definition settled_count :: "QueueStats \<Rightarrow> nat" where
  "settled_count st = totalProcessed st + totalRejected st + totalTimeout st"

lemmas stats_defs = incrementProcessed_def incrementRejected_def incrementTimeout_def logStats_def
  settled_count_def

section \<open>The waiting tasks\<close>

definition batch_tasks :: "batches \<Rightarrow> QueueTask list" where
  "batch_tasks bs = concat (map (tasks \<circ> snd) bs)"

definition queued_tasks :: "QueueState \<Rightarrow> QueueTask list" where
  "queued_tasks s = highPriorityQueue s @ normalPriorityQueue s @ lowPriorityQueue s"

definition waiting :: "QueueState \<Rightarrow> QueueTask list" where
  "waiting s = queued_tasks s @ batch_tasks (batchQueues s)"

definition wf_batch :: "string \<Rightarrow> TaskBatch \<Rightarrow> bool" where
  "wf_batch k b \<longleftrightarrow> batch_category b = k \<and> k \<noteq> [] \<and> tasks b \<noteq> [] \<and>
     list_all (\<lambda>t. category t = Some k \<and> priority t < 5 \<and> positive_size t) (tasks b) \<and>
     totalSize b = sum_list (map size_nullish (tasks b))"

definition wf_batches :: "batches \<Rightarrow> bool" where
  "wf_batches bs \<longleftrightarrow> distinct (map fst bs) \<and> list_all (\<lambda>(k, b). wf_batch k b) bs"

text \<open>Every task waits in the queue of its level.\<close>

definition wf_levels :: "QueueState \<Rightarrow> bool" where
  "wf_levels s \<longleftrightarrow>
     list_all (\<lambda>t. level_of (priority t) = High) (highPriorityQueue s) \<and>
     list_all (\<lambda>t. level_of (priority t) = Normal) (normalPriorityQueue s) \<and>
     list_all (\<lambda>t. level_of (priority t) = Low) (lowPriorityQueue s)"

definition wf_queues :: "QueueState \<Rightarrow> bool" where
  "wf_queues s \<longleftrightarrow> wf_levels s \<and> wf_batches (batchQueues s)"

section \<open>Facts\<close>

lemma countBatchTasks_eq: "countBatchTasks n bs = n + length (batch_tasks bs)"
  by (induction n bs rule: countBatchTasks.induct) (auto simp: batch_tasks_def)

lemma getTotalQueueLength_waiting: "getTotalQueueLength s = length (waiting s)"
  by (simp add: getTotalQueueLength_def getBatchTaskCount_def countBatchTasks_eq waiting_def
      queued_tasks_def)

lemma wf_batchesD:
  assumes "wf_batches bs" and "map_of bs k = Some b"
  shows "wf_batch k b"
  using assms by (auto simp: wf_batches_def list_all_iff dest!: map_of_SomeD)

lemma wf_batches_distinct: "wf_batches bs \<Longrightarrow> distinct (map fst bs)"
  by (simp add: wf_batches_def)

lemma set_alist_update: "set (AList.update k v m) \<subseteq> insert (k, v) (set m)"
  by (induction m) auto

lemma set_alist_delete: "set (AList.delete k m) \<subseteq> set m"
  by (auto simp: AList.delete_eq)

lemma wf_batches_update:
  assumes "wf_batches bs" and "wf_batch k b"
  shows "wf_batches (AList.update k b bs)"
  using assms set_alist_update [of k b bs]
  by (auto simp: wf_batches_def list_all_iff AList.distinct_update)

lemma wf_batches_delete:
  assumes "wf_batches bs"
  shows "wf_batches (AList.delete k bs)"
  using assms AList.distinct_delete [of bs k] set_alist_delete [of k bs]
  by (auto simp: wf_batches_def list_all_iff)

lemma wf_batches_Nil [simp]: "wf_batches []"
  by (simp add: wf_batches_def)

lemma splice_task_cases:
  "splice_task i ts = (if i \<in> task_id ` set ts
     then Some (hd (filter (\<lambda>t. task_id t = i) ts), remove1 (hd (filter (\<lambda>t. task_id t = i) ts)) ts)
     else None)"
proof (induction ts)
  case (Cons t ts)
  show ?case
  proof (cases "task_id t = i")
    case False
    have "hd (filter (\<lambda>t. task_id t = i) ts) \<noteq> t" if i: "i \<in> task_id ` set ts"
    proof -
      have "filter (\<lambda>t. task_id t = i) ts \<noteq> []" using i by (auto simp: filter_empty_conv)
      then have "hd (filter (\<lambda>t. task_id t = i) ts) \<in> set (filter (\<lambda>t. task_id t = i) ts)"
        by (rule hd_in_set)
      with False show ?thesis by auto
    qed
    with False Cons show ?thesis by auto
  qed simp
qed simp

lemma splice_task_None: "splice_task i ts = None \<longleftrightarrow> i \<notin> task_id ` set ts"
  by (simp add: splice_task_cases)

lemma splice_task_Some:
  assumes "splice_task i ts = Some (r, rs)"
  shows "task_id r = i" and "r \<in> set ts" and "rs = remove1 r ts"
    and "mset ts = add_mset r (mset rs)"
proof -
  have r: "r = hd (filter (\<lambda>t. task_id t = i) ts)" and rs: "rs = remove1 r ts"
    and i: "i \<in> task_id ` set ts"
    using assms by (auto simp: splice_task_cases split: if_splits)
  have "filter (\<lambda>t. task_id t = i) ts \<noteq> []" using i by (auto simp: filter_empty_conv)
  then have "r \<in> set (filter (\<lambda>t. task_id t = i) ts)" unfolding r by (rule hd_in_set)
  then show "task_id r = i" "r \<in> set ts" by auto
  show "rs = remove1 r ts" by fact
  then show "mset ts = add_mset r (mset rs)" using \<open>r \<in> set ts\<close> by simp
qed

lemma batch_tasks_simps [simp]:
  "batch_tasks [] = []" "batch_tasks ((k, b) # bs) = tasks b @ batch_tasks bs"
  by (simp_all add: batch_tasks_def)

lemma find_batch_None: "find_batch i bs = None \<longleftrightarrow> i \<notin> task_id ` set (batch_tasks bs)"
proof (induction i bs rule: find_batch.induct)
  case (2 i key batch bs)
  show ?case
  proof (cases "splice_task i (tasks batch)")
    case None
    with 2 splice_task_None [of i "tasks batch"] show ?thesis by (simp add: image_Un)
  next
    case (Some x)
    then have "i \<in> task_id ` set (tasks batch)"
      using splice_task_None [of i "tasks batch"] by simp
    with Some show ?thesis by (cases x) (simp add: image_Un)
  qed
qed simp

lemma find_batch_Some:
  "find_batch i bs = Some (key, batch, r, rs) \<Longrightarrow>
     (key, batch) \<in> set bs \<and> splice_task i (tasks batch) = Some (r, rs)"
  by (induction i bs rule: find_batch.induct) (auto split: option.splits)

lemma list_all_remove1: "list_all P xs \<Longrightarrow> list_all P (remove1 x xs)"
  using set_remove1_subset [of x xs] by (auto simp: list_all_iff)

text \<open>Taking one task out of a batch keeps the batches well formed and loses that task only.\<close>

lemma batch_after_removal:
  assumes wf: "wf_batches bs" and fb: "find_batch i bs = Some (key, batch, r, rs)"
    and bs': "bs' = (if rs = [] then AList.delete (batch_category batch) bs
                     else AList.update key
                            (batch\<lparr>tasks := rs, totalSize := totalSize batch - size_nullish r\<rparr>) bs)"
  shows "wf_batches bs'" and "mset (batch_tasks bs) = add_mset r (mset (batch_tasks bs'))"
    and "task_id r = i"
proof -
  have kb: "(key, batch) \<in> set bs" and sp: "splice_task i (tasks batch) = Some (r, rs)"
    using find_batch_Some [OF fb] by auto
  note r = splice_task_Some [OF sp]
  have dist: "distinct (map fst bs)" using wf by (rule wf_batches_distinct)
  have get: "map_of bs key = Some batch" using dist kb by simp
  have wfb: "wf_batch key batch" using wf get by (rule wf_batchesD)
  then have cat: "batch_category batch = key" by (simp add: wf_batch_def)
  have sizes: "size_nullish r + sum_list (map size_nullish rs) = totalSize batch"
    using wfb r sum_list_remove1 [of r "tasks batch" size_nullish] by (simp add: wf_batch_def)
  have "wf_batch key (batch\<lparr>tasks := rs, totalSize := totalSize batch - size_nullish r\<rparr>)"
    if "rs \<noteq> []"
    using wfb that r sizes by (auto simp: wf_batch_def list_all_remove1)
  then show "wf_batches bs'"
    using wf by (auto simp: bs' intro: wf_batches_update wf_batches_delete)
  show "mset (batch_tasks bs) = add_mset r (mset (batch_tasks bs'))"
  proof (cases "rs = []")
    case True
    then have "mset (batch_tasks bs) = mset (batch_tasks bs') + mset (tasks batch)"
      using mset_concat_delete [OF get dist, of tasks] cat by (simp add: bs' batch_tasks_def)
    with True r show ?thesis by simp
  next
    case False
    then have "mset (batch_tasks bs') + mset (tasks batch) = mset (batch_tasks bs) + mset rs"
      using mset_concat_update [OF get dist, of tasks] by (simp add: bs' batch_tasks_def)
    then have "mset (batch_tasks bs') + add_mset r (mset rs) = mset (batch_tasks bs) + mset rs"
      using r(4) by simp
    then show ?thesis by simp
  qed
  show "task_id r = i" using r by simp
qed

lemma removeTaskFromQueues_miss:
  assumes "i \<notin> task_id ` set (waiting s)"
  shows "removeTaskFromQueues i s = (False, s)"
proof -
  have "splice_task i (highPriorityQueue s) = None" "splice_task i (normalPriorityQueue s) = None"
    "splice_task i (lowPriorityQueue s) = None" "find_batch i (batchQueues s) = None"
    using assms
    by (simp_all add: splice_task_None find_batch_None waiting_def queued_tasks_def image_Un)
  then show ?thesis by (simp add: removeTaskFromQueues_def)
qed

lemma removeTaskFromQueues_found:
  assumes "i \<in> task_id ` set (waiting s)"
  shows "fst (removeTaskFromQueues i s)"
proof (rule ccontr)
  assume "\<not> ?thesis"
  then have "splice_task i (highPriorityQueue s) = None" "splice_task i (normalPriorityQueue s) = None"
    "splice_task i (lowPriorityQueue s) = None" "find_batch i (batchQueues s) = None"
    by (auto simp: removeTaskFromQueues_def split: option.splits)
  then show False
    using assms
    by (simp add: splice_task_None find_batch_None waiting_def queued_tasks_def image_Un)
qed

lemma removeTaskFromQueues_hit:
  assumes "wf_queues s" and "removeTaskFromQueues i s = (True, s')"
  shows "\<exists>r. task_id r = i \<and> mset (waiting s) = add_mset r (mset (waiting s')) \<and> wf_queues s'"
proof -
  consider
      (high) r rs where "splice_task i (highPriorityQueue s) = Some (r, rs)"
                        "s' = s\<lparr>highPriorityQueue := rs\<rparr>"
    | (normal) r rs where "splice_task i (normalPriorityQueue s) = Some (r, rs)"
                        "s' = s\<lparr>normalPriorityQueue := rs\<rparr>"
    | (low) r rs where "splice_task i (lowPriorityQueue s) = Some (r, rs)"
                        "s' = s\<lparr>lowPriorityQueue := rs\<rparr>"
    | (batch) key batch r rs where "find_batch i (batchQueues s) = Some (key, batch, r, rs)"
        "s' = s\<lparr>batchQueues := (if rs = [] then AList.delete (batch_category batch) (batchQueues s)
                else AList.update key
                  (batch\<lparr>tasks := rs, totalSize := totalSize batch - size_nullish r\<rparr>)
                  (batchQueues s))\<rparr>"
    using assms(2) by (auto simp: removeTaskFromQueues_def split: option.splits prod.splits)
  then show ?thesis
  proof cases
    case high
    with assms(1) splice_task_Some [OF high(1)] show ?thesis
      by (intro exI [of _ r])
         (simp add: waiting_def queued_tasks_def wf_queues_def wf_levels_def list_all_remove1)
  next
    case normal
    with assms(1) splice_task_Some [OF normal(1)] show ?thesis
      by (intro exI [of _ r])
         (simp add: waiting_def queued_tasks_def wf_queues_def wf_levels_def list_all_remove1)
  next
    case low
    with assms(1) splice_task_Some [OF low(1)] show ?thesis
      by (intro exI [of _ r])
         (simp add: waiting_def queued_tasks_def wf_queues_def wf_levels_def list_all_remove1)
  next
    case batch
    with assms(1) batch_after_removal [OF _ batch(1) refl] show ?thesis
      by (intro exI [of _ r])
         (auto simp: waiting_def queued_tasks_def wf_queues_def wf_levels_def)
  qed
qed

lemma removeTaskFromQueues_frame [frame]:
  "activeRequests (snd (removeTaskFromQueues i s)) = activeRequests s"
  "taskIdCounter (snd (removeTaskFromQueues i s)) = taskIdCounter s"
  "isProcessingQueue (snd (removeTaskFromQueues i s)) = isProcessingQueue s"
  "processSignalPending (snd (removeTaskFromQueues i s)) = processSignalPending s"
  by (auto simp: removeTaskFromQueues_def split: option.splits prod.splits)

end
