(* ===== verification/BatchService.thy ===== *)
theory BatchService
  imports QueueState
begin

text \<open>
  Batching of small low-priority tasks (\<open>src/queue/batch.service.ts\<close>). An operation takes the
  \<open>batchQueues\<close> map and returns the new one. What the source does through a callback or
  \<open>setImmediate\<close> is a returned value (\<open>addTaskToBatch\<close>: whether to schedule the batch,
  \<open>processBatch\<close>: the tasks that start) or a function argument (\<open>processAgedBatches\<close>).
\<close>

section \<open>Constants\<close>

definition BATCH_SIZE_THRESHOLD :: nat where "BATCH_SIZE_THRESHOLD = 10"
definition BATCH_MAX_AGE_MS :: int where "BATCH_MAX_AGE_MS = 1500"
definition BATCH_MAX_SIZE :: int where "BATCH_MAX_SIZE = 150"
definition BATCH_ELIGIBLE_SIZE_MAX :: int where "BATCH_ELIGIBLE_SIZE_MAX = 3"

lemmas batch_constants = BATCH_SIZE_THRESHOLD_def BATCH_MAX_AGE_MS_def BATCH_MAX_SIZE_def
  BATCH_ELIGIBLE_SIZE_MAX_def

section \<open>Operations\<close>

definition shouldAddToBatch :: "QueueTask \<Rightarrow> batches \<Rightarrow> bool" where
  "shouldAddToBatch task bs =
     (if priority task \<ge> 5 then False
      else if category_or_empty task = [] then False
      else if map_of bs (category_or_empty task) \<noteq> None then True
      else size_nullish task \<le> BATCH_ELIGIBLE_SIZE_MAX)"

definition addTaskToBatch :: "int \<Rightarrow> QueueTask \<Rightarrow> batches \<Rightarrow> batches \<times> bool" where
  "addTaskToBatch now task bs =
     (let k = category_or_empty task;
          batch0 = (case map_of bs k of
                      Some b \<Rightarrow> b
                    | None \<Rightarrow> \<lparr>tasks = [], batch_category = k, totalSize = 0, createdAt = now\<rparr>);
          batch = batch0\<lparr>tasks := tasks batch0 @ [task], totalSize := totalSize batch0 + size_or task\<rparr>
      in (AList.update k batch bs,
          length (tasks batch) \<ge> BATCH_SIZE_THRESHOLD \<or> totalSize batch \<ge> BATCH_MAX_SIZE))"

text \<open>The loop over \<open>batchQueues.entries()\<close> that calls back for some of the batches: it runs
  over the live map, so an entry deleted by an earlier callback is not visited.\<close>

fun visit_batches ::
  "('s \<Rightarrow> batches) \<Rightarrow> (TaskBatch \<Rightarrow> bool) \<Rightarrow> (string \<Rightarrow> 's \<Rightarrow> 's) \<Rightarrow> string list \<Rightarrow> 's \<Rightarrow> 's" where
  "visit_batches get_batches p callback [] s = s"
| "visit_batches get_batches p callback (k # ks) s =
     visit_batches get_batches p callback ks
       (case map_of (get_batches s) k of
          None \<Rightarrow> s
        | Some b \<Rightarrow> if p b then callback k s else s)"

definition processAgedBatches ::
  "int \<Rightarrow> ('s \<Rightarrow> batches) \<Rightarrow> (string \<Rightarrow> 's \<Rightarrow> 's) \<Rightarrow> 's \<Rightarrow> 's" where
  "processAgedBatches now get_batches callback s =
     visit_batches get_batches (\<lambda>b. now - createdAt b \<ge> BATCH_MAX_AGE_MS) callback
       (map fst (get_batches s)) s"

text \<open>The part of \<open>processBatch\<close> that runs before the promises: \<open>None\<close> when it returns early,
  and otherwise the tasks handed to \<open>Promise.all\<close>.\<close>

definition processBatch ::
  "int \<Rightarrow> string \<Rightarrow> batches \<Rightarrow> int \<Rightarrow> int \<Rightarrow> batches \<times> QueueTask list option" where
  "processBatch now cat bs active maxConcurrent =
     (case map_of bs cat of
        None \<Rightarrow> (AList.delete cat bs, None)
      | Some batch \<Rightarrow>
          if tasks batch = [] then (AList.delete cat bs, None)
          else
            let availableSlots = maxConcurrent - active in
            if availableSlots \<le> 0 then (bs, None)
            else
              let dispatchCount = min (int (length (tasks batch))) availableSlots in
              if dispatchCount \<le> 0 then (bs, None)
              else
                let tasksToProcess = take (nat dispatchCount) (tasks batch);
                    rest = drop (nat dispatchCount) (tasks batch);
                    processedBatchSize = fold (\<lambda>t total. total + size_nullish t) tasksToProcess 0;
                    batch' = batch\<lparr>tasks := rest,
                                   totalSize := max 0 (totalSize batch - processedBatchSize)\<rparr>
                in (if rest = [] then AList.delete cat bs
                    else AList.update cat (batch'\<lparr>createdAt := now\<rparr>) bs,
                    Some tasksToProcess))"

section \<open>Facts\<close>

lemma fold_sum: "fold (\<lambda>x total. total + f x) xs (a :: int) = a + sum_list (map f xs)"
  by (induction xs arbitrary: a) auto

lemma sum_size_nonneg:
  "list_all positive_size ts \<Longrightarrow> 0 \<le> sum_list (map size_nullish ts)"
  by (induction ts) (auto dest: size_nullish_pos)

lemma addTaskToBatch_wf:
  assumes "wf_batches bs" and "shouldAddToBatch t bs" and "positive_size t"
  shows "wf_batches (fst (addTaskToBatch now t bs))"
proof -
  obtain k where k: "category t = Some k" "k \<noteq> []" "category_or_empty t = k"
    using assms(2) by (auto simp: shouldAddToBatch_def category_or_empty_def split: if_splits option.splits)
  have "priority t < 5" using assms(2) by (auto simp: shouldAddToBatch_def split: if_splits)
  show ?thesis
  proof (cases "map_of bs k")
    case None
    with k assms \<open>priority t < 5\<close> show ?thesis
      by (simp add: addTaskToBatch_def Let_def wf_batches_update wf_batch_def size_or_nullish)
  next
    case (Some b)
    have "wf_batch k b" using assms(1) Some by (rule wf_batchesD)
    with Some k assms \<open>priority t < 5\<close> show ?thesis
      by (simp add: addTaskToBatch_def Let_def wf_batches_update wf_batch_def size_or_nullish)
  qed
qed

lemma addTaskToBatch_tasks [task_move]:
  assumes "wf_batches bs"
  shows "mset (batch_tasks (fst (addTaskToBatch now t bs))) = add_mset t (mset (batch_tasks bs))"
proof (cases "map_of bs (category_or_empty t)")
  case None
  then show ?thesis
    by (simp add: addTaskToBatch_def Let_def batch_tasks_def concat_update_absent)
next
  case (Some b)
  let ?b = "b\<lparr>tasks := tasks b @ [t], totalSize := totalSize b + size_or t\<rparr>"
  have "mset (batch_tasks (AList.update (category_or_empty t) ?b bs)) + mset (tasks b) =
        mset (batch_tasks bs) + mset (tasks ?b)"
    using mset_concat_update [OF Some wf_batches_distinct [OF assms], of tasks ?b]
    by (simp add: batch_tasks_def)
  with Some show ?thesis by (simp add: addTaskToBatch_def Let_def)
qed

lemma visit_batches_keeps:
  assumes "good s" and "\<And>k s. good s \<Longrightarrow> good (callback k s)"
  shows "good (visit_batches get_batches p callback ks s)"
  using assms(1)
  by (induction ks arbitrary: s) (auto split: option.splits intro: assms(2))

text \<open>What starts is a non-empty prefix of the batch that fits into the free slots; the rest
  stays batched, in order, and nothing else moves.\<close>

lemma processBatch_dispatch:
  assumes wf: "wf_batches bs" and run: "processBatch now cat bs active mx = (bs', Some ds)"
  obtains b where "map_of bs cat = Some b" "ds = take (nat (mx - active)) (tasks b)" "ds \<noteq> []"
    "int (length ds) \<le> mx - active" "wf_batches bs'"
    "mset (batch_tasks bs) = mset ds + mset (batch_tasks bs')"
proof -
  obtain b where b: "map_of bs cat = Some b" and ne: "tasks b \<noteq> []" and slots: "0 < mx - active"
    and ds: "ds = take (nat (min (int (length (tasks b))) (mx - active))) (tasks b)"
    using run by (auto simp: processBatch_def Let_def split: option.splits if_splits)
  define n where "n = nat (min (int (length (tasks b))) (mx - active))"
  define rest where "rest = drop n (tasks b)"
  define b' where "b' = b\<lparr>tasks := rest, totalSize := max 0 (totalSize b - sum_list (map size_nullish ds)),
    createdAt := now\<rparr>"
  have bs': "bs' = (if rest = [] then AList.delete cat bs else AList.update cat b' bs)"
    using run b ne slots
    by (auto simp: processBatch_def Let_def fold_sum n_def rest_def b'_def ds split: if_splits)
  have td: "tasks b = ds @ rest" by (simp add: ds n_def rest_def)
  have wfb: "wf_batch cat b" using wf b by (rule wf_batchesD)
  have dist: "distinct (map fst bs)" using wf by (rule wf_batches_distinct)
  have n: "0 < n" "n \<le> length (tasks b)" "int n \<le> mx - active"
    using ne slots by (auto simp: n_def)
  have "ds = take n (tasks b)" by (simp add: ds n_def)
  also have "\<dots> = take (nat (mx - active)) (tasks b)"
    by (cases "int (length (tasks b)) \<le> mx - active") (auto simp: n_def min_def)
  finally have ds': "ds = take (nat (mx - active)) (tasks b)" .
  have len: "length ds = n" using n by (simp add: ds flip: n_def)
  have "rest \<noteq> [] \<Longrightarrow> wf_batch cat b'"
    using wfb td sum_size_nonneg [of rest] by (auto simp: wf_batch_def b'_def list_all_iff)
  then have wf': "wf_batches bs'"
    using wf by (auto simp: bs' intro: wf_batches_update wf_batches_delete)
  have ms: "mset (batch_tasks bs) = mset ds + mset (batch_tasks bs')"
  proof (cases "rest = []")
    case True
    then show ?thesis
      using mset_concat_delete [OF b dist, of tasks] td
      by (simp add: bs' batch_tasks_def add.commute)
  next
    case False
    have "mset (batch_tasks (AList.update cat b' bs)) + mset (tasks b) =
          mset (batch_tasks bs) + mset rest"
      using mset_concat_update [OF b dist, of tasks b'] by (simp add: batch_tasks_def b'_def)
    then have "mset (batch_tasks (AList.update cat b' bs)) + mset ds + mset rest =
          mset (batch_tasks bs) + mset rest"
      by (simp add: td add.assoc)
    with False show ?thesis by (simp add: bs' add.commute)
  qed
  have "ds \<noteq> []" using len n(1) by auto
  moreover have "int (length ds) \<le> mx - active" using len n(3) by simp
  ultimately show ?thesis using that b ds' wf' ms by blast
qed

lemma processBatch_idle:
  assumes "wf_batches bs" and "processBatch now cat bs active mx = (bs', None)"
  shows "bs' = bs"
  using assms
  by (auto simp: processBatch_def Let_def delete_absent_map_of wf_batch_def
      dest!: wf_batchesD split: option.splits if_splits)

text \<open>Dispatching a batch with a free slot starts its oldest tasks, as many as there are free
  slots. What is left stays in the batch in order, with its total size recomputed and its age
  restarted, or the batch is removed when nothing is left; no other batch changes, and the result is
  well formed again.\<close>

theorem batch_dispatch_takes_prefix:
  assumes "wf_batches bs" and "map_of bs cat = Some b" and "active < maxConcurrent"
    and "processBatch now cat bs active maxConcurrent = (bs', started)"
  shows "started = Some (take (nat (maxConcurrent - active)) (tasks b)) \<and> wf_batches bs' \<and>
         map_of bs' = (map_of bs)(cat :=
           (let rest = drop (nat (maxConcurrent - active)) (tasks b) in
            if rest = [] then None
            else Some (b\<lparr>tasks := rest, totalSize := sum_list (map size_nullish rest), createdAt := now\<rparr>)))"
proof -
  have wfb: "wf_batch cat b" using assms(1,2) by (rule wf_batchesD)
  then have ne: "tasks b \<noteq> []" by (simp add: wf_batch_def)
  define n where "n = nat (maxConcurrent - active)"
  define k where "k = nat (min (int (length (tasks b))) (maxConcurrent - active))"
  have k: "take k (tasks b) = take n (tasks b)" "drop k (tasks b) = drop n (tasks b)"
    by (cases "int (length (tasks b)) \<le> maxConcurrent - active"; simp add: k_def n_def min_def)+
  have sizes: "totalSize b = sum_list (map size_nullish (take n (tasks b))) + sum_list (map size_nullish (drop n (tasks b)))"
    using wfb by (simp add: wf_batch_def flip: sum_list_append map_append)
  have pos: "list_all positive_size (drop n (tasks b))"
    using wfb by (auto simp: wf_batch_def list_all_iff dest: in_set_dropD)
  have "\<not> min (int (length (tasks b))) (maxConcurrent - active) \<le> 0"
    using assms(3) ne by (cases "tasks b") auto
  then have run: "processBatch now cat bs active maxConcurrent =
      (if drop n (tasks b) = [] then AList.delete cat bs
       else AList.update cat (b\<lparr>tasks := drop n (tasks b),
          totalSize := sum_list (map size_nullish (drop n (tasks b))), createdAt := now\<rparr>) bs,
       Some (take n (tasks b)))"
    using assms(2,3) ne k sizes sum_size_nonneg [OF pos]
    by (simp add: processBatch_def Let_def fold_sum flip: k_def)
  then have st: "started = Some (take n (tasks b))" using assms(4) by simp
  then have "wf_batches bs'"
    using processBatch_dispatch [OF assms(1)] assms(4) by metis
  moreover have "map_of bs' = (map_of bs)(cat := (let rest = drop n (tasks b) in if rest = [] then None
      else Some (b\<lparr>tasks := rest, totalSize := sum_list (map size_nullish rest), createdAt := now\<rparr>)))"
    using run assms(4) by (auto simp: Let_def AList.delete_conv' AList.update_conv')
  ultimately show ?thesis using st by (simp add: n_def)
qed

theorem batch_dispatch_takes_prefix_witness:
  "let t = (\<lambda>i. \<lparr>task_id = i, requestId = Undefined, timestamp = 0, priority = 0, category = Some ''c'',
                 task_size = Some 2, workloadType = None, params = None, functionCode = None,
                 task_timeout = None\<rparr>);
       bs = [(''c'', \<lparr>tasks = [t 1, t 2], batch_category = ''c'', totalSize = 4, createdAt = 0\<rparr>)]
   in snd (processBatch 7 ''c'' bs 0 1) = Some [t 1] \<and> wf_batches (fst (processBatch 7 ''c'' bs 0 1))"
proof -
  define t where "t = (\<lambda>i. \<lparr>task_id = i, requestId = Undefined, timestamp = 0, priority = 0,
    category = Some ''c'', task_size = Some 2, workloadType = None, params = None, functionCode = None,
    task_timeout = None\<rparr>)"
  define b where "b = \<lparr>tasks = [t 1, t 2], batch_category = ''c'', totalSize = 4, createdAt = 0\<rparr>"
  have wf: "wf_batches [(''c'', b)]"
    by (simp add: wf_batches_def wf_batch_def b_def t_def positive_size_def size_nullish_def)
  obtain bs' st where p: "processBatch 7 ''c'' [(''c'', b)] 0 1 = (bs', st)" by fastforce
  have "st = Some [t 1] \<and> wf_batches bs'"
    using batch_dispatch_takes_prefix [OF wf _ _ p] by (simp add: b_def)
  then show ?thesis using p unfolding Let_def b_def t_def by simp
qed

end
