(* ===== verification/MemoryService.thy ===== *)
theory MemoryService
  imports BatchService
begin

text \<open>
  Reaction to memory pressure (\<open>src/queue/memory.service.ts\<close>). \<open>checkMemoryUsage\<close> takes the
  heap usage it reads from the process and whether a garbage collector is exposed; its two
  callbacks are arguments. \<open>cleanupOldTasks\<close> and \<open>forceReduceQueues\<close> return the tasks they
  reject, in the order of the calls.
\<close>

section \<open>Pressure\<close>

definition HIGH_MEMORY_THRESHOLD :: rat where "HIGH_MEMORY_THRESHOLD = 3/4"
definition CRITICAL_MEMORY_THRESHOLD :: rat where "CRITICAL_MEMORY_THRESHOLD = 9/10"
definition TASK_TIMEOUT_BUFFER_RATIO :: rat where "TASK_TIMEOUT_BUFFER_RATIO = 3/2"
definition FORCE_REDUCE_BATCH_SIZE_THRESHOLD :: int where
  "FORCE_REDUCE_BATCH_SIZE_THRESHOLD = 50"

lemmas memory_constants = HIGH_MEMORY_THRESHOLD_def CRITICAL_MEMORY_THRESHOLD_def
  TASK_TIMEOUT_BUFFER_RATIO_def FORCE_REDUCE_BATCH_SIZE_THRESHOLD_def

text \<open>The new pressure flag and the state after the callbacks. The flag is written before the
  callbacks run; they do not read it.\<close>

definition checkMemoryUsage ::
  "bool \<Rightarrow> rat \<Rightarrow> ('s \<Rightarrow> 's) \<Rightarrow> ('s \<Rightarrow> 's) \<Rightarrow> 's \<Rightarrow> bool \<times> 's" where
  "checkMemoryUsage gc usageRatio cleanupCallback forceReduceCallback s =
     (let pressure = (usageRatio > HIGH_MEMORY_THRESHOLD) in
      (pressure,
       if pressure then
         let s1 = cleanupCallback s in
         if usageRatio > CRITICAL_MEMORY_THRESHOLD \<and> gc then forceReduceCallback s1 else s1
       else s))"

section \<open>Shedding load\<close>

text \<open>The loop that pops \<open>removeCount\<close> tasks off the end of the low-priority queue.\<close>

fun pop_loop :: "nat \<Rightarrow> QueueTask list \<Rightarrow> QueueTask list \<Rightarrow> QueueTask list \<times> QueueTask list" where
  "pop_loop 0 low rejected = (low, rejected)"
| "pop_loop (Suc i) low rejected =
     (case rev low of
        [] \<Rightarrow> pop_loop i low rejected
      | t # ts \<Rightarrow> pop_loop i (rev ts) (rejected @ [t]))"

text \<open>\<open>write_back low rejected\<close> stores the shortened queue and rejects the popped tasks.\<close>

definition forceReduceQueues ::
  "('s \<Rightarrow> QueueTask list) \<Rightarrow> (QueueTask list \<Rightarrow> QueueTask list \<Rightarrow> 's \<Rightarrow> 's) \<Rightarrow>
   ('s \<Rightarrow> batches) \<Rightarrow> (string \<Rightarrow> 's \<Rightarrow> 's) \<Rightarrow> 's \<Rightarrow> nat \<times> 's" where
  "forceReduceQueues get_low write_back get_batches processBatchCallback s =
     (let low = get_low s;
          (low', rejected) = pop_loop (length low div 2) low [];
          s1 = write_back low' rejected s
      in (length rejected,
          visit_batches get_batches (\<lambda>b. totalSize b > FORCE_REDUCE_BATCH_SIZE_THRESHOLD)
            processBatchCallback (map fst (get_batches s1)) s1))"

text \<open>The loop of \<open>cleanupQueue\<close>: an index that runs from the end to 0, removing in place.\<close>

definition too_old :: "int \<Rightarrow> rat \<Rightarrow> int \<Rightarrow> bool" where
  "too_old now maxAge since = (of_int (now - since) > maxAge)"

fun cleanupQueue ::
  "int \<Rightarrow> rat \<Rightarrow> nat \<Rightarrow> QueueTask list \<Rightarrow> QueueTask list \<Rightarrow> QueueTask list \<times> QueueTask list" where
  "cleanupQueue now maxAge 0 queue rejected = (queue, rejected)"
| "cleanupQueue now maxAge (Suc i) queue rejected =
     (if too_old now maxAge (timestamp (queue ! i))
      then cleanupQueue now maxAge i (take i queue @ drop (Suc i) queue) (rejected @ [queue ! i])
      else cleanupQueue now maxAge i queue rejected)"

fun cleanupBatches ::
  "int \<Rightarrow> rat \<Rightarrow> batches \<Rightarrow> batches \<Rightarrow> QueueTask list \<Rightarrow> batches \<times> QueueTask list" where
  "cleanupBatches now maxAge [] bs rejected = (bs, rejected)"
| "cleanupBatches now maxAge ((k, batch) # entries) bs rejected =
     (if too_old now maxAge (createdAt batch)
      then cleanupBatches now maxAge entries (AList.delete k bs) (rejected @ tasks batch)
      else cleanupBatches now maxAge entries bs rejected)"

record CleanupResult =
  kept_high :: "QueueTask list"
  kept_normal :: "QueueTask list"
  kept_low :: "QueueTask list"
  kept_batches :: batches
  cleaned :: "(QueueTask \<times> queue_error) list"

definition cleanupOldTasks ::
  "int \<Rightarrow> int \<Rightarrow> QueueTask list \<Rightarrow> QueueTask list \<Rightarrow> QueueTask list \<Rightarrow> batches \<Rightarrow> CleanupResult" where
  "cleanupOldTasks now timeoutMs high normal low bs =
     (let maxAge = of_int timeoutMs * TASK_TIMEOUT_BUFFER_RATIO;
          (high', r1) = cleanupQueue now maxAge (length high) high [];
          (normal', r2) = cleanupQueue now maxAge (length normal) normal [];
          (low', r3) = cleanupQueue now maxAge (length low) low [];
          (bs', r4) = cleanupBatches now maxAge bs bs []
      in \<lparr>kept_high = high', kept_normal = normal', kept_low = low', kept_batches = bs',
          cleaned = map (\<lambda>t. (t, ProcessingDelayed)) (r1 @ r2 @ r3) @
                    map (\<lambda>t. (t, BatchTimeout)) r4\<rparr>)"

section \<open>The loops and what they compute\<close>

lemma pop_loop_eq:
  "n \<le> length low \<Longrightarrow>
   pop_loop n low rejected = (take (length low - n) low, rejected @ take n (rev low))"
proof (induction n arbitrary: low rejected)
  case (Suc n)
  obtain t ts where ts: "rev low = t # ts"
    using Suc.prems by (cases "rev low") auto
  then have low: "low = rev ts @ [t]" by (simp add: rev_swap)
  have "n \<le> length (rev ts)" using Suc.prems low by simp
  from Suc.IH [OF this] show ?case by (simp add: low)
qed simp

lemma cleanupQueue_eq:
  "i \<le> length queue \<Longrightarrow>
   cleanupQueue now maxAge i queue rejected =
     (filter (\<lambda>t. \<not> too_old now maxAge (timestamp t)) (take i queue) @ drop i queue,
      rejected @ rev (filter (\<lambda>t. too_old now maxAge (timestamp t)) (take i queue)))"
proof (induction i arbitrary: queue rejected)
  case (Suc i)
  then have i: "i < length queue" by simp
  let ?q = "take i queue @ drop (Suc i) queue"
  have "take i ?q = take i queue" "drop i ?q = drop (Suc i) queue" "i \<le> length ?q"
    using i by auto
  moreover have "drop i queue = queue ! i # drop (Suc i) queue"
    using i by (rule Cons_nth_drop_Suc [symmetric])
  ultimately show ?case
    using Suc.IH [of ?q] Suc.IH [of queue] i by (simp add: take_Suc_conv_app_nth)
qed simp

lemma cleanupBatches_eq:
  assumes "distinct (map fst entries)"
  shows "cleanupBatches now maxAge entries bs rejected =
     (filter (\<lambda>(k, _). k \<notin> fst ` set (filter (\<lambda>(_, b). too_old now maxAge (createdAt b)) entries)) bs,
      rejected @ batch_tasks (filter (\<lambda>(_, b). too_old now maxAge (createdAt b)) entries))"
  using assms
proof (induction now maxAge entries bs rejected rule: cleanupBatches.induct)
  case (2 now maxAge k batch entries bs rejected)
  show ?case
  proof (cases "too_old now maxAge (createdAt batch)")
    case True
    have "AList.delete k bs = filter (\<lambda>(k', _). k \<noteq> k') bs" by (rule AList.delete_eq [THEN fun_cong])
    with 2 True show ?thesis
      by (auto simp: case_prod_beta intro!: filter_cong)
  next
    case False
    with 2 show ?thesis by simp
  qed
qed simp

lemma filter_by_key:
  assumes "distinct (map fst bs)"
  shows "filter (\<lambda>(k, _). k \<notin> fst ` set (filter (\<lambda>(_, b). p b) bs)) bs = filter (\<lambda>(_, b). \<not> p b) bs"
proof (rule filter_cong)
  fix x assume "x \<in> set bs"
  then show "(case x of (k, _) \<Rightarrow> k \<notin> fst ` set (filter (\<lambda>(_, b). p b) bs)) =
      (case x of (_, b) \<Rightarrow> \<not> p b)"
    using assms by (cases x) (auto simp: image_iff dest: eq_key_imp_eq_value)
qed simp

lemma cleanupOldTasks_eq:
  fixes now timeoutMs high normal low bs
  defines "old \<equiv> too_old now (of_int timeoutMs * TASK_TIMEOUT_BUFFER_RATIO)"
  assumes "distinct (map fst bs)"
  shows "cleanupOldTasks now timeoutMs high normal low bs =
    \<lparr>kept_high = filter (\<lambda>t. \<not> old (timestamp t)) high,
     kept_normal = filter (\<lambda>t. \<not> old (timestamp t)) normal,
     kept_low = filter (\<lambda>t. \<not> old (timestamp t)) low,
     kept_batches = filter (\<lambda>(_, b). \<not> old (createdAt b)) bs,
     cleaned =
       map (\<lambda>t. (t, ProcessingDelayed))
         (rev (filter (\<lambda>t. old (timestamp t)) high) @ rev (filter (\<lambda>t. old (timestamp t)) normal) @
          rev (filter (\<lambda>t. old (timestamp t)) low)) @
       map (\<lambda>t. (t, BatchTimeout)) (batch_tasks (filter (\<lambda>(_, b). old (createdAt b)) bs))\<rparr>"
  using assms(2)
  using filter_by_key [OF assms(2), of "\<lambda>b. old (createdAt b)"]
  by (simp add: cleanupOldTasks_def Let_def cleanupQueue_eq cleanupBatches_eq old_def)

lemma mset_batch_tasks_partition:
  "mset (batch_tasks bs) =
   mset (batch_tasks (filter (\<lambda>(_, b). p b) bs)) + mset (batch_tasks (filter (\<lambda>(_, b). \<not> p b) bs))"
  by (induction bs) auto

text \<open>Cleaning up keeps the batches well formed and splits the waiting tasks into kept and
  rejected ones.\<close>

lemma mset_filter_partition: "mset (filter p xs) + mset (filter (\<lambda>x. \<not> p x) xs) = mset xs"
  by (induction xs) auto

lemma add_pairs:
  "a1 + b1 = c1 \<Longrightarrow> a2 + b2 = c2 \<Longrightarrow> a3 + b3 = c3 \<Longrightarrow> a4 + b4 = c4 \<Longrightarrow>
   a1 + a2 + a3 + a4 + (b1 + b2 + b3 + b4) = c1 + c2 + c3 + (c4 :: 'a multiset)"
  by (auto simp: ac_simps)

lemma cleanupOldTasks_partition:
  assumes "wf_batches bs" and r: "r = cleanupOldTasks now timeoutMs high normal low bs"
  shows "mset (map fst (cleaned r)) +
           (mset (kept_high r) + mset (kept_normal r) + mset (kept_low r) +
            mset (batch_tasks (kept_batches r))) =
         mset high + mset normal + mset low + mset (batch_tasks bs)"
proof -
  define old where "old = too_old now (of_int timeoutMs * TASK_TIMEOUT_BUFFER_RATIO)"
  have part: "mset (filter (\<lambda>t. old (timestamp t)) q) + mset (filter (\<lambda>t. \<not> old (timestamp t)) q) = mset q"
    for q by (rule mset_filter_partition)
  have bpart: "mset (batch_tasks (filter (\<lambda>(_, b). old (createdAt b)) bs)) +
      mset (batch_tasks (filter (\<lambda>(_, b). \<not> old (createdAt b)) bs)) = mset (batch_tasks bs)"
    by (rule mset_batch_tasks_partition [symmetric])
  have "r = cleanupOldTasks now timeoutMs high normal low bs" by fact
  note r' = this [unfolded cleanupOldTasks_eq [OF wf_batches_distinct [OF assms(1)]], folded old_def]
  have "mset (map fst (cleaned r)) =
      mset (filter (\<lambda>t. old (timestamp t)) high) + mset (filter (\<lambda>t. old (timestamp t)) normal) +
      mset (filter (\<lambda>t. old (timestamp t)) low) +
      mset (batch_tasks (filter (\<lambda>(_, b). old (createdAt b)) bs))"
    by (simp add: r' comp_def)
  moreover have "kept_high r = filter (\<lambda>t. \<not> old (timestamp t)) high"
    "kept_normal r = filter (\<lambda>t. \<not> old (timestamp t)) normal"
    "kept_low r = filter (\<lambda>t. \<not> old (timestamp t)) low"
    "kept_batches r = filter (\<lambda>(_, b). \<not> old (createdAt b)) bs"
    by (simp_all add: r')
  ultimately show ?thesis
    by (simp only: add_pairs [OF part part part bpart])
qed

lemma cleanupOldTasks_wf:
  assumes "wf_batches bs" and "r = cleanupOldTasks now timeoutMs high normal low bs"
  shows "wf_batches (kept_batches r)"
  using assms(1) cleanupOldTasks_eq [OF wf_batches_distinct [OF assms(1)], of now timeoutMs high normal low]
  by (auto simp: assms(2) wf_batches_def list_all_iff intro: distinct_map_filter)

text \<open>Shedding load, loop by loop. The cleanup removes from each queue exactly the tasks older
  than one and a half times the wait timeout, and each batch that old with all its tasks; what it
  keeps stays in order, and every removed task is rejected once, the queued ones as delayed and the
  batched ones as batch timeouts. The forced reduction drops the newest half (rounded down) of the
  low-priority queue.\<close>

theorem shedding_is_exact:
  assumes "distinct (map fst bs)"
    and "old = (\<lambda>since. of_int (now - since) > (of_int timeoutMs * TASK_TIMEOUT_BUFFER_RATIO :: rat))"
  shows "cleanupOldTasks now timeoutMs high normal low bs =
    \<lparr>kept_high = filter (\<lambda>t. \<not> old (timestamp t)) high,
     kept_normal = filter (\<lambda>t. \<not> old (timestamp t)) normal,
     kept_low = filter (\<lambda>t. \<not> old (timestamp t)) low,
     kept_batches = filter (\<lambda>(_, b). \<not> old (createdAt b)) bs,
     cleaned =
       map (\<lambda>t. (t, ProcessingDelayed))
         (rev (filter (\<lambda>t. old (timestamp t)) high) @ rev (filter (\<lambda>t. old (timestamp t)) normal) @
          rev (filter (\<lambda>t. old (timestamp t)) low)) @
       map (\<lambda>t. (t, BatchTimeout)) (batch_tasks (filter (\<lambda>(_, b). old (createdAt b)) bs))\<rparr> \<and>
    pop_loop (length low div 2) low [] =
      (take (length low - length low div 2) low, rev (drop (length low - length low div 2) low))"
  using cleanupOldTasks_eq [OF assms(1), of now timeoutMs high normal low]
    pop_loop_eq [of "length low div 2" low "[]"]
  by (simp add: assms(2) too_old_def rev_drop)

theorem shedding_is_exact_witness:
  "let t = (\<lambda>i since. \<lparr>task_id = i, requestId = Undefined, timestamp = since, priority = 0,
              category = None, task_size = None, workloadType = None, params = None,
              functionCode = None, task_timeout = None\<rparr>);
       r = cleanupOldTasks 100 10 [t 1 0, t 2 90] [] [] []
   in kept_high r = [t 2 90] \<and> cleaned r = [(t 1 0, ProcessingDelayed)]"
proof -
  define t where "t = (\<lambda>i since. \<lparr>task_id = i, requestId = Undefined, timestamp = since, priority = 0,
    category = None, task_size = None, workloadType = None, params = None, functionCode = None,
    task_timeout = None\<rparr>)"
  have "cleanupOldTasks 100 10 [t 1 0, t 2 90] [] [] [] =
      \<lparr>kept_high = [t 2 90], kept_normal = [], kept_low = [], kept_batches = [],
       cleaned = [(t 1 0, ProcessingDelayed)]\<rparr>"
    using shedding_is_exact [where bs = "[]" and now = 100 and timeoutMs = 10 and high = "[t 1 0, t 2 90]"
        and normal = "[]" and low = "[]", OF _ refl]
    by (simp add: TASK_TIMEOUT_BUFFER_RATIO_def) (simp add: t_def)
  then show ?thesis unfolding Let_def t_def by simp
qed

end
