(* ===== verification/Env.thy ===== *)
theory Env
  imports JsValue
begin

text \<open>
  Configuration from environment variables: the readers of \<open>src/queue/utils/env.ts\<close> and the
  start-up validation of \<open>src/config/env.validation.ts\<close>. The environment is a map from names to
  strings, as \<open>process.env\<close> is, so the validation's \<open>typeof ... !== 'string'\<close> tests, which
  strings always pass, have no counterpart.
\<close>

type_synonym env = "string \<Rightarrow> string option"

datatype env_error =
    NotNonNegative string string
  | MissingVariable string
  | NotPositive string
  | BadFlag string
  | UnknownEngine
  | NoBrokers

section \<open>Readers\<close>

text \<open>\<open>if (!raw) return fallback\<close>: unset and empty variables are the same.\<close>

definition raw_env :: "env \<Rightarrow> string \<Rightarrow> string option" where
  "raw_env e name = (case e name of None \<Rightarrow> None | Some raw \<Rightarrow> if raw = [] then None else Some raw)"

definition readPositiveIntEnv :: "env \<Rightarrow> string \<Rightarrow> int \<Rightarrow> int" where
  "readPositiveIntEnv e name fallback =
     (case raw_env e name of
        None \<Rightarrow> fallback
      | Some raw \<Rightarrow>
          (case parse_int raw of
             Some parsed \<Rightarrow> if parsed > 0 then parsed else fallback
           | None \<Rightarrow> fallback))"

definition readNonNegativeIntEnv :: "env \<Rightarrow> string \<Rightarrow> int \<Rightarrow> env_error + int" where
  "readNonNegativeIntEnv e name fallback =
     (case raw_env e name of
        None \<Rightarrow> Inr fallback
      | Some raw \<Rightarrow>
          (case parse_int raw of
             Some parsed \<Rightarrow> if parsed < 0 then Inl (NotNonNegative name raw) else Inr parsed
           | None \<Rightarrow> Inl (NotNonNegative name raw)))"

definition requireEnv :: "env \<Rightarrow> string \<Rightarrow> env_error + string" where
  "requireEnv e name =
     (case e name of
        None \<Rightarrow> Inl (MissingVariable name)
      | Some raw \<Rightarrow> if trim raw = [] then Inl (MissingVariable name) else Inr (trim raw))"

definition requirePositiveIntEnv :: "env \<Rightarrow> string \<Rightarrow> env_error + int" where
  "requirePositiveIntEnv e name =
     (case requireEnv e name of
        Inl err \<Rightarrow> Inl err
      | Inr raw \<Rightarrow>
          (case parse_int raw of
             Some parsed \<Rightarrow> if parsed \<le> 0 then Inl (NotPositive name) else Inr parsed
           | None \<Rightarrow> Inl (NotPositive name)))"

datatype WorkerEngine = NodeEngine | GoEngine | BothEngine | KafkaEngine

fun engine_name :: "WorkerEngine \<Rightarrow> string" where
  "engine_name NodeEngine = ''node''"
| "engine_name GoEngine = ''go''"
| "engine_name BothEngine = ''both''"
| "engine_name KafkaEngine = ''kafka''"

definition WORKER_ENGINES :: "WorkerEngine list" where
  "WORKER_ENGINES = [NodeEngine, GoEngine, BothEngine, KafkaEngine]"

definition DEFAULT_WORKER_ENGINE :: WorkerEngine where
  "DEFAULT_WORKER_ENGINE = NodeEngine"

definition parseWorkerEngine :: "string option \<Rightarrow> WorkerEngine option" where
  "parseWorkerEngine raw =
     (case raw of
        None \<Rightarrow> None
      | Some r \<Rightarrow>
          (let normalized = to_lower (trim r) in
           if normalized = [] then None
           else find (\<lambda>g. engine_name g = normalized) WORKER_ENGINES))"

definition readWorkerEngineEnv :: "env \<Rightarrow> WorkerEngine" where
  "readWorkerEngineEnv e =
     (case parseWorkerEngine (e ''WORKER_ENGINE'') of
        Some g \<Rightarrow> g
      | None \<Rightarrow> DEFAULT_WORKER_ENGINE)"

definition split_brokers :: "string \<Rightarrow> string list" where
  "split_brokers raw = filter (\<lambda>s. s \<noteq> []) (map trim (split_on (CHR '','') raw))"

definition readKafkaBrokersEnv :: "env \<Rightarrow> string \<Rightarrow> string list" where
  "readKafkaBrokersEnv e fallback =
     split_brokers (case e ''KAFKA_BROKERS'' of None \<Rightarrow> fallback | Some raw \<Rightarrow> raw)"

section \<open>Validation\<close>

definition POSITIVE_INT_KEYS :: "string list" where
  "POSITIVE_INT_KEYS =
     [''PORT'', ''UV_THREADPOOL_SIZE'', ''QUEUE_CONCURRENT_TASKS'',
      ''QUEUE_MAX_CONCURRENT_REQUESTS'', ''QUEUE_TASK_TIMEOUT_MS'',
      ''QUEUE_EXECUTION_TIMEOUT_MS'', ''QUEUE_OVERFLOW_THRESHOLD'',
      ''QUEUE_PROCESS_INTERVAL_MS'', ''QUEUE_MEMORY_CHECK_INTERVAL_MS'',
      ''QUEUE_STATS_LOG_INTERVAL_MS'', ''QUEUE_SNAPSHOT_INTERVAL_MS'',
      ''QUEUE_SNAPSHOT_MAX_AGE_MS'', ''WORKER_POOL_SIZE'', ''WORKER_MAX_CPU_CONCURRENCY'',
      ''WORKER_MAX_MEMORY_CONCURRENCY'', ''WORKER_MAX_CUSTOM_CONCURRENCY'']"

definition assertPositiveInt :: "string option \<Rightarrow> string \<Rightarrow> env_error + unit" where
  "assertPositiveInt value key =
     (case value of
        None \<Rightarrow> Inr ()
      | Some v \<Rightarrow>
          if v = [] then Inr ()
          else (case parse_int v of
                  Some parsed \<Rightarrow> if parsed \<le> 0 then Inl (NotPositive key) else Inr ()
                | None \<Rightarrow> Inl (NotPositive key)))"

fun assertAllPositive :: "env \<Rightarrow> string list \<Rightarrow> env_error + unit" where
  "assertAllPositive config [] = Inr ()"
| "assertAllPositive config (key # keys) =
     (case assertPositiveInt (config key) key of
        Inl err \<Rightarrow> Inl err
      | Inr _ \<Rightarrow> assertAllPositive config keys)"

definition assertOneOf :: "env \<Rightarrow> string \<Rightarrow> string list \<Rightarrow> env_error + unit" where
  "assertOneOf config key allowed =
     (case config key of
        None \<Rightarrow> Inr ()
      | Some v \<Rightarrow> if v \<in> set allowed then Inr () else Inl (BadFlag key))"

definition validateWorkerEngine :: "env \<Rightarrow> env_error + unit" where
  "validateWorkerEngine config =
     (let workerEngine = config ''WORKER_ENGINE'';
          workerEngineSet = (case workerEngine of None \<Rightarrow> False | Some raw \<Rightarrow> trim raw \<noteq> [])
      in if workerEngineSet \<and> parseWorkerEngine workerEngine = None then Inl UnknownEngine
         else if workerEngineSet \<and> parseWorkerEngine workerEngine = Some KafkaEngine then
           (case config ''KAFKA_BROKERS'' of
              None \<Rightarrow> Inl NoBrokers
            | Some brokers \<Rightarrow> if split_brokers brokers = [] then Inl NoBrokers else Inr ())
         else Inr ())"

definition validateEnv :: "env \<Rightarrow> env_error + env" where
  "validateEnv config =
     (case assertAllPositive config POSITIVE_INT_KEYS of
        Inl err \<Rightarrow> Inl err
      | Inr _ \<Rightarrow>
     (case assertOneOf config ''DISABLE_WORKERS'' [''true'', ''false''] of
        Inl err \<Rightarrow> Inl err
      | Inr _ \<Rightarrow>
     (case assertOneOf config ''ALLOW_CUSTOM_WORKLOAD'' [''true'', ''false''] of
        Inl err \<Rightarrow> Inl err
      | Inr _ \<Rightarrow>
     (case assertOneOf config ''QUEUE_PERSISTENCE'' [''file'', ''none''] of
        Inl err \<Rightarrow> Inl err
      | Inr _ \<Rightarrow>
     (case validateWorkerEngine config of
        Inl err \<Rightarrow> Inl err
      | Inr _ \<Rightarrow> Inr config)))))"

section \<open>Facts\<close>

lemma readPositiveIntEnv_pos: "0 < fallback \<Longrightarrow> 0 < readPositiveIntEnv e name fallback"
  by (auto simp: readPositiveIntEnv_def split: option.splits)

lemma assertAllPositive_Inr:
  "assertAllPositive config keys = Inr u \<longleftrightarrow>
   (\<forall>key \<in> set keys. assertPositiveInt (config key) key = Inr ())"
  by (induction keys) (auto split: sum.splits)

lemma assertPositiveInt_Inr:
  "assertPositiveInt (config key) key = Inr () \<longleftrightarrow>
   (case raw_env config key of None \<Rightarrow> True | Some raw \<Rightarrow> (\<exists>n > 0. parse_int raw = Some n))"
  by (auto simp: assertPositiveInt_def raw_env_def split: option.splits if_splits)

lemma validateEnv_Inr:
  "validateEnv config = Inr config' \<longleftrightarrow>
     config' = config \<and> assertAllPositive config POSITIVE_INT_KEYS = Inr () \<and>
     assertOneOf config ''DISABLE_WORKERS'' [''true'', ''false''] = Inr () \<and>
     assertOneOf config ''ALLOW_CUSTOM_WORKLOAD'' [''true'', ''false''] = Inr () \<and>
     assertOneOf config ''QUEUE_PERSISTENCE'' [''file'', ''none''] = Inr () \<and>
     validateWorkerEngine config = Inr ()"
  by (auto simp: validateEnv_def split: sum.splits)

lemma parseWorkerEngine_Some:
  "parseWorkerEngine raw = Some g \<Longrightarrow> \<exists>r. raw = Some r \<and> to_lower (trim r) = engine_name g"
  by (auto simp: parseWorkerEngine_def Let_def find_Some_iff split: option.splits if_splits)

lemma validateWorkerEngine_name:
  assumes "validateWorkerEngine config = Inr ()" and "config ''WORKER_ENGINE'' = Some engine"
    and "trim engine \<noteq> []"
  shows "to_lower (trim engine) = engine_name (readWorkerEngineEnv config)"
  using assms parseWorkerEngine_Some [of "Some engine"]
  by (auto simp: validateWorkerEngine_def Let_def readWorkerEngineEnv_def
      split: option.splits if_splits)

lemma validateWorkerEngine_brokers:
  assumes "validateWorkerEngine config = Inr ()" and "readWorkerEngineEnv config = KafkaEngine"
  shows "readKafkaBrokersEnv config fallback \<noteq> []"
proof -
  have p: "parseWorkerEngine (config ''WORKER_ENGINE'') = Some KafkaEngine"
    using assms(2)
    by (auto simp: readWorkerEngineEnv_def DEFAULT_WORKER_ENGINE_def split: option.splits)
  then obtain r where "config ''WORKER_ENGINE'' = Some r" "trim r \<noteq> []"
    by (auto simp: parseWorkerEngine_def Let_def split: option.splits if_splits)
  with assms(1) p show ?thesis
    by (auto simp: validateWorkerEngine_def readKafkaBrokersEnv_def split: option.splits if_splits)
qed

text \<open>C17. A configuration that passes the start-up validation is the one that runs. Every
  positive-integer variable that is set reads back as the number it starts with, whatever the
  reader's default is, so no default replaces a configured value. The worker engine is the
  configured one, and a kafka engine has at least one broker address.\<close>

theorem validated_configuration_is_used:
  assumes valid: "validateEnv config = Inr config'"
  shows "(\<forall>key raw. key \<in> set POSITIVE_INT_KEYS \<and> raw_env config' key = Some raw \<longrightarrow>
            (\<exists>n > 0. parse_int raw = Some n \<and> (\<forall>fallback. readPositiveIntEnv config' key fallback = n))) \<and>
         (\<forall>engine. config' ''WORKER_ENGINE'' = Some engine \<and> trim engine \<noteq> [] \<longrightarrow>
            to_lower (trim engine) = engine_name (readWorkerEngineEnv config')) \<and>
         (\<forall>fallback. readWorkerEngineEnv config' = KafkaEngine \<longrightarrow> readKafkaBrokersEnv config' fallback \<noteq> [])"
proof (intro conjI allI impI; (elim conjE)?)
  have c: "config' = config" and pos: "assertAllPositive config POSITIVE_INT_KEYS = Inr ()"
    and eng: "validateWorkerEngine config = Inr ()"
    using valid by (auto simp: validateEnv_Inr)
  fix key raw
  assume "key \<in> set POSITIVE_INT_KEYS" and raw: "raw_env config' key = Some raw"
  then have "assertPositiveInt (config key) key = Inr ()"
    using pos by (simp add: assertAllPositive_Inr)
  with raw c show "\<exists>n > 0. parse_int raw = Some n \<and>
      (\<forall>fallback. readPositiveIntEnv config' key fallback = n)"
    by (auto simp: assertPositiveInt_Inr readPositiveIntEnv_def)
next
  fix engine
  assume "config' ''WORKER_ENGINE'' = Some engine" and "trim engine \<noteq> []"
  then show "to_lower (trim engine) = engine_name (readWorkerEngineEnv config')"
    using valid by (auto simp: validateEnv_Inr dest: validateWorkerEngine_name)
next
  fix fallback
  assume "readWorkerEngineEnv config' = KafkaEngine"
  then show "readKafkaBrokersEnv config' fallback \<noteq> []"
    using valid by (auto simp: validateEnv_Inr dest: validateWorkerEngine_brokers)
qed

theorem validated_configuration_is_used_witness:
  "let config = [''PORT'' \<mapsto> ''80'', ''WORKER_ENGINE'' \<mapsto> '' Kafka '', ''KAFKA_BROKERS'' \<mapsto> ''b1:9092, b2:9092''] in
   validateEnv config = Inr config \<and> readPositiveIntEnv config ''PORT'' 3000 = 80 \<and>
   readWorkerEngineEnv config = KafkaEngine \<and> readKafkaBrokersEnv config ''localhost:9092'' \<noteq> []"
proof -
  let ?c = "[''PORT'' \<mapsto> ''80'', ''WORKER_ENGINE'' \<mapsto> '' Kafka '', ''KAFKA_BROKERS'' \<mapsto> ''b1:9092, b2:9092'']"
  have "assertAllPositive ?c POSITIVE_INT_KEYS = Inr ()" "validateWorkerEngine ?c = Inr ()"
    by code_simp+
  then have v: "validateEnv ?c = Inr ?c" by (simp add: validateEnv_Inr assertOneOf_def)
  have p: "''PORT'' \<in> set POSITIVE_INT_KEYS \<and> raw_env ?c ''PORT'' = Some ''80''" by code_simp
  have n: "parse_int ''80'' = Some 80" by code_simp
  have k: "readWorkerEngineEnv ?c = KafkaEngine" by code_simp
  note used = validated_configuration_is_used [OF v]
  have "\<exists>n > 0. parse_int ''80'' = Some n \<and> (\<forall>fallback. readPositiveIntEnv ?c ''PORT'' fallback = n)"
    using used p by blast
  then have port: "readPositiveIntEnv ?c ''PORT'' 3000 = 80" using n by simp
  have "readKafkaBrokersEnv ?c ''localhost:9092'' \<noteq> []" using used k by blast
  with port v k show ?thesis unfolding Let_def by blast
qed

end
