(* ===== verification/WorkerRouter.thy ===== *)
theory WorkerRouter
  imports QueueTypes Env
begin

text \<open>
  Which worker task may run next (\<open>src/queue/worker-task-router.service.ts\<close>): the type and
  operation of a task, the per-type concurrency limits, and the scan of the worker queue for the
  first task whose type has a free slot. \<open>dequeueDispatchableTask\<close> returns the tasks it drops
  instead of calling \<open>reject\<close> and \<open>onTaskFailed\<close> on them. The locale \<open>dispatcher\<close> states what
  the worker pool relies on.
\<close>

section \<open>State\<close>

record RouterLimits =
  cpuConcurrencyLimit :: int
  memoryConcurrencyLimit :: int
  customConcurrencyLimit :: int

record RouterState =
  activeByType :: "WorkloadType \<Rightarrow> nat"
  dispatchedByType :: "WorkloadType \<Rightarrow> nat"
  droppedUnknownWorkloadCount :: nat

definition init_router :: RouterState where
  "init_router = \<lparr>activeByType = (\<lambda>_. 0), dispatchedByType = (\<lambda>_. 0),
     droppedUnknownWorkloadCount = 0\<rparr>"

definition clampConcurrencyLimit :: "int \<Rightarrow> int \<Rightarrow> int" where
  "clampConcurrencyLimit workerCount limit = max 1 (min limit workerCount)"

definition routerLimits :: "env \<Rightarrow> RouterLimits" where
  "routerLimits e =
     (let workerCount = readPositiveIntEnv e ''WORKER_POOL_SIZE'' 4 in
      \<lparr>cpuConcurrencyLimit = clampConcurrencyLimit workerCount
         (readPositiveIntEnv e ''WORKER_MAX_CPU_CONCURRENCY'' workerCount),
       memoryConcurrencyLimit = clampConcurrencyLimit workerCount
         (readPositiveIntEnv e ''WORKER_MAX_MEMORY_CONCURRENCY'' (max 1 (workerCount div 2))),
       customConcurrencyLimit = clampConcurrencyLimit workerCount
         (readPositiveIntEnv e ''WORKER_MAX_CUSTOM_CONCURRENCY'' (max 1 (workerCount div 2)))\<rparr>)"

section \<open>Operations\<close>

definition present :: "string option \<Rightarrow> bool" where
  "present s = (case s of None \<Rightarrow> False | Some t \<Rightarrow> t \<noteq> [])"

definition determineTaskType :: "WorkerTaskData \<Rightarrow> WorkloadType" where
  "determineTaskType d =
     (case wtype d of
        Some t \<Rightarrow> t
      | None \<Rightarrow>
          (case workloadType (wtask d) of
             Some t \<Rightarrow> t
           | None \<Rightarrow> if present (wfunctionCode d) \<or> present (functionCode (wtask d))
                     then CUSTOM else UNKNOWN))"

definition determineOperation :: "WorkerTaskData \<Rightarrow> string" where
  "determineOperation d =
     (if present (woperation d) then the (woperation d)
      else
        let type = determineTaskType d; cat = category_or_empty (wtask d) in
        if type = CPU then
          if str_includes cat ''prime'' then ''findPrimes''
          else if str_includes cat ''fibonacci'' then ''fibonacci''
          else if str_includes cat ''matrix'' then ''matrixMultiply''
          else ''findPrimes''
        else if type = MEMORY then
          if str_includes cat ''array'' then ''largeArray''
          else if str_includes cat ''object'' \<or> str_includes cat ''clone'' then ''objectCloning''
          else ''largeArray''
        else if type = CUSTOM then ''execute''
        else ''findPrimes'')"

definition isDispatchableType :: "WorkloadType \<Rightarrow> bool" where
  "isDispatchableType type = (type = CPU \<or> type = MEMORY \<or> type = CUSTOM)"

definition getConcurrencyLimit :: "RouterLimits \<Rightarrow> WorkloadType \<Rightarrow> int" where
  "getConcurrencyLimit caps type =
     (if type = CPU then cpuConcurrencyLimit caps
      else if type = MEMORY then memoryConcurrencyLimit caps
      else customConcurrencyLimit caps)"

definition canDispatchType :: "RouterLimits \<Rightarrow> RouterState \<Rightarrow> WorkloadType \<Rightarrow> bool" where
  "canDispatchType caps r type = (int (activeByType r type) < getConcurrencyLimit caps type)"

definition incrementActiveByType :: "WorkloadType \<Rightarrow> RouterState \<Rightarrow> RouterState" where
  "incrementActiveByType type r =
     r\<lparr>activeByType := (activeByType r)(type := activeByType r type + 1),
       dispatchedByType := (dispatchedByType r)(type := dispatchedByType r type + 1)\<rparr>"

text \<open>\<open>Math.max(0, n - 1)\<close> is subtraction on natural numbers.\<close>

definition decrementActiveByType :: "WorkloadType \<Rightarrow> RouterState \<Rightarrow> RouterState" where
  "decrementActiveByType type r =
     (if \<not> isDispatchableType type then r
      else r\<lparr>activeByType := (activeByType r)(type := activeByType r type - 1)\<rparr>)"

definition resetActiveByType :: "RouterState \<Rightarrow> RouterState" where
  "resetActiveByType r = r\<lparr>activeByType := (\<lambda>_. 0)\<rparr>"

text \<open>The loop of \<open>dequeueDispatchableTask\<close>: \<open>i\<close> is the loop index; dropping a task keeps the
  index (\<open>i--\<close> then \<open>i++\<close>).\<close>

type_synonym dequeue_result =
  "(WorkerTaskData \<times> WorkloadType) option \<times> WorkerTaskData list \<times> RouterState \<times> WorkerTaskData list"

function dequeue_loop ::
  "RouterLimits \<Rightarrow> nat \<Rightarrow> WorkerTaskData list \<Rightarrow> RouterState \<Rightarrow> WorkerTaskData list \<Rightarrow> dequeue_result" where
  "dequeue_loop caps i queue r dropped =
     (if i < length queue then
        let candidate = queue ! i; type = determineTaskType candidate in
        if \<not> isDispatchableType type then
          dequeue_loop caps i (take i queue @ drop (Suc i) queue)
            (r\<lparr>droppedUnknownWorkloadCount := droppedUnknownWorkloadCount r + 1\<rparr>)
            (dropped @ [candidate])
        else if \<not> canDispatchType caps r type then
          dequeue_loop caps (Suc i) queue r dropped
        else
          (Some (candidate\<lparr>wtype := Some type\<rparr>, type), take i queue @ drop (Suc i) queue, r, dropped)
      else (None, queue, r, dropped))"
  by pat_completeness auto
termination
  by (relation "measure (\<lambda>(caps, i, queue, r, dropped). length queue - i)") auto

declare dequeue_loop.simps [simp del]

definition dequeueDispatchableTask ::
  "RouterLimits \<Rightarrow> RouterState \<Rightarrow> WorkerTaskData list \<Rightarrow> dequeue_result" where
  "dequeueDispatchableTask caps r queue =
     (if queue = [] then (None, queue, r, []) else dequeue_loop caps 0 queue r [])"

fun countPending :: "(WorkloadType \<Rightarrow> nat) \<Rightarrow> WorkerTaskData list \<Rightarrow> WorkloadType \<Rightarrow> nat" where
  "countPending counts [] = counts"
| "countPending counts (d # ds) =
     countPending (counts(determineTaskType d := counts (determineTaskType d) + 1)) ds"

definition getPendingQueueByType :: "WorkerTaskData list \<Rightarrow> WorkloadType \<Rightarrow> nat" where
  "getPendingQueueByType queue = countPending (\<lambda>_. 0) queue"

section \<open>Reference behaviour of the scan\<close>

text \<open>The first task whose type is dispatchable and below its limit; undispatchable tasks seen
  before it are dropped, blocked ones stay, and what follows it is untouched.\<close>

fun first_dispatchable ::
  "(WorkloadType \<Rightarrow> bool) \<Rightarrow> WorkerTaskData list \<Rightarrow>
   WorkerTaskData option \<times> WorkerTaskData list \<times> WorkerTaskData list" where
  "first_dispatchable free [] = (None, [], [])"
| "first_dispatchable free (d # ds) =
     (let type = determineTaskType d in
      if isDispatchableType type \<and> free type then (Some d, ds, [])
      else let (picked, rest, dropped) = first_dispatchable free ds in
        if isDispatchableType type then (picked, d # rest, dropped)
        else (picked, rest, d # dropped))"

definition dequeue_spec :: "RouterLimits \<Rightarrow> RouterState \<Rightarrow> WorkerTaskData list \<Rightarrow> dequeue_result" where
  "dequeue_spec caps r queue =
     (let (picked, rest, dropped) = first_dispatchable (canDispatchType caps r) queue in
      (map_option (\<lambda>d. (d\<lparr>wtype := Some (determineTaskType d)\<rparr>, determineTaskType d)) picked,
       rest,
       r\<lparr>droppedUnknownWorkloadCount := droppedUnknownWorkloadCount r + length dropped\<rparr>,
       dropped))"

text \<open>The contract the worker pool relies on.\<close>

locale dispatcher =
  fixes dequeue :: "RouterState \<Rightarrow> WorkerTaskData list \<Rightarrow> dequeue_result"
    and allowed :: "RouterState \<Rightarrow> WorkloadType \<Rightarrow> bool"
  assumes conserves: "dequeue r q = (p, rest, r', dropped) \<Longrightarrow>
      mset (map wtask q) =
        mset (map wtask rest) + mset (map wtask dropped) +
        (case p of None \<Rightarrow> {#} | Some (d, _) \<Rightarrow> {# wtask d #})"
    and picks_allowed: "dequeue r q = (Some (d, ty), rest, r', dropped) \<Longrightarrow>
      isDispatchableType ty \<and> allowed r ty \<and> determineTaskType d = ty"
    and keeps_active: "dequeue r q = (p, rest, r', dropped) \<Longrightarrow>
      activeByType r' = activeByType r \<and> dispatchedByType r' = dispatchedByType r"
    and maximal: "dequeue r q = (None, rest, r', dropped) \<Longrightarrow>
      d \<in> set rest \<Longrightarrow> isDispatchableType (determineTaskType d) \<and> \<not> allowed r (determineTaskType d)"
begin

lemma length_conserved:
  "dequeue r q = (p, rest, r', dropped) \<Longrightarrow>
   length q = length rest + length dropped + (case p of None \<Rightarrow> 0 | Some _ \<Rightarrow> 1)"
  using arg_cong [OF conserves, of r q p rest r' dropped size] by (auto split: option.splits)

lemma empty_queue: "dequeue r [] = (p, rest, r', dropped) \<Longrightarrow> p = None \<and> rest = [] \<and> dropped = []"
  using length_conserved [of r "[]" p rest r' dropped] by (auto split: option.splits)

end

section \<open>Facts\<close>

lemma dequeue_loop_eq:
  assumes "\<forall>d \<in> set done. isDispatchableType (determineTaskType d) \<and>
             \<not> canDispatchType caps r (determineTaskType d)"
    and "first_dispatchable (canDispatchType caps r) todo = (picked, rest, dropped')"
  shows "dequeue_loop caps (length done) (done @ todo) r dropped =
     (map_option (\<lambda>d. (d\<lparr>wtype := Some (determineTaskType d)\<rparr>, determineTaskType d)) picked,
      done @ rest,
      r\<lparr>droppedUnknownWorkloadCount := droppedUnknownWorkloadCount r + length dropped'\<rparr>,
      dropped @ dropped')"
  using assms
proof (induction todo arbitrary: "done" r dropped picked rest dropped')
  case Nil
  then show ?case by (simp add: dequeue_loop.simps)
next
  case (Cons d ds)
  let ?ty = "determineTaskType d"
  obtain p2 rest2 drop2 where fd: "first_dispatchable (canDispatchType caps r) ds = (p2, rest2, drop2)"
    by (cases "first_dispatchable (canDispatchType caps r) ds") auto
  consider (unknown) "\<not> isDispatchableType ?ty"
    | (blocked) "isDispatchableType ?ty" "\<not> canDispatchType caps r ?ty"
    | (free) "isDispatchableType ?ty" "canDispatchType caps r ?ty"
    by blast
  then show ?case
  proof cases
    case unknown
    let ?r = "r\<lparr>droppedUnknownWorkloadCount := droppedUnknownWorkloadCount r + 1\<rparr>"
    have can: "canDispatchType caps ?r = canDispatchType caps r"
      by (simp add: canDispatchType_def fun_eq_iff)
    have "dequeue_loop caps (length done) (done @ d # ds) r dropped =
        dequeue_loop caps (length done) (done @ ds) ?r (dropped @ [d])"
      using unknown by (subst dequeue_loop.simps) (simp add: Let_def nth_append)
    also have "\<dots> = (map_option (\<lambda>d. (d\<lparr>wtype := Some (determineTaskType d)\<rparr>, determineTaskType d)) p2,
        done @ rest2,
        ?r\<lparr>droppedUnknownWorkloadCount := droppedUnknownWorkloadCount ?r + length drop2\<rparr>,
        (dropped @ [d]) @ drop2)"
      by (rule Cons.IH) (use Cons.prems(1) fd can in simp_all)
    finally show ?thesis using Cons.prems(2) unknown fd by (auto simp: Let_def)
  next
    case blocked
    have "dequeue_loop caps (length done) (done @ d # ds) r dropped =
        dequeue_loop caps (length (done @ [d])) ((done @ [d]) @ ds) r dropped"
      using blocked by (subst dequeue_loop.simps) (simp add: Let_def nth_append)
    also have "\<dots> = (map_option (\<lambda>d. (d\<lparr>wtype := Some (determineTaskType d)\<rparr>, determineTaskType d)) p2,
        (done @ [d]) @ rest2,
        r\<lparr>droppedUnknownWorkloadCount := droppedUnknownWorkloadCount r + length drop2\<rparr>,
        dropped @ drop2)"
      by (rule Cons.IH) (use Cons.prems(1) fd blocked in auto)
    finally show ?thesis using Cons.prems(2) blocked fd by (simp add: Let_def)
  next
    case free
    then show ?thesis using Cons.prems(2)
      by (subst dequeue_loop.simps) (auto simp: Let_def nth_append)
  qed
qed

lemma dequeue_eq_spec: "dequeueDispatchableTask caps r queue = dequeue_spec caps r queue"
proof -
  obtain p rest dropped where fd: "first_dispatchable (canDispatchType caps r) queue = (p, rest, dropped)"
    by (cases "first_dispatchable (canDispatchType caps r) queue") auto
  have "dequeue_loop caps 0 queue r [] = dequeue_spec caps r queue"
    using dequeue_loop_eq [of "[]" caps r queue p rest dropped "[]"] fd
    by (simp add: dequeue_spec_def)
  moreover have "dequeue_loop caps 0 [] r [] = (None, [], r, [])"
    by (simp add: dequeue_loop.simps)
  ultimately show ?thesis by (auto simp: dequeueDispatchableTask_def)
qed

lemma first_dispatchable_mset:
  "first_dispatchable free q = (p, rest, dropped) \<Longrightarrow>
   mset (map wtask q) = mset (map wtask rest) + mset (map wtask dropped) +
     (case p of None \<Rightarrow> {#} | Some d \<Rightarrow> {# wtask d #})"
  by (induction q arbitrary: p rest dropped)
     (auto simp: Let_def split: if_splits prod.splits)

lemma first_dispatchable_Some:
  "first_dispatchable free q = (Some d, rest, dropped) \<Longrightarrow>
   d \<in> set q \<and> isDispatchableType (determineTaskType d) \<and> free (determineTaskType d)"
  by (induction q arbitrary: rest dropped) (auto simp: Let_def split: if_splits prod.splits)

lemma first_dispatchable_None:
  "first_dispatchable free q = (None, rest, dropped) \<Longrightarrow> d \<in> set rest \<Longrightarrow>
   isDispatchableType (determineTaskType d) \<and> \<not> free (determineTaskType d)"
  by (induction q arbitrary: rest dropped) (auto simp: Let_def split: if_splits prod.splits)

interpretation router: dispatcher "dequeueDispatchableTask caps" "canDispatchType caps" for caps
proof unfold_locales
  fix r q p rest r' dropped
  assume "dequeueDispatchableTask caps r q = (p, rest, r', dropped)"
  then show "mset (map wtask q) = mset (map wtask rest) + mset (map wtask dropped) +
      (case p of None \<Rightarrow> {#} | Some (d, _) \<Rightarrow> {# wtask d #})"
    by (auto simp: dequeue_eq_spec dequeue_spec_def dest!: first_dispatchable_mset
        split: prod.splits option.splits)
next
  fix r q d ty rest r' dropped
  assume "dequeueDispatchableTask caps r q = (Some (d, ty), rest, r', dropped)"
  then show "isDispatchableType ty \<and> canDispatchType caps r ty \<and> determineTaskType d = ty"
    by (auto simp: dequeue_eq_spec dequeue_spec_def determineTaskType_def
        dest!: first_dispatchable_Some split: prod.splits)
next
  fix r q p rest r' dropped
  assume "dequeueDispatchableTask caps r q = (p, rest, r', dropped)"
  then show "activeByType r' = activeByType r \<and> dispatchedByType r' = dispatchedByType r"
    by (auto simp: dequeue_eq_spec dequeue_spec_def split: prod.splits)
next
  fix r q rest r' dropped d
  assume "dequeueDispatchableTask caps r q = (None, rest, r', dropped)" and "d \<in> set rest"
  then show "isDispatchableType (determineTaskType d) \<and> \<not> canDispatchType caps r (determineTaskType d)"
    by (auto simp: dequeue_eq_spec dequeue_spec_def dest!: first_dispatchable_None
        split: prod.splits)
qed

lemma countPending_eq:
  "countPending counts q ty = counts ty + length (filter (\<lambda>d. determineTaskType d = ty) q)"
  by (induction q arbitrary: counts) auto

text \<open>The scan with its in-place removals picks what the reference says: the first task whose
  type is dispatchable and below its limit. Undispatchable tasks before it are dropped in order and
  counted, blocked tasks keep their place, and everything after the picked task is untouched.\<close>

theorem dequeue_picks_first_free:
  "dequeueDispatchableTask caps r queue = dequeue_spec caps r queue"
  by (rule dequeue_eq_spec)

end
