(* ===== verification/WorkerPool.thy ===== *)
theory WorkerPool
  imports WorkerRouter
begin

text \<open>
  The worker-thread pool (\<open>src/queue/worker-pool.service.ts\<close>) and the ping book-keeping of
  \<open>src/queue/worker-health.service.ts\<close>. A worker is an instance number, fresh for every
  \<open>new Worker\<close>. \<open>postMessage\<close> belongs to Node: the argument \<open>post\<close> says for an instance and a
  message whether the call throws (\<open>Some message\<close>); every message that is accepted is logged in
  \<open>outbox\<close>. The tasks that \<open>processWorkerTasks\<close> rejects are returned, in order, for the queue
  processor's \<open>onTaskFailed\<close> callback. What calls back into the queue processor
  (\<open>handleWorkerFailure\<close>, the message listener, the health-check tick) is in theory
  \<open>QueueSystem\<close>.
\<close>

section \<open>State\<close>

datatype WorkerRequest =
    Ping
  | Work WorkloadType string jsobj "string option" "int option"

record WorkerMessage =
  msg_success :: bool
  msg_result :: jsval
  msg_error :: "string option"
  msg_initialized :: bool
  msg_healthCheck :: bool

record WorkerPool =
  useWorkers :: bool
  workerCount :: nat
  routerCaps :: RouterLimits
  workerPool :: "nat option list"
  workerBusy :: "bool list"
  workerTaskQueue :: "WorkerTaskData list"
  assignedTasks :: "(nat \<times> WorkerTaskData) list"
  router_state :: RouterState
  pingTimeoutMap :: "nat list"
  hasOnResult :: bool
  shuttingDown :: bool
  nextInstance :: nat
  outbox :: "(nat \<times> WorkerRequest) list"

type_synonym post = "nat \<Rightarrow> WorkerRequest \<Rightarrow> string option"
type_synonym failures = "(QueueTask \<times> queue_error) list"

text \<open>\<open>arr[i] = v\<close> on a JavaScript array, with \<open>hole\<close> for the elements it creates.\<close>

definition arr_set :: "'a \<Rightarrow> nat \<Rightarrow> 'a \<Rightarrow> 'a list \<Rightarrow> 'a list" where
  "arr_set hole i v xs =
     (if i < length xs then xs[i := v] else xs @ replicate (i - length xs) hole @ [v])"

definition busy_at :: "WorkerPool \<Rightarrow> nat \<Rightarrow> bool" where
  "busy_at p i = (i < length (workerBusy p) \<and> workerBusy p ! i)"

definition worker_at :: "WorkerPool \<Rightarrow> nat \<Rightarrow> nat option" where
  "worker_at p i = (if i < length (workerPool p) then workerPool p ! i else None)"

definition init_pool :: "env \<Rightarrow> WorkerPool" where
  "init_pool e =
     \<lparr>useWorkers = (e ''DISABLE_WORKERS'' \<noteq> Some ''true'' \<and> e ''NODE_ENV'' \<noteq> Some ''test''),
      workerCount = nat (readPositiveIntEnv e ''WORKER_POOL_SIZE'' 4),
      routerCaps = routerLimits e,
      workerPool = [], workerBusy = [], workerTaskQueue = [], assignedTasks = [],
      router_state = init_router, pingTimeoutMap = [], hasOnResult = False,
      shuttingDown = False, nextInstance = 0, outbox = []\<rparr>"

section \<open>Operations\<close>

definition createOrReplaceWorker :: "nat \<Rightarrow> WorkerPool \<Rightarrow> WorkerPool" where
  "createOrReplaceWorker index p =
     p\<lparr>workerPool := arr_set None index (Some (nextInstance p)) (workerPool p),
       workerBusy := arr_set False index False (workerBusy p),
       nextInstance := nextInstance p + 1\<rparr>"

definition initWorkerPool :: "WorkerPool \<Rightarrow> WorkerPool" where
  "initWorkerPool p =
     (if \<not> useWorkers p then p
      else fold createOrReplaceWorker [0..<workerCount p] (p\<lparr>hasOnResult := True\<rparr>))"

text \<open>\<open>destroy\<close> up to its \<open>await\<close>, and what it does once every \<open>terminate()\<close> has settled.\<close>

definition destroy_begin :: "WorkerPool \<Rightarrow> WorkerPool" where
  "destroy_begin p = p\<lparr>shuttingDown := True, pingTimeoutMap := []\<rparr>"

definition destroy_end :: "WorkerPool \<Rightarrow> WorkerPool" where
  "destroy_end p =
     p\<lparr>workerPool := [], workerBusy := [], workerTaskQueue := [], assignedTasks := [],
       router_state := resetActiveByType (router_state p), hasOnResult := False\<rparr>"

definition addTask :: "WorkerTaskData \<Rightarrow> WorkerPool \<Rightarrow> WorkerPool" where
  "addTask d p = p\<lparr>workerTaskQueue := workerTaskQueue p @ [d]\<rparr>"

definition request_of :: "WorkerTaskData \<Rightarrow> WorkloadType \<Rightarrow> WorkerRequest" where
  "request_of d type =
     Work type (determineOperation d) (wparams d)
       (case wfunctionCode d of Some c \<Rightarrow> Some c | None \<Rightarrow> functionCode (wtask d))
       (case wtimeout d of Some t \<Rightarrow> Some t | None \<Rightarrow> task_timeout (wtask d))"

definition drop_failures :: "WorkerTaskData list \<Rightarrow> failures" where
  "drop_failures ds = map (\<lambda>d. (wtask d, UnknownWorkload)) ds"

text \<open>The body of the loop over the workers, for an idle worker and a non-empty queue: pick a
  task, post it, and record the assignment or the failure.\<close>

definition dispatch_to :: "post \<Rightarrow> nat \<Rightarrow> nat \<Rightarrow> WorkerPool \<Rightarrow> WorkerPool \<times> failures" where
  "dispatch_to post i inst p =
     (case dequeueDispatchableTask (routerCaps p) (router_state p) (workerTaskQueue p) of
        (None, queue, r, dropped) \<Rightarrow>
          (p\<lparr>workerTaskQueue := queue, router_state := r\<rparr>, drop_failures dropped)
      | (Some (d, type), queue, r, dropped) \<Rightarrow>
          (case post inst (request_of d type) of
             None \<Rightarrow>
               (p\<lparr>workerTaskQueue := queue,
                  router_state := incrementActiveByType type r,
                  assignedTasks := AList.update i d (assignedTasks p),
                  outbox := outbox p @ [(inst, request_of d type)],
                  workerBusy := arr_set False i True (workerBusy p)\<rparr>,
                drop_failures dropped)
           | Some message \<Rightarrow>
               (p\<lparr>workerTaskQueue := queue,
                  router_state := r,
                  assignedTasks := AList.delete i (assignedTasks p),
                  workerBusy := arr_set False i False (workerBusy p)\<rparr>,
                drop_failures dropped @ [(wtask d, WorkerPostFailed message)])))"

fun workers_loop :: "post \<Rightarrow> nat list \<Rightarrow> WorkerPool \<Rightarrow> failures \<Rightarrow> WorkerPool \<times> failures" where
  "workers_loop post [] p failed = (p, failed)"
| "workers_loop post (i # is) p failed =
     (case worker_at p i of
        None \<Rightarrow> workers_loop post is p failed
      | Some inst \<Rightarrow>
          if busy_at p i then workers_loop post is p failed
          else if workerTaskQueue p = [] then (p, failed)
          else let (p', f) = dispatch_to post i inst p in workers_loop post is p' (failed @ f))"

definition processWorkerTasks :: "post \<Rightarrow> WorkerPool \<Rightarrow> WorkerPool \<times> failures" where
  "processWorkerTasks post p =
     (if \<not> useWorkers p \<or> workerTaskQueue p = [] then (p, [])
      else workers_loop post [0..<length (workerPool p)] p [])"

definition worker_outcome :: "WorkerMessage \<Rightarrow> outcome" where
  "worker_outcome m =
     (if msg_success m then Resolved (msg_result m)
      else Rejected (case msg_error m of
                       None \<Rightarrow> WorkerFailed
                     | Some e \<Rightarrow> if e = [] then WorkerFailed else Thrown e))"

text \<open>The pool's part of a worker's result: the task it settles and how, if one was assigned.\<close>

definition handleWorkerResult ::
  "nat \<Rightarrow> WorkerMessage \<Rightarrow> WorkerPool \<Rightarrow> WorkerPool \<times> (QueueTask \<times> outcome) option" where
  "handleWorkerResult workerId m p =
     (let taskData = map_of (assignedTasks p) workerId;
          p1 = p\<lparr>assignedTasks := AList.delete workerId (assignedTasks p),
                 workerBusy := arr_set False workerId False (workerBusy p)\<rparr>
      in case taskData of
           None \<Rightarrow> (p1, None)
         | Some d \<Rightarrow>
             (p1\<lparr>router_state := decrementActiveByType (determineTaskType d) (router_state p1)\<rparr>,
              Some (wtask d, worker_outcome m)))"

text \<open>The health service: the indices with a pending ping.\<close>

definition clearPingTimeout :: "nat \<Rightarrow> WorkerPool \<Rightarrow> WorkerPool" where
  "clearPingTimeout index p = p\<lparr>pingTimeoutMap := removeAll index (pingTimeoutMap p)\<rparr>"

definition setPingTimeout :: "nat \<Rightarrow> nat \<Rightarrow> WorkerPool \<Rightarrow> WorkerPool" where
  "setPingTimeout index inst p =
     p\<lparr>pingTimeoutMap := pingTimeoutMap p @ [index], outbox := outbox p @ [(inst, Ping)]\<rparr>"

record PoolStats =
  totalWorkers :: nat
  busyWorkers :: nat
  idleWorkers :: int
  pendingTasks :: nat
  stat_activeByType :: "WorkloadType \<Rightarrow> nat"
  stat_queueByType :: "WorkloadType \<Rightarrow> nat"
  stat_limitsByType :: RouterLimits
  stat_dispatchedByType :: "WorkloadType \<Rightarrow> nat"
  stat_dropped :: nat
  stat_enabled :: bool

definition getPoolStats :: "WorkerPool \<Rightarrow> PoolStats" where
  "getPoolStats p =
     (let total = length (filter (\<lambda>w. w \<noteq> None) (workerPool p));
          busy = length (filter (\<lambda>b. b) (workerBusy p))
      in \<lparr>totalWorkers = total, busyWorkers = busy, idleWorkers = max 0 (int total - int busy),
          pendingTasks = length (workerTaskQueue p),
          stat_activeByType = activeByType (router_state p),
          stat_queueByType = getPendingQueueByType (workerTaskQueue p),
          stat_limitsByType = routerCaps p,
          stat_dispatchedByType = dispatchedByType (router_state p),
          stat_dropped = droppedUnknownWorkloadCount (router_state p),
          stat_enabled = useWorkers p\<rparr>)"

section \<open>Invariants\<close>

definition pool_tasks :: "WorkerPool \<Rightarrow> QueueTask list" where
  "pool_tasks p = map wtask (workerTaskQueue p) @ map (wtask \<circ> snd) (assignedTasks p)"

text \<open>What holds whatever the workers do: the keys of \<open>assignedTasks\<close> are distinct and no type
  runs above its limit.\<close>

definition within_caps :: "WorkerPool \<Rightarrow> bool" where
  "within_caps p \<longleftrightarrow>
     (\<forall>ty. isDispatchableType ty \<longrightarrow>
        int (activeByType (router_state p) ty) \<le> getConcurrencyLimit (routerCaps p) ty)"

definition wf_pool :: "WorkerPool \<Rightarrow> bool" where
  "wf_pool p \<longleftrightarrow> distinct (map fst (assignedTasks p)) \<and> within_caps p"

text \<open>What holds as long as a worker that has a task is marked busy: the counters agree with
  the assignments.\<close>

definition assigned_of_type :: "WorkerPool \<Rightarrow> WorkloadType \<Rightarrow> nat" where
  "assigned_of_type p ty =
     length (filter (\<lambda>(_, d). determineTaskType d = ty) (assignedTasks p))"

definition pool_consistent :: "WorkerPool \<Rightarrow> bool" where
  "pool_consistent p \<longleftrightarrow>
     (\<forall>i \<in> fst ` set (assignedTasks p). busy_at p i) \<and>
     (\<forall>ty. isDispatchableType ty \<longrightarrow> activeByType (router_state p) ty = assigned_of_type p ty) \<and>
     (\<forall>d \<in> snd ` set (assignedTasks p). isDispatchableType (determineTaskType d))"

section \<open>Facts\<close>

lemma nth_arr_set:
  "j < length (arr_set h i v xs) \<Longrightarrow>
   arr_set h i v xs ! j = (if j = i then v else if j < length xs then xs ! j else h)"
  by (auto simp: arr_set_def nth_append nth_Cons' less_Suc_eq split: if_splits)

lemma length_arr_set: "length (arr_set h i v xs) = max (length xs) (Suc i)"
  by (auto simp: arr_set_def)

lemma busy_at_arr_set:
  assumes "workerBusy q = arr_set False i v (workerBusy p)"
  shows "busy_at q j = (if j = i then v else busy_at p j)"
proof (cases "j < length (workerBusy q)")
  case True
  with assms show ?thesis
    using nth_arr_set [of j False i v "workerBusy p"] length_arr_set [of False i v "workerBusy p"]
    by (auto simp: busy_at_def)
next
  case False
  with assms have "\<not> j < length (workerBusy p)" "j \<noteq> i"
    by (auto simp: length_arr_set)
  with False show ?thesis by (simp add: busy_at_def)
qed

lemma within_caps_increment:
  assumes "within_caps p" and "canDispatchType (routerCaps p) (router_state p) ty"
    and "activeByType r = activeByType (router_state p)"
    and "routerCaps q = routerCaps p" and "router_state q = incrementActiveByType ty r"
  shows "within_caps q"
  using assms by (auto simp: within_caps_def canDispatchType_def incrementActiveByType_def)

lemma within_caps_antimono:
  assumes "within_caps p" and "routerCaps q = routerCaps p"
    and "\<And>ty. activeByType (router_state q) ty \<le> activeByType (router_state p) ty"
  shows "within_caps q"
  unfolding within_caps_def
proof (intro allI impI)
  fix ty assume "isDispatchableType ty"
  with assms(1) have "int (activeByType (router_state p) ty) \<le> getConcurrencyLimit (routerCaps p) ty"
    by (simp add: within_caps_def)
  moreover have "int (activeByType (router_state q) ty) \<le> int (activeByType (router_state p) ty)"
    using assms(3) by simp
  ultimately show "int (activeByType (router_state q) ty) \<le> getConcurrencyLimit (routerCaps q) ty"
    using assms(2) by simp
qed

lemma decrementActiveByType_le:
  "activeByType (decrementActiveByType ty r) t \<le> activeByType r t"
  by (simp add: decrementActiveByType_def)

text \<open>Recording an assignment: the tasks of the new map are among the old ones and the new
  task, and exactly those when the worker had none.\<close>

lemma mset_assign:
  assumes "distinct (map fst m)"
  shows "mset (map (f \<circ> snd) (AList.update i d m)) \<subseteq># add_mset (f d) (mset (map (f \<circ> snd) m))"
proof (cases "map_of m i")
  case None
  then show ?thesis by (simp add: alist_update_absent map_of_eq_None_iff)
next
  case (Some v)
  then obtain xs ys where "m = xs @ (i, v) # ys" "i \<notin> set (map fst xs)" "i \<notin> set (map fst ys)"
    using assms by (rule alist_split)
  then show ?thesis by (simp add: alist_update_present)
qed

lemma mset_unassign: "mset (map (f \<circ> snd) (AList.delete i m)) \<subseteq># mset (map (f \<circ> snd) m)"
  by (simp add: AList.delete_eq) (induction m, auto intro: subset_mset.order_trans)

text \<open>One dispatch: where the tasks go.\<close>

definition failed_tasks :: "failures \<Rightarrow> QueueTask multiset" where
  "failed_tasks f = mset (map fst f)"

lemma failed_tasks_simps [simp]:
  "failed_tasks [] = {#}" "failed_tasks (f @ g) = failed_tasks f + failed_tasks g"
  "failed_tasks (drop_failures ds) = mset (map wtask ds)"
  "failed_tasks [(t, e)] = {#t#}"
  by (simp_all add: failed_tasks_def drop_failures_def comp_def)

lemma dispatch_to_frame [frame]:
  assumes "dispatch_to post i inst p = (p', f)"
  shows "useWorkers p' = useWorkers p" "routerCaps p' = routerCaps p" "workerPool p' = workerPool p"
    "hasOnResult p' = hasOnResult p" "shuttingDown p' = shuttingDown p"
  using assms by (auto simp: dispatch_to_def split: prod.splits option.splits)

text \<open>The three ways a dispatch ends.\<close>

lemma dispatch_to_cases:
  assumes "dispatch_to post i inst p = (p', f)"
  obtains (none) queue r dropped where
      "dequeueDispatchableTask (routerCaps p) (router_state p) (workerTaskQueue p) = (None, queue, r, dropped)"
      "p' = p\<lparr>workerTaskQueue := queue, router_state := r\<rparr>" "f = drop_failures dropped"
    | (sent) d ty queue r dropped where
      "dequeueDispatchableTask (routerCaps p) (router_state p) (workerTaskQueue p) =
         (Some (d, ty), queue, r, dropped)"
      "post inst (request_of d ty) = None"
      "p' = p\<lparr>workerTaskQueue := queue, router_state := incrementActiveByType ty r,
              assignedTasks := AList.update i d (assignedTasks p),
              outbox := outbox p @ [(inst, request_of d ty)],
              workerBusy := arr_set False i True (workerBusy p)\<rparr>" "f = drop_failures dropped"
    | (threw) d ty queue r dropped message where
      "dequeueDispatchableTask (routerCaps p) (router_state p) (workerTaskQueue p) =
         (Some (d, ty), queue, r, dropped)"
      "post inst (request_of d ty) = Some message"
      "p' = p\<lparr>workerTaskQueue := queue, router_state := r,
              assignedTasks := AList.delete i (assignedTasks p),
              workerBusy := arr_set False i False (workerBusy p)\<rparr>"
      "f = drop_failures dropped @ [(wtask d, WorkerPostFailed message)]"
  using assms by (auto simp: dispatch_to_def split: prod.splits option.splits)

lemma dispatch_to_wf:
  assumes "wf_pool p" and "dispatch_to post i inst p = (p', f)"
  shows "wf_pool p'"
  using assms(2)
proof (cases rule: dispatch_to_cases)
  case (none queue r dropped)
  then show ?thesis
    using assms(1) router.keeps_active [OF none(1)] by (simp add: wf_pool_def within_caps_def)
next
  case (sent d ty queue r dropped)
  have "within_caps p'"
    by (rule within_caps_increment [where p = p and ty = ty and r = r])
       (use assms(1) sent router.picks_allowed [OF sent(1)] router.keeps_active [OF sent(1)]
         in \<open>simp_all add: wf_pool_def\<close>)
  then show ?thesis
    using assms(1) sent(3) by (simp add: wf_pool_def AList.distinct_update)
next
  case (threw d ty queue r dropped message)
  then show ?thesis
    using assms(1) router.keeps_active [OF threw(1)]
    by (simp add: wf_pool_def within_caps_def AList.distinct_delete)
qed

lemma dispatch_to_tasks:
  assumes "wf_pool p" and "dispatch_to post i inst p = (p', f)"
  shows "mset (pool_tasks p') + failed_tasks f \<subseteq># mset (pool_tasks p)"
  using assms(2)
proof (cases rule: dispatch_to_cases)
  case (none queue r dropped)
  then show ?thesis using router.conserves [OF none(1)] by (simp add: pool_tasks_def ac_simps)
next
  case (sent d ty queue r dropped)
  have "mset (map (wtask \<circ> snd) (assignedTasks p')) \<subseteq>#
        add_mset (wtask d) (mset (map (wtask \<circ> snd) (assignedTasks p)))"
    using assms(1) sent(3) mset_assign [of "assignedTasks p" wtask i d] by (simp add: wf_pool_def)
  then show ?thesis
    using router.conserves [OF sent(1)] sent(3,4) by (simp add: pool_tasks_def ac_simps)
next
  case (threw d ty queue r dropped message)
  have "mset (map (wtask \<circ> snd) (assignedTasks p')) \<subseteq># mset (map (wtask \<circ> snd) (assignedTasks p))"
    using threw(3) mset_unassign [of wtask i "assignedTasks p"] by simp
  then show ?thesis
    using router.conserves [OF threw(1)] threw(3,4) by (simp add: pool_tasks_def ac_simps)
qed

lemma dispatch_to_conserves:
  assumes "i \<notin> fst ` set (assignedTasks p)" and "dispatch_to post i inst p = (p', f)"
  shows "mset (pool_tasks p') + failed_tasks f = mset (pool_tasks p)"
  using assms(2)
proof (cases rule: dispatch_to_cases)
  case (none queue r dropped)
  then show ?thesis using router.conserves [OF none(1)] by (simp add: pool_tasks_def ac_simps)
next
  case (sent d ty queue r dropped)
  then show ?thesis
    using router.conserves [OF sent(1)] assms(1)
    by (simp add: pool_tasks_def ac_simps alist_update_absent)
next
  case (threw d ty queue r dropped message)
  then show ?thesis
    using router.conserves [OF threw(1)] assms(1)
    by (simp add: pool_tasks_def ac_simps alist_delete_absent)
qed

lemma dispatch_to_consistent:
  assumes "pool_consistent p" and idle: "\<not> busy_at p i" and run: "dispatch_to post i inst p = (p', f)"
  shows "pool_consistent p'"
proof -
  have fresh: "i \<notin> fst ` set (assignedTasks p)" using assms(1) idle by (auto simp: pool_consistent_def)
  from run show ?thesis
  proof (cases rule: dispatch_to_cases)
    case (none queue r dropped)
    then show ?thesis
      using assms(1) router.keeps_active [OF none(1)]
      by (simp add: pool_consistent_def assigned_of_type_def busy_at_def)
  next
    case (sent d ty queue r dropped)
    have new: "assignedTasks p' = assignedTasks p @ [(i, d)]"
      using sent(3) fresh by (simp add: alist_update_absent)
    have busy: "busy_at p' j = (if j = i then True else busy_at p j)" for j
      by (rule busy_at_arr_set) (simp add: sent(3))
    have ty: "isDispatchableType ty" "determineTaskType d = ty"
      using router.picks_allowed [OF sent(1)] by auto
    have rs: "router_state p' = incrementActiveByType ty r" by (simp add: sent(3))
    show ?thesis
      using assms(1) router.keeps_active [OF sent(1)] ty
      unfolding pool_consistent_def
      by (auto simp: new busy rs assigned_of_type_def incrementActiveByType_def)
  next
    case (threw d ty queue r dropped message)
    have "busy_at p' j = (if j = i then False else busy_at p j)" for j
      by (rule busy_at_arr_set) (simp add: threw(3))
    then have busy: "busy_at p' = busy_at p" using idle by (intro ext) simp
    have "assignedTasks p' = assignedTasks p" "router_state p' = r"
      using threw(3) fresh by (simp_all add: alist_delete_absent)
    then show ?thesis
      using assms(1) router.keeps_active [OF threw(1)]
      by (simp add: pool_consistent_def assigned_of_type_def busy)
  qed
qed

section \<open>The loop over the workers\<close>

text \<open>What every dispatch keeps, the loop keeps.\<close>

lemma workers_loop_keeps:
  assumes "workers_loop post is p f = (p', f')" and "good p f"
    and "\<And>i inst p f p' f'. good p f \<Longrightarrow> worker_at p i = Some inst \<Longrightarrow> \<not> busy_at p i \<Longrightarrow>
           dispatch_to post i inst p = (p', f') \<Longrightarrow> good p' (f @ f')"
  shows "good p' f'"
  using assms(1,2)
proof (induction "is" arbitrary: p f)
  case (Cons i "is")
  show ?case
  proof (cases "worker_at p i")
    case (Some inst)
    obtain q g where d: "dispatch_to post i inst p = (q, g)" by fastforce
    show ?thesis
    proof (cases "busy_at p i \<or> workerTaskQueue p = []")
      case True
      then show ?thesis using Cons Some by (auto split: if_splits)
    next
      case False
      then have "workers_loop post is q (f @ g) = (p', f')" using Cons.prems(1) Some d by simp
      moreover have "good q (f @ g)" using assms(3) Cons.prems(2) Some False d by blast
      ultimately show ?thesis by (rule Cons.IH)
    qed
  qed (use Cons in auto)
qed simp

lemma processWorkerTasks_keeps:
  assumes "processWorkerTasks post p = (p', f')" and "good p []"
    and "\<And>i inst p f p' f'. good p f \<Longrightarrow> worker_at p i = Some inst \<Longrightarrow> \<not> busy_at p i \<Longrightarrow>
           dispatch_to post i inst p = (p', f') \<Longrightarrow> good p' (f @ f')"
  shows "good p' f'"
proof (cases "\<not> useWorkers p \<or> workerTaskQueue p = []")
  case True
  then show ?thesis using assms(1,2) by (auto simp: processWorkerTasks_def)
next
  case False
  then have "workers_loop post [0..<length (workerPool p)] p [] = (p', f')"
    using assms(1) by (simp add: processWorkerTasks_def)
  then show ?thesis using assms(2,3) by (rule workers_loop_keeps)
qed

lemma processWorkerTasks_wf:
  assumes "wf_pool p" and "processWorkerTasks post p = (p', f)"
  shows "wf_pool p'" and "mset (pool_tasks p') + failed_tasks f \<subseteq># mset (pool_tasks p)"
proof -
  define good where "good q g \<longleftrightarrow> wf_pool q \<and> mset (pool_tasks q) + failed_tasks g \<subseteq># mset (pool_tasks p)"
    for q g
  have "good p' f"
    using assms(2)
  proof (rule processWorkerTasks_keeps)
    show "good p []" using assms(1) by (simp add: good_def)
  next
    fix i inst q g q' g'
    assume g: "good q g" and d: "dispatch_to post i inst q = (q', g')"
    then have "mset (pool_tasks q') + failed_tasks g' \<subseteq># mset (pool_tasks q)"
      by (simp add: good_def dispatch_to_tasks)
    then have "mset (pool_tasks q') + failed_tasks (g @ g') \<subseteq># mset (pool_tasks q) + failed_tasks g"
      by (simp add: ac_simps)
    with g d show "good q' (g @ g')"
      unfolding good_def by (meson dispatch_to_wf subset_mset.order_trans)
  qed
  then show "wf_pool p'" "mset (pool_tasks p') + failed_tasks f \<subseteq># mset (pool_tasks p)"
    by (simp_all add: good_def)
qed

lemma processWorkerTasks_consistent:
  assumes "pool_consistent p" and "processWorkerTasks post p = (p', f)"
  shows "pool_consistent p'" and "mset (pool_tasks p') + failed_tasks f = mset (pool_tasks p)"
proof -
  define good where "good q g \<longleftrightarrow> pool_consistent q \<and> mset (pool_tasks q) + failed_tasks g = mset (pool_tasks p)"
    for q g
  have "good p' f"
    using assms(2)
  proof (rule processWorkerTasks_keeps)
    show "good p []" using assms(1) by (simp add: good_def)
  next
    fix i inst q g q' g'
    assume g: "good q g" and idle: "\<not> busy_at q i" and d: "dispatch_to post i inst q = (q', g')"
    have "i \<notin> fst ` set (assignedTasks q)" using g idle by (auto simp: good_def pool_consistent_def)
    then have "mset (pool_tasks q') + failed_tasks g' = mset (pool_tasks q)"
      using d by (rule dispatch_to_conserves)
    then have "mset (pool_tasks q') + failed_tasks (g @ g') = mset (pool_tasks q) + failed_tasks g"
      by (simp add: ac_simps)
    with g idle d show "good q' (g @ g')"
      unfolding good_def by (metis dispatch_to_consistent)
  qed
  then show "pool_consistent p'" "mset (pool_tasks p') + failed_tasks f = mset (pool_tasks p)"
    by (simp_all add: good_def)
qed

lemma processWorkerTasks_frame [frame]:
  assumes "processWorkerTasks post p = (p', f)"
  shows "useWorkers p' = useWorkers p" "routerCaps p' = routerCaps p" "workerPool p' = workerPool p"
    "hasOnResult p' = hasOnResult p" "shuttingDown p' = shuttingDown p"
proof -
  define same where "same q g \<longleftrightarrow> useWorkers q = useWorkers p \<and> routerCaps q = routerCaps p \<and>
      workerPool q = workerPool p \<and> hasOnResult q = hasOnResult p \<and> shuttingDown q = shuttingDown p"
    for q :: WorkerPool and g :: failures
  have "same p' f"
    using assms
  proof (rule processWorkerTasks_keeps)
    show "same p []" by (simp add: same_def)
  next
    fix i inst q g q' g'
    assume "same q g" and "dispatch_to post i inst q = (q', g')"
    then show "same q' (g @ g')" by (simp add: same_def dispatch_to_frame)
  qed
  then show "useWorkers p' = useWorkers p" "routerCaps p' = routerCaps p" "workerPool p' = workerPool p"
    "hasOnResult p' = hasOnResult p" "shuttingDown p' = shuttingDown p"
    by (simp_all add: same_def)
qed

section \<open>Results\<close>

lemma handleWorkerResult_wf:
  assumes "wf_pool p" and "handleWorkerResult i m p = (p', r)"
  shows "wf_pool p'"
    and "mset (pool_tasks p) = mset (pool_tasks p') + (case r of None \<Rightarrow> {#} | Some (t, _) \<Rightarrow> {#t#})"
proof -
  have dist: "distinct (map fst (assignedTasks p))" using assms(1) by (simp add: wf_pool_def)
  have caps: "within_caps p'"
    using assms by (intro within_caps_antimono [of p p'])
      (auto simp: wf_pool_def handleWorkerResult_def Let_def decrementActiveByType_le split: option.splits)
  show "wf_pool p'"
    using caps assms(2) dist
    by (auto simp: wf_pool_def handleWorkerResult_def Let_def AList.distinct_delete split: option.splits)
  show "mset (pool_tasks p) = mset (pool_tasks p') + (case r of None \<Rightarrow> {#} | Some (t, _) \<Rightarrow> {#t#})"
  proof (cases "map_of (assignedTasks p) i")
    case None
    then show ?thesis using assms(2)
      by (auto simp: handleWorkerResult_def pool_tasks_def delete_absent_map_of)
  next
    case (Some d)
    then obtain xs ys where "assignedTasks p = xs @ (i, d) # ys" "i \<notin> set (map fst xs)" "i \<notin> set (map fst ys)"
      using dist by (rule alist_split)
    then show ?thesis using assms(2) Some
      by (auto simp: handleWorkerResult_def Let_def pool_tasks_def alist_delete_present)
  qed
qed

lemma handleWorkerResult_consistent:
  assumes "pool_consistent p" and "wf_pool p" and "handleWorkerResult i m p = (p', r)"
  shows "pool_consistent p'"
proof -
  have dist: "distinct (map fst (assignedTasks p))" using assms(2) by (simp add: wf_pool_def)
  have busy: "busy_at p' j = (if j = i then False else busy_at p j)" for j
    by (rule busy_at_arr_set) (use assms(3) in \<open>auto simp: handleWorkerResult_def Let_def split: option.splits\<close>)
  show ?thesis
  proof (cases "map_of (assignedTasks p) i")
    case None
    then have "assignedTasks p' = assignedTasks p" "router_state p' = router_state p"
      using assms(3) by (auto simp: handleWorkerResult_def delete_absent_map_of)
    with None assms(1) show ?thesis
      by (auto simp: pool_consistent_def assigned_of_type_def busy map_of_eq_None_iff)
  next
    case (Some d)
    then obtain xs ys where split: "assignedTasks p = xs @ (i, d) # ys" "i \<notin> set (map fst xs)" "i \<notin> set (map fst ys)"
      using dist by (rule alist_split)
    have p': "assignedTasks p' = xs @ ys"
      "router_state p' = decrementActiveByType (determineTaskType d) (router_state p)"
      using assms(3) Some split by (auto simp: handleWorkerResult_def Let_def alist_delete_present)
    show ?thesis
      using assms(1) split
      unfolding pool_consistent_def
      by (auto simp: p' busy assigned_of_type_def decrementActiveByType_def)
  qed
qed

lemma handleWorkerResult_frame [frame]:
  assumes "handleWorkerResult i m p = (p', r)"
  shows "useWorkers p' = useWorkers p" "routerCaps p' = routerCaps p" "workerPool p' = workerPool p"
    "hasOnResult p' = hasOnResult p" "shuttingDown p' = shuttingDown p"
  using assms by (auto simp: handleWorkerResult_def Let_def split: option.splits)

section \<open>Without workers\<close>

text \<open>\<open>processWithoutWorkers\<close>, which nothing calls. It takes the tasks one by one and awaits their
  functions; \<open>arrivals\<close> are the tasks added during each \<open>await\<close>. The log has the outcome of each task,
  and the task that \<open>onError\<close> is called with; \<open>onSuccess\<close> is called for the others. \<open>TXT_MAIN_FAILED\<close> is
  the message for a thrown value that is no \<open>Error\<close>.\<close>

datatype execution = Returned jsval | ThrewError string | ThrewValue

definition TXT_MAIN_FAILED :: string where
  "TXT_MAIN_FAILED =
     [CHR 0xEB, CHR 0xA9, CHR 0x94, CHR 0xEC, CHR 0x9D, CHR 0xB8] @ '' '' @ [CHR 0xEC, CHR 0x8A,
      CHR 0xA4, CHR 0xEB, CHR 0xA0, CHR 0x88, CHR 0xEB, CHR 0x93, CHR 0x9C] @ '' '' @ [CHR 0xEC,
      CHR 0xB2, CHR 0x98, CHR 0xEB, CHR 0xA6, CHR 0xAC] @ '' '' @ [CHR 0xEC, CHR 0x8B, CHR 0xA4,
      CHR 0xED, CHR 0x8C, CHR 0xA8]"

fun direct_outcome :: "execution \<Rightarrow> outcome" where
  "direct_outcome (Returned v) = Resolved v"
| "direct_outcome (ThrewError m) = Rejected (Thrown m)"
| "direct_outcome ThrewValue = Rejected (Thrown TXT_MAIN_FAILED)"

definition direct_entry :: "WorkerTaskData \<Rightarrow> execution \<Rightarrow> (nat \<times> outcome) \<times> QueueTask option" where
  "direct_entry d x =
     ((task_id (wtask d), direct_outcome x), case x of Returned _ \<Rightarrow> None | _ \<Rightarrow> Some (wtask d))"

fun arriving :: "WorkerTaskData list list \<Rightarrow> WorkerTaskData list \<times> WorkerTaskData list list" where
  "arriving [] = ([], [])"
| "arriving (now # later) = (now, later)"

lemma arriving_size: "arriving arrivals = (now, later) \<Longrightarrow> length now + length (concat later) = length (concat arrivals)"
  by (cases arrivals) auto

function processWithoutWorkers ::
  "(WorkerTaskData \<Rightarrow> execution) \<Rightarrow> WorkerTaskData list list \<Rightarrow> WorkerPool \<Rightarrow>
     ((nat \<times> outcome) \<times> QueueTask option) list \<times> WorkerPool" where
  "processWithoutWorkers execute arrivals p =
     (case workerTaskQueue p of
        [] \<Rightarrow> ([], p)
      | d # queue \<Rightarrow>
          let (now, later) = arriving arrivals;
              (done_log, p') = processWithoutWorkers execute later (p\<lparr>workerTaskQueue := queue @ now\<rparr>)
          in (direct_entry d (execute d) # done_log, p'))"
  by pat_completeness auto
termination
  by (relation "measure (\<lambda>(_, arrivals, p). length (workerTaskQueue p) + length (concat arrivals))")
     (auto dest!: arriving_size [OF sym])

declare processWithoutWorkers.simps [simp del]

text \<open>It ends with an empty queue, and settles the tasks that waited and those that arrived before the
  end, each once and in the order of the queue.\<close>

lemma processWithoutWorkers_drains:
  assumes "processWithoutWorkers execute arrivals p = (done_log, p')"
  shows "workerTaskQueue p' = [] \<and>
         (\<exists>k. done_log = map (\<lambda>d. direct_entry d (execute d)) (workerTaskQueue p @ concat (take k arrivals)))"
  using assms
proof (induction execute arrivals p arbitrary: done_log p' rule: processWithoutWorkers.induct)
  case (1 execute arrivals p)
  show ?case
  proof (cases "workerTaskQueue p")
    case Nil
    then show ?thesis using "1.prems" by (subst (asm) processWithoutWorkers.simps) (auto intro!: exI [of _ 0])
  next
    case (Cons d queue)
    obtain now later where a: "arriving arrivals = (now, later)" by fastforce
    let ?p = "p\<lparr>workerTaskQueue := queue @ now\<rparr>"
    obtain log1 where r: "processWithoutWorkers execute later ?p = (log1, p')" "done_log = direct_entry d (execute d) # log1"
      using "1.prems" Cons a by (subst (asm) processWithoutWorkers.simps) (auto split: prod.splits)
    from "1.IH" [OF Cons a [symmetric] refl r(1)] obtain k where
      "workerTaskQueue p' = []" "log1 = map (\<lambda>d. direct_entry d (execute d)) (queue @ now @ concat (take k later))"
      by auto
    moreover have "now @ concat (take k later) = concat (take (Suc k) arrivals)" using a by (cases arrivals) auto
    ultimately show ?thesis using r(2) Cons by (intro conjI exI [of _ "Suc k"]) simp_all
  qed
qed

end
