(* ===== verification/OptionsParser.thy ===== *)
theory OptionsParser
  imports QueueTypes Env
begin

text \<open>
  Validation of the options of \<open>enqueue\<close> (\<open>src/queue/queue-options.parser.ts\<close>). Each parser takes
  an arbitrary JavaScript value and returns the error it throws or the normalised value. The
  count of fallbacks to the general queue is the parser's only state; it is threaded through
  \<open>parseWorkloadTypeOption\<close> and \<open>normalizeEnqueueOptions\<close>, and it keeps an increment made before a
  later field is refused.
\<close>

record NormalizedEnqueueOptions =
  n_priority :: int
  n_category :: string
  n_size :: int
  n_timeout :: int
  n_workloadType :: "WorkloadType option"
  n_params :: jsobj
  n_functionCode :: "string option"
  n_batch :: bool
  n_requestId :: jsval

definition allowCustomWorkload :: "env \<Rightarrow> bool" where
  "allowCustomWorkload e = (e ''ALLOW_CUSTOM_WORKLOAD'' = Some ''true'')"

section \<open>The parsers\<close>

definition nullish :: "jsval \<Rightarrow> bool" where
  "nullish v = (v = Undefined \<or> v = Null)"

text \<open>Numbers as they are, strings through \<open>Number\<close>, anything else NaN.\<close>

fun number_option :: "jsval \<Rightarrow> jsnum" where
  "number_option (Num n) = n"
| "number_option (Str s) = string_to_number s"
| "number_option _ = NaN"

definition parsePositiveIntegerOption :: "jsval \<Rightarrow> string \<Rightarrow> int \<Rightarrow> queue_error + int" where
  "parsePositiveIntegerOption value optionName fallback =
     (if nullish value then Inr fallback
      else case as_integer (number_option value) of
             None \<Rightarrow> Inl (OptionNotPositive optionName)
           | Some parsed \<Rightarrow>
               if parsed \<le> 0 then Inl (OptionNotPositive optionName) else Inr parsed)"

definition parsePriorityOption :: "jsval \<Rightarrow> queue_error + int" where
  "parsePriorityOption value =
     (if nullish value then Inr 0
      else case as_integer (number_option value) of
             None \<Rightarrow> Inl PriorityNotInteger
           | Some parsed \<Rightarrow> Inr parsed)"

definition parseCategoryOption :: "jsval \<Rightarrow> queue_error + string" where
  "parseCategoryOption value =
     (if nullish value then Inr ''default''
      else case value of
             Str s \<Rightarrow> (let normalized = trim s in
                       if normalized = [] then Inl CategoryEmpty else Inr normalized)
           | _ \<Rightarrow> Inl CategoryNotString)"

definition parseParamsOption :: "jsval \<Rightarrow> queue_error + jsobj" where
  "parseParamsOption value =
     (if nullish value then Inr []
      else case value of Obj ob \<Rightarrow> Inr ob | _ \<Rightarrow> Inl ParamsNotObject)"

definition parseFunctionCodeOption :: "bool \<Rightarrow> jsval \<Rightarrow> queue_error + string option" where
  "parseFunctionCodeOption allowCustom value =
     (if nullish value \<or> value = Str [] then Inr None
      else case value of
             Str s \<Rightarrow> if \<not> allowCustom then Inl CustomDisabled else Inr (Some s)
           | _ \<Rightarrow> Inl FunctionCodeNotString)"

definition parseWorkloadTypeOption ::
  "bool \<Rightarrow> jsval \<Rightarrow> nat \<Rightarrow> (queue_error + WorkloadType option) \<times> nat" where
  "parseWorkloadTypeOption allowCustom value fallbacks =
     (if nullish value \<or> value = Str [] then (Inr None, fallbacks)
      else case value of
             Str s \<Rightarrow>
               (let normalized = to_lower (trim s) in
                if normalized = workload_name CPU then (Inr (Some CPU), fallbacks)
                else if normalized = workload_name MEMORY then (Inr (Some MEMORY), fallbacks)
                else if normalized = workload_name CUSTOM then
                  (if \<not> allowCustom then Inl CustomDisabled else Inr (Some CUSTOM), fallbacks)
                else (Inr (Some UNKNOWN), fallbacks + 1))
           | _ \<Rightarrow> (Inl WorkloadTypeNotString, fallbacks))"

text \<open>The fields in the order of the object literal: the first one that throws decides, and the
  workload type counts its fallback even when \<open>params\<close> or \<open>functionCode\<close> is refused after it.\<close>

definition normalizeEnqueueOptions ::
  "bool \<Rightarrow> EnqueueOptions \<Rightarrow> int \<Rightarrow> nat \<Rightarrow> (queue_error + NormalizedEnqueueOptions) \<times> nat" where
  "normalizeEnqueueOptions allowCustom options defaultTimeout fallbacks =
     (case and_then (parsePriorityOption (opt_priority options)) (\<lambda>p.
           and_then (parseCategoryOption (opt_category options)) (\<lambda>c.
           and_then (parsePositiveIntegerOption (opt_size options) ''size'' 1) (\<lambda>sz.
           and_then (parsePositiveIntegerOption (opt_timeout options) ''timeout'' defaultTimeout) (\<lambda>t.
             Inr (p, c, sz, t))))) of
        Inl err \<Rightarrow> (Inl err, fallbacks)
      | Inr (p, c, sz, t) \<Rightarrow>
          (let (workload, fallbacks') =
                 parseWorkloadTypeOption allowCustom (opt_workloadType options) fallbacks
           in (and_then workload (\<lambda>w.
               and_then (parseParamsOption (opt_params options)) (\<lambda>ps.
               and_then (parseFunctionCodeOption allowCustom (opt_functionCode options)) (\<lambda>code.
                 Inr \<lparr>n_priority = p, n_category = c, n_size = sz, n_timeout = t,
                      n_workloadType = w, n_params = ps, n_functionCode = code,
                      n_batch = (opt_batch options = Bool True),
                      n_requestId = opt_requestId options\<rparr>))),
               fallbacks')))"

section \<open>Facts\<close>

lemma parsePositiveIntegerOption_pos:
  "parsePositiveIntegerOption v name fallback = Inr n \<Longrightarrow> 0 < fallback \<Longrightarrow> 0 < n"
  by (auto simp: parsePositiveIntegerOption_def split: if_splits option.splits)

lemma strip_fuel:
  assumes "\<And>w. w \<in> set ws \<Longrightarrow> w \<noteq> []" and "length s \<le> fuel"
  shows "find (starts_with (strip ws fuel s)) ws = None"
  using assms(2)
proof (induction fuel arbitrary: s)
  case 0
  then have "s = []" by simp
  then show ?case using assms(1) by (auto simp: find_None_iff starts_with_def)
next
  case (Suc fuel)
  show ?case
  proof (cases "find (starts_with s) ws")
    case (Some w)
    then have "w \<in> set ws" by (auto simp: find_Some_iff)
    then have "w \<noteq> []" by (rule assms(1))
    then have "length (drop (length w) s) \<le> fuel" using Suc.prems by (cases w) auto
    with Some Suc.IH show ?thesis by simp
  qed simp
qed

text \<open>Trimming again changes nothing.\<close>

lemma strip_stable: "find (starts_with s) ws = None \<Longrightarrow> strip ws n s = s"
  by (cases n) auto

lemma strip_suffix: "\<exists>p. s = p @ strip ws n s"
proof (induction ws n s rule: strip.induct)
  case (2 ws fuel s)
  show ?case
  proof (cases "find (starts_with s) ws")
    case (Some w)
    with 2 obtain p where "drop (length w) s = p @ strip ws fuel (drop (length w) s)" by blast
    then have "s = (take (length w) s @ p) @ strip ws fuel (drop (length w) s)"
      by (metis append.assoc append_take_drop_id)
    then have "\<exists>q. s = q @ strip ws fuel (drop (length w) s)" by blast
    with Some show ?thesis by simp
  qed simp
qed simp

lemma trim_end_prefix: "\<exists>p. s = trim_end s @ p"
  using strip_suffix [of "rev s" "map rev white_space" "length s"]
  unfolding trim_end_def by (metis rev_append rev_rev_ident)

lemma trim_end_idem: "trim_end (trim_end s) = trim_end s"
proof -
  define r where "r = strip (map rev white_space) (length s) (rev s)"
  have "find (starts_with r) (map rev white_space) = None"
    unfolding r_def by (rule strip_fuel) (auto simp: white_space_def)
  then have "strip (map rev white_space) n r = r" for n by (rule strip_stable)
  then show ?thesis by (simp add: trim_end_def r_def)
qed

lemma starts_with_append: "starts_with s w \<Longrightarrow> starts_with (s @ t) w"
  unfolding starts_with_def by (metis append_eq_conv_conj append_take_drop_id append.assoc)

lemma trim_start_trim: "trim_start (trim s) = trim s"
proof -
  have "find (starts_with (trim_start s)) white_space = None"
    unfolding trim_start_def by (rule strip_fuel) (auto simp: white_space_def)
  then have "find (starts_with (trim s)) white_space = None"
    using trim_end_prefix [of "trim_start s"] starts_with_append
    unfolding trim_def by (metis find_None_iff)
  then show ?thesis unfolding trim_start_def by (rule strip_stable)
qed

lemma trim_idem: "trim (trim s) = trim s"
  using trim_start_trim [of s] by (simp add: trim_def trim_end_idem)

lemma parseCategoryOption_Inr:
  "parseCategoryOption v = Inr c \<Longrightarrow> c \<noteq> [] \<and> trim c = c"
proof (cases "nullish v")
  case True
  moreover assume "parseCategoryOption v = Inr c"
  ultimately have "c = ''default''" by (simp add: parseCategoryOption_def)
  moreover have "trim ''default'' = ''default''" by code_simp
  ultimately show ?thesis by simp
next
  case False
  moreover assume "parseCategoryOption v = Inr c"
  ultimately show ?thesis
    by (auto simp: parseCategoryOption_def Let_def trim_idem split: jsval.splits if_splits)
qed

lemma parseFunctionCodeOption_Inr:
  "parseFunctionCodeOption a v = Inr (Some c) \<Longrightarrow> a \<and> c \<noteq> []"
  by (auto simp: parseFunctionCodeOption_def split: jsval.splits if_splits)

lemma parseWorkloadTypeOption_custom:
  "parseWorkloadTypeOption a v n = (Inr (Some CUSTOM), n') \<Longrightarrow> a"
  by (auto simp: parseWorkloadTypeOption_def Let_def split: jsval.splits if_splits)

lemma normalizeEnqueueOptions_Inr:
  assumes "normalizeEnqueueOptions a opts d n = (Inr r, n')"
  shows "parsePriorityOption (opt_priority opts) = Inr (n_priority r)"
    and "parseCategoryOption (opt_category opts) = Inr (n_category r)"
    and "parsePositiveIntegerOption (opt_size opts) ''size'' 1 = Inr (n_size r)"
    and "parsePositiveIntegerOption (opt_timeout opts) ''timeout'' d = Inr (n_timeout r)"
    and "parseWorkloadTypeOption a (opt_workloadType opts) n = (Inr (n_workloadType r), n')"
    and "parseParamsOption (opt_params opts) = Inr (n_params r)"
    and "parseFunctionCodeOption a (opt_functionCode opts) = Inr (n_functionCode r)"
    and "n_batch r = (opt_batch opts = Bool True)" and "n_requestId r = opt_requestId opts"
  using assms
  by (auto simp: normalizeEnqueueOptions_def and_then_Inr Let_def split: sum.splits prod.splits)

text \<open>The options a normalised result stands for.\<close>

definition options_of :: "NormalizedEnqueueOptions \<Rightarrow> EnqueueOptions" where
  "options_of r =
     \<lparr>opt_priority = Num (num_of_int (n_priority r)), opt_requestId = n_requestId r,
      opt_category = Str (n_category r), opt_batch = Bool (n_batch r),
      opt_size = Num (num_of_int (n_size r)), opt_timeout = Num (num_of_int (n_timeout r)),
      opt_workloadType = (case n_workloadType r of None \<Rightarrow> Undefined | Some w \<Rightarrow> Str (workload_name w)),
      opt_params = Obj (n_params r),
      opt_functionCode = (case n_functionCode r of None \<Rightarrow> Undefined | Some c \<Rightarrow> Str c)\<rparr>"

lemma parseWorkloadTypeOption_name:
  assumes "w = CUSTOM \<Longrightarrow> a"
  shows "parseWorkloadTypeOption a (Str (workload_name w)) n =
           (Inr (Some w), n + (if w = UNKNOWN then 1 else 0))"
proof -
  have names: "to_lower (trim ''cpu'') = ''cpu''" "to_lower (trim ''memory'') = ''memory''"
    "to_lower (trim ''custom'') = ''custom''" "to_lower (trim ''unknown'') = ''unknown''"
    by code_simp+
  show ?thesis
    using assms by (cases w) (simp_all add: parseWorkloadTypeOption_def nullish_def names)
qed

text \<open>C12. What \<open>enqueue\<close> accepts is well typed: a normalised option set has a non-empty trimmed
  category, a positive size and a positive timeout, and neither custom code nor the custom
  workload type unless custom workloads are allowed. Normalising it again gives the same result
  and counts one more fallback exactly when its workload type is the unknown one.\<close>

theorem normalized_options_are_safe:
  assumes "normalizeEnqueueOptions allowCustom options defaultTimeout fallbacks = (Inr r, fallbacks')"
    and "0 < defaultTimeout"
  shows "n_category r \<noteq> [] \<and> trim (n_category r) = n_category r \<and> 0 < n_size r \<and> 0 < n_timeout r \<and>
         (n_functionCode r \<noteq> None \<longrightarrow> allowCustom \<and> n_functionCode r \<noteq> Some []) \<and>
         (n_workloadType r = Some CUSTOM \<longrightarrow> allowCustom) \<and>
         (\<forall>k. normalizeEnqueueOptions allowCustom (options_of r) defaultTimeout k =
           (Inr r, k + (if n_workloadType r = Some UNKNOWN then 1 else 0)))"
proof -
  note f = normalizeEnqueueOptions_Inr [OF assms(1)]
  have cat: "n_category r \<noteq> []" "trim (n_category r) = n_category r"
    using parseCategoryOption_Inr [OF f(2)] by auto
  have pos: "0 < n_size r" "0 < n_timeout r"
    using parsePositiveIntegerOption_pos [OF f(3)] parsePositiveIntegerOption_pos [OF f(4) assms(2)]
    by auto
  have code: "allowCustom \<and> c \<noteq> []" if "n_functionCode r = Some c" for c
    using f(7) that by (auto dest: parseFunctionCodeOption_Inr)
  have custom: "n_workloadType r = Some CUSTOM \<Longrightarrow> allowCustom"
    using f(5) by (auto dest: parseWorkloadTypeOption_custom)
  have w: "parseWorkloadTypeOption allowCustom (opt_workloadType (options_of r)) k =
      (Inr (n_workloadType r), k + (if n_workloadType r = Some UNKNOWN then 1 else 0))" for k
  proof (cases "n_workloadType r")
    case None
    then show ?thesis by (simp add: options_of_def parseWorkloadTypeOption_def nullish_def)
  next
    case (Some w)
    then show ?thesis
      using custom parseWorkloadTypeOption_name [of w allowCustom k] by (simp add: options_of_def)
  qed
  have c: "parseFunctionCodeOption allowCustom (opt_functionCode (options_of r)) = Inr (n_functionCode r)"
    using code by (cases "n_functionCode r") (auto simp: options_of_def parseFunctionCodeOption_def nullish_def)
  have "normalizeEnqueueOptions allowCustom (options_of r) defaultTimeout k =
      (Inr r, k + (if n_workloadType r = Some UNKNOWN then 1 else 0))" for k
    using w [of k] c cat pos
    by (simp add: normalizeEnqueueOptions_def options_of_def parsePriorityOption_def nullish_def
        parseCategoryOption_def parsePositiveIntegerOption_def parseParamsOption_def)
  then show ?thesis using cat pos code custom by auto
qed

theorem normalized_options_are_safe_witness:
  "let options = \<lparr>opt_priority = Str ''3'', opt_requestId = Str ''r1'', opt_category = Str '' user '',
         opt_batch = Bool True, opt_size = Num (Fin 2), opt_timeout = Null,
         opt_workloadType = Str ''weird'', opt_params = Undefined, opt_functionCode = Str []\<rparr>;
       r = \<lparr>n_priority = 3, n_category = ''user'', n_size = 2, n_timeout = 10000,
         n_workloadType = Some UNKNOWN, n_params = [], n_functionCode = None, n_batch = True,
         n_requestId = Str ''r1''\<rparr>
   in normalizeEnqueueOptions False options 10000 0 = (Inr r, 1) \<and>
      normalizeEnqueueOptions False (options_of r) 10000 1 = (Inr r, 2)"
proof -
  let ?o = "\<lparr>opt_priority = Str ''3'', opt_requestId = Str ''r1'', opt_category = Str '' user '',
         opt_batch = Bool True, opt_size = Num (Fin 2), opt_timeout = Null,
         opt_workloadType = Str ''weird'', opt_params = Undefined, opt_functionCode = Str []\<rparr>"
  let ?r = "\<lparr>n_priority = 3, n_category = ''user'', n_size = 2, n_timeout = 10000,
         n_workloadType = Some UNKNOWN, n_params = [], n_functionCode = None, n_batch = True,
         n_requestId = Str ''r1''\<rparr>"
  have n: "normalizeEnqueueOptions False ?o 10000 0 = (Inr ?r, 1)" by code_simp
  have "\<forall>k. normalizeEnqueueOptions False (options_of ?r) 10000 k =
      (Inr ?r, k + (if n_workloadType ?r = Some UNKNOWN then 1 else 0))"
    using normalized_options_are_safe [OF n] by simp
  from this [rule_format, of 1] n show ?thesis by simp
qed

end
