(* ===== verification/ErrorMessages.thy ===== *)
theory ErrorMessages
  imports QueueTypes
begin

text \<open>
  The message texts of the errors of the queue services, as the UTF-8 bytes of the string
  literals in the sources. The HTTP middleware classifies errors by searching these texts.
\<close>

fun error_message :: "queue_error \<Rightarrow> string" where
  "error_message (OptionNotPositive name) =
      name @ '' '' @ [CHR 0xEA, CHR 0xB0, CHR 0x92, CHR 0xEC, CHR 0x9D, CHR 0x80] @ '' 0'' @
      [CHR 0xEB, CHR 0xB3, CHR 0xB4, CHR 0xEB, CHR 0x8B, CHR 0xA4] @ '' '' @ [CHR 0xED, CHR 0x81,
      CHR 0xB0] @ '' '' @ [CHR 0xEC, CHR 0xA0, CHR 0x95, CHR 0xEC, CHR 0x88, CHR 0x98, CHR 0xEC,
      CHR 0x97, CHR 0xAC, CHR 0xEC, CHR 0x95, CHR 0xBC] @ '' '' @ [CHR 0xED, CHR 0x95, CHR 0xA9,
      CHR 0xEB, CHR 0x8B, CHR 0x88, CHR 0xEB, CHR 0x8B, CHR 0xA4] @ ''.''"
| "error_message PriorityNotInteger =
      ''priority'' @ [CHR 0xEB, CHR 0x8A, CHR 0x94] @ '' '' @ [CHR 0xEC, CHR 0xA0, CHR 0x95,
      CHR 0xEC, CHR 0x88, CHR 0x98, CHR 0xEC, CHR 0x97, CHR 0xAC, CHR 0xEC, CHR 0x95, CHR 0xBC] @
      '' '' @ [CHR 0xED, CHR 0x95, CHR 0xA9, CHR 0xEB, CHR 0x8B, CHR 0x88, CHR 0xEB, CHR 0x8B,
      CHR 0xA4] @ ''.''"
| "error_message CategoryNotString =
      ''category'' @ [CHR 0xEB, CHR 0x8A, CHR 0x94] @ '' '' @ [CHR 0xEB, CHR 0xAC, CHR 0xB8,
      CHR 0xEC, CHR 0x9E, CHR 0x90, CHR 0xEC, CHR 0x97, CHR 0xB4, CHR 0xEC, CHR 0x9D, CHR 0xB4,
      CHR 0xEC, CHR 0x96, CHR 0xB4, CHR 0xEC, CHR 0x95, CHR 0xBC] @ '' '' @ [CHR 0xED, CHR 0x95,
      CHR 0xA9, CHR 0xEB, CHR 0x8B, CHR 0x88, CHR 0xEB, CHR 0x8B, CHR 0xA4] @ ''.''"
| "error_message CategoryEmpty =
      ''category'' @ [CHR 0xEB, CHR 0x8A, CHR 0x94] @ '' '' @ [CHR 0xEB, CHR 0xB9, CHR 0x88] @
      '' '' @ [CHR 0xEB, CHR 0xAC, CHR 0xB8, CHR 0xEC, CHR 0x9E, CHR 0x90, CHR 0xEC, CHR 0x97,
      CHR 0xB4, CHR 0xEC, CHR 0x9D, CHR 0xBC] @ '' '' @ [CHR 0xEC, CHR 0x88, CHR 0x98] @ '' '' @
      [CHR 0xEC, CHR 0x97, CHR 0x86, CHR 0xEC, CHR 0x8A, CHR 0xB5, CHR 0xEB, CHR 0x8B, CHR 0x88,
      CHR 0xEB, CHR 0x8B, CHR 0xA4] @ ''.''"
| "error_message ParamsNotObject =
      ''params'' @ [CHR 0xEB, CHR 0x8A, CHR 0x94] @ '' '' @ [CHR 0xEA, CHR 0xB0, CHR 0x9D,
      CHR 0xEC, CHR 0xB2, CHR 0xB4] @ '' '' @ [CHR 0xED, CHR 0x98, CHR 0x95, CHR 0xED, CHR 0x83,
      CHR 0x9C, CHR 0xEC, CHR 0x97, CHR 0xAC, CHR 0xEC, CHR 0x95, CHR 0xBC] @ '' '' @ [CHR 0xED,
      CHR 0x95, CHR 0xA9, CHR 0xEB, CHR 0x8B, CHR 0x88, CHR 0xEB, CHR 0x8B, CHR 0xA4] @ ''.''"
| "error_message FunctionCodeNotString =
      ''functionCode'' @ [CHR 0xEB, CHR 0x8A, CHR 0x94] @ '' '' @ [CHR 0xEB, CHR 0xAC, CHR 0xB8,
      CHR 0xEC, CHR 0x9E, CHR 0x90, CHR 0xEC, CHR 0x97, CHR 0xB4, CHR 0xEC, CHR 0x9D, CHR 0xB4,
      CHR 0xEC, CHR 0x96, CHR 0xB4, CHR 0xEC, CHR 0x95, CHR 0xBC] @ '' '' @ [CHR 0xED, CHR 0x95,
      CHR 0xA9, CHR 0xEB, CHR 0x8B, CHR 0x88, CHR 0xEB, CHR 0x8B, CHR 0xA4] @ ''.''"
| "error_message CustomDisabled =
      ''custom workload '' @ [CHR 0xEA, CHR 0xB8, CHR 0xB0, CHR 0xEB, CHR 0x8A, CHR 0xA5,
      CHR 0xEC, CHR 0x9D, CHR 0xB4] @ '' '' @ [CHR 0xEB, CHR 0xB9, CHR 0x84, CHR 0xED, CHR 0x99,
      CHR 0x9C, CHR 0xEC, CHR 0x84, CHR 0xB1, CHR 0xED, CHR 0x99, CHR 0x94, CHR 0xEB, CHR 0x90,
      CHR 0x98, CHR 0xEC, CHR 0x96, CHR 0xB4] @ '' '' @ [CHR 0xEC, CHR 0x9E, CHR 0x88, CHR 0xEC,
      CHR 0x8A, CHR 0xB5, CHR 0xEB, CHR 0x8B, CHR 0x88, CHR 0xEB, CHR 0x8B, CHR 0xA4] @ ''.''"
| "error_message WorkloadTypeNotString =
      ''workloadType'' @ [CHR 0xEC, CHR 0x9D, CHR 0x80] @ '' '' @ [CHR 0xEB, CHR 0xAC, CHR 0xB8,
      CHR 0xEC, CHR 0x9E, CHR 0x90, CHR 0xEC, CHR 0x97, CHR 0xB4, CHR 0xEC, CHR 0x9D, CHR 0xB4,
      CHR 0xEC, CHR 0x96, CHR 0xB4, CHR 0xEC, CHR 0x95, CHR 0xBC] @ '' '' @ [CHR 0xED, CHR 0x95,
      CHR 0xA9, CHR 0xEB, CHR 0x8B, CHR 0x88, CHR 0xEB, CHR 0x8B, CHR 0xA4] @ ''.''"
| "error_message ServerOverloaded =
      [CHR 0xEC, CHR 0x84, CHR 0x9C, CHR 0xEB, CHR 0xB2, CHR 0x84] @ '' '' @ [CHR 0xEA, CHR 0xB3,
      CHR 0xBC, CHR 0xEB, CHR 0xB6, CHR 0x80, CHR 0xED, CHR 0x95, CHR 0x98, CHR 0xEB, CHR 0xA1,
      CHR 0x9C] @ '' '' @ [CHR 0xEC, CHR 0x9A, CHR 0x94, CHR 0xEC, CHR 0xB2, CHR 0xAD, CHR 0xEC,
      CHR 0x9D, CHR 0xB4] @ '' '' @ [CHR 0xEA, CHR 0xB1, CHR 0xB0, CHR 0xEB, CHR 0xB6, CHR 0x80,
      CHR 0xEB, CHR 0x90, CHR 0x98, CHR 0xEC, CHR 0x97, CHR 0x88, CHR 0xEC, CHR 0x8A, CHR 0xB5,
      CHR 0xEB, CHR 0x8B, CHR 0x88, CHR 0xEB, CHR 0x8B, CHR 0xA4] @ ''.''"
| "error_message QueueFull =
      [CHR 0xED, CHR 0x81, CHR 0x90, CHR 0xEA, CHR 0xB0, CHR 0x80] @ '' '' @ [CHR 0xEA, CHR 0xB0,
      CHR 0x80, CHR 0xEB, CHR 0x93, CHR 0x9D] @ '' '' @ [CHR 0xEC, CHR 0xB0, CHR 0xBC, CHR 0xEC,
      CHR 0x8A, CHR 0xB5, CHR 0xEB, CHR 0x8B, CHR 0x88, CHR 0xEB, CHR 0x8B, CHR 0xA4] @ ''. '' @
      [CHR 0xEC, CHR 0x9E, CHR 0xA0, CHR 0xEC, CHR 0x8B, CHR 0x9C] @ '' '' @ [CHR 0xED, CHR 0x9B,
      CHR 0x84] @ '' '' @ [CHR 0xEB, CHR 0x8B, CHR 0xA4, CHR 0xEC, CHR 0x8B, CHR 0x9C] @ '' '' @
      [CHR 0xEC, CHR 0x8B, CHR 0x9C, CHR 0xEB, CHR 0x8F, CHR 0x84, CHR 0xED, CHR 0x95, CHR 0xB4,
      CHR 0xEC, CHR 0xA3, CHR 0xBC, CHR 0xEC, CHR 0x84, CHR 0xB8, CHR 0xEC, CHR 0x9A, CHR 0x94] @
      ''.''"
| "error_message QueueWaitTimeout =
      [CHR 0xED, CHR 0x81, CHR 0x90] @ '' '' @ [CHR 0xEB, CHR 0x8C, CHR 0x80, CHR 0xEA, CHR 0xB8,
      CHR 0xB0] @ '' '' @ [CHR 0xEC, CHR 0x8B, CHR 0x9C, CHR 0xEA, CHR 0xB0, CHR 0x84] @ '' '' @
      [CHR 0xEC, CHR 0xB4, CHR 0x88, CHR 0xEA, CHR 0xB3, CHR 0xBC]"
| "error_message ResourceShortage =
      [CHR 0xEC, CHR 0x84, CHR 0x9C, CHR 0xEB, CHR 0xB2, CHR 0x84] @ '' '' @ [CHR 0xEB, CHR 0xA6,
      CHR 0xAC, CHR 0xEC, CHR 0x86, CHR 0x8C, CHR 0xEC, CHR 0x8A, CHR 0xA4] @ '' '' @ [CHR 0xEB,
      CHR 0xB6, CHR 0x80, CHR 0xEC, CHR 0xA1, CHR 0xB1, CHR 0xEC, CHR 0x9C, CHR 0xBC, CHR 0xEB,
      CHR 0xA1, CHR 0x9C] @ '' '' @ [CHR 0xEC, CHR 0x9A, CHR 0x94, CHR 0xEC, CHR 0xB2, CHR 0xAD,
      CHR 0xEC, CHR 0x9D, CHR 0xB4] @ '' '' @ [CHR 0xEC, CHR 0xB7, CHR 0xA8, CHR 0xEC, CHR 0x86,
      CHR 0x8C, CHR 0xEB, CHR 0x90, CHR 0x98, CHR 0xEC, CHR 0x97, CHR 0x88, CHR 0xEC, CHR 0x8A,
      CHR 0xB5, CHR 0xEB, CHR 0x8B, CHR 0x88, CHR 0xEB, CHR 0x8B, CHR 0xA4] @ ''.''"
| "error_message ProcessingDelayed =
      [CHR 0xEC, CHR 0x9A, CHR 0x94, CHR 0xEC, CHR 0xB2, CHR 0xAD] @ '' '' @ [CHR 0xEC, CHR 0xB2,
      CHR 0x98, CHR 0xEB, CHR 0xA6, CHR 0xAC] @ '' '' @ [CHR 0xEC, CHR 0xA7, CHR 0x80, CHR 0xEC,
      CHR 0x97, CHR 0xB0, CHR 0xEC, CHR 0x9C, CHR 0xBC, CHR 0xEB, CHR 0xA1, CHR 0x9C] @ '' '' @
      [CHR 0xEC, CHR 0xB7, CHR 0xA8, CHR 0xEC, CHR 0x86, CHR 0x8C, CHR 0xEB, CHR 0x90, CHR 0x98,
      CHR 0xEC, CHR 0x97, CHR 0x88, CHR 0xEC, CHR 0x8A, CHR 0xB5, CHR 0xEB, CHR 0x8B, CHR 0x88,
      CHR 0xEB, CHR 0x8B, CHR 0xA4] @ ''.''"
| "error_message BatchTimeout =
      [CHR 0xEB, CHR 0xB0, CHR 0xB0, CHR 0xEC, CHR 0xB9, CHR 0x98] @ '' '' @ [CHR 0xEC, CHR 0xB2,
      CHR 0x98, CHR 0xEB, CHR 0xA6, CHR 0xAC] @ '' '' @ [CHR 0xEC, CHR 0x8B, CHR 0x9C, CHR 0xEA,
      CHR 0xB0, CHR 0x84] @ '' '' @ [CHR 0xEC, CHR 0xB4, CHR 0x88, CHR 0xEA, CHR 0xB3, CHR 0xBC]"
| "error_message UnknownWorkload =
      [CHR 0xEC, CHR 0x95, CHR 0x8C] @ '' '' @ [CHR 0xEC, CHR 0x88, CHR 0x98] @ '' '' @ [CHR 0xEC,
      CHR 0x97, CHR 0x86, CHR 0xEB, CHR 0x8A, CHR 0x94] @ '' workloadType'' @ [CHR 0xEC, CHR 0x9D,
      CHR 0x80] @ '' '' @ [CHR 0xEC, CHR 0x9B, CHR 0x8C, CHR 0xEC, CHR 0xBB, CHR 0xA4, CHR 0xEB,
      CHR 0xA1, CHR 0x9C] @ '' '' @ [CHR 0xEC, CHR 0xB2, CHR 0x98, CHR 0xEB, CHR 0xA6, CHR 0xAC,
      CHR 0xED, CHR 0x95, CHR 0xA0] @ '' '' @ [CHR 0xEC, CHR 0x88, CHR 0x98] @ '' '' @ [CHR 0xEC,
      CHR 0x97, CHR 0x86, CHR 0xEC, CHR 0x8A, CHR 0xB5, CHR 0xEB, CHR 0x8B, CHR 0x88, CHR 0xEB,
      CHR 0x8B, CHR 0xA4] @ ''.''"
| "error_message WorkerFailed =
      [CHR 0xEC, CHR 0x9B, CHR 0x8C, CHR 0xEC, CHR 0xBB, CHR 0xA4] @ '' '' @ [CHR 0xEC, CHR 0xB2,
      CHR 0x98, CHR 0xEB, CHR 0xA6, CHR 0xAC] @ '' '' @ [CHR 0xEC, CHR 0x8B, CHR 0xA4, CHR 0xED,
      CHR 0x8C, CHR 0xA8]"
| "error_message (ExecutionTimeout ms) =
      [CHR 0xEC, CHR 0x9E, CHR 0x91, CHR 0xEC, CHR 0x97, CHR 0x85] @ '' '' @ [CHR 0xEC, CHR 0x8B,
      CHR 0xA4, CHR 0xED, CHR 0x96, CHR 0x89] @ '' '' @ [CHR 0xEC, CHR 0x8B, CHR 0x9C, CHR 0xEA,
      CHR 0xB0, CHR 0x84] @ '' '' @ [CHR 0xEC, CHR 0xB4, CHR 0x88, CHR 0xEA, CHR 0xB3, CHR 0xBC] @
      '' ('' @ show_int ms @ ''ms)''"
| "error_message (WorkerPostFailed m) =
      [CHR 0xEC, CHR 0x9B, CHR 0x8C, CHR 0xEC, CHR 0xBB, CHR 0xA4] @ '' '' @ [CHR 0xEC, CHR 0x9E,
      CHR 0x91, CHR 0xEC, CHR 0x97, CHR 0x85] @ '' '' @ [CHR 0xEC, CHR 0xA0, CHR 0x84, CHR 0xEC,
      CHR 0x86, CHR 0xA1] @ '' '' @ [CHR 0xEC, CHR 0x8B, CHR 0xA4, CHR 0xED, CHR 0x8C, CHR 0xA8] @
      '': '' @ m"
| "error_message (WorkerCrashed m) =
      [CHR 0xEC, CHR 0x9B, CHR 0x8C, CHR 0xEC, CHR 0xBB, CHR 0xA4] @ '' '' @ [CHR 0xEC, CHR 0x9E,
      CHR 0xA5, CHR 0xEC, CHR 0x95, CHR 0xA0, CHR 0xEB, CHR 0xA1, CHR 0x9C] @ '' '' @ [CHR 0xEC,
      CHR 0x9E, CHR 0x91, CHR 0xEC, CHR 0x97, CHR 0x85, CHR 0xEC, CHR 0x9D, CHR 0xB4] @ '' '' @
      [CHR 0xEC, CHR 0x8B, CHR 0xA4, CHR 0xED, CHR 0x8C, CHR 0xA8, CHR 0xED, CHR 0x96, CHR 0x88,
      CHR 0xEC, CHR 0x8A, CHR 0xB5, CHR 0xEB, CHR 0x8B, CHR 0x88, CHR 0xEB, CHR 0x8B, CHR 0xA4] @
      '': '' @ m"
| "error_message (Thrown m) = m"

end
