(* ===== verification/QueueSystem.thy ===== *)
theory QueueSystem
  imports MemoryService WorkerPool OptionsParser ErrorMessages
begin

text \<open>
  The queue as one state machine: \<open>src/queue/queue.service.ts\<close> and
  \<open>src/queue/queue-processor.service.ts\<close> over the state of the other services, with the parts of
  \<open>worker-pool.service.ts\<close> and \<open>worker-health.service.ts\<close> that call back into the processor.

  One event is one turn of the Node event loop: a call of \<open>enqueue\<close>, a timer or \<open>setImmediate\<close>
  callback, a message from a worker, or the settling of a promise together with the
  \<open>then\<close>/\<open>catch\<close>/\<open>finally\<close> callbacks it triggers. What the environment decides is in the event:
  the clock, the heap usage, what a task's \<open>execute\<close> yields, what a worker answers and which
  \<open>postMessage\<close> calls throw. Timers carry no durations, so an armed timer may fire at any moment;
  everything proved here holds for every timing.
\<close>

section \<open>State\<close>

text \<open>A dispatched batch: the tasks still running, the counters the promise callbacks share, and
  the number of slots to give back.\<close>

record BatchRun =
  run_tasks :: "QueueTask list"
  run_processed :: nat
  run_failed :: nat
  run_dispatched :: nat

record Sys =
  config :: QueueConfig
  customAllowed :: bool
  queue :: QueueState
  stats :: QueueStats
  memoryPressure :: bool
  pool :: WorkerPool
  fallbackCount :: nat
  mainRuns :: "QueueTask list"
  batchRuns :: "BatchRun list"
  queueTimers :: "nat list"
  batchImmediates :: "string list"
  intervalsOn :: bool
  settled :: "(nat \<times> outcome) list"
  admissionRejected :: nat

text \<open>The pieces of \<open>QueueStateHolder\<close>'s configuration, read from the environment.\<close>

definition read_config :: "env \<Rightarrow> QueueConfig" where
  "read_config e =
     \<lparr>concurrentTasks = readPositiveIntEnv e ''QUEUE_CONCURRENT_TASKS'' 50,
      maxConcurrentRequests = readPositiveIntEnv e ''QUEUE_MAX_CONCURRENT_REQUESTS'' 200,
      taskTimeoutMs = readPositiveIntEnv e ''QUEUE_TASK_TIMEOUT_MS'' 15000,
      executionTimeoutMs = readPositiveIntEnv e ''QUEUE_EXECUTION_TIMEOUT_MS'' 10000,
      queueOverflowThreshold = readPositiveIntEnv e ''QUEUE_OVERFLOW_THRESHOLD'' 3000\<rparr>"

text \<open>The state after \<open>onModuleInit\<close>: a task counter and totals taken from a snapshot, or zero.\<close>

definition sys_init :: "env \<Rightarrow> nat \<Rightarrow> QueueStats \<Rightarrow> Sys" where
  "sys_init e counter st =
     \<lparr>config = read_config e, customAllowed = allowCustomWorkload e,
      queue = init_queue_state\<lparr>taskIdCounter := counter\<rparr>, stats = st, memoryPressure = False,
      pool = initWorkerPool (init_pool e), fallbackCount = 0, mainRuns = [], batchRuns = [],
      queueTimers = [], batchImmediates = [], intervalsOn = True, settled = [],
      admissionRejected = 0\<rparr>"

section \<open>The queue processor\<close>

text \<open>A call of \<open>task.resolve\<close> or \<open>task.reject\<close>, which also clears the task's wait timer.\<close>

definition settle :: "QueueTask \<Rightarrow> outcome \<Rightarrow> Sys \<Rightarrow> Sys" where
  "settle t r s =
     s\<lparr>settled := settled s @ [(task_id t, r)],
       queueTimers := removeAll (task_id t) (queueTimers s)\<rparr>"

fun settle_all :: "(QueueTask \<times> queue_error) list \<Rightarrow> Sys \<Rightarrow> Sys" where
  "settle_all [] s = s"
| "settle_all ((t, err) # fs) s = settle_all fs (settle t (Rejected err) s)"

definition requestProcessQueue :: "Sys \<Rightarrow> Sys" where
  "requestProcessQueue s =
     (if processSignalPending (queue s) then s
      else s\<lparr>queue := (queue s)\<lparr>processSignalPending := True\<rparr>\<rparr>)"

definition releaseSlot :: "Sys \<Rightarrow> Sys" where
  "releaseSlot s = s\<lparr>queue := decrementActiveRequests (queue s)\<rparr>"

definition onWorkerTaskDispatchFailed :: "Sys \<Rightarrow> Sys" where
  "onWorkerTaskDispatchFailed s =
     requestProcessQueue ((releaseSlot s)\<lparr>stats := incrementRejected 1 (stats s)\<rparr>)"

text \<open>The failures of \<open>processWorkerTasks\<close>: each task is rejected, then the callback runs.\<close>

fun apply_failures :: "failures \<Rightarrow> Sys \<Rightarrow> Sys" where
  "apply_failures [] s = s"
| "apply_failures ((t, err) # fs) s =
     apply_failures fs (onWorkerTaskDispatchFailed (settle t (Rejected err) s))"

definition run_pool :: "post \<Rightarrow> Sys \<Rightarrow> Sys" where
  "run_pool post s =
     (let (p, failed) = processWorkerTasks post (pool s) in apply_failures failed (s\<lparr>pool := p\<rparr>))"

definition isWorkerEligibleTask :: "Sys \<Rightarrow> QueueTask \<Rightarrow> bool" where
  "isWorkerEligibleTask s t =
     (if \<not> useWorkers (pool s) then False
      else if priority t < 0 then False
      else workloadType t = Some CPU \<or> workloadType t = Some MEMORY \<or> workloadType t = Some CUSTOM)"

definition createWorkerTaskData :: "QueueTask \<Rightarrow> WorkerTaskData" where
  "createWorkerTaskData t =
     \<lparr>wtask = t, wtype = workloadType t, woperation = None,
      wparams = (case params t of None \<Rightarrow> [] | Some ps \<Rightarrow> ps),
      wfunctionCode = functionCode t, wtimeout = task_timeout t\<rparr>"

definition takeSlot :: "Sys \<Rightarrow> Sys" where
  "takeSlot s = s\<lparr>queue := (queue s)\<lparr>activeRequests := activeRequests (queue s) + 1\<rparr>\<rparr>"

text \<open>The body of the inner loop: a task goes to the worker queue or starts on the main thread.\<close>

definition start_task :: "QueueTask \<Rightarrow> nat \<Rightarrow> Sys \<Rightarrow> nat \<times> Sys" where
  "start_task t workerDispatchCount s =
     (if isWorkerEligibleTask s t then
        (workerDispatchCount + 1,
         (takeSlot s)\<lparr>pool := addTask (createWorkerTaskData t) (pool s)\<rparr>)
      else (workerDispatchCount, (takeSlot s)\<lparr>mainRuns := mainRuns s @ [t]\<rparr>))"

fun drain_queue ::
  "int \<Rightarrow> QueueTask list \<Rightarrow> int \<Rightarrow> nat \<Rightarrow> Sys \<Rightarrow> QueueTask list \<times> int \<times> nat \<times> Sys" where
  "drain_queue availableSlots [] processed dispatched s = ([], processed, dispatched, s)"
| "drain_queue availableSlots (t # ts) processed dispatched s =
     (if processed < availableSlots then
        let (dispatched', s') = start_task t dispatched s
        in drain_queue availableSlots ts (processed + 1) dispatched' s'
      else (t # ts, processed, dispatched, s))"

fun queue_at :: "level \<Rightarrow> QueueState \<Rightarrow> QueueTask list" where
  "queue_at High q = highPriorityQueue q"
| "queue_at Normal q = normalPriorityQueue q"
| "queue_at Low q = lowPriorityQueue q"

fun set_queue_at :: "level \<Rightarrow> QueueTask list \<Rightarrow> QueueState \<Rightarrow> QueueState" where
  "set_queue_at High ts q = q\<lparr>highPriorityQueue := ts\<rparr>"
| "set_queue_at Normal ts q = q\<lparr>normalPriorityQueue := ts\<rparr>"
| "set_queue_at Low ts q = q\<lparr>lowPriorityQueue := ts\<rparr>"

fun drain_levels :: "int \<Rightarrow> level list \<Rightarrow> int \<Rightarrow> nat \<Rightarrow> Sys \<Rightarrow> nat \<times> Sys" where
  "drain_levels availableSlots [] processed dispatched s = (dispatched, s)"
| "drain_levels availableSlots (l # ls) processed dispatched s =
     (let (rest, processed', dispatched', s1) =
            drain_queue availableSlots (queue_at l (queue s)) processed dispatched s;
          s2 = s1\<lparr>queue := set_queue_at l rest (queue s1)\<rparr>
      in if processed' \<ge> availableSlots then (dispatched', s2)
         else drain_levels availableSlots ls processed' dispatched' s2)"

definition served_levels :: "Sys \<Rightarrow> level list" where
  "served_levels s = (if memoryPressure s then [High, Normal] else [High, Normal, Low])"

definition available_slots :: "Sys \<Rightarrow> int" where
  "available_slots s =
     min (concurrentTasks (config s)) (maxConcurrentRequests (config s) - activeRequests (queue s))"

definition processQueue :: "post \<Rightarrow> Sys \<Rightarrow> Sys" where
  "processQueue post s =
     (if isProcessingQueue (queue s) then s
      else if activeRequests (queue s) \<ge> maxConcurrentRequests (config s) then s
      else
        let s0 = s\<lparr>queue := (queue s)\<lparr>isProcessingQueue := True\<rparr>\<rparr>;
            (dispatched, s1) = drain_levels (available_slots s0) (served_levels s0) 0 0 s0;
            s2 = (if dispatched > 0 then run_pool post s1 else s1);
            s3 = s2\<lparr>queue := (queue s2)\<lparr>isProcessingQueue := False\<rparr>\<rparr>
        in if activeRequests (queue s3) < maxConcurrentRequests (config s3) \<and>
              getTotalQueueLength (queue s3) > 0
           then requestProcessQueue s3 else s3)"

text \<open>\<open>processBatch\<close> up to the promises, with \<open>onComplete(0, dispatchCount, 0)\<close> and the run it
  leaves behind; \<open>batch_complete\<close> is the later \<open>onComplete(processed, -dispatchCount, failed)\<close>.\<close>

definition processBatch_cb :: "int \<Rightarrow> string \<Rightarrow> Sys \<Rightarrow> Sys" where
  "processBatch_cb now cat s =
     (let (bs, started) = processBatch now cat (batchQueues (queue s)) (activeRequests (queue s))
                            (maxConcurrentRequests (config s));
          s1 = s\<lparr>queue := (queue s)\<lparr>batchQueues := bs\<rparr>\<rparr>
      in case started of
           None \<Rightarrow> s1
         | Some ts \<Rightarrow>
             s1\<lparr>queue := (queue s1)\<lparr>activeRequests :=
                  max 0 (activeRequests (queue s1) + int (length ts))\<rparr>,
                batchRuns := batchRuns s1 @
                  [\<lparr>run_tasks = ts, run_processed = 0, run_failed = 0, run_dispatched = length ts\<rparr>]\<rparr>)"

definition batch_complete :: "BatchRun \<Rightarrow> Sys \<Rightarrow> Sys" where
  "batch_complete r s =
     (let st = incrementProcessed (run_processed r) (stats s);
          st' = (if run_failed r > 0 then incrementRejected (run_failed r) st else st);
          s1 = s\<lparr>stats := st',
                 queue := (queue s)\<lparr>activeRequests :=
                   max 0 (activeRequests (queue s) - int (run_dispatched r))\<rparr>\<rparr>
      in if run_dispatched r > 0 then requestProcessQueue s1 else s1)"

definition handleWorkerResult_cb :: "post \<Rightarrow> nat \<Rightarrow> WorkerMessage \<Rightarrow> Sys \<Rightarrow> Sys" where
  "handleWorkerResult_cb post workerId m s =
     (let (p, result) = handleWorkerResult workerId m (pool s);
          s1 = s\<lparr>pool := p\<rparr>;
          s2 = (case result of
                  None \<Rightarrow> s1
                | Some (t, r) \<Rightarrow>
                    (let s' = settle t r s1;
                         st = (if msg_success m then incrementProcessed 1 (stats s')
                               else incrementRejected 1 (stats s'))
                     in requestProcessQueue (releaseSlot (s'\<lparr>stats := st\<rparr>))))
      in run_pool post s2)"

section \<open>Promises of tasks on the main thread\<close>

text \<open>What \<open>execute\<close>, wrapped by \<open>withExecutionTimeout\<close>, can yield.\<close>

fun execute_outcome :: "outcome \<Rightarrow> bool" where
  "execute_outcome (Resolved _) = True"
| "execute_outcome (Rejected (Thrown _)) = True"
| "execute_outcome (Rejected (ExecutionTimeout _)) = True"
| "execute_outcome _ = False"

fun is_resolved :: "outcome \<Rightarrow> bool" where
  "is_resolved (Resolved _) = True"
| "is_resolved (Rejected _) = False"

definition main_done :: "nat \<Rightarrow> outcome \<Rightarrow> Sys \<Rightarrow> Sys" where
  "main_done i r s =
     (case splice_task i (mainRuns s) of
        None \<Rightarrow> s
      | Some (t, rest) \<Rightarrow>
          (let s1 = settle t r (s\<lparr>mainRuns := rest\<rparr>);
               st = (if is_resolved r then incrementProcessed 1 (stats s1)
                     else incrementRejected 1 (stats s1))
           in requestProcessQueue (releaseSlot (s1\<lparr>stats := st\<rparr>))))"

definition batch_done :: "nat \<Rightarrow> nat \<Rightarrow> outcome \<Rightarrow> Sys \<Rightarrow> Sys" where
  "batch_done j i r s =
     (if j < length (batchRuns s) then
        let br = batchRuns s ! j in
        (case splice_task i (run_tasks br) of
           None \<Rightarrow> s
         | Some (t, rest) \<Rightarrow>
             (let s1 = settle t r s;
                  br' = br\<lparr>run_tasks := rest,
                           run_processed := run_processed br + (if is_resolved r then 1 else 0),
                           run_failed := run_failed br + (if is_resolved r then 0 else 1)\<rparr>
              in if rest = []
                 then batch_complete br' (s1\<lparr>batchRuns := take j (batchRuns s) @ drop (Suc j) (batchRuns s)\<rparr>)
                 else s1\<lparr>batchRuns := (batchRuns s)[j := br']\<rparr>))
      else s)"

section \<open>Workers\<close>

definition failure_message :: "string \<Rightarrow> WorkerMessage" where
  "failure_message err =
     \<lparr>msg_success = False, msg_result = Undefined, msg_error = Some (error_message (WorkerCrashed err)),
      msg_initialized = False, msg_healthCheck = False\<rparr>"

text \<open>The branch without \<open>onResult\<close>: reject the task, without the processor's callbacks.\<close>

definition fail_unlinked :: "nat \<Rightarrow> string \<Rightarrow> Sys \<Rightarrow> Sys" where
  "fail_unlinked index err s =
     (case map_of (assignedTasks (pool s)) index of
        None \<Rightarrow> s
      | Some d \<Rightarrow>
          settle (wtask d) (Rejected (WorkerCrashed err))
            (s\<lparr>pool := (pool s)\<lparr>assignedTasks := AList.delete index (assignedTasks (pool s)),
                 router_state := decrementActiveByType (determineTaskType d) (router_state (pool s))\<rparr>\<rparr>))"

definition replace_worker :: "nat \<Rightarrow> WorkerPool \<Rightarrow> WorkerPool" where
  "replace_worker index p =
     createOrReplaceWorker index (p\<lparr>workerBusy := arr_set False index False (workerBusy p)\<rparr>)"

definition handleWorkerFailure :: "post \<Rightarrow> nat \<Rightarrow> string \<Rightarrow> Sys \<Rightarrow> Sys" where
  "handleWorkerFailure post index err s =
     (if shuttingDown (pool s) then s
      else
        let s1 = s\<lparr>pool := clearPingTimeout index (pool s)\<rparr>;
            s2 = (if index \<in> fst ` set (assignedTasks (pool s1)) then
                    if hasOnResult (pool s1) then
                      handleWorkerResult_cb post index (failure_message err) s1
                    else fail_unlinked index err s1
                  else s1)
        in s2\<lparr>pool := replace_worker index (pool s2)\<rparr>)"

text \<open>The \<open>message\<close> listener of the worker at \<open>index\<close>.\<close>

definition on_message :: "post \<Rightarrow> nat \<Rightarrow> WorkerMessage \<Rightarrow> Sys \<Rightarrow> Sys" where
  "on_message post index m s =
     (if msg_initialized m then
        s\<lparr>pool := (pool s)\<lparr>workerBusy := arr_set False index False (workerBusy (pool s))\<rparr>\<rparr>
      else if msg_healthCheck m then s\<lparr>pool := clearPingTimeout index (pool s)\<rparr>
      else
        let s1 = s\<lparr>pool := clearPingTimeout index (pool s)\<rparr>
        in if hasOnResult (pool s1) then handleWorkerResult_cb post index m s1 else s1)"

definition PING_TIMEOUT_MESSAGE :: string where
  "PING_TIMEOUT_MESSAGE =
      [CHR 0xEC, CHR 0x9B, CHR 0x8C, CHR 0xEC, CHR 0xBB, CHR 0xA4] @ '' '' @ [CHR 0xED, CHR 0x97,
      CHR 0xAC, CHR 0xEC, CHR 0x8A, CHR 0xA4, CHR 0xEC, CHR 0xB2, CHR 0xB4, CHR 0xED, CHR 0x81,
      CHR 0xAC] @ '' '' @ [CHR 0xED, CHR 0x83, CHR 0x80, CHR 0xEC, CHR 0x9E, CHR 0x84, CHR 0xEC,
      CHR 0x95, CHR 0x84, CHR 0xEC, CHR 0x9B, CHR 0x83]"

text \<open>The health-check tick: ping every idle worker that has no ping pending.\<close>

fun health_loop :: "post \<Rightarrow> nat list \<Rightarrow> Sys \<Rightarrow> Sys" where
  "health_loop post [] s = s"
| "health_loop post (i # is) s =
     health_loop post is
       (case worker_at (pool s) i of
          None \<Rightarrow> s
        | Some inst \<Rightarrow>
            if busy_at (pool s) i then s
            else if i \<in> set (pingTimeoutMap (pool s)) then s
            else case post inst Ping of
                   None \<Rightarrow> s\<lparr>pool := setPingTimeout i inst (pool s)\<rparr>
                 | Some err \<Rightarrow> handleWorkerFailure post i err s)"

section \<open>The queue service\<close>

definition new_task :: "int \<Rightarrow> nat \<Rightarrow> NormalizedEnqueueOptions \<Rightarrow> QueueTask" where
  "new_task now i n =
     \<lparr>task_id = i, requestId = n_requestId n, timestamp = now, priority = n_priority n,
      category = Some (n_category n), task_size = Some (n_size n), workloadType = n_workloadType n,
      params = Some (n_params n), functionCode = n_functionCode n, task_timeout = Some (n_timeout n)\<rparr>"

definition place_task :: "int \<Rightarrow> bool \<Rightarrow> QueueTask \<Rightarrow> Sys \<Rightarrow> Sys" where
  "place_task now batch t s =
     (let q = queue s in
      if batch \<and> shouldAddToBatch t (batchQueues q) then
        (let (bs, full) = addTaskToBatch now t (batchQueues q) in
         s\<lparr>queue := q\<lparr>batchQueues := bs\<rparr>,
           batchImmediates := (if full then batchImmediates s @ [category_or_empty t]
                               else batchImmediates s)\<rparr>)
      else if priority t \<ge> 5 then
        s\<lparr>queue := q\<lparr>highPriorityQueue := highPriorityQueue q @ [t]\<rparr>\<rparr>
      else if priority t \<ge> 0 then
        s\<lparr>queue := q\<lparr>normalPriorityQueue := normalPriorityQueue q @ [t]\<rparr>\<rparr>
      else s\<lparr>queue := q\<lparr>lowPriorityQueue := lowPriorityQueue q @ [t]\<rparr>\<rparr>)"

definition admit :: "int \<Rightarrow> NormalizedEnqueueOptions \<Rightarrow> Sys \<Rightarrow> Sys" where
  "admit now n s =
     (let i = taskIdCounter (queue s) + 1;
          t = new_task now i n;
          s1 = s\<lparr>queue := (queue s)\<lparr>taskIdCounter := i\<rparr>, queueTimers := queueTimers s @ [i]\<rparr>
      in requestProcessQueue (place_task now (n_batch n) t s1))"

definition refuse :: "Sys \<Rightarrow> Sys" where
  "refuse s = s\<lparr>stats := incrementRejected 1 (stats s), admissionRejected := admissionRejected s + 1\<rparr>"

definition enqueue :: "int \<Rightarrow> EnqueueOptions \<Rightarrow> Sys \<Rightarrow> (queue_error + nat) \<times> Sys" where
  "enqueue now options s =
     (let (normalized, fallbacks) =
            normalizeEnqueueOptions (customAllowed s) options (executionTimeoutMs (config s))
              (fallbackCount s);
          s1 = s\<lparr>fallbackCount := fallbacks\<rparr>
      in case normalized of
           Inl err \<Rightarrow> (Inl err, s1)
         | Inr n \<Rightarrow>
             if memoryPressure s1 \<and> n_priority n < 0 then (Inl ServerOverloaded, refuse s1)
             else if int (getTotalQueueLength (queue s1)) \<ge> queueOverflowThreshold (config s1) then
               (Inl QueueFull, refuse s1)
             else (Inr (taskIdCounter (queue s1) + 1), admit now n s1))"

text \<open>The wait timer of a task fires.\<close>

definition queue_timeout :: "nat \<Rightarrow> Sys \<Rightarrow> Sys" where
  "queue_timeout i s =
     (let s0 = s\<lparr>queueTimers := removeAll i (queueTimers s)\<rparr>;
          (removed, q) = removeTaskFromQueues i (queue s0)
      in if removed then
           s0\<lparr>queue := q, stats := incrementTimeout 1 (stats s0),
              settled := settled s0 @ [(i, Rejected QueueWaitTimeout)]\<rparr>
         else s0\<lparr>queue := q\<rparr>)"

definition process_tick :: "Sys \<Rightarrow> Sys" where
  "process_tick s = (if getTotalQueueLength (queue s) > 0 then requestProcessQueue s else s)"

definition aging_tick :: "int \<Rightarrow> Sys \<Rightarrow> Sys" where
  "aging_tick now s = processAgedBatches now (batchQueues \<circ> queue) (processBatch_cb now) s"

definition cleanup_cb :: "int \<Rightarrow> Sys \<Rightarrow> Sys" where
  "cleanup_cb now s =
     (let q = queue s;
          c = cleanupOldTasks now (taskTimeoutMs (config s)) (highPriorityQueue q)
                (normalPriorityQueue q) (lowPriorityQueue q) (batchQueues q);
          s1 = settle_all (cleaned c)
                 (s\<lparr>queue := q\<lparr>highPriorityQueue := kept_high c, normalPriorityQueue := kept_normal c,
                     lowPriorityQueue := kept_low c, batchQueues := kept_batches c\<rparr>\<rparr>)
      in s1\<lparr>stats := incrementTimeout (length (cleaned c)) (stats s1)\<rparr>)"

definition force_reduce_cb :: "int \<Rightarrow> Sys \<Rightarrow> Sys" where
  "force_reduce_cb now s =
     (let (totalRejected, s1) =
            forceReduceQueues (lowPriorityQueue \<circ> queue)
              (\<lambda>low rejected s. settle_all (map (\<lambda>t. (t, ResourceShortage)) rejected)
                                  (s\<lparr>queue := (queue s)\<lparr>lowPriorityQueue := low\<rparr>\<rparr>))
              (batchQueues \<circ> queue) (processBatch_cb now) s
      in s1\<lparr>stats := incrementRejected totalRejected (stats s1)\<rparr>)"

definition memory_tick :: "int \<Rightarrow> bool \<Rightarrow> rat \<Rightarrow> Sys \<Rightarrow> Sys" where
  "memory_tick now gc usageRatio s =
     (let (pressure, s1) = checkMemoryUsage gc usageRatio (cleanup_cb now) (force_reduce_cb now) s;
          s2 = s1\<lparr>memoryPressure := pressure\<rparr>
      in if \<not> memoryPressure s2 \<and> lowPriorityQueue (queue s2) \<noteq> []
         then requestProcessQueue s2 else s2)"

definition stats_tick :: "Sys \<Rightarrow> Sys" where
  "stats_tick s = s\<lparr>stats := logStats (stats s)\<rparr>"

definition run_process_immediate :: "post \<Rightarrow> Sys \<Rightarrow> Sys" where
  "run_process_immediate post s =
     processQueue post (s\<lparr>queue := (queue s)\<lparr>processSignalPending := False\<rparr>\<rparr>)"

definition run_batch_immediate :: "int \<Rightarrow> string \<Rightarrow> Sys \<Rightarrow> Sys" where
  "run_batch_immediate now cat s =
     processBatch_cb now cat (s\<lparr>batchImmediates := remove1 cat (batchImmediates s)\<rparr>)"

section \<open>Events\<close>

datatype event =
    Enqueue int EnqueueOptions
  | ProcessImmediate post
  | BatchImmediate int string
  | MainDone nat outcome
  | BatchDone nat nat outcome
  | WorkerSays post nat nat WorkerMessage
  | WorkerDies post nat nat string
  | PingTimeout post nat
  | HealthTick post
  | WaitTimeout nat
  | ProcessTick
  | AgingTick int
  | MemoryTick int bool rat
  | StatsTick
  | ClearIntervals
  | DestroyBegin
  | DestroyEnd

text \<open>When an event can happen. A listener belongs to the worker instance it was attached to, and
  replacing a worker removes its listeners.\<close>

fun enabled :: "event \<Rightarrow> Sys \<Rightarrow> bool" where
  "enabled (Enqueue _ _) s = True"
| "enabled (ProcessImmediate _) s = processSignalPending (queue s)"
| "enabled (BatchImmediate _ cat) s = (cat \<in> set (batchImmediates s))"
| "enabled (MainDone i r) s = (i \<in> task_id ` set (mainRuns s) \<and> execute_outcome r)"
| "enabled (BatchDone j i r) s =
     (j < length (batchRuns s) \<and> i \<in> task_id ` set (run_tasks (batchRuns s ! j)) \<and> execute_outcome r)"
| "enabled (WorkerSays _ index inst _) s = (worker_at (pool s) index = Some inst)"
| "enabled (WorkerDies _ index inst _) s = (worker_at (pool s) index = Some inst)"
| "enabled (PingTimeout _ index) s = (index \<in> set (pingTimeoutMap (pool s)))"
| "enabled (HealthTick _) s = (useWorkers (pool s) \<and> \<not> shuttingDown (pool s))"
| "enabled (WaitTimeout i) s = (i \<in> set (queueTimers s))"
| "enabled ProcessTick s = intervalsOn s"
| "enabled (AgingTick _) s = intervalsOn s"
| "enabled (MemoryTick _ _ _) s = intervalsOn s"
| "enabled StatsTick s = intervalsOn s"
| "enabled ClearIntervals s = intervalsOn s"
| "enabled DestroyBegin s = (\<not> intervalsOn s \<and> \<not> shuttingDown (pool s))"
| "enabled DestroyEnd s = shuttingDown (pool s)"

fun handle :: "event \<Rightarrow> Sys \<Rightarrow> Sys" where
  "handle (Enqueue now options) s = snd (enqueue now options s)"
| "handle (ProcessImmediate post) s = run_process_immediate post s"
| "handle (BatchImmediate now cat) s = run_batch_immediate now cat s"
| "handle (MainDone i r) s = main_done i r s"
| "handle (BatchDone j i r) s = batch_done j i r s"
| "handle (WorkerSays post index inst m) s = on_message post index m s"
| "handle (WorkerDies post index inst err) s = handleWorkerFailure post index err s"
| "handle (PingTimeout post index) s = handleWorkerFailure post index PING_TIMEOUT_MESSAGE s"
| "handle (HealthTick post) s = health_loop post [0..<length (workerPool (pool s))] s"
| "handle (WaitTimeout i) s = queue_timeout i s"
| "handle ProcessTick s = process_tick s"
| "handle (AgingTick now) s = aging_tick now s"
| "handle (MemoryTick now gc ratio) s = memory_tick now gc ratio s"
| "handle StatsTick s = stats_tick s"
| "handle ClearIntervals s = s\<lparr>intervalsOn := False\<rparr>"
| "handle DestroyBegin s = s\<lparr>pool := destroy_begin (pool s)\<rparr>"
| "handle DestroyEnd s = s\<lparr>pool := destroy_end (pool s)\<rparr>"

inductive step :: "Sys \<Rightarrow> Sys \<Rightarrow> bool" where
  step: "enabled ev s \<Longrightarrow> step s (handle ev s)"

inductive_cases stepE: "step s t"

definition start_state :: "Sys \<Rightarrow> bool" where
  "start_state s \<longleftrightarrow> (\<exists>e counter st. s = sys_init e counter st)"

definition reachable :: "Sys \<Rightarrow> Sys \<Rightarrow> bool" where
  "reachable s0 s \<longleftrightarrow> start_state s0 \<and> step\<^sup>*\<^sup>* s0 s"

text \<open>Runs, for evaluation: \<open>None\<close> when an event is not enabled.\<close>

fun run :: "event list \<Rightarrow> Sys \<Rightarrow> Sys option" where
  "run [] s = Some s"
| "run (ev # evs) s = (if enabled ev s then run evs (handle ev s) else None)"

lemma run_steps: "run evs s = Some t \<Longrightarrow> step\<^sup>*\<^sup>* s t"
  by (induction evs arbitrary: s)
     (auto split: if_splits intro: step converse_rtranclp_into_rtranclp)

lemma run_reachable: "run evs (sys_init e c st) = Some t \<Longrightarrow> reachable (sys_init e c st) t"
  by (auto simp: reachable_def start_state_def dest: run_steps)

end
