(* ===== verification/QueueProcessing.thy ===== *)
theory QueueProcessing
  imports QueueSystem
begin

text \<open>
  What one run of \<open>processQueue\<close> does, as a closed form: the loops over the queues start the first
  \<open>n\<close> waiting tasks in level order (\<open>started\<close>) and leave the rest where they are (\<open>leave\<close>). The
  theorem on dispatch order and the one on the self-signalling loop are at the end.
\<close>

section \<open>Closed form of the loops\<close>

definition started :: "QueueTask list \<Rightarrow> Sys \<Rightarrow> Sys" where
  "started ts s =
     s\<lparr>queue := (queue s)\<lparr>activeRequests := activeRequests (queue s) + int (length ts)\<rparr>,
       pool := (pool s)\<lparr>workerTaskQueue := workerTaskQueue (pool s) @
                 map createWorkerTaskData (filter (isWorkerEligibleTask s) ts)\<rparr>,
       mainRuns := mainRuns s @ filter (\<lambda>t. \<not> isWorkerEligibleTask s t) ts\<rparr>"

fun leave :: "nat \<Rightarrow> level list \<Rightarrow> QueueState \<Rightarrow> QueueState" where
  "leave n [] q = q"
| "leave n (l # ls) q =
     leave (n - length (queue_at l q)) ls (set_queue_at l (drop n (queue_at l q)) q)"

definition waiting_at :: "level list \<Rightarrow> QueueState \<Rightarrow> QueueTask list" where
  "waiting_at ls q = concat (map (\<lambda>l. queue_at l q) ls)"

lemma eligible_started [simp]: "isWorkerEligibleTask (started ts s) = isWorkerEligibleTask s"
  by (simp add: fun_eq_iff isWorkerEligibleTask_def started_def)

lemma eligible_queue [simp]: "isWorkerEligibleTask (s\<lparr>queue := q\<rparr>) = isWorkerEligibleTask s"
  by (simp add: fun_eq_iff isWorkerEligibleTask_def)

lemma started_Nil [simp]: "started [] s = s"
  by (simp add: started_def)

lemma started_append: "started ys (started xs s) = started (xs @ ys) s"
  using eligible_started [of xs s] unfolding started_def by simp

lemma started_queue: "started ts (s\<lparr>queue := q\<rparr>) =
    (started ts s)\<lparr>queue := q\<lparr>activeRequests := activeRequests q + int (length ts)\<rparr>\<rparr>"
  by (simp add: started_def)

lemma start_task_eq:
  "start_task t d s = (d + length (filter (isWorkerEligibleTask s) [t]), started [t] s)"
  by (simp add: start_task_def started_def takeSlot_def addTask_def)

lemma drain_queue_eq:
  "p \<le> slots \<Longrightarrow> k = nat (slots - p) \<Longrightarrow>
   drain_queue slots ts p d s =
     (drop k ts, p + int (length (take k ts)),
      d + length (filter (isWorkerEligibleTask s) (take k ts)), started (take k ts) s)"
proof (induction ts arbitrary: p d s k)
  case (Cons t ts)
  show ?case
  proof (cases "p < slots")
    case True
    then have k: "k = Suc (nat (slots - (p + 1)))" using Cons.prems by simp
    with True Cons.IH [of "p + 1" "nat (slots - (p + 1))"]
    show ?thesis by (simp add: start_task_eq started_append Let_def)
  next
    case False
    with Cons.prems have "k = 0" by simp
    with False show ?thesis by simp
  qed
qed simp

lemma queue_at_set [simp]:
  "queue_at l (set_queue_at l' ts q) = (if l = l' then ts else queue_at l q)"
  by (cases l; cases l') auto

lemma queue_at_active [simp]: "queue_at l (q\<lparr>activeRequests := a\<rparr>) = queue_at l q"
  by (cases l) auto

lemma set_queue_at_active:
  "set_queue_at l ts (q\<lparr>activeRequests := a\<rparr>) = (set_queue_at l ts q)\<lparr>activeRequests := a\<rparr>"
  by (cases l) auto

lemma set_queue_at_id [simp]: "set_queue_at l (queue_at l q) q = q"
  by (cases l) auto

lemma activeRequests_set [simp]: "activeRequests (set_queue_at l ts q) = activeRequests q"
  by (cases l) auto

lemma leave_0 [simp]: "leave 0 ls q = q"
  by (induction ls) auto

lemma leave_active: "leave n ls (q\<lparr>activeRequests := a\<rparr>) = (leave n ls q)\<lparr>activeRequests := a\<rparr>"
  by (induction n ls q rule: leave.induct) (auto simp: set_queue_at_active)

lemma activeRequests_leave [simp]: "activeRequests (leave n ls q) = activeRequests q"
  by (induction n ls q rule: leave.induct) auto

lemma waiting_at_set: "l \<notin> set ls \<Longrightarrow> waiting_at ls (set_queue_at l ts q) = waiting_at ls q"
  unfolding waiting_at_def by (intro arg_cong [where f = concat] map_cong) auto

lemma waiting_at_Cons [simp]: "waiting_at (l # ls) q = queue_at l q @ waiting_at ls q"
  by (simp add: waiting_at_def)

lemma waiting_at_active [simp]: "waiting_at ls (q\<lparr>activeRequests := a\<rparr>) = waiting_at ls q"
  by (simp add: waiting_at_def)

lemma drain_levels_eq:
  "distinct ls \<Longrightarrow> p \<le> slots \<Longrightarrow> n = nat (slots - p) \<Longrightarrow> ts = take n (waiting_at ls (queue s)) \<Longrightarrow>
   drain_levels slots ls p d s =
     (d + length (filter (isWorkerEligibleTask s) ts), started ts (s\<lparr>queue := leave n ls (queue s)\<rparr>))"
proof (induction ls arbitrary: p d s n ts)
  case Nil
  then show ?case by (simp add: waiting_at_def)
next
  case (Cons l ls)
  let ?q = "queue s" and ?e = "isWorkerEligibleTask s"
  define xs where "xs = take n (queue_at l ?q)"
  define q1 where "q1 = set_queue_at l (drop n (queue_at l ?q)) ?q"
  define s2 where "s2 = started xs (s\<lparr>queue := q1\<rparr>)"
  have dq: "drain_queue slots (queue_at l ?q) p d s =
      (drop n (queue_at l ?q), p + int (length xs), d + length (filter ?e xs), started xs s)"
    using drain_queue_eq [OF Cons.prems(2,3)] by (simp add: xs_def)
  have q2: "queue s2 = q1\<lparr>activeRequests := activeRequests ?q + int (length xs)\<rparr>"
    by (simp add: s2_def started_def q1_def)
  have s2: "(started xs s)\<lparr>queue := set_queue_at l (drop n (queue_at l ?q)) (queue (started xs s))\<rparr> = s2"
    by (simp add: s2_def started_def q1_def set_queue_at_active)
  have later: "waiting_at ls q1 = waiting_at ls ?q"
    using Cons.prems(1) by (simp add: q1_def waiting_at_set)
  have ts: "ts = xs @ take (n - length (queue_at l ?q)) (waiting_at ls ?q)"
    using Cons.prems(4) by (simp add: xs_def)
  show ?case
  proof (cases "p + int (length xs) \<ge> slots")
    case True
    then have "n - length (queue_at l ?q) = 0" using Cons.prems(2,3) by (auto simp: xs_def)
    with ts True dq s2 show ?thesis
      by (simp add: Let_def s2_def flip: q1_def)
  next
    case False
    then have n: "nat (slots - (p + int (length xs))) = n - length (queue_at l ?q)"
      "length xs = length (queue_at l ?q)"
      using Cons.prems(2,3) by (auto simp: xs_def min_def split: if_splits)
    have "drain_levels slots ls (p + int (length xs)) (d + length (filter ?e xs)) s2 =
      (d + length (filter ?e xs) + length (filter (isWorkerEligibleTask s2) (take (n - length (queue_at l ?q)) (waiting_at ls (queue s2)))),
       started (take (n - length (queue_at l ?q)) (waiting_at ls (queue s2)))
         (s2\<lparr>queue := leave (n - length (queue_at l ?q)) ls (queue s2)\<rparr>))"
      by (rule Cons.IH) (use Cons.prems(1) False n in simp_all)
    moreover have "isWorkerEligibleTask s2 = ?e" by (simp add: s2_def)
    moreover have "waiting_at ls (queue s2) = waiting_at ls ?q" by (simp add: q2 later)
    moreover have "s2\<lparr>queue := leave m ls (queue s2)\<rparr> = started xs (s\<lparr>queue := leave m ls q1\<rparr>)" for m
      by (simp add: q2 leave_active) (simp add: s2_def started_queue q1_def)
    ultimately show ?thesis
      using False dq s2 ts by (simp add: Let_def started_append flip: q1_def)
  qed
qed

section \<open>Failures and the worker pool\<close>

text \<open>The one step of \<open>apply_failures\<close>, and the part of the queue state it leaves alone.\<close>

lemma dispatch_failed_eq:
  "onWorkerTaskDispatchFailed (settle t r s) =
     s\<lparr>queue := (queue s)\<lparr>activeRequests := max 0 (activeRequests (queue s) - 1),
                processSignalPending := True\<rparr>,
       stats := incrementRejected 1 (stats s),
       settled := settled s @ [(task_id t, r)],
       queueTimers := removeAll (task_id t) (queueTimers s)\<rparr>"
  by (simp add: onWorkerTaskDispatchFailed_def requestProcessQueue_def releaseSlot_def settle_def
      decrementActiveRequests_def)

lemma apply_failures_frame [frame]:
  "config (apply_failures fs s) = config s" "pool (apply_failures fs s) = pool s"
  "mainRuns (apply_failures fs s) = mainRuns s" "batchRuns (apply_failures fs s) = batchRuns s"
  "memoryPressure (apply_failures fs s) = memoryPressure s"
  "admissionRejected (apply_failures fs s) = admissionRejected s"
  "customAllowed (apply_failures fs s) = customAllowed s"
  "taskIdCounter (queue (apply_failures fs s)) = taskIdCounter (queue s)"
  "isProcessingQueue (queue (apply_failures fs s)) = isProcessingQueue (queue s)"
  "highPriorityQueue (queue (apply_failures fs s)) = highPriorityQueue (queue s)"
  "normalPriorityQueue (queue (apply_failures fs s)) = normalPriorityQueue (queue s)"
  "lowPriorityQueue (queue (apply_failures fs s)) = lowPriorityQueue (queue s)"
  "batchQueues (queue (apply_failures fs s)) = batchQueues (queue s)"
  by (induction fs s rule: apply_failures.induct) (simp_all add: dispatch_failed_eq)

lemma apply_failures_waiting [frame]: "waiting (queue (apply_failures fs s)) = waiting (queue s)"
  by (simp add: waiting_def queued_tasks_def apply_failures_frame)

lemma apply_failures_settled:
  "settled (apply_failures fs s) = settled s @ map (\<lambda>(t, err). (task_id t, Rejected err)) fs"
  by (induction fs s rule: apply_failures.induct)
     (auto simp: dispatch_failed_eq)

lemma apply_failures_active:
  "0 \<le> activeRequests (queue s) \<Longrightarrow>
   activeRequests (queue (apply_failures fs s)) = max 0 (activeRequests (queue s) - int (length fs))"
proof (induction fs arbitrary: s)
  case (Cons f fs)
  obtain t err where f: "f = (t, err)" by fastforce
  let ?s = "onWorkerTaskDispatchFailed (settle t (Rejected err) s)"
  have a: "activeRequests (queue ?s) = max 0 (activeRequests (queue s) - 1)"
    by (simp add: dispatch_failed_eq)
  then have "activeRequests (queue (apply_failures fs ?s)) =
      max 0 (activeRequests (queue ?s) - int (length fs))"
    by (intro Cons.IH) simp
  with a f Cons.prems show ?case by simp
qed simp

lemma apply_failures_rejected:
  "stats (apply_failures fs s) = incrementRejected (length fs) (stats s)"
  by (induction fs s rule: apply_failures.induct)
     (auto simp: dispatch_failed_eq incrementRejected_def)

lemma run_pool_eq:
  assumes "processWorkerTasks post (pool s) = (p, fs)"
  shows "run_pool post s = apply_failures fs (s\<lparr>pool := p\<rparr>)"
  using assms by (simp add: run_pool_def)

section \<open>One run of \<open>processQueue\<close>\<close>

lemma distinct_served: "distinct (served_levels s)"
  by (simp add: served_levels_def)

text \<open>The state after the loops and before the workers are served.\<close>

definition drained :: "Sys \<Rightarrow> Sys" where
  "drained s =
     (let n = nat (available_slots s) in
      started (take n (waiting_at (served_levels s) (queue s)))
        (s\<lparr>queue := (leave n (served_levels s) (queue s))\<lparr>isProcessingQueue := True\<rparr>\<rparr>))"

lemma queue_at_processing [simp]: "queue_at l (q\<lparr>isProcessingQueue := b\<rparr>) = queue_at l q"
  by (cases l) auto

lemma set_queue_at_processing:
  "set_queue_at l ts (q\<lparr>isProcessingQueue := b\<rparr>) = (set_queue_at l ts q)\<lparr>isProcessingQueue := b\<rparr>"
  by (cases l) auto

lemma leave_processing: "leave n ls (q\<lparr>isProcessingQueue := b\<rparr>) = (leave n ls q)\<lparr>isProcessingQueue := b\<rparr>"
  by (induction n ls q rule: leave.induct) (auto simp: set_queue_at_processing)

lemma waiting_at_processing [simp]: "waiting_at ls (q\<lparr>isProcessingQueue := b\<rparr>) = waiting_at ls q"
  by (simp add: waiting_at_def)

lemma processQueue_eq:
  assumes "\<not> isProcessingQueue (queue s)" and "activeRequests (queue s) < maxConcurrentRequests (config s)"
    and "0 \<le> concurrentTasks (config s)"
  shows "processQueue post s =
    (let ts = take (nat (available_slots s)) (waiting_at (served_levels s) (queue s));
         s2 = (if filter (isWorkerEligibleTask s) ts \<noteq> [] then run_pool post (drained s) else drained s);
         s3 = s2\<lparr>queue := (queue s2)\<lparr>isProcessingQueue := False\<rparr>\<rparr>
     in if activeRequests (queue s3) < maxConcurrentRequests (config s3) \<and> waiting (queue s3) \<noteq> []
        then requestProcessQueue s3 else s3)"
proof -
  let ?s0 = "s\<lparr>queue := (queue s)\<lparr>isProcessingQueue := True\<rparr>\<rparr>"
  let ?ts = "take (nat (available_slots s)) (waiting_at (served_levels s) (queue s))"
  have slots: "available_slots ?s0 = available_slots s" "served_levels ?s0 = served_levels s"
    by (simp_all add: available_slots_def served_levels_def)
  have "0 \<le> available_slots s" using assms(2,3) by (simp add: available_slots_def)
  then have "drain_levels (available_slots s) (served_levels s) 0 0 ?s0 =
      (0 + length (filter (isWorkerEligibleTask ?s0) ?ts),
       started ?ts (?s0\<lparr>queue := leave (nat (available_slots s)) (served_levels s) (queue ?s0)\<rparr>))"
    by (intro drain_levels_eq) (simp_all add: distinct_served)
  also have "started ?ts (?s0\<lparr>queue := leave (nat (available_slots s)) (served_levels s) (queue ?s0)\<rparr>) =
      drained s"
    by (simp add: drained_def leave_processing Let_def)
  finally have d: "drain_levels (available_slots s) (served_levels s) 0 0 ?s0 =
      (length (filter (isWorkerEligibleTask s) ?ts), drained s)" by simp
  have "\<not> maxConcurrentRequests (config s) \<le> activeRequests (queue s)" using assms(2) by simp
  then show ?thesis
    by (simp only: processQueue_def assms(1) if_False Let_def slots d prod.case
        getTotalQueueLength_waiting length_greater_0_conv)
qed

lemma run_pool_frame [frame]:
  "config (run_pool post s) = config s" "mainRuns (run_pool post s) = mainRuns s"
  "batchRuns (run_pool post s) = batchRuns s" "memoryPressure (run_pool post s) = memoryPressure s"
  "admissionRejected (run_pool post s) = admissionRejected s"
  "customAllowed (run_pool post s) = customAllowed s"
  "taskIdCounter (queue (run_pool post s)) = taskIdCounter (queue s)"
  "isProcessingQueue (queue (run_pool post s)) = isProcessingQueue (queue s)"
  "highPriorityQueue (queue (run_pool post s)) = highPriorityQueue (queue s)"
  "normalPriorityQueue (queue (run_pool post s)) = normalPriorityQueue (queue s)"
  "lowPriorityQueue (queue (run_pool post s)) = lowPriorityQueue (queue s)"
  "batchQueues (queue (run_pool post s)) = batchQueues (queue s)"
  "waiting (queue (run_pool post s)) = waiting (queue s)"
  by (cases "processWorkerTasks post (pool s)";
      simp add: run_pool_eq apply_failures_frame apply_failures_waiting)+

lemma requestProcessQueue_eq:
  "requestProcessQueue s = s\<lparr>queue := (queue s)\<lparr>processSignalPending := True\<rparr>\<rparr>"
  by (simp add: requestProcessQueue_def)

lemma leave_served:
  "leave n (served_levels s) q =
     q\<lparr>highPriorityQueue := drop n (highPriorityQueue q),
       normalPriorityQueue := drop (n - length (highPriorityQueue q)) (normalPriorityQueue q),
       lowPriorityQueue := (if memoryPressure s then lowPriorityQueue q
         else drop (n - length (highPriorityQueue q) - length (normalPriorityQueue q)) (lowPriorityQueue q))\<rparr>"
  by (simp add: served_levels_def)

lemma waiting_at_leave:
  "waiting_at (served_levels s) (leave n (served_levels s) q) = drop n (waiting_at (served_levels s) q)"
  by (simp add: served_levels_def waiting_at_def)

text \<open>The parts of the result that the workers do not touch.\<close>

lemma processQueue_queues:
  assumes "\<not> isProcessingQueue (queue s)" and "activeRequests (queue s) < maxConcurrentRequests (config s)"
    and "0 \<le> concurrentTasks (config s)"
    and "n = nat (available_slots s)" and "q' = leave n (served_levels s) (queue s)"
    and "s' = processQueue post s"
  shows "highPriorityQueue (queue s') = highPriorityQueue q'"
    "normalPriorityQueue (queue s') = normalPriorityQueue q'"
    "lowPriorityQueue (queue s') = lowPriorityQueue q'"
    "batchQueues (queue s') = batchQueues q'" "memoryPressure s' = memoryPressure s"
    "mainRuns s' = mainRuns s @ filter (\<lambda>t. \<not> isWorkerEligibleTask s t)
       (take n (waiting_at (served_levels s) (queue s)))"
  unfolding assms(6) processQueue_eq [OF assms(1-3)]
  by (simp_all add: Let_def requestProcessQueue_eq run_pool_frame drained_def started_def assms(4,5))

lemma waiting_at_queues:
  "highPriorityQueue q = highPriorityQueue q' \<Longrightarrow> normalPriorityQueue q = normalPriorityQueue q' \<Longrightarrow>
   lowPriorityQueue q = lowPriorityQueue q' \<Longrightarrow> waiting_at ls q = waiting_at ls q'"
proof -
  assume a: "highPriorityQueue q = highPriorityQueue q'" "normalPriorityQueue q = normalPriorityQueue q'"
    "lowPriorityQueue q = lowPriorityQueue q'"
  have "queue_at l q = queue_at l q'" for l by (cases l) (simp_all add: a)
  then show ?thesis by (simp add: waiting_at_def)
qed

definition by_level :: "QueueTask \<Rightarrow> QueueTask \<Rightarrow> bool" where
  "by_level t u \<longleftrightarrow> level_of (priority u) \<le> level_of (priority t)"

lemma by_level_same: "list_all (\<lambda>t. level_of (priority t) = l) ts \<Longrightarrow> sorted_wrt by_level ts"
  by (induction ts) (auto simp: by_level_def list_all_iff)

lemma waiting_at_by_level:
  assumes "wf_levels q"
  shows "sorted_wrt by_level (waiting_at (served_levels s) q)"
proof -
  have "sorted_wrt by_level (highPriorityQueue q)" "sorted_wrt by_level (normalPriorityQueue q)"
    "sorted_wrt by_level (lowPriorityQueue q)"
    using assms by (auto simp: wf_levels_def intro: by_level_same)
  then show ?thesis
    using assms
    by (auto simp: served_levels_def waiting_at_def sorted_wrt_append wf_levels_def list_all_iff by_level_def
        less_eq_level_def)
qed

text \<open>C7. One run of \<open>processQueue\<close> with a free slot starts the first \<open>n\<close> tasks of the served
  queues in level order (high, normal and, unless memory is short, low), where \<open>n\<close> is the number
  of slots, and removes exactly these from the queues. Tasks that are not for the workers start on
  the main thread in that order; batches are not touched; nothing left in a served queue has a
  higher level than a task that was started; and while a served queue is not empty every run
  starts at least one task.\<close>

theorem processQueue_serves_by_level:
  assumes "\<not> isProcessingQueue (queue s)" and "activeRequests (queue s) < maxConcurrentRequests (config s)"
    and "0 < concurrentTasks (config s)" and "wf_levels (queue s)"
    and "n = nat (min (concurrentTasks (config s)) (maxConcurrentRequests (config s) - activeRequests (queue s)))"
    and "line = highPriorityQueue (queue s) @ normalPriorityQueue (queue s) @
                (if memoryPressure s then [] else lowPriorityQueue (queue s))"
    and "s' = processQueue post s"
  shows "highPriorityQueue (queue s') @ normalPriorityQueue (queue s') @
           (if memoryPressure s then [] else lowPriorityQueue (queue s')) = drop n line \<and>
         (memoryPressure s \<longrightarrow> lowPriorityQueue (queue s') = lowPriorityQueue (queue s)) \<and>
         batchQueues (queue s') = batchQueues (queue s) \<and>
         mainRuns s' = mainRuns s @ filter (\<lambda>t. \<not> isWorkerEligibleTask s t) (take n line) \<and>
         (\<forall>t \<in> set (take n line). \<forall>u \<in> set (drop n line). level_of (priority u) \<le> level_of (priority t)) \<and>
         (line \<noteq> [] \<longrightarrow> take n line \<noteq> [])"
proof -
  have c: "0 \<le> concurrentTasks (config s)" using assms(3) by simp
  have n: "n = nat (available_slots s)" by (simp add: assms(5) available_slots_def)
  have line: "line = waiting_at (served_levels s) (queue s)"
    by (simp add: assms(6) served_levels_def waiting_at_def)
  note q = processQueue_queues [OF assms(1,2) c n refl assms(7)]
  have "waiting_at (served_levels s) (queue s') = drop n line"
    unfolding line using waiting_at_queues [OF q(1-3)] by (simp add: waiting_at_leave)
  then have rest: "highPriorityQueue (queue s') @ normalPriorityQueue (queue s') @
      (if memoryPressure s then [] else lowPriorityQueue (queue s')) = drop n line"
    by (simp add: served_levels_def waiting_at_def split: if_splits)
  have "sorted_wrt by_level line" unfolding line using assms(4) by (rule waiting_at_by_level)
  then have "sorted_wrt by_level (take n line @ drop n line)" by simp
  then have "\<forall>t \<in> set (take n line). \<forall>u \<in> set (drop n line). by_level t u"
    unfolding sorted_wrt_append by blast
  moreover have "0 < n" using assms(2,3) by (simp add: assms(5))
  ultimately show ?thesis
    using rest q(3,4,6) by (simp add: by_level_def leave_served line)
qed

theorem processQueue_serves_by_level_witness:
  "let mk = (\<lambda>i p. new_task 0 i \<lparr>n_priority = p, n_category = ''default'', n_size = 1, n_timeout = 10,
                n_workloadType = None, n_params = [], n_functionCode = None, n_batch = False,
                n_requestId = Undefined\<rparr>);
       s0 = sys_init Map.empty 0 init_stats;
       s = s0\<lparr>config := (config s0)\<lparr>concurrentTasks := 2\<rparr>,
         queue := (queue s0)\<lparr>highPriorityQueue := [mk 2 7], normalPriorityQueue := [mk 1 0, mk 3 4]\<rparr>\<rparr>
   in mainRuns (processQueue (\<lambda>_ _. None) s) = [mk 2 7, mk 1 0]"
proof -
  define mk where "mk = (\<lambda>i p. new_task 0 i \<lparr>n_priority = p, n_category = ''default'', n_size = 1,
    n_timeout = 10, n_workloadType = None, n_params = [], n_functionCode = None, n_batch = False,
    n_requestId = Undefined\<rparr>)"
  define s0 where "s0 = sys_init Map.empty 0 init_stats"
  define s where "s = s0\<lparr>config := (config s0)\<lparr>concurrentTasks := 2\<rparr>,
         queue := (queue s0)\<lparr>highPriorityQueue := [mk 2 7], normalPriorityQueue := [mk 1 0, mk 3 4]\<rparr>\<rparr>"
  have cfg: "maxConcurrentRequests (config s0) = 200"
    "isProcessingQueue (queue s0) = False"
    "activeRequests (queue s0) = 0" "memoryPressure s0 = False" "lowPriorityQueue (queue s0) = []"
    "mainRuns s0 = []"
    unfolding s0_def by code_simp+
  then have cfg': "concurrentTasks (config s) = 2" "maxConcurrentRequests (config s) = 200"
    "activeRequests (queue s) = 0" "memoryPressure s = False" "lowPriorityQueue (queue s) = []"
    "isProcessingQueue (queue s) = False" "mainRuns s = []"
    "isWorkerEligibleTask s (mk i p) = False" for i p
    by (simp_all add: s_def isWorkerEligibleTask_def mk_def new_task_def)
  have q: "highPriorityQueue (queue s) = [mk 2 7]" "normalPriorityQueue (queue s) = [mk 1 0, mk 3 4]"
    by (simp_all add: s_def)
  have wf: "wf_levels (queue s)"
    using cfg'(5) q by (simp add: wf_levels_def mk_def new_task_def level_of_def)
  have line: "[mk 2 7, mk 1 0, mk 3 4] = highPriorityQueue (queue s) @ normalPriorityQueue (queue s) @
      (if memoryPressure s then [] else lowPriorityQueue (queue s))"
    by (simp add: q cfg'(4,5))
  have "mainRuns (processQueue (\<lambda>_ _. None) s) =
      mainRuns s @ filter (\<lambda>t. \<not> isWorkerEligibleTask s t) (take 2 [mk 2 7, mk 1 0, mk 3 4])"
    using processQueue_serves_by_level [OF _ _ _ wf _ line refl, of 2] cfg'(1-3,6) by simp
  then have "mainRuns (processQueue (\<lambda>_ _. None) s) = [mk 2 7, mk 1 0]" using cfg' by simp
  then show ?thesis unfolding Let_def mk_def s_def s0_def .
qed

text \<open>When nothing waits that the processor may serve (only batched tasks, or also low-priority
  tasks while memory is short) and a slot is free, the callback of the process signal changes
  nothing but arms the signal again: the state after the callback is the state before it. The
  event loop keeps running it until a batch timer or a new request intervenes.\<close>

theorem process_signal_spins:
  assumes "\<not> isProcessingQueue (queue s)" and "processSignalPending (queue s)"
    and "activeRequests (queue s) < maxConcurrentRequests (config s)" and "0 \<le> concurrentTasks (config s)"
    and "highPriorityQueue (queue s) = []" and "normalPriorityQueue (queue s) = []"
    and "memoryPressure s \<or> lowPriorityQueue (queue s) = []" and "waiting (queue s) \<noteq> []"
  shows "handle (ProcessImmediate post) s = s"
proof -
  let ?s = "s\<lparr>queue := (queue s)\<lparr>processSignalPending := False\<rparr>\<rparr>"
  have w: "waiting_at (served_levels ?s) (queue ?s) = []"
    using assms(7) by (auto simp: served_levels_def waiting_at_def assms(5,6))
  have "drained ?s = ?s\<lparr>queue := (queue ?s)\<lparr>isProcessingQueue := True\<rparr>\<rparr>"
    unfolding drained_def Let_def w using assms(5-7) by (auto simp: leave_served)
  then have "processQueue post ?s = requestProcessQueue (?s\<lparr>queue := (queue ?s)\<lparr>isProcessingQueue := False\<rparr>\<rparr>)"
    using assms(1,3,4,8) processQueue_eq [of ?s post] w
    by (simp add: Let_def waiting_def queued_tasks_def)
  then show ?thesis
    using assms(1,2) by (simp add: run_process_immediate_def requestProcessQueue_eq)
qed

theorem process_signal_spins_witness:
  "let opts = \<lparr>opt_priority = Num (Fin 1), opt_requestId = Undefined, opt_category = Str ''c'',
         opt_batch = Bool True, opt_size = Undefined, opt_timeout = Undefined,
         opt_workloadType = Undefined, opt_params = Undefined, opt_functionCode = Undefined\<rparr>;
       s = snd (enqueue 0 opts (sys_init Map.empty 0 init_stats))
   in batch_tasks (batchQueues (queue s)) \<noteq> [] \<and> handle (ProcessImmediate (\<lambda>_ _. None)) s = s"
proof -
  define s where "s = snd (enqueue 0 \<lparr>opt_priority = Num (Fin 1), opt_requestId = Undefined,
    opt_category = Str ''c'', opt_batch = Bool True, opt_size = Undefined, opt_timeout = Undefined,
    opt_workloadType = Undefined, opt_params = Undefined, opt_functionCode = Undefined\<rparr>
    (sys_init Map.empty 0 init_stats))"
  have "\<not> isProcessingQueue (queue s)" "processSignalPending (queue s)"
    "activeRequests (queue s) < maxConcurrentRequests (config s)" "0 \<le> concurrentTasks (config s)"
    "highPriorityQueue (queue s) = []" "normalPriorityQueue (queue s) = []"
    "memoryPressure s \<or> lowPriorityQueue (queue s) = []" "waiting (queue s) \<noteq> []"
    and b: "batch_tasks (batchQueues (queue s)) \<noteq> []"
    unfolding s_def by code_simp+
  then have "handle (ProcessImmediate (\<lambda>_ _. None)) s = s"
    by (intro process_signal_spins)
  with b show ?thesis unfolding Let_def s_def by blast
qed

end
