(* ===== verification/QueueInvariants.thy ===== *)
theory QueueInvariants
  imports QueueProcessing
begin

text \<open>
  Invariants of the queue as a state machine. \<open>core\<close> holds in every reachable state. \<open>move s s'\<close>
  says that an operation keeps \<open>core\<close>, invents no task id and keeps the books balanced;
  \<open>exact s s'\<close> says that it loses no task either and that the slot counter stays exact. Both
  compose, so each handler is covered by one lemma per operation it calls.
\<close>

section \<open>What is where\<close>

definition running :: "Sys \<Rightarrow> QueueTask list" where
  "running s = mainRuns s @ concat (map run_tasks (batchRuns s))"

definition held :: "Sys \<Rightarrow> QueueTask multiset" where
  "held s = mset (waiting (queue s)) + mset (running s) + mset (pool_tasks (pool s))"

text \<open>The ids of all tasks the system holds or has settled, with multiplicity.\<close>

definition ids :: "Sys \<Rightarrow> nat multiset" where
  "ids s = image_mset task_id (held s) + mset (map fst (settled s))"

fun timeout_outcome :: "outcome \<Rightarrow> bool" where
  "timeout_outcome (Rejected QueueWaitTimeout) = True"
| "timeout_outcome (Rejected ProcessingDelayed) = True"
| "timeout_outcome (Rejected BatchTimeout) = True"
| "timeout_outcome _ = False"

definition refused_outcome :: "outcome \<Rightarrow> bool" where
  "refused_outcome r \<longleftrightarrow> \<not> is_resolved r \<and> \<not> timeout_outcome r"

definition settled_as :: "(outcome \<Rightarrow> bool) \<Rightarrow> Sys \<Rightarrow> int" where
  "settled_as p s = int (length (filter (p \<circ> snd) (settled s)))"

text \<open>Counters less the events they count: constant in every run. A batch adds its counts to the
  totals only when its last task is done.\<close>

definition ledger :: "Sys \<Rightarrow> int \<times> int \<times> int" where
  "ledger s =
     (int (totalProcessed (stats s)) + int (sum_list (map run_processed (batchRuns s))) -
        settled_as is_resolved s,
      int (totalRejected (stats s)) + int (sum_list (map run_failed (batchRuns s))) -
        int (admissionRejected s) - settled_as refused_outcome s,
      int (totalTimeout (stats s)) - settled_as timeout_outcome s)"

text \<open>A pool with workers has its callback until it shuts down, and one without has no workers.\<close>

definition linked :: "WorkerPool \<Rightarrow> bool" where
  "linked p \<longleftrightarrow> (useWorkers p \<longrightarrow> hasOnResult p \<or> shuttingDown p) \<and>
     (\<not> useWorkers p \<longrightarrow> workerPool p = [] \<and> assignedTasks p = [] \<and> pingTimeoutMap p = [])"

definition active_ok :: "Sys \<Rightarrow> bool" where
  "active_ok s \<longleftrightarrow> 0 \<le> activeRequests (queue s) \<and>
     activeRequests (queue s) \<le> maxConcurrentRequests (config s)"

definition core :: "Sys \<Rightarrow> bool" where
  "core s \<longleftrightarrow> wf_queues (queue s) \<and> wf_pool (pool s) \<and> linked (pool s) \<and> active_ok s \<and>
     0 < maxConcurrentRequests (config s) \<and> 0 < concurrentTasks (config s)"

definition in_flight :: "Sys \<Rightarrow> nat" where
  "in_flight s = length (mainRuns s) + sum_list (map run_dispatched (batchRuns s)) +
     length (pool_tasks (pool s))"

definition tight :: "Sys \<Rightarrow> bool" where
  "tight s \<longleftrightarrow> pool_consistent (pool s) \<and> activeRequests (queue s) = int (in_flight s)"

definition move :: "Sys \<Rightarrow> Sys \<Rightarrow> bool" where
  "move s s' \<longleftrightarrow> (core s \<longrightarrow>
     core s' \<and> ids s' \<subseteq># ids s \<and> ledger s' = ledger s \<and> config s' = config s \<and>
     taskIdCounter (queue s') = taskIdCounter (queue s))"

definition exact :: "Sys \<Rightarrow> Sys \<Rightarrow> bool" where
  "exact s s' \<longleftrightarrow> (core s \<longrightarrow> tight s \<longrightarrow> tight s' \<and> ids s' = ids s)"

lemma move_refl [simp, intro]: "move s s"
  by (simp add: move_def)

lemma exact_refl [simp, intro]: "exact s s"
  by (simp add: exact_def)

lemma move_trans: "move s s1 \<Longrightarrow> move s1 s2 \<Longrightarrow> move s s2"
  unfolding move_def by (metis subset_mset.order_trans)

lemma exact_trans: "move s s1 \<Longrightarrow> exact s s1 \<Longrightarrow> exact s1 s2 \<Longrightarrow> exact s s2"
  unfolding move_def exact_def by metis

lemmas held_defs = ids_def held_def running_def waiting_def queued_tasks_def
lemmas core_defs = core_def active_ok_def wf_queues_def wf_levels_def
lemmas ledger_defs = ledger_def settled_as_def refused_outcome_def stats_defs

section \<open>Small steps\<close>

text \<open>Fields that neither \<open>core\<close> nor the books depend on.\<close>

lemma move_signal: "move s (s\<lparr>queue := (queue s)\<lparr>processSignalPending := b\<rparr>\<rparr>)"
  by (simp add: move_def core_defs held_defs ledger_defs)

lemma exact_signal: "exact s (s\<lparr>queue := (queue s)\<lparr>processSignalPending := b\<rparr>\<rparr>)"
  by (simp add: exact_def tight_def in_flight_def held_defs)

lemma move_request: "move s (requestProcessQueue s)"
  unfolding requestProcessQueue_eq by (rule move_signal)

lemma exact_request: "exact s (requestProcessQueue s)"
  unfolding requestProcessQueue_eq by (rule exact_signal)

lemma core_max: "core s \<Longrightarrow> 0 \<le> activeRequests (queue s)"
  by (simp add: core_defs)

text \<open>A counted outcome: one more settled task and one more in the total of its kind.\<close>

definition count_outcome :: "outcome \<Rightarrow> QueueStats \<Rightarrow> QueueStats" where
  "count_outcome r st = (if is_resolved r then incrementProcessed 1 st else incrementRejected 1 st)"

lemma ledger_settle:
  assumes "\<not> timeout_outcome r"
  shows "ledger (s\<lparr>settled := settled s @ [(i, r)], stats := count_outcome r (stats s)\<rparr>) = ledger s"
  using assms by (cases r) (auto simp: ledger_defs count_outcome_def)

lemma ledger_cong:
  "stats s = stats s' \<Longrightarrow> settled s = settled s' \<Longrightarrow> batchRuns s = batchRuns s' \<Longrightarrow>
   admissionRejected s = admissionRejected s' \<Longrightarrow> ledger s = ledger s'"
  by (simp add: ledger_def settled_as_def)

lemma core_cong:
  "queue s = queue s' \<Longrightarrow> pool s = pool s' \<Longrightarrow> config s = config s' \<Longrightarrow> core s = core s'"
  by (simp add: core_def active_ok_def)

section \<open>The worker pool\<close>

definition refused_failures :: "failures \<Rightarrow> bool" where
  "refused_failures fs = list_all (\<lambda>(_, err). refused_outcome (Rejected err)) fs"

lemma dispatch_to_failures:
  assumes "dispatch_to post i inst p = (p', f)"
  shows "refused_failures f"
  using assms
  by (cases rule: dispatch_to_cases) (auto simp: refused_failures_def drop_failures_def refused_outcome_def list_all_iff)

lemma processWorkerTasks_failures:
  assumes "processWorkerTasks post p = (p', f)"
  shows "refused_failures f"
  using assms
proof (rule processWorkerTasks_keeps)
  fix i inst q g q' g'
  assume "refused_failures g" "dispatch_to post i inst q = (q', g')"
  then show "refused_failures (g @ g')"
    using dispatch_to_failures by (auto simp: refused_failures_def)
qed (simp add: refused_failures_def)

lemma dispatch_to_ping:
  "dispatch_to post i inst p = (p', f) \<Longrightarrow> pingTimeoutMap p' = pingTimeoutMap p"
  by (auto simp: dispatch_to_def split: prod.splits option.splits)

lemma processWorkerTasks_linked:
  assumes "linked p" and "processWorkerTasks post p = (p', f)"
  shows "linked p'"
proof (cases "useWorkers p")
  case True
  then show ?thesis
    using assms(1) processWorkerTasks_frame [OF assms(2)] by (simp add: linked_def)
next
  case False
  then show ?thesis using assms by (simp add: processWorkerTasks_def)
qed

lemma apply_failures_ledger:
  assumes "refused_failures fs"
  shows "ledger (apply_failures fs s) = ledger s"
proof -
  have none: "filter (p \<circ> snd) (map (\<lambda>(t, err). (task_id t, Rejected err)) fs) = []"
    if "\<And>err. refused_outcome (Rejected err) \<Longrightarrow> \<not> p (Rejected err)" for p
    using assms that by (auto simp: refused_failures_def filter_empty_conv list_all_iff)
  have all: "filter (refused_outcome \<circ> snd) (map (\<lambda>(t, err). (task_id t, Rejected err)) fs) =
      map (\<lambda>(t, err). (task_id t, Rejected err)) fs"
    using assms by (auto simp: refused_failures_def filter_id_conv list_all_iff)
  have "settled_as is_resolved (apply_failures fs s) = settled_as is_resolved s"
    using none [of is_resolved] by (simp add: settled_as_def apply_failures_settled)
  moreover have "settled_as timeout_outcome (apply_failures fs s) = settled_as timeout_outcome s"
    using none [of timeout_outcome] by (simp add: settled_as_def apply_failures_settled refused_outcome_def)
  moreover have "settled_as refused_outcome (apply_failures fs s) = settled_as refused_outcome s + int (length fs)"
    using all by (simp add: settled_as_def apply_failures_settled)
  ultimately show ?thesis
    by (simp add: ledger_def apply_failures_frame apply_failures_rejected incrementRejected_def)
qed

lemma apply_failures_ids:
  "ids (apply_failures fs s) = ids s + image_mset task_id (failed_tasks fs)"
proof -
  have "fst \<circ> (\<lambda>(t :: QueueTask, err). (task_id t, Rejected err)) = task_id \<circ> fst" by auto
  then show ?thesis
    by (simp add: ids_def held_def running_def apply_failures_frame apply_failures_waiting
        apply_failures_settled failed_tasks_def image_mset.compositionality)
qed

lemma apply_failures_core:
  "core s \<Longrightarrow> core (apply_failures fs s)"
  by (simp add: core_defs apply_failures_frame apply_failures_active)

lemma move_run_pool: "move s (run_pool post s)"
  unfolding move_def
proof
  assume c: "core s"
  obtain p fs where p: "processWorkerTasks post (pool s) = (p, fs)" by fastforce
  let ?s = "s\<lparr>pool := p\<rparr>"
  have wf: "wf_pool (pool s)" "linked (pool s)" using c by (simp_all add: core_def)
  note w = processWorkerTasks_wf [OF wf(1) p]
  have "core ?s"
    using c w(1) processWorkerTasks_linked [OF wf(2) p] by (simp add: core_def active_ok_def)
  moreover have "ids ?s + image_mset task_id (failed_tasks fs) \<subseteq># ids s"
  proof -
    have "image_mset task_id (mset (pool_tasks p) + failed_tasks fs) \<subseteq># image_mset task_id (mset (pool_tasks (pool s)))"
      using w(2) by (rule image_mset_subseteq_mono)
    then show ?thesis by (simp add: ids_def held_def running_def)
  qed
  moreover have "ledger ?s = ledger s" by (rule ledger_cong) simp_all
  ultimately show "core (run_pool post s) \<and> ids (run_pool post s) \<subseteq># ids s \<and>
      ledger (run_pool post s) = ledger s \<and> config (run_pool post s) = config s \<and>
      taskIdCounter (queue (run_pool post s)) = taskIdCounter (queue s)"
    using apply_failures_core [of ?s fs] apply_failures_ledger [OF processWorkerTasks_failures [OF p], of ?s]
    by (simp add: run_pool_eq [OF p] apply_failures_ids apply_failures_frame)
qed

lemma length_failed_tasks: "size (failed_tasks fs) = length fs"
  by (simp add: failed_tasks_def)

lemma exact_run_pool: "exact s (run_pool post s)"
  unfolding exact_def
proof (intro impI)
  assume c: "core s" and t: "tight s"
  obtain p fs where p: "processWorkerTasks post (pool s) = (p, fs)" by fastforce
  have con: "pool_consistent (pool s)" and act: "activeRequests (queue s) = int (in_flight s)"
    using t by (simp_all add: tight_def)
  note w = processWorkerTasks_consistent [OF con p]
  have "image_mset task_id (mset (pool_tasks p)) + image_mset task_id (failed_tasks fs) =
      image_mset task_id (mset (pool_tasks (pool s)))"
    using w(2) by (metis image_mset_union)
  then have "ids (s\<lparr>pool := p\<rparr>) + image_mset task_id (failed_tasks fs) = ids s"
    by (simp add: ids_def held_def running_def)
  then have "ids (run_pool post s) = ids s"
    by (simp add: run_pool_eq [OF p] apply_failures_ids)
  moreover have "length (pool_tasks p) + length fs = length (pool_tasks (pool s))"
    using arg_cong [OF w(2), of size] by (simp add: length_failed_tasks)
  then have "activeRequests (queue (run_pool post s)) = int (in_flight (run_pool post s))"
    using act core_max [OF c]
    by (simp add: run_pool_eq [OF p] apply_failures_active apply_failures_frame in_flight_def)
  ultimately show "tight (run_pool post s) \<and> ids (run_pool post s) = ids s"
    using w(1) by (simp add: tight_def run_pool_eq [OF p] apply_failures_frame)
qed

section \<open>Settling a running task\<close>

lemma execute_not_timeout: "execute_outcome r \<Longrightarrow> \<not> timeout_outcome r"
  by (cases r rule: execute_outcome.cases) auto

lemma main_done_eq:
  assumes "splice_task i (mainRuns s) = Some (t, rest)"
  shows "main_done i r s = requestProcessQueue (releaseSlot
     (s\<lparr>mainRuns := rest, settled := settled s @ [(i, r)],
        queueTimers := removeAll i (queueTimers s), stats := count_outcome r (stats s)\<rparr>))"
  using assms splice_task_Some(1) [OF assms]
  by (simp add: main_done_def settle_def count_outcome_def Let_def)

lemma main_done_moves:
  assumes "execute_outcome r"
  shows "move s (main_done i r s)" and "exact s (main_done i r s)"
proof -
  have "move s (main_done i r s) \<and> exact s (main_done i r s)"
  proof (cases "splice_task i (mainRuns s)")
    case None
    then show ?thesis by (simp add: main_done_def)
  next
    case (Some x)
    then obtain t rest where sp: "splice_task i (mainRuns s) = Some (t, rest)" by (cases x) auto
    note t = splice_task_Some [OF sp]
    let ?s = "s\<lparr>mainRuns := rest, settled := settled s @ [(i, r)],
        queueTimers := removeAll i (queueTimers s), stats := count_outcome r (stats s)\<rparr>"
    let ?s1 = "releaseSlot ?s"
    have ids: "ids ?s1 = ids s"
      using t(1,4) by (simp add: releaseSlot_def decrementActiveRequests_def held_defs)
    have "ledger ?s1 = ledger (s\<lparr>settled := settled s @ [(i, r)], stats := count_outcome r (stats s)\<rparr>)"
      by (rule ledger_cong) (simp_all add: releaseSlot_def)
    then have ledger: "ledger ?s1 = ledger s"
      using ledger_settle [OF execute_not_timeout [OF assms]] by simp
    have core: "core s \<Longrightarrow> core ?s1"
      by (simp add: core_defs releaseSlot_def decrementActiveRequests_def)
    have "move s ?s1"
      using ids ledger core by (simp add: move_def) (simp add: releaseSlot_def decrementActiveRequests_def)
    moreover have "exact s ?s1"
    proof -
      have "length (mainRuns s) = Suc (length rest)" using t(4) by (metis size_mset size_add_mset)
      then have "tight s \<Longrightarrow> tight ?s1"
        by (simp add: tight_def in_flight_def releaseSlot_def decrementActiveRequests_def)
      then show ?thesis using ids by (simp add: exact_def)
    qed
    ultimately show ?thesis
      unfolding main_done_eq [OF sp] using move_trans move_request exact_trans exact_request by blast
  qed
  then show "move s (main_done i r s)" "exact s (main_done i r s)" by auto
qed

section \<open>Batches\<close>

lemma processBatch_cb_moves:
  "move s (processBatch_cb now cat s) \<and> exact s (processBatch_cb now cat s)"
proof (cases "core s")
  case True
  let ?q = "queue s"
  obtain bs st where pb: "processBatch now cat (batchQueues ?q) (activeRequests ?q)
      (maxConcurrentRequests (config s)) = (bs, st)" by fastforce
  have wf: "wf_batches (batchQueues ?q)" using True by (simp add: core_defs)
  show ?thesis
  proof (cases st)
    case None
    then have "bs = batchQueues ?q" using processBatch_idle [OF wf] pb by simp
    with None pb show ?thesis by (simp add: processBatch_cb_def)
  next
    case (Some ts)
    with pb have "processBatch now cat (batchQueues ?q) (activeRequests ?q)
      (maxConcurrentRequests (config s)) = (bs, Some ts)" by simp
    with wf obtain b where b: "ts \<noteq> []" "int (length ts) \<le> maxConcurrentRequests (config s) - activeRequests ?q"
      "wf_batches bs" "mset (batch_tasks (batchQueues ?q)) = mset ts + mset (batch_tasks bs)"
      by (rule processBatch_dispatch)
    let ?run = "\<lparr>run_tasks = ts, run_processed = 0, run_failed = 0, run_dispatched = length ts\<rparr>"
    have eq: "processBatch_cb now cat s = s\<lparr>queue := ?q\<lparr>batchQueues := bs,
        activeRequests := activeRequests ?q + int (length ts)\<rparr>, batchRuns := batchRuns s @ [?run]\<rparr>"
      using pb Some core_max [OF True] by (simp add: processBatch_cb_def)
    have ids: "ids (processBatch_cb now cat s) = ids s"
      unfolding eq using b(4) by (simp add: held_defs)
    moreover have "ledger (processBatch_cb now cat s) = ledger s" unfolding eq by (simp add: ledger_defs)
    moreover have "core (processBatch_cb now cat s)" unfolding eq using True b by (simp add: core_defs)
    moreover have "tight s \<Longrightarrow> tight (processBatch_cb now cat s)"
      unfolding eq by (simp add: tight_def in_flight_def)
    moreover have "config (processBatch_cb now cat s) = config s"
      "taskIdCounter (queue (processBatch_cb now cat s)) = taskIdCounter ?q"
      unfolding eq by simp_all
    ultimately show ?thesis by (simp add: move_def exact_def)
  qed
qed (simp add: move_def exact_def)

text \<open>A loop of callbacks over the batches.\<close>

lemma visit_batches_moves:
  "move s (visit_batches get p (processBatch_cb now) ks s) \<and>
   exact s (visit_batches get p (processBatch_cb now) ks s)"
proof (rule visit_batches_keeps [where good = "\<lambda>t. move s t \<and> exact s t"])
  fix k t assume "move s t \<and> exact s t"
  then show "move s (processBatch_cb now k t) \<and> exact s (processBatch_cb now k t)"
    using processBatch_cb_moves [of t now k] move_trans exact_trans by blast
qed simp

lemma batch_complete_core:
  "core s \<Longrightarrow> core (batch_complete r s)"
  by (simp add: batch_complete_def Let_def requestProcessQueue_eq core_defs)

lemma batch_complete_frame [frame]:
  "config (batch_complete r s) = config s" "settled (batch_complete r s) = settled s"
  "batchRuns (batch_complete r s) = batchRuns s" "mainRuns (batch_complete r s) = mainRuns s"
  "pool (batch_complete r s) = pool s" "admissionRejected (batch_complete r s) = admissionRejected s"
  "taskIdCounter (queue (batch_complete r s)) = taskIdCounter (queue s)"
  "waiting (queue (batch_complete r s)) = waiting (queue s)"
  "isProcessingQueue (queue (batch_complete r s)) = isProcessingQueue (queue s)"
  "activeRequests (queue (batch_complete r s)) = max 0 (activeRequests (queue s) - int (run_dispatched r))"
  "totalProcessed (stats (batch_complete r s)) = totalProcessed (stats s) + run_processed r"
  "totalRejected (stats (batch_complete r s)) = totalRejected (stats s) + run_failed r"
  "totalTimeout (stats (batch_complete r s)) = totalTimeout (stats s)"
  by (simp_all add: batch_complete_def Let_def requestProcessQueue_eq stats_defs waiting_def queued_tasks_def)

lemma split_run:
  assumes "j < length rs"
  shows "rs = take j rs @ rs ! j # drop (Suc j) rs"
    and "rs[j := r] = take j rs @ r # drop (Suc j) rs"
  using assms by (simp_all add: id_take_nth_drop [symmetric] upd_conv_take_nth_drop)

lemma batch_done_moves:
  assumes "execute_outcome r"
  shows "move s (batch_done j i r s) \<and> exact s (batch_done j i r s)"
proof (cases "j < length (batchRuns s) \<and> splice_task i (run_tasks (batchRuns s ! j)) \<noteq> None")
  case False
  then consider "\<not> j < length (batchRuns s)" | "splice_task i (run_tasks (batchRuns s ! j)) = None"
    by blast
  then have "batch_done j i r s = s" by cases (simp_all add: batch_done_def)
  then show ?thesis by simp
next
  case True
  define br where "br = batchRuns s ! j"
  define as where "as = take j (batchRuns s)"
  define zs where "zs = drop (Suc j) (batchRuns s)"
  obtain t rest where sp: "splice_task i (run_tasks br) = Some (t, rest)"
    using True by (auto simp: br_def)
  note t = splice_task_Some [OF sp]
  define br' where "br' = br\<lparr>run_tasks := rest,
     run_processed := run_processed br + (if is_resolved r then 1 else 0),
     run_failed := run_failed br + (if is_resolved r then 0 else 1)\<rparr>"
  have rs: "batchRuns s = as @ br # zs" and rs': "(batchRuns s)[j := br'] = as @ br' # zs"
    using True split_run [of j "batchRuns s"] by (auto simp: br_def as_def zs_def)
  let ?s1 = "s\<lparr>settled := settled s @ [(i, r)], queueTimers := removeAll i (queueTimers s)\<rparr>"
  have eq: "batch_done j i r s =
      (if rest = [] then batch_complete br' (?s1\<lparr>batchRuns := as @ zs\<rparr>) else ?s1\<lparr>batchRuns := as @ br' # zs\<rparr>)"
  proof -
    have "batch_done j i r s = (if rest = []
        then batch_complete br' ((settle t r s)\<lparr>batchRuns := as @ zs\<rparr>)
        else (settle t r s)\<lparr>batchRuns := (batchRuns s)[j := br']\<rparr>)"
      using True sp unfolding batch_done_def br'_def as_def zs_def br_def by (simp add: Let_def)
    then show ?thesis using t(1) by (simp add: rs' settle_def)
  qed
  have ntime: "\<not> timeout_outcome r" using execute_not_timeout [OF assms] .
  have ids: "ids (batch_done j i r s) = ids s"
    using t(1,4) unfolding eq
    by (cases "rest = []") (simp_all add: ids_def held_def running_def rs br'_def frame)
  have ledger: "ledger (batch_done j i r s) = ledger s"
    using ntime unfolding eq
    by (cases "rest = []"; cases r)
       (simp_all add: ledger_def settled_as_def refused_outcome_def rs br'_def frame)
  have "core (?s1\<lparr>batchRuns := rs\<rparr>) = core s" for rs by (rule core_cong) simp_all
  then have core: "core s \<Longrightarrow> core (batch_done j i r s)"
    unfolding eq by (simp add: batch_complete_core)
  have tight: "core s \<Longrightarrow> tight s \<Longrightarrow> tight (batch_done j i r s)"
    unfolding eq
    by (cases "rest = []") (simp_all add: tight_def in_flight_def rs br'_def frame)
  have "config (batch_done j i r s) = config s"
    "taskIdCounter (queue (batch_done j i r s)) = taskIdCounter (queue s)"
    unfolding eq by (simp_all add: frame)
  then show ?thesis using ids ledger core tight by (simp add: move_def exact_def)
qed

section \<open>Worker results and failures\<close>

text \<open>A change of the pool alone.\<close>

lemma move_pool:
  assumes "core s \<Longrightarrow> wf_pool p \<and> linked p" and "pool_tasks p = pool_tasks (pool s)"
  shows "move s (s\<lparr>pool := p\<rparr>)"
proof -
  have "ledger (s\<lparr>pool := p\<rparr>) = ledger s" by (rule ledger_cong) simp_all
  moreover have "ids (s\<lparr>pool := p\<rparr>) = ids s" by (simp add: ids_def held_def running_def assms(2))
  ultimately show ?thesis using assms(1) by (simp add: move_def) (simp add: core_def active_ok_def)
qed

lemma exact_pool:
  assumes "pool_consistent (pool s) \<Longrightarrow> pool_consistent p" and "pool_tasks p = pool_tasks (pool s)"
  shows "exact s (s\<lparr>pool := p\<rparr>)"
  using assms by (simp add: exact_def tight_def in_flight_def ids_def held_def running_def)

lemma wf_pool_cong:
  "assignedTasks p = assignedTasks q \<Longrightarrow> router_state p = router_state q \<Longrightarrow> routerCaps p = routerCaps q \<Longrightarrow>
   wf_pool p = wf_pool q"
  by (simp add: wf_pool_def within_caps_def)

lemma pool_tasks_cong:
  "assignedTasks p = assignedTasks q \<Longrightarrow> workerTaskQueue p = workerTaskQueue q \<Longrightarrow> pool_tasks p = pool_tasks q"
  by (simp add: pool_tasks_def)

lemma pool_consistent_idle:
  assumes "pool_consistent p" and "i \<notin> fst ` set (assignedTasks p)"
    and "assignedTasks q = assignedTasks p" and "router_state q = router_state p"
    and "workerBusy q = arr_set False i False (workerBusy p)"
  shows "pool_consistent q"
  using assms busy_at_arr_set [OF assms(5)]
  unfolding pool_consistent_def assigned_of_type_def by auto

lemma clearPing_moves:
  "move s (s\<lparr>pool := clearPingTimeout i (pool s)\<rparr>) \<and> exact s (s\<lparr>pool := clearPingTimeout i (pool s)\<rparr>)"
proof -
  have t: "pool_tasks (clearPingTimeout i (pool s)) = pool_tasks (pool s)"
    by (simp add: pool_tasks_def clearPingTimeout_def)
  have "wf_pool (clearPingTimeout i (pool s)) = wf_pool (pool s)"
    by (rule wf_pool_cong) (simp_all add: clearPingTimeout_def)
  moreover have "linked (pool s) \<Longrightarrow> linked (clearPingTimeout i (pool s))"
    by (auto simp: linked_def clearPingTimeout_def)
  ultimately have "core s \<Longrightarrow> wf_pool (clearPingTimeout i (pool s)) \<and> linked (clearPingTimeout i (pool s))"
    by (simp add: core_def)
  moreover have "pool_consistent (clearPingTimeout i (pool s)) = pool_consistent (pool s)"
    by (simp add: pool_consistent_def busy_at_def assigned_of_type_def clearPingTimeout_def)
  ultimately show ?thesis using move_pool [OF _ t] exact_pool [OF _ t] by blast
qed

lemma worker_outcome_kind:
  "is_resolved (worker_outcome m) = msg_success m" "\<not> timeout_outcome (worker_outcome m)"
  by (auto simp: worker_outcome_def split: option.splits)

lemma handleWorkerResult_outcome:
  "handleWorkerResult i m p = (p', Some (t, r)) \<Longrightarrow> r = worker_outcome m"
  by (auto simp: handleWorkerResult_def Let_def split: option.splits)

lemma handleWorkerResult_linked:
  assumes "linked p" and "handleWorkerResult i m p = (p', r)"
  shows "linked p'"
proof -
  have "pingTimeoutMap p' = pingTimeoutMap p" "assignedTasks p' = AList.delete i (assignedTasks p)"
    using assms(2) by (auto simp: handleWorkerResult_def Let_def split: option.splits)
  then show ?thesis using assms handleWorkerResult_frame [OF assms(2)] by (auto simp: linked_def)
qed

lemma worker_result_moves:
  "move s (handleWorkerResult_cb post i m s) \<and> exact s (handleWorkerResult_cb post i m s)"
proof (cases "core s")
  case True
  obtain p res where hr: "handleWorkerResult i m (pool s) = (p, res)" by fastforce
  have wf: "wf_pool (pool s)" "linked (pool s)" using True by (simp_all add: core_def)
  note w = handleWorkerResult_wf [OF wf(1) hr]
  note c = handleWorkerResult_consistent [OF _ wf(1) hr]
  let ?s1 = "s\<lparr>pool := p\<rparr>"
  have core1: "core ?s1"
    using True w(1) handleWorkerResult_linked [OF wf(2) hr] by (simp add: core_def active_ok_def)
  define s2 where "s2 = (case res of None \<Rightarrow> ?s1
     | Some (t, r) \<Rightarrow> requestProcessQueue (releaseSlot (s\<lparr>pool := p, settled := settled s @ [(task_id t, r)],
         queueTimers := removeAll (task_id t) (queueTimers s), stats := count_outcome r (stats s)\<rparr>)))"
  have cb: "handleWorkerResult_cb post i m s = run_pool post s2"
    using hr handleWorkerResult_outcome [of i m "pool s" p] worker_outcome_kind(1) [of m]
    by (auto simp: handleWorkerResult_cb_def s2_def settle_def count_outcome_def Let_def split: option.splits)
  have "move s s2 \<and> exact s s2"
  proof (cases res)
    case None
    have "ids ?s1 = ids s" using w(2) None by (simp add: ids_def held_def running_def)
    moreover have "ledger ?s1 = ledger s" by (rule ledger_cong) simp_all
    moreover have "length (pool_tasks p) = length (pool_tasks (pool s))"
      using arg_cong [OF w(2), of size] None by simp
    ultimately show ?thesis
      using core1 None c by (simp add: s2_def move_def exact_def tight_def in_flight_def)
  next
    case (Some x)
    then obtain t r where res: "res = Some (t, r)" by (cases x) auto
    let ?s = "s\<lparr>pool := p, settled := settled s @ [(task_id t, r)],
         queueTimers := removeAll (task_id t) (queueTimers s), stats := count_outcome r (stats s)\<rparr>"
    have r: "\<not> timeout_outcome r"
      using handleWorkerResult_outcome hr res worker_outcome_kind(2) by blast
    have ids: "ids (releaseSlot ?s) = ids s"
      using w(2) res by (simp add: releaseSlot_def decrementActiveRequests_def held_defs)
    have "ledger (releaseSlot ?s) = ledger (s\<lparr>settled := settled s @ [(task_id t, r)], stats := count_outcome r (stats s)\<rparr>)"
      by (rule ledger_cong) (simp_all add: releaseSlot_def)
    then have ledger: "ledger (releaseSlot ?s) = ledger s" using ledger_settle [OF r] by simp
    have core: "core (releaseSlot ?s)"
      using core1 by (simp add: core_defs releaseSlot_def decrementActiveRequests_def)
    have "length (pool_tasks (pool s)) = Suc (length (pool_tasks p))"
      using arg_cong [OF w(2), of size] res by simp
    then have tight: "tight s \<Longrightarrow> tight (releaseSlot ?s)"
      using c by (simp add: tight_def in_flight_def releaseSlot_def decrementActiveRequests_def)
    have "move s (releaseSlot ?s)"
      using ids ledger core by (simp add: move_def) (simp add: releaseSlot_def decrementActiveRequests_def)
    moreover have "exact s (releaseSlot ?s)" using ids tight by (simp add: exact_def)
    ultimately show ?thesis
      using res move_trans [OF _ move_request] exact_trans [OF _ _ exact_request] by (simp add: s2_def)
  qed
  then show ?thesis
    unfolding cb using move_trans [OF _ move_run_pool] exact_trans [OF _ _ exact_run_pool] by blast
qed (simp add: move_def exact_def)

lemma replace_worker_facts:
  "assignedTasks (replace_worker i p) = assignedTasks p" "router_state (replace_worker i p) = router_state p"
  "routerCaps (replace_worker i p) = routerCaps p" "workerTaskQueue (replace_worker i p) = workerTaskQueue p"
  "useWorkers (replace_worker i p) = useWorkers p" "hasOnResult (replace_worker i p) = hasOnResult p"
  "shuttingDown (replace_worker i p) = shuttingDown p"
  by (simp_all add: replace_worker_def createOrReplaceWorker_def)

lemma busy_at_replace: "busy_at (replace_worker i p) j = (if j = i then False else busy_at p j)"
proof -
  let ?p = "p\<lparr>workerBusy := arr_set False i False (workerBusy p)\<rparr>"
  have "busy_at (replace_worker i p) j = (if j = i then False else busy_at ?p j)"
    by (rule busy_at_arr_set) (simp add: replace_worker_def createOrReplaceWorker_def)
  moreover have "busy_at ?p j = (if j = i then False else busy_at p j)"
    by (rule busy_at_arr_set) simp
  ultimately show ?thesis by simp
qed

lemma replace_worker_moves:
  assumes "useWorkers (pool s)"
  shows "move s (s\<lparr>pool := replace_worker i (pool s)\<rparr>)"
    and "i \<notin> fst ` set (assignedTasks (pool s)) \<Longrightarrow> exact s (s\<lparr>pool := replace_worker i (pool s)\<rparr>)"
proof -
  have "wf_pool (replace_worker i (pool s)) = wf_pool (pool s)"
    by (rule wf_pool_cong) (simp_all add: replace_worker_facts)
  moreover have "core s \<Longrightarrow> linked (replace_worker i (pool s))"
    using assms by (simp add: core_def linked_def replace_worker_facts)
  ultimately show "move s (s\<lparr>pool := replace_worker i (pool s)\<rparr>)"
    by (intro move_pool) (auto simp: core_def pool_tasks_def replace_worker_facts)
  assume "i \<notin> fst ` set (assignedTasks (pool s))"
  then show "exact s (s\<lparr>pool := replace_worker i (pool s)\<rparr>)"
    by (intro exact_pool)
       (auto simp: pool_consistent_def assigned_of_type_def busy_at_replace replace_worker_facts pool_tasks_def)
qed

lemma apply_pool_frame:
  "pool (requestProcessQueue s) = pool s" "pool (releaseSlot s) = pool s" "pool (settle t r s) = pool s"
  by (simp_all add: requestProcessQueue_def releaseSlot_def settle_def)

lemma worker_result_frame:
  "useWorkers (pool (handleWorkerResult_cb post i m s)) = useWorkers (pool s)"
  "workerPool (pool (handleWorkerResult_cb post i m s)) = workerPool (pool s)"
proof -
  obtain p res where hr: "handleWorkerResult i m (pool s) = (p, res)" by fastforce
  define s2 where "s2 = (case res of None \<Rightarrow> s\<lparr>pool := p\<rparr> | Some (t, r) \<Rightarrow>
      (let s' = settle t r (s\<lparr>pool := p\<rparr>);
           st = (if msg_success m then incrementProcessed 1 (stats s') else incrementRejected 1 (stats s'))
       in requestProcessQueue (releaseSlot (s'\<lparr>stats := st\<rparr>))))"
  have cb: "handleWorkerResult_cb post i m s = run_pool post s2"
    using hr by (simp add: handleWorkerResult_cb_def s2_def Let_def)
  have p2: "pool s2 = p" by (auto simp: s2_def apply_pool_frame Let_def split: option.splits)
  obtain p3 fs where pw: "processWorkerTasks post p = (p3, fs)" by fastforce
  have "pool (run_pool post s2) = p3"
    using run_pool_eq [of post s2 p3 fs] pw p2 by (simp add: apply_failures_frame)
  then show "useWorkers (pool (handleWorkerResult_cb post i m s)) = useWorkers (pool s)"
    "workerPool (pool (handleWorkerResult_cb post i m s)) = workerPool (pool s)"
    using processWorkerTasks_frame [OF pw] handleWorkerResult_frame [OF hr] by (simp_all add: cb)
qed

text \<open>With an empty worker queue nothing is dispatched after the result.\<close>

lemma worker_result_frees:
  assumes "workerTaskQueue (pool s) = []"
  shows "i \<notin> fst ` set (assignedTasks (pool (handleWorkerResult_cb post i m s)))"
proof -
  obtain p res where hr: "handleWorkerResult i m (pool s) = (p, res)" by fastforce
  have p: "workerTaskQueue p = []" "assignedTasks p = AList.delete i (assignedTasks (pool s))"
    using hr assms by (auto simp: handleWorkerResult_def Let_def split: option.splits)
  then have pw: "processWorkerTasks post p = (p, [])" by (simp add: processWorkerTasks_def)
  have "pool (handleWorkerResult_cb post i m s) = p"
    using hr pw
    by (auto simp: handleWorkerResult_cb_def run_pool_def Let_def apply_pool_frame split: option.splits)
  then show ?thesis using p(2) by (auto simp: AList.delete_eq)
qed

lemma worker_failure_moves:
  assumes "useWorkers (pool s)"
  shows "move s (handleWorkerFailure post i err s)"
    and "i \<notin> fst ` set (assignedTasks (pool s)) \<or> workerTaskQueue (pool s) = [] \<Longrightarrow>
           exact s (handleWorkerFailure post i err s)"
    and "useWorkers (pool (handleWorkerFailure post i err s))"
proof -
  let ?s1 = "s\<lparr>pool := clearPingTimeout i (pool s)\<rparr>"
  have s1: "useWorkers (pool ?s1)" "assignedTasks (pool ?s1) = assignedTasks (pool s)"
    "hasOnResult (pool ?s1) = hasOnResult (pool s)" "workerTaskQueue (pool ?s1) = workerTaskQueue (pool s)"
    using assms by (simp_all add: clearPingTimeout_def)
  define s2 where "s2 = (if i \<in> fst ` set (assignedTasks (pool ?s1)) then
      if hasOnResult (pool ?s1) then handleWorkerResult_cb post i (failure_message err) ?s1
      else fail_unlinked i err ?s1 else ?s1)"
  have hf: "handleWorkerFailure post i err s =
      (if shuttingDown (pool s) then s else s2\<lparr>pool := replace_worker i (pool s2)\<rparr>)"
    by (simp add: handleWorkerFailure_def s2_def Let_def)
  have use2: "useWorkers (pool s2)"
    using s1(1) by (auto simp: s2_def worker_result_frame fail_unlinked_def settle_def split: option.splits)
  show "useWorkers (pool (handleWorkerFailure post i err s))"
    using assms use2 by (simp add: hf replace_worker_facts)
  have m2: "move s s2 \<and> exact s s2" if "\<not> shuttingDown (pool s)"
  proof (cases "core s")
    case True
    then have "hasOnResult (pool s)" using that assms by (simp add: core_def linked_def)
    then have "s2 = ?s1 \<or> s2 = handleWorkerResult_cb post i (failure_message err) ?s1"
      using s1 by (simp add: s2_def)
    then show ?thesis
      using clearPing_moves [of s i] worker_result_moves [of ?s1 post i "failure_message err"]
        move_trans exact_trans by blast
  qed (simp add: move_def exact_def)
  show "move s (handleWorkerFailure post i err s)"
    using m2 move_trans [OF _ replace_worker_moves(1) [OF use2]] by (simp add: hf)
  assume safe: "i \<notin> fst ` set (assignedTasks (pool s)) \<or> workerTaskQueue (pool s) = []"
  show "exact s (handleWorkerFailure post i err s)"
  proof (cases "core s \<and> \<not> shuttingDown (pool s)")
    case True
    then have "hasOnResult (pool s)" using assms by (auto simp: core_def linked_def)
    then have "i \<notin> fst ` set (assignedTasks (pool s2))"
      using safe s1 worker_result_frees [of ?s1 i post "failure_message err"] by (auto simp: s2_def)
    then show ?thesis
      using True m2 exact_trans [OF _ _ replace_worker_moves(2) [OF use2]] by (simp add: hf)
  qed (auto simp: hf exact_def)
qed

lemma busy_reset_moves:
  fixes s i
  defines "s' \<equiv> s\<lparr>pool := (pool s)\<lparr>workerBusy := arr_set False i False (workerBusy (pool s))\<rparr>\<rparr>"
  shows "move s s'" and "i \<notin> fst ` set (assignedTasks (pool s)) \<Longrightarrow> exact s s'"
proof -
  let ?p = "(pool s)\<lparr>workerBusy := arr_set False i False (workerBusy (pool s))\<rparr>"
  have "wf_pool ?p = wf_pool (pool s)" by (rule wf_pool_cong) simp_all
  moreover have "linked ?p = linked (pool s)" by (simp add: linked_def)
  ultimately show "move s s'"
    unfolding s'_def by (intro move_pool) (simp_all add: core_def pool_tasks_def)
  assume "i \<notin> fst ` set (assignedTasks (pool s))"
  then show "exact s s'"
    unfolding s'_def using pool_consistent_idle [of "pool s" i ?p]
    by (intro exact_pool) (simp_all add: pool_tasks_def)
qed

lemma on_message_moves:
  shows "move s (on_message post i m s)"
    and "(msg_initialized m \<Longrightarrow> i \<notin> fst ` set (assignedTasks (pool s))) \<Longrightarrow> exact s (on_message post i m s)"
proof -
  note c = clearPing_moves [of s i]
  let ?s1 = "s\<lparr>pool := clearPingTimeout i (pool s)\<rparr>"
  have r: "move s (handleWorkerResult_cb post i m ?s1)" "exact s (handleWorkerResult_cb post i m ?s1)"
    using c worker_result_moves [of ?s1 post i m] move_trans exact_trans by blast+
  show "move s (on_message post i m s)"
    using c r busy_reset_moves(1) [of s i] by (simp add: on_message_def Let_def)
  assume "msg_initialized m \<Longrightarrow> i \<notin> fst ` set (assignedTasks (pool s))"
  then show "exact s (on_message post i m s)"
    using c r busy_reset_moves(2) [of i s] by (simp add: on_message_def Let_def)
qed

lemma ping_moves:
  assumes "useWorkers (pool s)"
  shows "move s (s\<lparr>pool := setPingTimeout i inst (pool s)\<rparr>)"
    and "exact s (s\<lparr>pool := setPingTimeout i inst (pool s)\<rparr>)"
proof -
  let ?p = "setPingTimeout i inst (pool s)"
  have t: "pool_tasks ?p = pool_tasks (pool s)" by (simp add: pool_tasks_def setPingTimeout_def)
  have "wf_pool ?p = wf_pool (pool s)" by (rule wf_pool_cong) (simp_all add: setPingTimeout_def)
  moreover have "linked ?p = linked (pool s)" using assms by (simp add: linked_def setPingTimeout_def)
  ultimately show "move s (s\<lparr>pool := ?p\<rparr>)" by (intro move_pool [OF _ t]) (simp add: core_def)
  have "pool_consistent ?p = pool_consistent (pool s)"
    by (simp add: pool_consistent_def busy_at_def assigned_of_type_def setPingTimeout_def)
  then show "exact s (s\<lparr>pool := ?p\<rparr>)" by (intro exact_pool [OF _ t]) simp
qed

text \<open>A health check is exact: it fails workers that are not busy only, and those hold no task.\<close>

lemma health_loop_moves:
  "useWorkers (pool s) \<Longrightarrow> move s (health_loop post is s) \<and> exact s (health_loop post is s)"
proof (induction "is" arbitrary: s)
  case (Cons i "is")
  define s1 where "s1 = (case worker_at (pool s) i of None \<Rightarrow> s
     | Some inst \<Rightarrow> if busy_at (pool s) i then s else if i \<in> set (pingTimeoutMap (pool s)) then s
        else case post inst Ping of None \<Rightarrow> s\<lparr>pool := setPingTimeout i inst (pool s)\<rparr>
             | Some err \<Rightarrow> handleWorkerFailure post i err s)"
  have hl: "health_loop post (i # is) s = health_loop post is s1" by (simp add: s1_def)
  have "s1 = s \<or> (\<exists>inst. s1 = s\<lparr>pool := setPingTimeout i inst (pool s)\<rparr>) \<or>
      (\<exists>err. s1 = handleWorkerFailure post i err s \<and> \<not> busy_at (pool s) i)"
    unfolding s1_def by (auto split: option.split)
  then consider (same) "s1 = s" | (ping) inst where "s1 = s\<lparr>pool := setPingTimeout i inst (pool s)\<rparr>"
    | (fail) err where "s1 = handleWorkerFailure post i err s" "\<not> busy_at (pool s) i"
    by blast
  then have "move s s1 \<and> exact s s1 \<and> useWorkers (pool s1)"
  proof cases
    case same
    then show ?thesis using Cons.prems by simp
  next
    case ping
    then show ?thesis using ping_moves [OF Cons.prems] Cons.prems by (simp add: setPingTimeout_def)
  next
    case fail
    have "exact s s1"
    proof (cases "pool_consistent (pool s)")
      case True
      then have "i \<notin> fst ` set (assignedTasks (pool s))"
        using fail(2) by (auto simp: pool_consistent_def)
      then show ?thesis using worker_failure_moves(2) [OF Cons.prems] fail(1) by simp
    qed (simp add: exact_def tight_def)
    then show ?thesis using worker_failure_moves [OF Cons.prems] fail(1) by simp
  qed
  then show ?case unfolding hl using Cons.IH [of s1] move_trans exact_trans by blast
qed simp

section \<open>The queue processor\<close>

lemma mset_take_drop: "mset (take n xs) + mset (drop n xs) = mset xs"
  by (metis append_take_drop_id mset_append)

lemma waiting_leave:
  "mset (take n (waiting_at (served_levels s) q)) + mset (waiting (leave n (served_levels s) q)) = mset (waiting q)"
proof -
  let ?h = "highPriorityQueue q" and ?m = "normalPriorityQueue q" and ?l = "lowPriorityQueue q"
  let ?b = "mset (batch_tasks (batchQueues q))"
  define i where "i = n - length ?h"
  define j where "j = i - length ?m"
  note td = mset_take_drop [of n ?h] mset_take_drop [of i ?m] mset_take_drop [of j ?l]
  show ?thesis
  proof (cases "memoryPressure s")
    case True
    have "mset (take n (waiting_at (served_levels s) q)) + mset (waiting (leave n (served_levels s) q)) =
        (mset (take n ?h) + mset (drop n ?h)) + (mset (take i ?m) + mset (drop i ?m)) + mset ?l + ?b"
      using True by (simp add: leave_served served_levels_def waiting_at_def waiting_def queued_tasks_def i_def)
    then show ?thesis unfolding td by (simp add: waiting_def queued_tasks_def)
  next
    case False
    have "mset (take n (waiting_at (served_levels s) q)) + mset (waiting (leave n (served_levels s) q)) =
        (mset (take n ?h) + mset (drop n ?h)) + (mset (take i ?m) + mset (drop i ?m)) +
        (mset (take j ?l) + mset (drop j ?l)) + ?b"
      using False
      by (simp add: leave_served served_levels_def waiting_at_def waiting_def queued_tasks_def i_def j_def)
    then show ?thesis unfolding td by (simp add: waiting_def queued_tasks_def)
  qed
qed

lemma list_all_drop: "list_all P xs \<Longrightarrow> list_all P (drop n xs)"
  by (auto simp: list_all_iff dest: in_set_dropD)

lemma wf_queues_leave:
  "wf_queues q \<Longrightarrow> wf_queues (leave n (served_levels s) q)"
  by (auto simp: leave_served wf_queues_def wf_levels_def list_all_drop)

lemma wtask_create [simp]: "wtask (createWorkerTaskData t) = t" "wtask \<circ> createWorkerTaskData = id"
  by (auto simp: createWorkerTaskData_def)

lemma started_facts:
  "mset (pool_tasks (pool (started ts s))) = mset (pool_tasks (pool s)) + mset (filter (isWorkerEligibleTask s) ts)"
  "length (pool_tasks (pool (started ts s))) = length (pool_tasks (pool s)) + length (filter (isWorkerEligibleTask s) ts)"
  "wf_pool (pool (started ts s)) = wf_pool (pool s)" "linked (pool (started ts s)) = linked (pool s)"
  "pool_consistent (pool (started ts s)) = pool_consistent (pool s)"
  by (simp_all add: started_def pool_tasks_def wf_pool_def within_caps_def linked_def pool_consistent_def
      assigned_of_type_def busy_at_def)

lemma drained_moves:
  assumes "activeRequests (queue s) < maxConcurrentRequests (config s)"
  shows "move s (drained s) \<and> exact s (drained s)"
proof -
  define n where "n = nat (available_slots s)"
  define ts where "ts = take n (waiting_at (served_levels s) (queue s))"
  define q where "q = leave n (served_levels s) (queue s)"
  have dr: "drained s = started ts (s\<lparr>queue := q\<lparr>isProcessingQueue := True\<rparr>\<rparr>)"
    by (simp add: drained_def n_def ts_def q_def Let_def)
  have "queue (drained s) = q\<lparr>isProcessingQueue := True, activeRequests := activeRequests (queue s) + int (length ts)\<rparr>"
    by (simp add: dr started_def q_def)
  note q' = this
  have w: "mset ts + mset (waiting (queue (drained s))) = mset (waiting (queue s))"
    using waiting_leave [of n s "queue s"] by (simp add: ts_def q' q_def waiting_def queued_tasks_def)
  have split: "mset (filter (isWorkerEligibleTask s) ts) + mset (filter (\<lambda>t. \<not> isWorkerEligibleTask s t) ts) = mset ts"
    by (rule mset_filter_partition)
  have len: "length (filter (isWorkerEligibleTask s) ts) + length (filter (\<lambda>t. \<not> isWorkerEligibleTask s t) ts) = length ts"
    by (rule sum_length_filter_compl)
  have runs: "mainRuns (drained s) = mainRuns s @ filter (\<lambda>t. \<not> isWorkerEligibleTask s t) ts"
    "batchRuns (drained s) = batchRuns s" "settled (drained s) = settled s" "config (drained s) = config s"
    "stats (drained s) = stats s" "admissionRejected (drained s) = admissionRejected s"
    by (simp_all add: dr started_def)
  have pool: "mset (pool_tasks (pool (drained s))) = mset (pool_tasks (pool s)) + mset (filter (isWorkerEligibleTask s) ts)"
    "length (pool_tasks (pool (drained s))) = length (pool_tasks (pool s)) + length (filter (isWorkerEligibleTask s) ts)"
    "wf_pool (pool (drained s)) = wf_pool (pool s)" "linked (pool (drained s)) = linked (pool s)"
    "pool_consistent (pool (drained s)) = pool_consistent (pool s)"
    by (simp_all add: dr started_facts)
  have "held (drained s) = held s"
  proof -
    have "held (drained s) = mset (waiting (queue (drained s))) +
        (mset (filter (isWorkerEligibleTask s) ts) + mset (filter (\<lambda>t. \<not> isWorkerEligibleTask s t) ts)) +
        mset (mainRuns s) + mset (concat (map run_tasks (batchRuns s))) + mset (pool_tasks (pool s))"
      by (simp only: held_def running_def runs pool mset_append ac_simps)
    also have "\<dots> = held s"
      by (simp only: split held_def running_def w [symmetric] mset_append ac_simps)
    finally show ?thesis .
  qed
  then have ids: "ids (drained s) = ids s" by (simp add: ids_def runs)
  have ledger: "ledger (drained s) = ledger s" by (rule ledger_cong) (simp_all add: runs)
  have "int (length ts) \<le> maxConcurrentRequests (config s) - activeRequests (queue s)"
    using assms by (auto simp: ts_def n_def available_slots_def)
  then have core: "core s \<Longrightarrow> core (drained s)"
    using wf_queues_leave [of "queue s" n s]
    by (auto simp: core_def active_ok_def runs pool q' q_def wf_queues_def wf_levels_def)
  have tight: "tight s \<Longrightarrow> tight (drained s)"
    using len by (simp add: tight_def in_flight_def runs pool q')
  have "taskIdCounter (queue (drained s)) = taskIdCounter (queue s)"
    by (simp add: q' q_def leave_served)
  then show ?thesis using ids ledger core tight runs by (simp add: move_def exact_def)
qed

lemma move_flag: "move s (s\<lparr>queue := (queue s)\<lparr>isProcessingQueue := b\<rparr>\<rparr>)"
  by (simp add: move_def core_defs held_defs ledger_defs)

lemma exact_flag: "exact s (s\<lparr>queue := (queue s)\<lparr>isProcessingQueue := b\<rparr>\<rparr>)"
  by (simp add: exact_def tight_def in_flight_def held_defs)

lemma processQueue_moves: "move s (processQueue post s) \<and> exact s (processQueue post s)"
proof (cases "core s \<and> \<not> isProcessingQueue (queue s) \<and>
    activeRequests (queue s) < maxConcurrentRequests (config s)")
  case True
  then have c: "0 \<le> concurrentTasks (config s)" by (simp add: core_def)
  define s2 where "s2 = (if filter (isWorkerEligibleTask s)
      (take (nat (available_slots s)) (waiting_at (served_levels s) (queue s))) \<noteq> []
    then run_pool post (drained s) else drained s)"
  define s3 where "s3 = s2\<lparr>queue := (queue s2)\<lparr>isProcessingQueue := False\<rparr>\<rparr>"
  have d: "move s (drained s)" "exact s (drained s)" using True drained_moves by blast+
  have "move s s2" "exact s s2"
    using d move_trans [OF d(1) move_run_pool] exact_trans [OF d exact_run_pool] by (simp_all add: s2_def)
  then have m3: "move s s3" "exact s s3"
    unfolding s3_def using move_trans [OF _ move_flag] exact_trans [OF _ _ exact_flag] by blast+
  have "processQueue post s = s3 \<or> processQueue post s = requestProcessQueue s3"
    using processQueue_eq [of s post] True c by (simp add: Let_def s2_def s3_def)
  then show ?thesis
    using m3 move_trans [OF m3(1) move_request] exact_trans [OF m3 exact_request] by auto
next
  case False
  then show ?thesis
  proof (cases "core s")
    case True
    with False have "processQueue post s = s" by (auto simp: processQueue_def)
    then show ?thesis by simp
  qed (simp add: move_def exact_def)
qed

end
