(* ===== verification/QueueSafety.thy ===== *)
theory QueueSafety
  imports QueueInvariants
begin

text \<open>
  The handlers that admit tasks or take waiting tasks out of the queues (\<open>enqueue\<close>, the wait
  timers, the memory check), the invariant of the whole state machine as an interpretation of
  \<open>inductive_invariant\<close>, and the safety theorems of the queue.
\<close>

section \<open>Taking waiting tasks out\<close>

lemma settle_all_frame [frame]:
  "settled (settle_all fs s) = settled s @ map (\<lambda>(t, err). (task_id t, Rejected err)) fs"
  "config (settle_all fs s) = config s" "queue (settle_all fs s) = queue s"
  "stats (settle_all fs s) = stats s" "pool (settle_all fs s) = pool s"
  "mainRuns (settle_all fs s) = mainRuns s" "batchRuns (settle_all fs s) = batchRuns s"
  "admissionRejected (settle_all fs s) = admissionRejected s"
  "memoryPressure (settle_all fs s) = memoryPressure s"
  by (induction fs s rule: settle_all.induct) (simp_all add: settle_def)

definition shed_kind :: "(outcome \<Rightarrow> bool) \<Rightarrow> failures \<Rightarrow> bool" where
  "shed_kind p fs = list_all (\<lambda>(_, err). p (Rejected err)) fs"

lemma settled_as_shed:
  assumes "settled s' = settled s @ map (\<lambda>(t, err). (task_id t, Rejected err)) (fs :: failures)"
  shows "shed_kind p fs \<Longrightarrow> settled_as p s' = settled_as p s + int (length fs)"
    and "shed_kind (\<lambda>r. \<not> p r) fs \<Longrightarrow> settled_as p s' = settled_as p s"
proof -
  show "settled_as p s' = settled_as p s + int (length fs)" if "shed_kind p fs"
  proof -
    have "filter (p \<circ> snd) (map (\<lambda>(t, err). (task_id t, Rejected err)) fs) =
        map (\<lambda>(t, err). (task_id t, Rejected err)) fs"
      using that by (auto simp: filter_id_conv shed_kind_def list_all_iff)
    then show ?thesis unfolding settled_as_def assms filter_append by simp
  qed
  show "settled_as p s' = settled_as p s" if "shed_kind (\<lambda>r. \<not> p r) fs"
    using that by (auto simp: assms settled_as_def shed_kind_def list_all_iff filter_empty_conv)
qed

text \<open>Waiting tasks are rejected and counted, as timeouts or as refusals.\<close>

lemma shed_moves:
  fixes fs :: failures
  assumes settled: "settled s' = settled s @ map (\<lambda>(t, err). (task_id t, Rejected err)) fs"
    and waiting: "core s \<Longrightarrow> mset (map fst fs) + mset (waiting (queue s')) = mset (waiting (queue s))"
    and wf: "core s \<Longrightarrow> wf_queues (queue s')"
    and same: "activeRequests (queue s') = activeRequests (queue s)"
      "taskIdCounter (queue s') = taskIdCounter (queue s)" "config s' = config s" "pool s' = pool s"
      "mainRuns s' = mainRuns s" "batchRuns s' = batchRuns s" "admissionRejected s' = admissionRejected s"
    and counted: "shed_kind timeout_outcome fs \<and> stats s' = incrementTimeout (length fs) (stats s) \<or>
                  shed_kind refused_outcome fs \<and> stats s' = incrementRejected (length fs) (stats s)"
  shows "move s s' \<and> exact s s'"
proof -
  have "shed_kind (\<lambda>r. \<not> is_resolved r) fs" by (auto simp: shed_kind_def list_all_iff)
  then have res: "settled_as is_resolved s' = settled_as is_resolved s" by (rule settled_as_shed(2) [OF settled])
  have "ledger s' = ledger s"
    using counted
  proof
    assume t: "shed_kind timeout_outcome fs \<and> stats s' = incrementTimeout (length fs) (stats s)"
    then have "shed_kind (\<lambda>r. \<not> refused_outcome r) fs"
      by (auto simp: shed_kind_def list_all_iff refused_outcome_def)
    with t res show ?thesis
      using settled_as_shed [OF settled] same by (simp add: ledger_def incrementTimeout_def)
  next
    assume t: "shed_kind refused_outcome fs \<and> stats s' = incrementRejected (length fs) (stats s)"
    then have "shed_kind (\<lambda>r. \<not> timeout_outcome r) fs"
      by (auto simp: shed_kind_def list_all_iff refused_outcome_def)
    with t res show ?thesis
      using settled_as_shed [OF settled] same by (simp add: ledger_def incrementRejected_def)
  qed
  moreover have "ids s' = ids s" if "core s"
  proof -
    have "fst \<circ> (\<lambda>(t :: QueueTask, err). (task_id t, Rejected err)) = task_id \<circ> fst" by auto
    then have "ids s' = image_mset task_id (mset (map fst fs) + mset (waiting (queue s'))) +
        image_mset task_id (mset (running s) + mset (pool_tasks (pool s))) + mset (map fst (settled s))"
      by (simp add: ids_def held_def running_def same settled image_mset.compositionality ac_simps)
    also have "\<dots> = ids s" unfolding waiting [OF that] by (simp add: ids_def held_def)
    finally show ?thesis .
  qed
  moreover have "core s \<Longrightarrow> core s'" using wf by (simp add: core_def active_ok_def same)
  moreover have "tight s = tight s'" by (simp add: tight_def in_flight_def same)
  ultimately show ?thesis using same by (simp add: move_def exact_def)
qed

lemma queue_timeout_moves: "move s (queue_timeout i s) \<and> exact s (queue_timeout i s)"
proof (cases "core s")
  case core: True
  then have wf: "wf_queues (queue s)" by (simp add: core_def)
  show ?thesis
  proof (cases "i \<in> task_id ` set (waiting (queue s))")
    case True
    then obtain q where rm: "removeTaskFromQueues i (queue s) = (True, q)"
      using removeTaskFromQueues_found [OF True] by (cases "removeTaskFromQueues i (queue s)") auto
    obtain t where t: "task_id t = i" "mset (waiting (queue s)) = add_mset t (mset (waiting q))" "wf_queues q"
      using removeTaskFromQueues_hit [OF wf rm] by blast
    have q: "activeRequests q = activeRequests (queue s)" "taskIdCounter q = taskIdCounter (queue s)"
      using removeTaskFromQueues_frame [of i "queue s"] rm by simp_all
    show ?thesis
      by (rule shed_moves [where fs = "[(t, QueueWaitTimeout)]"])
         (use rm t q in \<open>simp_all add: queue_timeout_def shed_kind_def\<close>)
  next
    case False
    then have "queue_timeout i s = s\<lparr>queueTimers := removeAll i (queueTimers s)\<rparr>"
      by (simp add: queue_timeout_def removeTaskFromQueues_miss)
    then show ?thesis
      by (simp add: move_def exact_def core_defs tight_def in_flight_def held_defs ledger_defs)
  qed
qed (simp add: move_def exact_def)

lemma list_all_filter: "list_all P xs \<Longrightarrow> list_all P (filter Q xs)"
  by (auto simp: list_all_iff)

lemma cleanup_moves: "move s (cleanup_cb now s) \<and> exact s (cleanup_cb now s)"
proof (cases "core s")
  case core: True
  let ?q = "queue s"
  define c where "c = cleanupOldTasks now (taskTimeoutMs (config s)) (highPriorityQueue ?q)
    (normalPriorityQueue ?q) (lowPriorityQueue ?q) (batchQueues ?q)"
  define q' where "q' = ?q\<lparr>highPriorityQueue := kept_high c, normalPriorityQueue := kept_normal c,
    lowPriorityQueue := kept_low c, batchQueues := kept_batches c\<rparr>"
  have wfb: "wf_batches (batchQueues ?q)" using core by (simp add: core_defs)
  note eq = cleanupOldTasks_eq [OF wf_batches_distinct [OF wfb], of now "taskTimeoutMs (config s)"
      "highPriorityQueue ?q" "normalPriorityQueue ?q" "lowPriorityQueue ?q", folded c_def]
  have cb: "cleanup_cb now s = (settle_all (cleaned c) (s\<lparr>queue := q'\<rparr>))\<lparr>stats := incrementTimeout (length (cleaned c)) (stats s)\<rparr>"
    by (simp add: cleanup_cb_def Let_def settle_all_frame flip: c_def q'_def)
  show ?thesis
    unfolding cb
  proof (rule shed_moves [where fs = "cleaned c"])
    show "mset (map fst (cleaned c)) + mset (waiting (queue ((settle_all (cleaned c) (s\<lparr>queue := q'\<rparr>))
        \<lparr>stats := incrementTimeout (length (cleaned c)) (stats s)\<rparr>))) = mset (waiting ?q)"
      using cleanupOldTasks_partition [OF wfb c_def]
      by (simp add: settle_all_frame q'_def waiting_def queued_tasks_def ac_simps)
    have "wf_batches (kept_batches c)" using cleanupOldTasks_wf [OF wfb c_def] .
    then have "wf_queues q'"
      using core by (simp add: q'_def eq core_defs list_all_filter)
    then show "wf_queues (queue ((settle_all (cleaned c) (s\<lparr>queue := q'\<rparr>))
        \<lparr>stats := incrementTimeout (length (cleaned c)) (stats s)\<rparr>))"
      by (simp add: settle_all_frame)
    have "shed_kind timeout_outcome (cleaned c)" by (auto simp: eq shed_kind_def list_all_iff)
    then show "shed_kind timeout_outcome (cleaned c) \<and>
        stats ((settle_all (cleaned c) (s\<lparr>queue := q'\<rparr>))\<lparr>stats := incrementTimeout (length (cleaned c)) (stats s)\<rparr>) =
        incrementTimeout (length (cleaned c)) (stats s) \<or>
        shed_kind refused_outcome (cleaned c) \<and>
        stats ((settle_all (cleaned c) (s\<lparr>queue := q'\<rparr>))\<lparr>stats := incrementTimeout (length (cleaned c)) (stats s)\<rparr>) =
        incrementRejected (length (cleaned c)) (stats s)"
      by simp
  qed (simp_all add: settle_all_frame q'_def)
qed (simp add: move_def exact_def)

text \<open>\<open>processBatch\<close> neither reads nor writes the counters, so the count of \<open>forceReduceQueues\<close> may be
  added before the batch callbacks run.\<close>

lemma processBatch_cb_stats:
  "processBatch_cb now k (s\<lparr>stats := st\<rparr>) = (processBatch_cb now k s)\<lparr>stats := st\<rparr>"
  "stats (processBatch_cb now k s) = stats s"
  by (simp_all add: processBatch_cb_def Let_def split: prod.split option.split)

lemma visit_batches_stats:
  "visit_batches (batchQueues \<circ> queue) p (processBatch_cb now) ks (s\<lparr>stats := st\<rparr>) =
   (visit_batches (batchQueues \<circ> queue) p (processBatch_cb now) ks s)\<lparr>stats := st\<rparr>"
  "stats (visit_batches (batchQueues \<circ> queue) p (processBatch_cb now) ks s) = stats s"
  by (induction ks arbitrary: s) (simp_all add: processBatch_cb_stats split: option.split)

lemma force_reduce_moves: "move s (force_reduce_cb now s) \<and> exact s (force_reduce_cb now s)"
proof -
  define low where "low = lowPriorityQueue (queue s)"
  define k where "k = length low div 2"
  define rejected where "rejected = take k (rev low)"
  define fs where "fs = map (\<lambda>t. (t, ResourceShortage)) rejected"
  define s1 where "s1 = settle_all fs (s\<lparr>queue := (queue s)\<lparr>lowPriorityQueue := take (length low - k) low\<rparr>\<rparr>)"
  define s2 where "s2 = s1\<lparr>stats := incrementRejected (length rejected) (stats s)\<rparr>"
  define ks where "ks = map fst (batchQueues (queue s1))"
  have pop: "pop_loop k low [] = (take (length low - k) low, rejected)"
    using pop_loop_eq [of k low "[]"] by (simp add: k_def rejected_def)
  have st1: "stats s1 = stats s" by (simp add: s1_def settle_all_frame)
  have fr: "force_reduce_cb now s =
      visit_batches (batchQueues \<circ> queue) (\<lambda>b. totalSize b > FORCE_REDUCE_BATCH_SIZE_THRESHOLD)
        (processBatch_cb now) ks s2"
    using pop
    by (simp add: force_reduce_cb_def forceReduceQueues_def Let_def visit_batches_stats st1 s2_def
        flip: low_def k_def fs_def s1_def ks_def)
  have "mset (map fst fs) + mset (take (length low - k) low) = mset low"
  proof -
    have "rejected = rev (drop (length low - k) low)" by (simp add: rejected_def rev_drop k_def)
    then have "mset (map fst fs) = mset (drop (length low - k) low)" by (simp add: fs_def comp_def)
    then show ?thesis using mset_take_drop [of "length low - k" low] by (simp add: add.commute)
  qed
  then have w: "mset (map fst fs) + mset (waiting (queue s2)) = mset (waiting (queue s))"
    by (simp add: s2_def s1_def settle_all_frame waiting_def queued_tasks_def low_def ac_simps)
  have "move s s2 \<and> exact s s2"
  proof (rule shed_moves [where fs = fs, OF _ w])
    show "core s \<Longrightarrow> wf_queues (queue s2)"
      by (auto simp: s2_def s1_def settle_all_frame core_defs low_def list_all_iff dest: in_set_takeD)
    have "shed_kind refused_outcome fs" by (auto simp: fs_def shed_kind_def refused_outcome_def list_all_iff)
    then show "shed_kind timeout_outcome fs \<and> stats s2 = incrementTimeout (length fs) (stats s) \<or>
        shed_kind refused_outcome fs \<and> stats s2 = incrementRejected (length fs) (stats s)"
      by (simp add: s2_def fs_def)
  qed (simp_all add: s2_def s1_def settle_all_frame)
  then show ?thesis
    unfolding fr using visit_batches_moves [of s2] move_trans exact_trans by blast
qed

lemma pressure_moves: "move s (s\<lparr>memoryPressure := b\<rparr>)" "exact s (s\<lparr>memoryPressure := b\<rparr>)"
  by (simp_all add: move_def exact_def core_defs tight_def in_flight_def held_defs ledger_defs)

lemma memory_tick_moves: "move s (memory_tick now gc ratio s) \<and> exact s (memory_tick now gc ratio s)"
proof -
  obtain b s1 where c: "checkMemoryUsage gc ratio (cleanup_cb now) (force_reduce_cb now) s = (b, s1)"
    by fastforce
  have "s1 = s \<or> s1 = cleanup_cb now s \<or> s1 = force_reduce_cb now (cleanup_cb now s)"
    using c by (auto simp: checkMemoryUsage_def Let_def split: if_splits)
  then have s1: "move s s1 \<and> exact s s1"
    using cleanup_moves [of s now] force_reduce_moves [of "cleanup_cb now s" now] move_trans exact_trans
    by blast
  let ?s2 = "s1\<lparr>memoryPressure := b\<rparr>"
  have "memory_tick now gc ratio s = ?s2 \<or> memory_tick now gc ratio s = requestProcessQueue ?s2"
    using c by (simp add: memory_tick_def Let_def)
  moreover have s2: "move s ?s2" "exact s ?s2"
    using s1 move_trans [OF _ pressure_moves(1)] exact_trans [OF _ _ pressure_moves(2)] by blast+
  moreover have "move s (requestProcessQueue ?s2)" "exact s (requestProcessQueue ?s2)"
    using s2 move_trans [OF _ move_request] exact_trans [OF _ _ exact_request] by blast+
  ultimately show ?thesis by auto
qed

section \<open>Admission\<close>

text \<open>One new task waits, in the place its options say; everything else is as before.\<close>

lemma place_task_facts:
  fixes t :: QueueTask
  assumes "wf_queues (queue s)" and "positive_size t" and "s' = place_task now b t s"
  shows "mset (waiting (queue s')) = add_mset t (mset (waiting (queue s)))" and "wf_queues (queue s')"
proof -
  let ?q = "queue s"
  have wfb: "wf_batches (batchQueues ?q)" using assms(1) by (simp add: wf_queues_def)
  have "mset (waiting (queue s')) = add_mset t (mset (waiting (queue s))) \<and> wf_queues (queue s')"
  proof (cases "b \<and> shouldAddToBatch t (batchQueues ?q)")
    case True
    obtain bs full where add: "addTaskToBatch now t (batchQueues ?q) = (bs, full)" by fastforce
    have "queue s' = ?q\<lparr>batchQueues := bs\<rparr>" using True add by (simp add: assms(3) place_task_def Let_def)
    moreover have "wf_batches bs" using addTaskToBatch_wf [OF wfb _ assms(2), of now] True add by simp
    moreover have "mset (batch_tasks bs) = add_mset t (mset (batch_tasks (batchQueues ?q)))"
      using addTaskToBatch_tasks [OF wfb, of now t] add by simp
    ultimately show ?thesis
      using assms(1) by (simp add: waiting_def queued_tasks_def wf_queues_def wf_levels_def)
  next
    case False
    then show ?thesis
      using assms(1) by (auto simp: assms(3) place_task_def Let_def waiting_def queued_tasks_def wf_queues_def
          wf_levels_def level_of_def)
  qed
  then show "mset (waiting (queue s')) = add_mset t (mset (waiting (queue s)))" "wf_queues (queue s')"
    by auto
qed

lemma place_task_frame [frame]:
  "config (place_task now b t s) = config s" "stats (place_task now b t s) = stats s"
  "pool (place_task now b t s) = pool s" "mainRuns (place_task now b t s) = mainRuns s"
  "batchRuns (place_task now b t s) = batchRuns s" "settled (place_task now b t s) = settled s"
  "admissionRejected (place_task now b t s) = admissionRejected s"
  "taskIdCounter (queue (place_task now b t s)) = taskIdCounter (queue s)"
  "activeRequests (queue (place_task now b t s)) = activeRequests (queue s)"
  "isProcessingQueue (queue (place_task now b t s)) = isProcessingQueue (queue s)"
  "memoryPressure (place_task now b t s) = memoryPressure s"
  "queueTimers (place_task now b t s) = queueTimers s"
  by (simp_all add: place_task_def Let_def split: prod.split)

lemma admit_facts:
  assumes "core s" and "0 < n_size n" and "s' = admit now n s"
  shows "core s'" and "ids s' = add_mset (taskIdCounter (queue s) + 1) (ids s)"
    and "ledger s' = ledger s" and "taskIdCounter (queue s') = taskIdCounter (queue s) + 1"
    and "config s' = config s" and "tight s \<Longrightarrow> tight s'"
    and "mset (waiting (queue s')) = add_mset (new_task now (taskIdCounter (queue s) + 1) n) (mset (waiting (queue s)))"
proof -
  define i where "i = taskIdCounter (queue s) + 1"
  define t where "t = new_task now i n"
  define s1 where "s1 = s\<lparr>queue := (queue s)\<lparr>taskIdCounter := i\<rparr>, queueTimers := queueTimers s @ [i]\<rparr>"
  define s2 where "s2 = place_task now (n_batch n) t s1"
  have s': "s' = s2\<lparr>queue := (queue s2)\<lparr>processSignalPending := True\<rparr>\<rparr>"
    by (simp add: assms(3) admit_def Let_def requestProcessQueue_eq s2_def s1_def t_def i_def)
  have wf1: "wf_queues (queue s1)" using assms(1) by (simp add: s1_def core_defs)
  have "positive_size t" using assms(2) by (simp add: t_def new_task_def positive_size_def)
  note p = place_task_facts [OF wf1 this s2_def]
  have w1: "waiting (queue s1) = waiting (queue s)" by (simp add: s1_def waiting_def queued_tasks_def)
  have w2: "waiting (queue s') = waiting (queue s2)" by (simp add: s' waiting_def queued_tasks_def)
  show "mset (waiting (queue s')) = add_mset (new_task now (taskIdCounter (queue s) + 1) n) (mset (waiting (queue s)))"
    using p(1) w1 w2 by (simp add: t_def i_def)
  have fr: "config s' = config s" "stats s' = stats s" "pool s' = pool s" "mainRuns s' = mainRuns s"
    "batchRuns s' = batchRuns s" "settled s' = settled s" "admissionRejected s' = admissionRejected s"
    "taskIdCounter (queue s') = i" "activeRequests (queue s') = activeRequests (queue s)"
    by (simp_all add: s' s2_def place_task_frame s1_def)
  show "config s' = config s" "taskIdCounter (queue s') = taskIdCounter (queue s) + 1"
    by (simp_all add: fr i_def)
  show "ledger s' = ledger s" by (rule ledger_cong) (simp_all add: fr)
  have "wf_queues (queue s')" using p(2) by (simp add: s' wf_queues_def wf_levels_def)
  then show "core s'" using assms(1) by (simp add: core_def active_ok_def fr)
  have "task_id t = i" by (simp add: t_def new_task_def)
  then show "ids s' = add_mset (taskIdCounter (queue s) + 1) (ids s)"
    using p(1) by (simp add: ids_def held_def running_def fr w2 w1 i_def)
  show "tight s \<Longrightarrow> tight s'" by (simp add: tight_def in_flight_def fr)
qed

section \<open>Every event\<close>

lemma trivial_moves:
  "move s (s\<lparr>intervalsOn := b\<rparr>) \<and> exact s (s\<lparr>intervalsOn := b\<rparr>)"
  "move s (s\<lparr>batchImmediates := cs\<rparr>) \<and> exact s (s\<lparr>batchImmediates := cs\<rparr>)"
  "move s (s\<lparr>fallbackCount := n\<rparr>) \<and> exact s (s\<lparr>fallbackCount := n\<rparr>)"
  "move s (stats_tick s) \<and> exact s (stats_tick s)"
  "move s (refuse s) \<and> exact s (refuse s)"
  by (simp_all add: move_def exact_def core_defs tight_def in_flight_def held_defs ledger_defs
      stats_tick_def refuse_def)

lemma destroy_begin_moves:
  "move s (s\<lparr>pool := destroy_begin (pool s)\<rparr>) \<and> exact s (s\<lparr>pool := destroy_begin (pool s)\<rparr>)"
proof -
  let ?p = "destroy_begin (pool s)"
  have t: "pool_tasks ?p = pool_tasks (pool s)" by (simp add: pool_tasks_def destroy_begin_def)
  have "wf_pool ?p = wf_pool (pool s)" by (rule wf_pool_cong) (simp_all add: destroy_begin_def)
  moreover have "linked (pool s) \<Longrightarrow> linked ?p" by (auto simp: linked_def destroy_begin_def)
  moreover have "pool_consistent ?p = pool_consistent (pool s)"
    by (simp add: pool_consistent_def busy_at_def assigned_of_type_def destroy_begin_def)
  ultimately show ?thesis using move_pool [OF _ t] exact_pool [OF _ t] by (simp add: core_def)
qed

lemma destroy_end_moves:
  assumes "shuttingDown (pool s)"
  shows "move s (s\<lparr>pool := destroy_end (pool s)\<rparr>)"
proof -
  let ?p = "destroy_end (pool s)"
  have "within_caps ?p" if "within_caps (pool s)"
    using that by (rule within_caps_antimono) (simp_all add: destroy_end_def resetActiveByType_def)
  then have "core s \<Longrightarrow> core (s\<lparr>pool := ?p\<rparr>)"
    using assms by (simp add: core_def wf_pool_def linked_def active_ok_def)
      (simp add: destroy_end_def)
  moreover have "ids (s\<lparr>pool := ?p\<rparr>) \<subseteq># ids s"
    by (simp add: ids_def held_def running_def pool_tasks_def destroy_end_def)
  moreover have "ledger (s\<lparr>pool := ?p\<rparr>) = ledger s" by (rule ledger_cong) simp_all
  ultimately show ?thesis by (simp add: move_def)
qed

text \<open>An \<open>enqueue\<close> that does not admit a task leaves the books alone; one that does adds the next id.\<close>

definition admits :: "event \<Rightarrow> Sys \<Rightarrow> bool" where
  "admits ev s = (case ev of Enqueue now options \<Rightarrow> (\<exists>i. fst (enqueue now options s) = Inr i) | _ \<Rightarrow> False)"

lemma enqueue_cases:
  obtains (invalid) err fb where "normalizeEnqueueOptions (customAllowed s) options
        (executionTimeoutMs (config s)) (fallbackCount s) = (Inl err, fb)"
      "enqueue now options s = (Inl err, s\<lparr>fallbackCount := fb\<rparr>)"
    | (pressured) n fb where "normalizeEnqueueOptions (customAllowed s) options
        (executionTimeoutMs (config s)) (fallbackCount s) = (Inr n, fb)"
      "memoryPressure s" "n_priority n < 0"
      "enqueue now options s = (Inl ServerOverloaded, refuse (s\<lparr>fallbackCount := fb\<rparr>))"
    | (full) n fb where "normalizeEnqueueOptions (customAllowed s) options
        (executionTimeoutMs (config s)) (fallbackCount s) = (Inr n, fb)"
      "\<not> (memoryPressure s \<and> n_priority n < 0)"
      "queueOverflowThreshold (config s) \<le> int (getTotalQueueLength (queue s))"
      "enqueue now options s = (Inl QueueFull, refuse (s\<lparr>fallbackCount := fb\<rparr>))"
    | (admitted) n fb where "normalizeEnqueueOptions (customAllowed s) options
        (executionTimeoutMs (config s)) (fallbackCount s) = (Inr n, fb)"
      "\<not> (memoryPressure s \<and> n_priority n < 0)"
      "int (getTotalQueueLength (queue s)) < queueOverflowThreshold (config s)"
      "0 < n_size n"
      "enqueue now options s = (Inr (taskIdCounter (queue s) + 1), admit now n (s\<lparr>fallbackCount := fb\<rparr>))"
proof -
  obtain res fb where n: "normalizeEnqueueOptions (customAllowed s) options
      (executionTimeoutMs (config s)) (fallbackCount s) = (res, fb)" by fastforce
  show ?thesis
  proof (cases res)
    case (Inl err)
    with n show ?thesis by (intro invalid) (simp_all add: enqueue_def)
  next
    case (Inr r)
    have size: "0 < n_size r"
      using normalizeEnqueueOptions_Inr(3) [of "customAllowed s" options "executionTimeoutMs (config s)"
          "fallbackCount s" r fb] n Inr parsePositiveIntegerOption_pos by fastforce
    consider "memoryPressure s" "n_priority r < 0"
      | "\<not> (memoryPressure s \<and> n_priority r < 0)" "queueOverflowThreshold (config s) \<le> int (getTotalQueueLength (queue s))"
      | "\<not> (memoryPressure s \<and> n_priority r < 0)" "int (getTotalQueueLength (queue s)) < queueOverflowThreshold (config s)"
      by linarith
    then show ?thesis
    proof cases
      case 1
      with n Inr show ?thesis by (intro pressured) (simp_all add: enqueue_def Let_def)
    next
      case 2
      with n Inr show ?thesis by (intro full) (simp_all add: enqueue_def Let_def)
    next
      case 3
      with n Inr size show ?thesis by (intro admitted) (simp_all add: enqueue_def Let_def)
    qed
  qed
qed

text \<open>The events whose handling may lose a task: a late \<open>initialized\<close> message of a worker that
  already has a task, the failure of such a worker while tasks queue for the pool, and the end of
  \<open>destroy\<close>.\<close>

fun careful :: "event \<Rightarrow> Sys \<Rightarrow> bool" where
  "careful (WorkerSays _ index _ m) s \<longleftrightarrow>
     (msg_initialized m \<longrightarrow> index \<notin> fst ` set (assignedTasks (pool s)))"
| "careful (WorkerDies _ index _ _) s \<longleftrightarrow>
     (index \<notin> fst ` set (assignedTasks (pool s)) \<or> workerTaskQueue (pool s) = [])"
| "careful (PingTimeout _ index) s \<longleftrightarrow>
     (index \<notin> fst ` set (assignedTasks (pool s)) \<or> workerTaskQueue (pool s) = [])"
| "careful DestroyEnd s \<longleftrightarrow> False"
| "careful _ s \<longleftrightarrow> True"

lemma linked_worker:
  "core s \<Longrightarrow> worker_at (pool s) i = Some inst \<Longrightarrow> useWorkers (pool s)"
  "core s \<Longrightarrow> i \<in> set (pingTimeoutMap (pool s)) \<Longrightarrow> useWorkers (pool s)"
  by (auto simp: core_def linked_def worker_at_def split: if_splits)

lemma handle_moves:
  assumes "enabled ev s" and "core s" and "\<not> admits ev s"
  shows "move s (handle ev s)" and "careful ev s \<Longrightarrow> exact s (handle ev s)"
proof -
  have "move s (handle ev s) \<and> (careful ev s \<longrightarrow> exact s (handle ev s))"
  proof (cases ev)
    case (Enqueue now options)
    have f: "move s (s\<lparr>fallbackCount := fb\<rparr>)" "exact s (s\<lparr>fallbackCount := fb\<rparr>)"
      "move s (refuse (s\<lparr>fallbackCount := fb\<rparr>))" "exact s (refuse (s\<lparr>fallbackCount := fb\<rparr>))" for fb
      using trivial_moves(3) [of s fb] trivial_moves(5) [of "s\<lparr>fallbackCount := fb\<rparr>"] move_trans exact_trans
      by blast+
    show ?thesis
      using assms(3) Enqueue f
      by (cases rule: enqueue_cases [of s options now]) (auto simp: admits_def)
  next
    case (ProcessImmediate post)
    then show ?thesis
      using move_signal [of s False] exact_signal [of s False] processQueue_moves move_trans exact_trans
      by (simp add: run_process_immediate_def)
  next
    case (BatchImmediate now cat)
    then show ?thesis
      using trivial_moves(2) [of s "remove1 cat (batchImmediates s)"] processBatch_cb_moves move_trans exact_trans
      by (simp add: run_batch_immediate_def) blast
  next
    case (MainDone i r)
    then show ?thesis using assms(1) main_done_moves [of r s i] by simp
  next
    case (BatchDone j i r)
    then show ?thesis using assms(1) batch_done_moves [of r s j i] by simp
  next
    case (WorkerSays post i inst m)
    then show ?thesis using on_message_moves [where s = s and post = post and i = i and m = m] by simp
  next
    case (WorkerDies post i inst err)
    then have "useWorkers (pool s)" using assms linked_worker(1) by simp
    then show ?thesis using WorkerDies worker_failure_moves [where s = s and post = post and i = i and err = err] by simp
  next
    case (PingTimeout post i)
    then have "useWorkers (pool s)" using assms linked_worker(2) by simp
    then show ?thesis using PingTimeout worker_failure_moves [where s = s and post = post and i = i and err = PING_TIMEOUT_MESSAGE] by simp
  next
    case (HealthTick post)
    then show ?thesis using assms(1) health_loop_moves [of s post] by simp
  next
    case (WaitTimeout i)
    then show ?thesis using queue_timeout_moves [of s i] by simp
  next
    case ProcessTick
    then show ?thesis using move_request [of s] exact_request [of s] by (simp add: process_tick_def)
  next
    case (AgingTick now)
    then show ?thesis
      using visit_batches_moves by (simp add: aging_tick_def processAgedBatches_def)
  next
    case (MemoryTick now gc ratio)
    then show ?thesis using memory_tick_moves [of s now gc ratio] by simp
  next
    case StatsTick
    then show ?thesis using trivial_moves(4) [of s] by simp
  next
    case ClearIntervals
    then show ?thesis using trivial_moves(1) [of s False] by simp
  next
    case DestroyBegin
    then show ?thesis using destroy_begin_moves [of s] by simp
  next
    case DestroyEnd
    then show ?thesis using assms(1) destroy_end_moves [of s] by simp
  qed
  then show "move s (handle ev s)" "careful ev s \<Longrightarrow> exact s (handle ev s)" by auto
qed

lemma admits_facts:
  assumes "admits ev s" and "core s"
  shows "core (handle ev s)" and "ids (handle ev s) = add_mset (taskIdCounter (queue s) + 1) (ids s)"
    and "ledger (handle ev s) = ledger s" and "taskIdCounter (queue (handle ev s)) = taskIdCounter (queue s) + 1"
    and "config (handle ev s) = config s" and "tight s \<Longrightarrow> tight (handle ev s)"
proof -
  obtain now options where ev: "ev = Enqueue now options" using assms(1) by (cases ev) (auto simp: admits_def)
  obtain n fb where size: "0 < n_size n" and h: "handle ev s = admit now n (s\<lparr>fallbackCount := fb\<rparr>)"
    using assms(1) ev by (cases rule: enqueue_cases [of s options now]) (auto simp: admits_def)
  let ?s = "s\<lparr>fallbackCount := fb\<rparr>"
  have f: "core ?s" "ids ?s = ids s" "ledger ?s = ledger s" "queue ?s = queue s" "config ?s = config s"
    "tight ?s = tight s"
    using assms(2) by (simp_all add: core_defs held_defs ledger_defs tight_def in_flight_def)
  note a = admit_facts [OF f(1) size h]
  show "core (handle ev s)" "ids (handle ev s) = add_mset (taskIdCounter (queue s) + 1) (ids s)"
    "ledger (handle ev s) = ledger s" "taskIdCounter (queue (handle ev s)) = taskIdCounter (queue s) + 1"
    "config (handle ev s) = config s" "tight s \<Longrightarrow> tight (handle ev s)"
    using a f by simp_all
qed

section \<open>The invariant\<close>

definition sys_inv :: "Sys \<Rightarrow> Sys \<Rightarrow> bool" where
  "sys_inv s0 s \<longleftrightarrow> core s \<and> ledger s = ledger s0 \<and> config s = config s0 \<and>
     taskIdCounter (queue s0) \<le> taskIdCounter (queue s) \<and>
     ids s \<subseteq># mset_set {taskIdCounter (queue s0)<..taskIdCounter (queue s)}"

inductive careful_step :: "Sys \<Rightarrow> Sys \<Rightarrow> bool" where
  careful_step: "enabled ev s \<Longrightarrow> careful ev s \<Longrightarrow> careful_step s (handle ev s)"

definition careful_reachable :: "Sys \<Rightarrow> Sys \<Rightarrow> bool" where
  "careful_reachable s0 s \<longleftrightarrow> start_state s0 \<and> careful_step\<^sup>*\<^sup>* s0 s"

definition careful_inv :: "Sys \<Rightarrow> Sys \<Rightarrow> bool" where
  "careful_inv s0 s \<longleftrightarrow> sys_inv s0 s \<and> tight s \<and>
     ids s = mset_set {taskIdCounter (queue s0)<..taskIdCounter (queue s)}"

lemma initWorkerPool_facts:
  fixes e
  defines "p \<equiv> initWorkerPool (init_pool e)"
  shows "assignedTasks p = []" "workerTaskQueue p = []" "router_state p = init_router"
    "routerCaps p = routerLimits e" "linked p"
proof -
  have keep: "assignedTasks (fold createOrReplaceWorker is q) = assignedTasks q \<and>
      workerTaskQueue (fold createOrReplaceWorker is q) = workerTaskQueue q \<and>
      router_state (fold createOrReplaceWorker is q) = router_state q \<and>
      routerCaps (fold createOrReplaceWorker is q) = routerCaps q \<and>
      useWorkers (fold createOrReplaceWorker is q) = useWorkers q \<and>
      hasOnResult (fold createOrReplaceWorker is q) = hasOnResult q" for "is" q
    by (induction "is" arbitrary: q) (simp_all add: createOrReplaceWorker_def)
  show "assignedTasks p = []" "workerTaskQueue p = []" "router_state p = init_router"
    "routerCaps p = routerLimits e" "linked p"
    by (simp_all add: p_def initWorkerPool_def keep linked_def) (simp_all add: init_pool_def)
qed

lemma routerLimits_pos: "isDispatchableType ty \<Longrightarrow> 1 \<le> getConcurrencyLimit (routerLimits e) ty"
  by (simp add: getConcurrencyLimit_def routerLimits_def clampConcurrencyLimit_def Let_def)

lemma sys_init_inv: "careful_inv (sys_init e c st) (sys_init e c st)"
proof -
  note p = initWorkerPool_facts [of e]
  have "within_caps (initWorkerPool (init_pool e))"
    unfolding within_caps_def
  proof (intro allI impI)
    fix ty assume "isDispatchableType ty"
    then show "int (activeByType (router_state (initWorkerPool (init_pool e))) ty)
        \<le> getConcurrencyLimit (routerCaps (initWorkerPool (init_pool e))) ty"
      using routerLimits_pos [of ty e] by (simp add: p init_router_def)
  qed
  then have "wf_pool (initWorkerPool (init_pool e))" by (simp add: wf_pool_def p)
  moreover have pos: "0 < maxConcurrentRequests (read_config e)" "0 < concurrentTasks (read_config e)"
    by (simp_all add: read_config_def readPositiveIntEnv_pos)
  ultimately have "core (sys_init e c st)"
    using p(5) by (simp add: core_defs sys_init_def init_queue_state_def)
  moreover have "ids (sys_init e c st) = {#}"
    by (simp add: held_defs sys_init_def init_queue_state_def pool_tasks_def p)
  moreover have "tight (sys_init e c st)"
    by (simp add: tight_def in_flight_def sys_init_def init_queue_state_def pool_tasks_def p
        pool_consistent_def assigned_of_type_def init_router_def)
  ultimately show ?thesis by (simp add: careful_inv_def sys_inv_def)
qed

lemma mset_set_next:
  "c \<le> n \<Longrightarrow> mset_set {c<..Suc n} = add_mset (Suc n) (mset_set {c<..(n :: nat)})"
  by (simp add: atLeastSucAtMost_greaterThanAtMost [symmetric] atLeastAtMostSuc_conv)

lemma sys_inv_step:
  assumes "sys_inv s0 s" and "step s t"
  shows "sys_inv s0 t"
proof -
  obtain ev where t: "t = handle ev s" and en: "enabled ev s" using assms(2) by (cases rule: step.cases) auto
  have core: "core s" using assms(1) by (simp add: sys_inv_def)
  show ?thesis
  proof (cases "admits ev s")
    case True
    note a = admits_facts [OF True core]
    then show ?thesis using assms(1) by (simp add: sys_inv_def t mset_set_next)
  next
    case False
    then have "move s t" using handle_moves(1) [OF en core] t by simp
    then show ?thesis using assms(1) subset_mset.order_trans by (fastforce simp: sys_inv_def move_def)
  qed
qed

lemma careful_inv_step:
  assumes "careful_inv s0 s" and "careful_step s t"
  shows "careful_inv s0 t"
proof -
  obtain ev where t: "t = handle ev s" and en: "enabled ev s" "careful ev s"
    using assms(2) by (cases rule: careful_step.cases) auto
  have inv: "sys_inv s0 s" and core: "core s" and tight: "tight s"
    using assms(1) by (auto simp: careful_inv_def sys_inv_def)
  have "sys_inv s0 t" using inv step [OF en(1)] t by (auto intro: sys_inv_step)
  moreover have "tight t \<and> ids t = mset_set {taskIdCounter (queue s0)<..taskIdCounter (queue t)}"
  proof (cases "admits ev s")
    case True
    note a = admits_facts [OF True core]
    then show ?thesis using assms(1) tight by (simp add: t careful_inv_def sys_inv_def mset_set_next)
  next
    case False
    have "move s t" "exact s t" using handle_moves [OF en(1) core False] en(2) t by simp_all
    then show ?thesis using assms(1) core tight by (simp add: careful_inv_def move_def exact_def)
  qed
  ultimately show ?thesis by (simp add: careful_inv_def)
qed

interpretation queue_sys: inductive_invariant "\<lambda>s. start_state s \<and> s = s0" step "sys_inv s0" for s0
proof unfold_locales
  fix s assume "start_state s \<and> s = s0"
  then show "sys_inv s0 s" using sys_init_inv by (auto simp: start_state_def careful_inv_def)
qed (rule sys_inv_step)

interpretation careful_sys: inductive_invariant "\<lambda>s. start_state s \<and> s = s0" careful_step "careful_inv s0" for s0
proof unfold_locales
  fix s assume "start_state s \<and> s = s0"
  then show "careful_inv s0 s" using sys_init_inv by (auto simp: start_state_def)
qed (rule careful_inv_step)

lemma reachable_inv: "reachable s0 s \<Longrightarrow> sys_inv s0 s"
  using queue_sys.inv_reachable [of s0 s0 s] by (simp add: reachable_def)

lemma careful_reachable_inv: "careful_reachable s0 s \<Longrightarrow> careful_inv s0 s"
  using careful_sys.inv_reachable [of s0 s0 s] by (simp add: careful_reachable_def)

lemma reachable_start: "start_state s0 \<Longrightarrow> reachable s0 s0"
  by (simp add: reachable_def)

end
