(* ===== verification/QueueBounds.thy ===== *)
theory QueueBounds
  imports QueueSafety
begin

text \<open>
  The length of the queue. \<open>calm s s'\<close> says that an operation adds no waiting task and leaves the
  processing flag as it was; every handler but an admitting \<open>enqueue\<close> is calm, so the number of
  waiting tasks stays below the overflow threshold.
\<close>

definition calm :: "Sys \<Rightarrow> Sys \<Rightarrow> bool" where
  "calm s s' \<longleftrightarrow> length (waiting (queue s')) \<le> length (waiting (queue s)) \<and>
     isProcessingQueue (queue s') = isProcessingQueue (queue s)"

lemma calm_refl [simp, intro]: "calm s s"
  by (simp add: calm_def)

lemma calm_trans: "calm s s1 \<Longrightarrow> calm s1 s2 \<Longrightarrow> calm s s2"
  by (auto simp: calm_def)

lemma calm_same: "queue s' = queue s \<Longrightarrow> calm s s'"
  by (simp add: calm_def)

lemma calm_queue:
  "waiting q = waiting (queue s) \<Longrightarrow> isProcessingQueue q = isProcessingQueue (queue s) \<Longrightarrow> queue s' = q \<Longrightarrow> calm s s'"
  by (simp add: calm_def)

lemma calm_request: "calm s (requestProcessQueue s)"
  by (simp add: calm_def requestProcessQueue_eq waiting_def queued_tasks_def)

lemma calm_release: "calm s (releaseSlot s)"
  by (simp add: calm_def releaseSlot_def decrementActiveRequests_def waiting_def queued_tasks_def)

lemma calm_run_pool: "calm s (run_pool post s)"
  by (simp add: calm_def run_pool_frame)

lemma calm_main_done: "calm s (main_done i r s)"
proof (cases "splice_task i (mainRuns s)")
  case None
  then show ?thesis by (simp add: main_done_def)
next
  case (Some x)
  then show ?thesis
    by (cases x)
       (simp add: main_done_eq calm_def requestProcessQueue_eq releaseSlot_def decrementActiveRequests_def
         waiting_def queued_tasks_def)
qed

lemma calm_batch_done: "calm s (batch_done j i r s)"
  by (auto simp: batch_done_def Let_def settle_def calm_def batch_complete_frame split: option.split)

lemma calm_worker_result: "calm s (handleWorkerResult_cb post i m s)"
proof -
  obtain p res where hr: "handleWorkerResult i m (pool s) = (p, res)" by fastforce
  have "\<exists>s2. handleWorkerResult_cb post i m s = run_pool post s2 \<and> calm s s2"
    using hr
    by (cases res)
       (auto simp: handleWorkerResult_cb_def Let_def settle_def releaseSlot_def requestProcessQueue_eq
         decrementActiveRequests_def calm_def waiting_def queued_tasks_def)
  then show ?thesis using calm_run_pool calm_trans by metis
qed

lemma calm_worker_failure: "calm s (handleWorkerFailure post i err s)"
proof -
  let ?s1 = "s\<lparr>pool := clearPingTimeout i (pool s)\<rparr>"
  have s1: "calm s ?s1" by (simp add: calm_same)
  have "calm ?s1 (handleWorkerResult_cb post i (failure_message err) ?s1)" by (rule calm_worker_result)
  moreover have "calm ?s1 (fail_unlinked i err ?s1)"
    by (auto simp: fail_unlinked_def settle_def intro: calm_same split: option.split)
  ultimately have "calm s s2 \<Longrightarrow> calm s (s2\<lparr>pool := p\<rparr>)" for s2 p
    by (auto simp: calm_def)
  then show ?thesis
    using s1 calm_trans [OF s1 calm_worker_result] calm_trans [OF s1 \<open>calm ?s1 (fail_unlinked i err ?s1)\<close>]
    by (simp add: handleWorkerFailure_def Let_def)
qed

lemma calm_on_message: "calm s (on_message post i m s)"
proof -
  have "calm s (s\<lparr>pool := p\<rparr>)" for p by (simp add: calm_same)
  then show ?thesis
    using calm_trans [OF _ calm_worker_result] by (simp add: on_message_def Let_def)
qed

lemma calm_health_loop: "calm s (health_loop post is s)"
proof (induction "is" arbitrary: s)
  case (Cons i "is")
  have "calm s (case worker_at (pool s) i of None \<Rightarrow> s
     | Some inst \<Rightarrow> if busy_at (pool s) i then s else if i \<in> set (pingTimeoutMap (pool s)) then s
        else case post inst Ping of None \<Rightarrow> s\<lparr>pool := setPingTimeout i inst (pool s)\<rparr>
             | Some err \<Rightarrow> handleWorkerFailure post i err s)"
    by (auto split: option.split intro: calm_worker_failure calm_same)
  then show ?case using Cons calm_trans by (simp only: health_loop.simps)
qed simp

lemma calm_processBatch: "core s \<Longrightarrow> calm s (processBatch_cb now k s)"
proof -
  assume core: "core s"
  let ?q = "queue s"
  have wf: "wf_batches (batchQueues ?q)" using core by (simp add: core_defs)
  obtain bs st where pb: "processBatch now k (batchQueues ?q) (activeRequests ?q)
      (maxConcurrentRequests (config s)) = (bs, st)" by fastforce
  have "length (batch_tasks bs) \<le> length (batch_tasks (batchQueues ?q))"
  proof (cases st)
    case None
    then have "bs = batchQueues ?q" using processBatch_idle [OF wf] pb by blast
    then show ?thesis by simp
  next
    case (Some ts)
    with pb have "processBatch now k (batchQueues ?q) (activeRequests ?q)
      (maxConcurrentRequests (config s)) = (bs, Some ts)" by simp
    with wf obtain b where "mset (batch_tasks (batchQueues ?q)) = mset ts + mset (batch_tasks bs)"
      by (rule processBatch_dispatch)
    from arg_cong [OF this, of size] show ?thesis by simp
  qed
  with pb show ?thesis
    by (auto simp: processBatch_cb_def Let_def calm_def waiting_def queued_tasks_def split: option.split)
qed

lemma calm_visit_batches: "core s \<Longrightarrow> calm s (visit_batches get p (processBatch_cb now) ks s)"
proof -
  assume core: "core s"
  have "core (visit_batches get p (processBatch_cb now) ks s) \<and> calm s (visit_batches get p (processBatch_cb now) ks s)"
  proof (rule visit_batches_keeps [where good = "\<lambda>t. core t \<and> calm s t"])
    fix k t assume t: "core t \<and> calm s t"
    then have "core (processBatch_cb now k t)" using processBatch_cb_moves [of t now k] by (simp add: move_def)
    then show "core (processBatch_cb now k t) \<and> calm s (processBatch_cb now k t)"
      using t calm_processBatch calm_trans by blast
  qed (use core in simp)
  then show ?thesis ..
qed

lemma calm_queue_timeout: "core s \<Longrightarrow> calm s (queue_timeout i s)"
proof -
  assume core: "core s"
  obtain b q where rm: "removeTaskFromQueues i (queue s) = (b, q)" by fastforce
  have flag: "isProcessingQueue q = isProcessingQueue (queue s)"
    using removeTaskFromQueues_frame(3) [of i "queue s"] rm by simp
  have "length (waiting q) \<le> length (waiting (queue s))"
  proof (cases b)
    case True
    then obtain t where "mset (waiting (queue s)) = add_mset t (mset (waiting q))"
      using removeTaskFromQueues_hit [of "queue s" i q] core rm by (auto simp: core_def)
    from arg_cong [OF this, of size] show ?thesis by simp
  next
    case False
    then have "i \<notin> task_id ` set (waiting (queue s))"
      using removeTaskFromQueues_found [of i "queue s"] rm by auto
    then show ?thesis using removeTaskFromQueues_miss [of i "queue s"] rm by simp
  qed
  with rm flag show ?thesis by (simp add: queue_timeout_def calm_def Let_def)
qed

lemma calm_cleanup: "core s \<Longrightarrow> calm s (cleanup_cb now s)"
proof -
  assume core: "core s"
  let ?q = "queue s"
  have wfb: "wf_batches (batchQueues ?q)" using core by (simp add: core_defs)
  define c where "c = cleanupOldTasks now (taskTimeoutMs (config s)) (highPriorityQueue ?q)
    (normalPriorityQueue ?q) (lowPriorityQueue ?q) (batchQueues ?q)"
  have "length (kept_high c) + length (kept_normal c) + length (kept_low c) + length (batch_tasks (kept_batches c))
      \<le> length (waiting ?q)"
    using arg_cong [OF cleanupOldTasks_partition [OF wfb c_def], of size] by (simp add: waiting_def queued_tasks_def)
  then show ?thesis
    by (simp add: cleanup_cb_def Let_def settle_all_frame calm_def waiting_def queued_tasks_def flip: c_def)
qed

lemma calm_force_reduce: "core s \<Longrightarrow> calm s (force_reduce_cb now s)"
proof -
  assume core: "core s"
  define s1 where "s1 = settle_all (map (\<lambda>t. (t, ResourceShortage)) (snd (pop_loop (length (lowPriorityQueue (queue s)) div 2) (lowPriorityQueue (queue s)) [])))
     (s\<lparr>queue := (queue s)\<lparr>lowPriorityQueue := fst (pop_loop (length (lowPriorityQueue (queue s)) div 2) (lowPriorityQueue (queue s)) [])\<rparr>\<rparr>)"
  let ?v = "visit_batches (batchQueues \<circ> queue) (\<lambda>b. totalSize b > FORCE_REDUCE_BATCH_SIZE_THRESHOLD)
        (processBatch_cb now) (map fst (batchQueues (queue s1))) s1"
  have "calm s s1"
    using pop_loop_eq [of "length (lowPriorityQueue (queue s)) div 2" "lowPriorityQueue (queue s)" "[]"]
    by (simp add: s1_def settle_all_frame calm_def waiting_def queued_tasks_def)
  moreover have "core s1"
    using core pop_loop_eq [of "length (lowPriorityQueue (queue s)) div 2" "lowPriorityQueue (queue s)" "[]"]
    by (auto simp: s1_def settle_all_frame core_defs list_all_iff dest: in_set_takeD)
  ultimately have "calm s ?v" using calm_visit_batches calm_trans by blast
  moreover have "force_reduce_cb now s = ?v\<lparr>stats := stats (force_reduce_cb now s)\<rparr>"
    by (simp add: force_reduce_cb_def forceReduceQueues_def Let_def s1_def case_prod_beta)
  ultimately show ?thesis unfolding calm_def by (metis (no_types, lifting) Sys.select_convs(3) Sys.surjective Sys.update_convs(4))
qed

lemma calm_memory_tick: "core s \<Longrightarrow> calm s (memory_tick now gc ratio s)"
proof -
  assume core: "core s"
  obtain b s1 where c: "checkMemoryUsage gc ratio (cleanup_cb now) (force_reduce_cb now) s = (b, s1)"
    by fastforce
  have "core (cleanup_cb now s)" using core cleanup_moves [of s now] by (simp add: move_def)
  then have "calm s (force_reduce_cb now (cleanup_cb now s))"
    using calm_force_reduce calm_cleanup [OF core] calm_trans by blast
  moreover have "s1 = s \<or> s1 = cleanup_cb now s \<or> s1 = force_reduce_cb now (cleanup_cb now s)"
    using c by (auto simp: checkMemoryUsage_def Let_def split: if_splits)
  ultimately have "calm s s1" using calm_cleanup [OF core] by auto
  then have s2: "calm s (s1\<lparr>memoryPressure := b\<rparr>)" by (simp add: calm_def)
  have "memory_tick now gc ratio s = s1\<lparr>memoryPressure := b\<rparr> \<or>
      memory_tick now gc ratio s = requestProcessQueue (s1\<lparr>memoryPressure := b\<rparr>)"
    using c by (simp add: memory_tick_def Let_def)
  then show ?thesis using s2 calm_trans [OF s2 calm_request] by auto
qed

lemma calm_processQueue:
  assumes "core s" and "\<not> isProcessingQueue (queue s)"
  shows "calm s (processQueue post s)"
proof (cases "activeRequests (queue s) < maxConcurrentRequests (config s)")
  case True
  have c: "0 \<le> concurrentTasks (config s)" using assms(1) by (simp add: core_def)
  define s2 where "s2 = (if filter (isWorkerEligibleTask s)
      (take (nat (available_slots s)) (waiting_at (served_levels s) (queue s))) \<noteq> []
    then run_pool post (drained s) else drained s)"
  define s3 where "s3 = s2\<lparr>queue := (queue s2)\<lparr>isProcessingQueue := False\<rparr>\<rparr>"
  have "length (waiting (queue (drained s))) \<le> length (waiting (queue s))"
    using arg_cong [OF waiting_leave [of "nat (available_slots s)" s "queue s"], of size]
    by (simp add: drained_def Let_def started_def waiting_def queued_tasks_def)
  then have "length (waiting (queue s2)) \<le> length (waiting (queue s))"
    by (simp add: s2_def run_pool_frame)
  then have s3: "calm s s3"
    using assms(2) by (simp add: s3_def calm_def waiting_def queued_tasks_def)
  have "processQueue post s = s3 \<or> processQueue post s = requestProcessQueue s3"
    using processQueue_eq [OF assms(2) True c, of post] by (simp add: Let_def s2_def s3_def)
  then show ?thesis using s3 calm_trans [OF s3 calm_request] by auto
next
  case False
  then show ?thesis by (simp add: processQueue_def)
qed

lemma handle_calm:
  assumes "core s" and "\<not> isProcessingQueue (queue s)" and "\<not> admits ev s"
  shows "calm s (handle ev s)"
proof (cases ev)
  case (Enqueue now options)
  then show ?thesis
    using assms(3) by (cases rule: enqueue_cases [of s options now]) (auto simp: admits_def refuse_def calm_def)
next
  case (ProcessImmediate post)
  let ?s = "s\<lparr>queue := (queue s)\<lparr>processSignalPending := False\<rparr>\<rparr>"
  have s: "calm s ?s" by (simp add: calm_def waiting_def queued_tasks_def)
  have "core ?s" "\<not> isProcessingQueue (queue ?s)"
    using assms(1,2) move_signal [of s False] by (simp_all add: move_def)
  then show ?thesis
    using ProcessImmediate calm_trans [OF s calm_processQueue] by (simp add: run_process_immediate_def)
next
  case (BatchImmediate now cat)
  let ?s = "s\<lparr>batchImmediates := remove1 cat (batchImmediates s)\<rparr>"
  have s: "calm s ?s" by (simp add: calm_same)
  have "core ?s" using assms(1) by (simp add: core_defs)
  then show ?thesis
    using BatchImmediate calm_trans [OF s calm_processBatch] by (simp add: run_batch_immediate_def)
next
  case (AgingTick now)
  then show ?thesis using assms(1) by (simp add: aging_tick_def processAgedBatches_def calm_visit_batches)
qed (simp_all add: assms(1) calm_main_done calm_batch_done calm_on_message calm_worker_failure calm_health_loop
    calm_queue_timeout calm_memory_tick process_tick_def calm_request stats_tick_def calm_same)

section \<open>The bound\<close>

definition bounded :: "Sys \<Rightarrow> bool" where
  "bounded s \<longleftrightarrow> core s \<and> \<not> isProcessingQueue (queue s) \<and>
     int (length (waiting (queue s))) \<le> queueOverflowThreshold (config s)"

lemma bounded_step:
  assumes "bounded s" and "step s t"
  shows "bounded t"
proof -
  obtain ev where t: "t = handle ev s" and en: "enabled ev s" using assms(2) by (cases rule: step.cases) auto
  have core: "core s" and flag: "\<not> isProcessingQueue (queue s)" using assms(1) by (simp_all add: bounded_def)
  show ?thesis
  proof (cases "admits ev s")
    case False
    have "move s t" using handle_moves(1) [OF en core False] t by simp
    moreover have "calm s t" using handle_calm [OF core flag False] t by simp
    ultimately show ?thesis using assms(1) by (auto simp: bounded_def move_def calm_def)
  next
    case True
    then obtain now options where ev: "ev = Enqueue now options" by (cases ev) (auto simp: admits_def)
    obtain n fb where a: "int (getTotalQueueLength (queue s)) < queueOverflowThreshold (config s)"
      "0 < n_size n" "t = admit now n (s\<lparr>fallbackCount := fb\<rparr>)"
      using True ev t by (cases rule: enqueue_cases [of s options now]) (auto simp: admits_def)
    let ?s = "s\<lparr>fallbackCount := fb\<rparr>"
    have "core ?s" using core by (simp add: core_defs)
    note f = admit_facts [OF this a(2,3)]
    have "length (waiting (queue t)) = Suc (length (waiting (queue s)))"
      using arg_cong [OF f(7), of size] by simp
    moreover have "isProcessingQueue (queue t) = isProcessingQueue (queue s)"
      by (simp add: a(3) admit_def Let_def requestProcessQueue_eq place_task_frame)
    ultimately show ?thesis
      using a(1) f(1,5) flag by (simp add: bounded_def getTotalQueueLength_waiting)
  qed
qed

interpretation queue_bound: inductive_invariant start_state step bounded
proof unfold_locales
  fix s assume "start_state s"
  then obtain e c st where s: "s = sys_init e c st" by (auto simp: start_state_def)
  have "core s" using sys_init_inv [of e c st] by (simp add: s careful_inv_def sys_inv_def)
  moreover have "0 < queueOverflowThreshold (config s)"
    by (simp add: s sys_init_def read_config_def readPositiveIntEnv_pos)
  ultimately show "bounded s"
    by (simp add: bounded_def) (simp add: s sys_init_def init_queue_state_def waiting_def queued_tasks_def)
qed (rule bounded_step)

lemma reachable_bounded: "reachable s0 s \<Longrightarrow> bounded s"
  using queue_bound.inv_reachable by (auto simp: reachable_def)

end
