(* ===== verification/Scenarios.thy ===== *)
theory Scenarios
  imports QueueBounds
begin

text \<open>
  Concrete runs of the queue, from start-up with an empty environment (the defaults of the code:
  four workers, 200 slots). They instantiate the hypotheses of the theorems on reachable states
  and show the two worker races.
\<close>

definition options_for :: "jsval \<Rightarrow> jsval \<Rightarrow> jsval \<Rightarrow> EnqueueOptions" where
  "options_for prio batch workload =
     \<lparr>opt_priority = prio, opt_requestId = Undefined, opt_category = Undefined, opt_batch = batch,
      opt_size = Undefined, opt_timeout = Undefined, opt_workloadType = workload,
      opt_params = Undefined, opt_functionCode = Undefined\<rparr>"

definition plain_options :: EnqueueOptions where
  "plain_options = options_for Undefined Undefined Undefined"

definition batch_options :: EnqueueOptions where
  "batch_options = options_for Undefined (Bool True) Undefined"

definition cpu_options :: EnqueueOptions where
  "cpu_options = options_for Undefined Undefined (Str ''cpu'')"

definition accepts :: post where
  "accepts = (\<lambda>_ _. None)"

definition initialized_message :: WorkerMessage where
  "initialized_message =
     \<lparr>msg_success = True, msg_result = Undefined, msg_error = None, msg_initialized = True,
      msg_healthCheck = False\<rparr>"

definition result_message :: "jsval \<Rightarrow> WorkerMessage" where
  "result_message v =
     \<lparr>msg_success = True, msg_result = v, msg_error = None, msg_initialized = False,
      msg_healthCheck = False\<rparr>"

definition boot :: Sys where
  "boot = sys_init Map.empty 0 init_stats"

definition after :: "event list \<Rightarrow> Sys" where
  "after evs = (case run evs boot of None \<Rightarrow> boot | Some s \<Rightarrow> s)"

definition runs :: "event list \<Rightarrow> bool" where
  "runs evs = (case run evs boot of None \<Rightarrow> False | Some _ \<Rightarrow> True)"

lemma start_boot: "start_state boot"
  by (auto simp: boot_def start_state_def)

lemma after_reachable: "reachable boot (after evs)"
  using run_steps [of evs boot] start_boot by (auto simp: reachable_def after_def split: option.split)

text \<open>Runs whose events are all careful.\<close>

fun careful_run :: "event list \<Rightarrow> Sys \<Rightarrow> bool" where
  "careful_run [] s = True"
| "careful_run (ev # evs) s = (enabled ev s \<and> careful ev s \<and> careful_run evs (handle ev s))"

lemma careful_run_steps: "careful_run evs s \<Longrightarrow> run evs s = Some t \<Longrightarrow> careful_step\<^sup>*\<^sup>* s t"
  by (induction evs arbitrary: s)
     (auto split: if_splits intro: careful_step converse_rtranclp_into_rtranclp)

lemma careful_run_take: "careful_run evs s \<Longrightarrow> careful_run (take n evs) s"
  by (induction evs arbitrary: s n) (auto simp: take_Cons split: nat.split)

lemma after_careful: "careful_run evs boot \<Longrightarrow> careful_reachable boot (after evs)"
  using careful_run_steps [of evs boot] start_boot
  by (auto simp: careful_reachable_def after_def split: option.split)

text \<open>An ordinary run: three tasks arrive; one is answered by a worker, one by the main thread, and
  one waits in a batch.\<close>

definition ordinary :: "event list" where
  "ordinary =
     [WorkerSays accepts 0 0 initialized_message, Enqueue 0 cpu_options, Enqueue 0 plain_options,
      Enqueue 0 batch_options, ProcessImmediate accepts,
      WorkerSays accepts 0 0 (result_message (Str ''one'')), MainDone 2 (Resolved Null)]"

lemma ordinary_runs: "runs ordinary" "careful_run ordinary boot"
  by code_simp+

lemma ordinary_result:
  "settled (after ordinary) = [(1, Resolved (Str ''one'')), (2, Resolved Null)]"
  "map task_id (waiting (queue (after ordinary))) = [3]"
  "activeRequests (queue (after ordinary)) = 0"
  by code_simp+

section \<open>States of the ordinary run\<close>

lemma ordinary_states:
  "activeRequests (queue (after (take 5 ordinary))) = 2"
  "getTotalQueueLength (queue (after (take 4 ordinary))) = 3"
  "activeByType (router_state (pool (after (take 5 ordinary)))) CPU = 1"
  "taskIdCounter (queue boot) = 0" "taskIdCounter (queue (after ordinary)) = 3"
  "totalProcessed (stats boot) = 0" "settled_as is_resolved (after ordinary) = 2" "batchRuns (after ordinary) = []"
  "map fst (batchQueues (queue (after ordinary))) = [''default'']"
  "3 \<in> task_id ` set (waiting (queue (after ordinary)))"
  "\<not> memoryPressure (after ordinary)"
  "\<not> queueOverflowThreshold (config (after ordinary)) \<le> int (length (waiting (queue (after ordinary))))"
  "normalizeEnqueueOptions (customAllowed (after ordinary)) batch_options (executionTimeoutMs (config (after ordinary)))
     (fallbackCount (after ordinary)) =
   (Inr \<lparr>n_priority = 0, n_category = ''default'', n_size = 1, n_timeout = 10000, n_workloadType = None, n_params = [],
          n_functionCode = None, n_batch = True, n_requestId = Undefined\<rparr>, 0)"
  by code_simp+

section \<open>The races of the worker pool\<close>

text \<open>The \<open>initialized\<close> message of a worker arrives after its first task was posted.\<close>

definition late_init :: "event list" where
  "late_init =
     [Enqueue 0 cpu_options, ProcessImmediate accepts, WorkerSays accepts 0 0 initialized_message,
      Enqueue 0 cpu_options, ProcessImmediate accepts,
      WorkerSays accepts 0 0 (result_message (Str ''one''))]"

text \<open>The same race, with two more memory tasks after the wrong answer: worker 0 still runs the first.\<close>

definition memory_options :: EnqueueOptions where
  "memory_options = options_for Undefined Undefined (Str ''memory'')"

definition late_memory :: "event list" where
  "late_memory =
     [Enqueue 0 cpu_options, ProcessImmediate accepts, WorkerSays accepts 0 0 initialized_message,
      Enqueue 0 memory_options, ProcessImmediate accepts, WorkerSays accepts 0 0 (result_message (Str ''one'')),
      Enqueue 0 cpu_options, ProcessImmediate accepts,
      Enqueue 0 memory_options, Enqueue 0 memory_options, ProcessImmediate accepts]"

fun sent_type :: "nat \<times> WorkerRequest \<Rightarrow> nat \<times> WorkloadType option" where
  "sent_type (inst, Work ty _ _ _ _) = (inst, Some ty)"
| "sent_type (inst, Ping) = (inst, None)"

text \<open>A worker dies while another task waits for the pool: every worker is given a task, a fifth
  waits, and worker 0 fails.\<close>

definition dead_worker :: "event list" where
  "dead_worker =
     [Enqueue 0 cpu_options, Enqueue 0 cpu_options, Enqueue 0 cpu_options, Enqueue 0 cpu_options,
      Enqueue 0 cpu_options, ProcessImmediate accepts, WorkerDies accepts 0 0 ''crash'']"

text \<open>A worker is marked idle when it is created, so a task can be posted to it before it
  reports \<open>initialized\<close>; that message then marks it idle again although it has a task. The next task
  overwrites the first in \<open>assignedTasks\<close>: in this run the answer to task 1 resolves task 2, task 1
  is held nowhere and never settled, and its slot is never given back.\<close>

theorem late_initialized_message_misroutes_a_result:
  "runs late_init \<and> settled (after late_init) = [(2, Resolved (Str ''one''))] \<and>
   waiting (queue (after late_init)) = [] \<and> running (after late_init) = [] \<and>
   pool_tasks (pool (after late_init)) = [] \<and> activeRequests (queue (after late_init)) = 1"
  by code_simp

text \<open>The wrong answer also frees a place of the wrong type. The limit for memory tasks is two, and the
  counter stands at two, but three are with the workers: worker 0 has answered only its first request,
  the CPU task, and was sent a memory task after it, and workers 1 and 2 were sent one each.\<close>

theorem late_initialized_message_breaks_a_limit:
  "runs late_memory \<and>
   getConcurrencyLimit (routerCaps (pool (after late_memory))) MEMORY = 2 \<and>
   activeByType (router_state (pool (after late_memory))) MEMORY = 2 \<and>
   map sent_type (outbox (pool (after late_memory))) =
     [(0, Some CPU), (0, Some MEMORY), (0, Some CPU), (1, Some MEMORY), (2, Some MEMORY)]"
  by code_simp

text \<open>When a worker with a task fails while other tasks queue for the pool, the failure handler
  first reports the result, which posts the next task to the failed worker, and only then replaces
  that worker: in this run task 5 is assigned to slot 0, whose new worker 4 was never sent a message
  and is marked idle.\<close>

theorem failed_worker_is_given_the_next_task:
  "runs dead_worker \<and>
   map_option (task_id \<circ> wtask) (map_of (assignedTasks (pool (after dead_worker))) 0) = Some 5 \<and>
   worker_at (pool (after dead_worker)) 0 = Some 4 \<and> \<not> busy_at (pool (after dead_worker)) 0 \<and>
   list_all (\<lambda>(inst, _). inst \<noteq> 4) (outbox (pool (after dead_worker))) \<and>
   map fst (filter (\<lambda>(inst, _). inst = 0) (outbox (pool (after dead_worker)))) = [0, 0]"
  by code_simp

end
