(* ===== verification/QueueLifecycle.thy ===== *)
theory QueueLifecycle
  imports Scenarios
begin

text \<open>
  What the queue promises for one task, as a machine of its own, and the proof that the queue
  (theory \<open>QueueSystem\<close>) refines it: a task is handed out, waits, runs and is done, in this direction
  only, and is never done twice. The locale \<open>forward_simulation\<close> states what a refinement is; it is
  interpreted on the steps of the queue with all their races, and on the careful steps.
\<close>

section \<open>Refinement\<close>

locale forward_simulation = inductive_invariant +
  fixes abs :: "'s \<Rightarrow> 'a" and astep :: "'a \<Rightarrow> 'a \<Rightarrow> bool"
  assumes simulates: "inv s \<Longrightarrow> step s t \<Longrightarrow> astep\<^sup>*\<^sup>* (abs s) (abs t)"
begin

lemma simulates_runs:
  assumes "inv s" and "step\<^sup>*\<^sup>* s t"
  shows "astep\<^sup>*\<^sup>* (abs s) (abs t) \<and> inv t"
  using assms(2)
proof (induction rule: rtranclp_induct)
  case (step t u)
  then show ?case using simulates [of t u] inv_step [of t u] by (auto intro: rtranclp_trans)
qed (simp add: assms(1))

end

section \<open>The life of a task\<close>

datatype phase = Unheld | Waits | Runs | Done outcome

text \<open>The last id handed out, and the phase of every id.\<close>

type_synonym tasks_view = "nat \<times> (nat \<Rightarrow> phase)"

inductive life_step :: "bool \<Rightarrow> tasks_view \<Rightarrow> tasks_view \<Rightarrow> bool" for lossy :: bool where
  hand_out: "ph (n + 1) = Unheld \<Longrightarrow> life_step lossy (n, ph) (n + 1, ph(n + 1 := Waits))"
| start: "ph i = Waits \<Longrightarrow> life_step lossy (n, ph) (n, ph(i := Runs))"
| settled: "ph i \<in> {Waits, Runs} \<Longrightarrow> life_step lossy (n, ph) (n, ph(i := Done r))"
| lost: "lossy \<Longrightarrow> ph i \<in> {Waits, Runs} \<Longrightarrow> life_step lossy (n, ph) (n, ph(i := Unheld))"

definition phase_of :: "Sys \<Rightarrow> nat \<Rightarrow> phase" where
  "phase_of s i =
     (case map_of (settled s) i of
        Some r \<Rightarrow> Done r
      | None \<Rightarrow> if i \<in> task_id ` set (waiting (queue s)) then Waits
                else if i \<in> task_id ` set (running s @ pool_tasks (pool s)) then Runs
                else Unheld)"

definition tasks_view :: "Sys \<Rightarrow> tasks_view" where
  "tasks_view s = (taskIdCounter (queue s), phase_of s)"

text \<open>How the phase of one task may change within a step: it advances, or the task is lost.\<close>

definition advances :: "bool \<Rightarrow> phase \<Rightarrow> phase \<Rightarrow> bool" where
  "advances lossy a b \<longleftrightarrow>
     a = b \<or> a = Waits \<and> b = Runs \<or> a \<in> {Waits, Runs} \<and> (\<exists>r. b = Done r) \<or> lossy \<and> a \<in> {Waits, Runs} \<and> b = Unheld"

lemma advance_one:
  assumes "advances lossy (ph i) b"
  shows "(life_step lossy)\<^sup>*\<^sup>* (n, ph) (n, ph(i := b))"
proof (cases "ph i = b")
  case True
  then have "ph(i := b) = ph" by auto
  then show ?thesis by simp
next
  case False
  then have "life_step lossy (n, ph) (n, ph(i := b))"
    using assms by (auto simp: advances_def intro: life_step.intros)
  then show ?thesis by (rule r_into_rtranclp)
qed

lemma advance_all:
  assumes "finite A" and "\<And>i. advances lossy (ph i) (ph' i)" and "\<And>i. i \<notin> A \<Longrightarrow> ph' i = ph i"
  shows "(life_step lossy)\<^sup>*\<^sup>* (n, ph) (n, ph')"
  using assms
proof (induction A arbitrary: ph)
  case empty
  then have "ph' = ph" by auto
  then show ?case by simp
next
  case (insert j A)
  let ?ph = "ph(j := ph' j)"
  have "(life_step lossy)\<^sup>*\<^sup>* (n, ?ph) (n, ph')"
    using insert.prems by (intro insert.IH) (auto simp: advances_def)
  then show ?case using advance_one [of lossy ph j "ph' j" n] insert.prems(1) by (meson rtranclp_trans)
qed

section \<open>Every operation moves tasks forward\<close>

definition forward :: "Sys \<Rightarrow> Sys \<Rightarrow> bool" where
  "forward s t \<longleftrightarrow>
     (core s \<longrightarrow> (\<exists>new. settled t = settled s @ new) \<and> set (waiting (queue t)) \<subseteq> set (waiting (queue s)))"

lemma forward_refl [simp, intro]: "forward s s"
  by (simp add: forward_def)

lemma forward_trans: "move s t \<Longrightarrow> forward s t \<Longrightarrow> forward t u \<Longrightarrow> forward s u"
  unfolding forward_def move_def by (metis append.assoc subset_trans)

lemma forward_same: "settled t = settled s @ new \<Longrightarrow> waiting (queue t) = waiting (queue s) \<Longrightarrow> forward s t"
  by (auto simp: forward_def)

lemma forward_part:
  "settled t = settled s @ new \<Longrightarrow> (core s \<Longrightarrow> A + mset (waiting (queue t)) = mset (waiting (queue s))) \<Longrightarrow> forward s t"
  unfolding forward_def by (metis set_mset_mset subset_Un_eq sup.right_idem set_mset_union sup_commute)

lemma request_frame:
  "settled (requestProcessQueue s) = settled s" "waiting (queue (requestProcessQueue s)) = waiting (queue s)"
  by (simp_all add: requestProcessQueue_eq waiting_def queued_tasks_def)

lemma run_pool_settled: "\<exists>new. settled (run_pool post s) = settled s @ new"
  by (cases "processWorkerTasks post (pool s)") (simp add: run_pool_eq apply_failures_settled)

lemma forward_run_pool: "forward s (run_pool post s)"
  using run_pool_settled [of post s] by (auto simp: run_pool_frame intro: forward_same)

lemma forward_request: "forward s (requestProcessQueue s)"
  by (simp add: forward_def request_frame)

lemma forward_worker_result: "forward s (handleWorkerResult_cb post i m s)"
proof -
  obtain p res where hr: "handleWorkerResult i m (pool s) = (p, res)" by fastforce
  define s2 where "s2 = (case res of None \<Rightarrow> s\<lparr>pool := p\<rparr> | Some (t, r) \<Rightarrow>
      (let s' = settle t r (s\<lparr>pool := p\<rparr>);
           st = (if msg_success m then incrementProcessed 1 (stats s') else incrementRejected 1 (stats s'))
       in requestProcessQueue (releaseSlot (s'\<lparr>stats := st\<rparr>))))"
  have cb: "handleWorkerResult_cb post i m s = run_pool post s2"
    using hr by (simp add: handleWorkerResult_cb_def s2_def Let_def)
  have "\<exists>new. settled s2 = settled s @ new" "waiting (queue s2) = waiting (queue s)"
    by (auto simp: s2_def requestProcessQueue_eq releaseSlot_def settle_def Let_def waiting_def queued_tasks_def
        decrementActiveRequests_def split: option.splits)
  then show ?thesis
    unfolding cb using run_pool_settled [of post s2] by (auto simp: run_pool_frame intro!: forward_same)
qed

lemma forward_worker_failure: "forward s (handleWorkerFailure post i err s)"
proof -
  let ?s1 = "s\<lparr>pool := clearPingTimeout i (pool s)\<rparr>"
  define s2 where "s2 = (if i \<in> fst ` set (assignedTasks (pool ?s1)) then
      if hasOnResult (pool ?s1) then handleWorkerResult_cb post i (failure_message err) ?s1
      else fail_unlinked i err ?s1 else ?s1)"
  have hf: "handleWorkerFailure post i err s =
      (if shuttingDown (pool s) then s else s2\<lparr>pool := replace_worker i (pool s2)\<rparr>)"
    by (simp add: handleWorkerFailure_def s2_def Let_def)
  have "forward ?s1 s2"
    using forward_worker_result [of ?s1] by (auto simp: s2_def fail_unlinked_def settle_def forward_def split: option.split)
  moreover have "forward s ?s1" by (simp add: forward_def)
  ultimately have "forward s s2" using clearPing_moves(1) forward_trans by blast
  then show ?thesis by (simp add: hf forward_def)
qed

lemma forward_health_loop: "useWorkers (pool s) \<Longrightarrow> forward s (health_loop post is s)"
proof (induction "is" arbitrary: s)
  case (Cons i "is")
  define s1 where "s1 = (case worker_at (pool s) i of None \<Rightarrow> s
     | Some inst \<Rightarrow> if busy_at (pool s) i then s else if i \<in> set (pingTimeoutMap (pool s)) then s
        else case post inst Ping of None \<Rightarrow> s\<lparr>pool := setPingTimeout i inst (pool s)\<rparr>
             | Some err \<Rightarrow> handleWorkerFailure post i err s)"
  have hl: "health_loop post (i # is) s = health_loop post is s1" by (simp add: s1_def)
  have "s1 = s \<or> (\<exists>inst. s1 = s\<lparr>pool := setPingTimeout i inst (pool s)\<rparr>) \<or> (\<exists>err. s1 = handleWorkerFailure post i err s)"
    unfolding s1_def by (auto split: option.split)
  then consider "s1 = s" | inst where "s1 = s\<lparr>pool := setPingTimeout i inst (pool s)\<rparr>"
    | err where "s1 = handleWorkerFailure post i err s" by blast
  then have "move s s1 \<and> forward s s1 \<and> useWorkers (pool s1)"
  proof cases
    case 2
    then show ?thesis using ping_moves [OF Cons.prems] Cons.prems by (simp add: setPingTimeout_def forward_def)
  next
    case 3
    then show ?thesis using worker_failure_moves [OF Cons.prems] forward_worker_failure by simp
  qed (use Cons.prems in simp)
  then show ?case unfolding hl using Cons.IH [of s1] forward_trans by blast
qed simp

lemma forward_processBatch: "forward s (processBatch_cb now cat s)"
proof (cases "core s")
  case True
  then have wf: "wf_batches (batchQueues (queue s))" by (simp add: core_defs)
  obtain bs st where pb: "processBatch now cat (batchQueues (queue s)) (activeRequests (queue s))
      (maxConcurrentRequests (config s)) = (bs, st)" by fastforce
  show ?thesis
  proof (cases st)
    case None
    then have "bs = batchQueues (queue s)" using processBatch_idle [OF wf] pb by simp
    with None pb show ?thesis by (simp add: processBatch_cb_def)
  next
    case (Some ts)
    have "mset (batch_tasks (batchQueues (queue s))) = mset ts + mset (batch_tasks bs)"
      using pb unfolding Some by (rule processBatch_dispatch [OF wf])
    then show ?thesis
      using pb Some by (intro forward_part [where new = "[]" and A = "mset ts"])
        (simp_all add: processBatch_cb_def waiting_def queued_tasks_def)
  qed
qed (simp add: forward_def)

lemma forward_visit_batches: "forward s (visit_batches get p (processBatch_cb now) ks s)"
proof -
  let ?t = "visit_batches get p (processBatch_cb now) ks s"
  have "move s ?t \<and> forward s ?t"
  proof (rule visit_batches_keeps [where good = "\<lambda>t. move s t \<and> forward s t"])
    fix k t assume "move s t \<and> forward s t"
    then show "move s (processBatch_cb now k t) \<and> forward s (processBatch_cb now k t)"
      using processBatch_cb_moves [of t now k] forward_processBatch [of t now k] move_trans forward_trans by blast
  qed simp
  then show ?thesis ..
qed

lemma forward_cleanup: "forward s (cleanup_cb now s)"
proof (cases "core s")
  case True
  then have wf: "wf_batches (batchQueues (queue s))" by (simp add: core_defs)
  define c where "c = cleanupOldTasks now (taskTimeoutMs (config s)) (highPriorityQueue (queue s))
    (normalPriorityQueue (queue s)) (lowPriorityQueue (queue s)) (batchQueues (queue s))"
  show ?thesis
    using cleanupOldTasks_partition [OF wf c_def]
    by (intro forward_part [where A = "mset (map fst (cleaned c))"])
      (simp_all add: cleanup_cb_def Let_def settle_all_frame waiting_def queued_tasks_def ac_simps flip: c_def)
qed (simp add: forward_def)

lemma forward_force_reduce: "forward s (force_reduce_cb now s)"
proof -
  let ?low = "lowPriorityQueue (queue s)"
  define k where "k = length ?low div 2"
  define fs where "fs = map (\<lambda>t. (t, ResourceShortage)) (take k (rev ?low))"
  define s1 where "s1 = settle_all fs (s\<lparr>queue := (queue s)\<lparr>lowPriorityQueue := take (length ?low - k) ?low\<rparr>\<rparr>)"
  let ?v = "visit_batches (batchQueues \<circ> queue) (\<lambda>b. totalSize b > FORCE_REDUCE_BATCH_SIZE_THRESHOLD)
    (processBatch_cb now) (map fst (batchQueues (queue s1)))"
  have pop: "pop_loop k ?low [] = (take (length ?low - k) ?low, take k (rev ?low))"
    using pop_loop_eq [of k ?low "[]"] by (simp add: k_def)
  have fr: "force_reduce_cb now s = ?v (s1\<lparr>stats := incrementRejected k (stats s1)\<rparr>)"
    using pop
    by (simp add: force_reduce_cb_def forceReduceQueues_def Let_def visit_batches_stats k_def s1_def fs_def settle_all_frame)
  have core: "core (s1\<lparr>stats := incrementRejected k (stats s1)\<rparr>)" if "core s"
    using that by (auto simp: s1_def settle_all_frame core_defs list_all_iff dest: in_set_takeD)
  have "\<exists>new. settled (force_reduce_cb now s) = settled s1 @ new"
    "set (waiting (queue (force_reduce_cb now s))) \<subseteq> set (waiting (queue s1))" if "core s"
    using forward_visit_batches [of "s1\<lparr>stats := incrementRejected k (stats s1)\<rparr>"] core [OF that]
    unfolding fr forward_def by auto
  moreover have "\<exists>new. settled s1 = settled s @ new" by (simp add: s1_def settle_all_frame)
  moreover have "set (waiting (queue s1)) \<subseteq> set (waiting (queue s))"
    by (auto simp: s1_def settle_all_frame waiting_def queued_tasks_def dest: in_set_takeD)
  ultimately show ?thesis unfolding forward_def by (metis append.assoc subset_trans)
qed

lemma forward_timeout: "forward s (queue_timeout i s)"
proof (cases "core s")
  case True
  then have wf: "wf_queues (queue s)" by (simp add: core_def)
  show ?thesis
  proof (cases "i \<in> task_id ` set (waiting (queue s))")
    case hit: True
    then obtain q where rm: "removeTaskFromQueues i (queue s) = (True, q)"
      using removeTaskFromQueues_found [OF hit] by (cases "removeTaskFromQueues i (queue s)") auto
    obtain t where "mset (waiting (queue s)) = add_mset t (mset (waiting q))"
      using removeTaskFromQueues_hit [OF wf rm] by blast
    then show ?thesis
      using rm by (intro forward_part [where A = "{#t#}"]) (simp_all add: queue_timeout_def)
  qed (simp add: queue_timeout_def removeTaskFromQueues_miss forward_def)
qed (simp add: forward_def)

lemma forward_processQueue: "forward s (processQueue post s)"
proof (cases "core s \<and> \<not> isProcessingQueue (queue s) \<and> activeRequests (queue s) < maxConcurrentRequests (config s)")
  case True
  then have c: "0 \<le> concurrentTasks (config s)" by (simp add: core_def)
  define s2 where "s2 = (if filter (isWorkerEligibleTask s)
      (take (nat (available_slots s)) (waiting_at (served_levels s) (queue s))) \<noteq> []
    then run_pool post (drained s) else drained s)"
  define s3 where "s3 = s2\<lparr>queue := (queue s2)\<lparr>isProcessingQueue := False\<rparr>\<rparr>"
  have "set (waiting (queue (drained s))) \<subseteq> set (waiting (queue s))"
    using arg_cong [OF waiting_leave [of "nat (available_slots s)" s "queue s"], of set_mset]
    by (auto simp: drained_def started_def Let_def waiting_def queued_tasks_def)
  then have "forward s (drained s)" by (simp add: forward_def drained_def started_def Let_def)
  moreover have "move s (drained s)" using True drained_moves by blast
  ultimately have "forward s s2" using forward_run_pool forward_trans by (simp add: s2_def) 
  then have "forward s s3" by (simp add: forward_def s3_def waiting_def queued_tasks_def)
  moreover have "processQueue post s = s3 \<or> processQueue post s = requestProcessQueue s3"
    using processQueue_eq [of s post] True c by (simp add: Let_def s2_def s3_def)
  ultimately show ?thesis by (auto simp: forward_def request_frame)
next
  case False
  then consider "\<not> core s" | "processQueue post s = s" by (auto simp: processQueue_def)
  then show ?thesis by cases (simp_all add: forward_def)
qed

lemma forward_main_done: "forward s (main_done i r s)"
proof (cases "splice_task i (mainRuns s)")
  case None
  then show ?thesis by (simp add: main_done_def)
next
  case (Some x)
  then obtain t rest where "splice_task i (mainRuns s) = Some (t, rest)" by (cases x) auto
  from main_done_eq [OF this] show ?thesis
    by (intro forward_same [where new = "[(i, r)]"])
       (simp_all only: request_frame, simp_all add: releaseSlot_def decrementActiveRequests_def waiting_def queued_tasks_def)
qed

lemma forward_batch_done: "forward s (batch_done j i r s)"
  by (cases "j < length (batchRuns s)")
     (auto simp: batch_done_def Let_def settle_def batch_complete_frame forward_def split: option.split)

lemma forward_on_message: "forward s (on_message post i m s)"
proof -
  let ?s1 = "s\<lparr>pool := clearPingTimeout i (pool s)\<rparr>"
  have "forward s ?s1" by (simp add: forward_def)
  then have "forward s (handleWorkerResult_cb post i m ?s1)"
    using clearPing_moves(1) forward_worker_result forward_trans by blast
  then show ?thesis by (simp add: on_message_def Let_def forward_same)
qed

lemma forward_memory_tick: "forward s (memory_tick now gc ratio s)"
proof -
  obtain b s1 where c: "checkMemoryUsage gc ratio (cleanup_cb now) (force_reduce_cb now) s = (b, s1)"
    by fastforce
  have "s1 = s \<or> s1 = cleanup_cb now s \<or> s1 = force_reduce_cb now (cleanup_cb now s)"
    using c by (auto simp: checkMemoryUsage_def Let_def split: if_splits)
  then have "forward s s1"
    using forward_cleanup forward_force_reduce cleanup_moves forward_trans by blast
  moreover have "memory_tick now gc ratio s = s1\<lparr>memoryPressure := b\<rparr> \<or>
      memory_tick now gc ratio s = requestProcessQueue (s1\<lparr>memoryPressure := b\<rparr>)"
    using c by (simp add: memory_tick_def Let_def)
  ultimately show ?thesis by (auto simp: forward_def request_frame)
qed

lemma handle_forward:
  assumes "enabled ev s" and "core s" and "\<not> admits ev s"
  shows "forward s (handle ev s)"
proof (cases ev)
  case (Enqueue now options)
  then show ?thesis
    using assms(3) by (cases rule: enqueue_cases [of s options now]) (auto simp: admits_def refuse_def forward_def)
next
  case (ProcessImmediate post)
  then show ?thesis
    using move_signal [of s False] forward_processQueue [of "s\<lparr>queue := (queue s)\<lparr>processSignalPending := False\<rparr>\<rparr>" post]
    by (simp add: run_process_immediate_def)
       (erule forward_trans, simp_all add: forward_def waiting_def queued_tasks_def)
next
  case (BatchImmediate now cat)
  let ?s1 = "s\<lparr>batchImmediates := remove1 cat (batchImmediates s)\<rparr>"
  have "move s ?s1" "forward s ?s1" using trivial_moves(2) by (blast, simp add: forward_def)
  then have "forward s (processBatch_cb now cat ?s1)" using forward_processBatch forward_trans by blast
  then show ?thesis by (simp add: BatchImmediate run_batch_immediate_def)
next
  case (AgingTick now)
  then show ?thesis using forward_visit_batches by (simp add: aging_tick_def processAgedBatches_def)
next
  case (HealthTick post)
  then show ?thesis using assms(1) forward_health_loop by simp
qed (simp_all add: forward_main_done forward_batch_done forward_on_message forward_worker_failure forward_timeout
    forward_memory_tick process_tick_def stats_tick_def forward_request forward_same)

section \<open>The refinement\<close>

lemma set_ids: "set_mset (ids s) =
  task_id ` set (waiting (queue s)) \<union> task_id ` set (running s @ pool_tasks (pool s)) \<union> fst ` set (settled s)"
  by (simp add: ids_def held_def image_Un Un_ac)

lemma phase_of_absent: "phase_of s i = Unheld \<longleftrightarrow> i \<notin># ids s"
proof (cases "map_of (settled s) i")
  case None
  then have "i \<notin> fst ` set (settled s)" by (simp add: map_of_eq_None_iff)
  then show ?thesis using None unfolding set_ids by (simp add: phase_of_def)
next
  case (Some r)
  then have "i \<in> fst ` set (settled s)" by (force dest: map_of_SomeD)
  then show ?thesis using Some unfolding set_ids by (simp add: phase_of_def)
qed

lemma forward_advances:
  assumes "core s" and "move s t" and "forward s t"
  shows "advances (ids t \<noteq> ids s) (phase_of s i) (phase_of t i)"
proof -
  obtain new where st: "settled t = settled s @ new"
    and w: "task_id ` set (waiting (queue t)) \<subseteq> task_id ` set (waiting (queue s))"
    using assms(1,3) by (auto simp: forward_def)
  have sub: "set_mset (ids t) \<subseteq> set_mset (ids s)"
    using assms(1,2) set_mset_mono by (auto simp: move_def)
  show ?thesis
  proof (cases "map_of (settled s) i")
    case (Some r)
    then show ?thesis by (simp add: phase_of_def st advances_def)
  next
    case None
    have a: "phase_of s i \<in> {Unheld, Waits, Runs}" using None by (simp add: phase_of_def)
    show ?thesis
    proof (cases "phase_of t i")
      case Unheld
      then have "phase_of s i = Unheld \<or> ids t \<noteq> ids s" using phase_of_absent by metis
      then show ?thesis using a Unheld by (simp add: advances_def) blast
    next
      case Waits
      then have "i \<in> task_id ` set (waiting (queue t))" by (auto simp: phase_of_def split: option.splits if_splits)
      then have "phase_of s i = Waits" using w None by (auto simp: phase_of_def)
      then show ?thesis using Waits by (simp add: advances_def)
    next
      case Runs
      then have "phase_of s i \<noteq> Unheld" using sub phase_of_absent by (metis phase.distinct(3) subsetD)
      then show ?thesis using a Runs by (auto simp: advances_def)
    next
      case (Done r)
      then have "phase_of s i \<noteq> Unheld" using sub phase_of_absent by (metis phase.distinct(5) subsetD)
      then show ?thesis using a Done by (auto simp: advances_def)
    qed
  qed
qed

lemma forward_view:
  assumes "core s" and "move s t" and "forward s t" and "ids t \<noteq> ids s \<longrightarrow> lossy"
  shows "(life_step lossy)\<^sup>*\<^sup>* (tasks_view s) (tasks_view t)"
proof -
  have n: "taskIdCounter (queue t) = taskIdCounter (queue s)" using assms(1,2) by (simp add: move_def)
  show ?thesis
    unfolding tasks_view_def n
  proof (rule advance_all [where A = "set_mset (ids s + ids t)"])
    show "advances lossy (phase_of s i) (phase_of t i)" for i
      using forward_advances [OF assms(1-3), of i] assms(4) by (auto simp: advances_def)
    show "phase_of t i = phase_of s i" if "i \<notin> set_mset (ids s + ids t)" for i
      using that phase_of_absent by (metis set_mset_union UnI1 UnI2)
  qed simp
qed

lemma admits_view:
  assumes "admits ev s" and "core s" and "taskIdCounter (queue s) + 1 \<notin># ids s"
  shows "life_step lossy (tasks_view s) (tasks_view (handle ev s))"
proof -
  let ?n = "taskIdCounter (queue s)"
  obtain now options where ev: "ev = Enqueue now options" using assms(1) by (cases ev) (auto simp: admits_def)
  obtain n fb where size: "0 < n_size n" and h: "handle ev s = admit now n (s\<lparr>fallbackCount := fb\<rparr>)"
    using assms(1) ev by (cases rule: enqueue_cases [of s options now]) (auto simp: admits_def)
  have core: "core (s\<lparr>fallbackCount := fb\<rparr>)" using assms(2) by (simp add: core_defs)
  note a = admit_facts [OF core size h]
  have w: "task_id ` set (waiting (queue (handle ev s))) = insert (?n + 1) (task_id ` set (waiting (queue s)))"
    using arg_cong [OF a(7), of set_mset] by (simp add: new_task_def)
  have f: "settled (handle ev s) = settled s" "running (handle ev s) = running s" "pool (handle ev s) = pool s"
    by (simp_all add: h admit_def Let_def requestProcessQueue_eq running_def frame)
  have abs: "phase_of s (?n + 1) = Unheld" using assms(3) phase_of_absent by simp
  then have "map_of (settled s) (?n + 1) = None" by (auto simp: phase_of_def split: option.splits if_splits)
  then have "phase_of (handle ev s) = (phase_of s)(?n + 1 := Waits)"
    by (auto simp: phase_of_def f w fun_eq_iff split: option.split)
  then have "tasks_view (handle ev s) = (?n + 1, (phase_of s)(?n + 1 := Waits))"
    using a(4) by (simp add: tasks_view_def)
  then show ?thesis using hand_out [of "phase_of s" ?n lossy] abs by (simp add: tasks_view_def)
qed

lemma sys_inv_fresh: "sys_inv s0 s \<Longrightarrow> taskIdCounter (queue s) + 1 \<notin># ids s"
  by (auto simp: sys_inv_def dest!: mset_subset_eqD)

lemma step_view:
  assumes "sys_inv s0 s" and "enabled ev s" and "\<not> admits ev s \<Longrightarrow> ids (handle ev s) \<noteq> ids s \<longrightarrow> lossy"
  shows "(life_step lossy)\<^sup>*\<^sup>* (tasks_view s) (tasks_view (handle ev s))"
proof -
  have core: "core s" using assms(1) by (simp add: sys_inv_def)
  show ?thesis
  proof (cases "admits ev s")
    case True
    then show ?thesis using admits_view [OF _ core sys_inv_fresh [OF assms(1)]] by (blast intro: r_into_rtranclp)
  next
    case False
    then show ?thesis
      using handle_moves(1) [OF assms(2) core] handle_forward [OF assms(2) core] assms(3) core
      by (intro forward_view) auto
  qed
qed

interpretation queue_refines: forward_simulation "\<lambda>s. start_state s \<and> s = s0" step "sys_inv s0" tasks_view "life_step True" for s0
proof unfold_locales
  fix s t assume "sys_inv s0 s" and "step s t"
  then show "(life_step True)\<^sup>*\<^sup>* (tasks_view s) (tasks_view t)" by (auto elim!: stepE intro: step_view)
qed

interpretation careful_refines: forward_simulation "\<lambda>s. start_state s \<and> s = s0" careful_step "careful_inv s0" tasks_view "life_step False" for s0
proof unfold_locales
  fix s t assume inv: "careful_inv s0 s" and "careful_step s t"
  then obtain ev where t: "t = handle ev s" "enabled ev s" "careful ev s" by (auto elim: careful_step.cases)
  have c: "sys_inv s0 s" "core s" "tight s" using inv by (auto simp: careful_inv_def sys_inv_def)
  have "ids (handle ev s) = ids s" if "\<not> admits ev s"
    using handle_moves(2) [OF t(2) c(2) that t(3)] c by (simp add: exact_def)
  then show "(life_step False)\<^sup>*\<^sup>* (tasks_view s) (tasks_view t)"
    using step_view [OF c(1) t(2)] t(1) by simp
qed

text \<open>What the machine gives: ids only grow, what is done stays done with the same outcome, and
  nothing disappears unless tasks may be lost.\<close>

lemma life_steps_keep:
  assumes "(life_step lossy)\<^sup>*\<^sup>* v w"
  shows "fst v \<le> fst w \<and> (\<forall>i r. snd v i = Done r \<longrightarrow> snd w i = Done r) \<and>
         (\<not> lossy \<longrightarrow> (\<forall>i. snd v i \<noteq> Unheld \<longrightarrow> snd w i \<noteq> Unheld))"
  using assms
proof (induction rule: rtranclp_induct)
  case (step u w)
  from step(2) have "fst u \<le> fst w \<and> (\<forall>i r. snd u i = Done r \<longrightarrow> snd w i = Done r) \<and>
      (\<not> lossy \<longrightarrow> (\<forall>i. snd u i \<noteq> Unheld \<longrightarrow> snd w i \<noteq> Unheld))"
    by cases auto
  with step.IH show ?case by (meson order_trans)
qed simp

text \<open>The loss is real: the run with the late \<open>initialized\<close> message loses task 1 while it runs.\<close>

lemma late_init_loses_task_1:
  "phase_of (after (take 4 late_init)) 1 = Runs \<and> phase_of (after late_init) 1 = Unheld"
  by code_simp

text \<open>C3. The queue refines the life of a task, with all its races: every run of the queue from a
  reachable state on, seen through the last id handed out and the phase of each task, is a run of the
  machine in which a new id is handed out and waits, a waiting task starts, a waiting or running task
  is done with one outcome, or is lost; when the run has neither of the two worker races nor the end
  of shutdown, it is a run of the machine that loses nothing. So a promise that is settled keeps its
  outcome for ever.\<close>

theorem queue_refines_the_life_of_tasks:
  assumes "reachable s0 s" and "step\<^sup>*\<^sup>* s t"
  shows "(life_step True)\<^sup>*\<^sup>* (tasks_view s) (tasks_view t) \<and>
         (careful_reachable s0 s \<and> careful_step\<^sup>*\<^sup>* s t \<longrightarrow>
            (life_step False)\<^sup>*\<^sup>* (tasks_view s) (tasks_view t)) \<and>
         (\<forall>i r. phase_of s i = Done r \<longrightarrow> phase_of t i = Done r)"
proof -
  have "(life_step True)\<^sup>*\<^sup>* (tasks_view s) (tasks_view t)"
    using queue_refines.simulates_runs [OF reachable_inv [OF assms(1)] assms(2)] ..
  moreover from this have "\<forall>i r. phase_of s i = Done r \<longrightarrow> phase_of t i = Done r"
    using life_steps_keep by (fastforce simp: tasks_view_def)
  moreover have "(life_step False)\<^sup>*\<^sup>* (tasks_view s) (tasks_view t)"
    if "careful_reachable s0 s" and "careful_step\<^sup>*\<^sup>* s t"
    using careful_refines.simulates_runs [OF careful_reachable_inv [OF that(1)] that(2)] ..
  ultimately show ?thesis by blast
qed

theorem queue_refines_the_life_of_tasks_witness:
  "map (phase_of boot) [1, 2, 3] = [Unheld, Unheld, Unheld] \<and>
   map (phase_of (after ordinary)) [1, 2, 3] = [Done (Resolved (Str ''one'')), Done (Resolved Null), Waits] \<and>
   (life_step False)\<^sup>*\<^sup>* (tasks_view boot) (tasks_view (after ordinary))"
proof -
  have "reachable boot boot" "careful_reachable boot boot"
    using start_boot by (simp_all add: reachable_def careful_reachable_def)
  moreover have "step\<^sup>*\<^sup>* boot (after ordinary)" "careful_step\<^sup>*\<^sup>* boot (after ordinary)"
    using after_reachable [of ordinary] after_careful [OF ordinary_runs(2)]
    by (simp_all add: reachable_def careful_reachable_def)
  ultimately have "(life_step False)\<^sup>*\<^sup>* (tasks_view boot) (tasks_view (after ordinary))"
    using queue_refines_the_life_of_tasks [of boot boot "after ordinary"] by blast
  moreover have "map (phase_of boot) [1, 2, 3] = [Unheld, Unheld, Unheld]" by code_simp
  moreover have "map (phase_of (after ordinary)) [1, 2, 3] = [Done (Resolved (Str ''one'')), Done (Resolved Null), Waits]"
    using ordinary_result(1) ordinary_states(10) by (simp add: phase_of_def)
  ultimately show ?thesis by blast
qed

end
