(* ===== verification/RequestAnalyzer.thy ===== *)
theory RequestAnalyzer
  imports OptionsParser
begin

text \<open>
  Classification of an HTTP request (\<open>src/queue/middleware/queue-request-analyzer.ts\<close>): priority,
  category, size, timeout and workload of the task that will carry it. The number of bytes of
  \<open>JSON.stringify(body)\<close> is an argument, \<open>None\<close> when serialising throws. The proofs split on the
  branches of the method and path tests.
\<close>

record HttpRequest =
  req_path :: "string option"
  req_url :: "string option"
  req_method :: "string option"
  req_query :: "jsobj option"
  req_body :: jsval

record RequestRoutingDecision =
  d_priority :: int
  d_category :: string
  d_isBatchable :: bool
  d_size :: int
  d_bypass :: bool
  d_timeout :: int
  d_workloadType :: "string option"
  d_params :: "jsobj option"
  d_functionCode :: "string option"

section \<open>Operations\<close>

text \<open>\<open>a || b\<close> on optional strings, with the empty string falsy.\<close>

definition or_else :: "string option \<Rightarrow> string \<Rightarrow> string" where
  "or_else a b = (case a of None \<Rightarrow> b | Some s \<Rightarrow> if s = [] then b else s)"

definition static_extensions :: "string list" where
  "static_extensions =
     [''css'', ''js'', ''png'', ''jpg'', ''jpeg'', ''gif'', ''svg'', ''ico'', ''woff'', ''woff2'', ''ttf'', ''eot'']"

definition shouldBypass :: "string \<Rightarrow> bool" where
  "shouldBypass path =
     (if path = ''/health'' \<or> path = ''/queue-stats'' \<or> str_includes path ''/status'' \<or>
         str_includes path ''/ping''
      then True
      else list_ex (\<lambda>ext. ends_with path (''.'' @ ext)) static_extensions)"

definition calculateBodySizeWeight :: "(jsval \<Rightarrow> nat option) \<Rightarrow> jsval \<Rightarrow> int" where
  "calculateBodySizeWeight json_bytes body =
     (if \<not> truthy body then 0
      else case json_bytes body of
             None \<Rightarrow> 1
           | Some bodySize \<Rightarrow>
               if bodySize > 10000 then 4
               else if bodySize > 3000 then 2
               else if bodySize > 1000 then 1
               else 0)"

fun asObject :: "jsval \<Rightarrow> jsobj option" where
  "asObject (Obj ob) = Some ob"
| "asObject _ = None"

definition extractParams :: "jsobj option \<Rightarrow> jsobj option" where
  "extractParams bodyRecord =
     (case bodyRecord of
        None \<Rightarrow> None
      | Some record \<Rightarrow>
          (let source = (case asObject (prop_of record ''params'') of Some ps \<Rightarrow> ps | None \<Rightarrow> record);
               rest = filter (\<lambda>(k, _). k \<notin> {''workloadType'', ''functionCode'', ''params''}) source
           in if rest = [] then None else Some rest))"

text \<open>The first block: method.\<close>

definition method_weights :: "string \<Rightarrow> jsobj option \<Rightarrow> int \<times> int \<times> bool" where
  "method_weights meth query =
     (if meth = ''GET'' then (2, 0, case query of None \<Rightarrow> True | Some q \<Rightarrow> q = [])
      else if meth = ''DELETE'' then (- 1, 0, False)
      else if meth = ''PUT'' \<or> meth = ''PATCH'' then (- 2, 0, False)
      else if meth = ''POST'' then (- 3, 1, False)
      else (0, 0, False))"

text \<open>The second block: path. Priority and size to add, category, whether the request becomes
  batchable, and the timeout it imposes.\<close>

definition path_weights :: "string \<Rightarrow> string \<Rightarrow> int \<times> int \<times> string \<times> bool \<times> int option" where
  "path_weights path meth =
     (if str_includes path ''/admin'' then (5, 0, ''admin'', False, None)
      else if str_includes path ''bulk'' \<or> str_includes path ''batch'' then
        (- 5, 3, ''bulk'', True, Some 15000)
      else if str_includes path ''analytics'' \<or> str_includes path ''report'' then
        (- 3, 2, ''analytics'', True, Some 15000)
      else if str_includes path ''user'' \<or> str_includes path ''account'' then
        (if meth = ''GET'' then 1 else 0, 0, ''user'', False, None)
      else (0, 0, ''default'', False, None))"

definition workload_of :: "string \<Rightarrow> jsobj option \<Rightarrow> string option" where
  "workload_of path bodyRecord =
     (let declared = (case bodyRecord of
                        None \<Rightarrow> None
                      | Some record \<Rightarrow>
                          (case prop_of record ''workloadType'' of
                             Str s \<Rightarrow> if s = [] then None else Some (to_lower (trim s))
                           | _ \<Rightarrow> None))
      in if declared = None \<or> declared = Some [] then
           if str_includes path ''cpu'' \<or> str_includes path ''prime'' \<or>
              str_includes path ''fibonacci'' \<or> str_includes path ''matrix''
           then Some (workload_name CPU)
           else if str_includes path ''memory'' \<or> str_includes path ''array'' \<or>
                   str_includes path ''clone''
           then Some (workload_name MEMORY)
           else declared
         else declared)"

definition function_code_of :: "jsobj option \<Rightarrow> string option" where
  "function_code_of bodyRecord =
     (case bodyRecord of
        None \<Rightarrow> None
      | Some record \<Rightarrow> (case prop_of record ''functionCode'' of Str s \<Rightarrow> Some s | _ \<Rightarrow> None))"

definition analyze :: "(jsval \<Rightarrow> nat option) \<Rightarrow> int \<Rightarrow> HttpRequest \<Rightarrow> RequestRoutingDecision" where
  "analyze json_bytes requestProcessingTimeoutMs req =
     (let path = to_lower (or_else (req_path req) (or_else (req_url req) []));
          meth = to_upper (or_else (req_method req) ''GET'');
          (p1, s1, b1) = method_weights meth (req_query req);
          (p2, s2, cat, b2, t2) = path_weights path meth;
          bodyRecord = asObject (req_body req);
          code = function_code_of bodyRecord
      in \<lparr>d_priority = p1 + p2, d_category = cat, d_isBatchable = (b1 \<or> b2),
          d_size = max 1 (1 + calculateBodySizeWeight json_bytes (req_body req) + s1 + s2),
          d_bypass = shouldBypass path,
          d_timeout = (case t2 of None \<Rightarrow> requestProcessingTimeoutMs | Some t \<Rightarrow> t),
          d_workloadType = (if code \<noteq> None \<and> code \<noteq> Some [] then Some (workload_name CUSTOM)
                            else workload_of path bodyRecord),
          d_params = extractParams bodyRecord,
          d_functionCode = code\<rparr>)"

text \<open>The options the middleware passes to \<open>enqueue\<close> for a decision.\<close>

definition opt_str :: "string option \<Rightarrow> jsval" where
  "opt_str s = (case s of None \<Rightarrow> Undefined | Some t \<Rightarrow> Str t)"

definition enqueue_options :: "string \<Rightarrow> RequestRoutingDecision \<Rightarrow> EnqueueOptions" where
  "enqueue_options rid d =
     \<lparr>opt_priority = Num (num_of_int (d_priority d)), opt_requestId = Str rid,
      opt_category = Str (d_category d), opt_batch = Bool (d_isBatchable d),
      opt_size = Num (num_of_int (d_size d)), opt_timeout = Num (num_of_int (d_timeout d)),
      opt_workloadType = opt_str (d_workloadType d),
      opt_params = (case d_params d of None \<Rightarrow> Undefined | Some ps \<Rightarrow> Obj ps),
      opt_functionCode = opt_str (d_functionCode d)\<rparr>"

section \<open>Facts\<close>

definition categories :: "string list" where
  "categories = [''default'', ''admin'', ''bulk'', ''analytics'', ''user'']"

lemma calculateBodySizeWeight_range: "calculateBodySizeWeight jb v \<in> {0..4}"
  by (auto simp: calculateBodySizeWeight_def split: option.splits)

lemma method_weights_range:
  "method_weights m q = (p, s, b) \<Longrightarrow>
   p \<in> {-3..2} \<and> s \<in> {0..1} \<and> (b \<longrightarrow> m = ''GET'') \<and> (0 < p \<longleftrightarrow> m = ''GET'')"
  by (auto simp: method_weights_def split: if_splits)

lemma path_weights_range:
  "path_weights path m = (p, s, c, b, t) \<Longrightarrow>
   p \<in> {-5..5} \<and> s \<in> {0..3} \<and> c \<in> set categories \<and> (t = None \<or> t = Some 15000) \<and>
   (b \<longleftrightarrow> c = ''bulk'' \<or> c = ''analytics'') \<and> (b \<longleftrightarrow> t \<noteq> None)"
  by (auto simp: path_weights_def categories_def split: if_splits)

lemma analyze_fields:
  assumes "d = analyze jb timeout req"
  obtains p1 s1 b1 p2 s2 b2 t2 path meth where
    "method_weights meth (req_query req) = (p1, s1, b1)"
    "path_weights path meth = (p2, s2, d_category d, b2, t2)"
    "d_priority d = p1 + p2" "d_isBatchable d = (b1 \<or> b2)"
    "d_size d = max 1 (1 + calculateBodySizeWeight jb (req_body req) + s1 + s2)"
    "d_timeout d = (case t2 of None \<Rightarrow> timeout | Some t \<Rightarrow> t)"
proof -
  define path where "path = to_lower (or_else (req_path req) (or_else (req_url req) []))"
  define meth where "meth = to_upper (or_else (req_method req) ''GET'')"
  obtain p1 s1 b1 where m: "method_weights meth (req_query req) = (p1, s1, b1)"
    by (cases "method_weights meth (req_query req)") auto
  obtain p2 s2 c b2 t2 where p: "path_weights path meth = (p2, s2, c, b2, t2)"
    by (cases "path_weights path meth") auto
  have d: "d_category d = c" "d_isBatchable d = (b1 \<or> b2)" "d_priority d = p1 + p2"
    "d_size d = max 1 (1 + calculateBodySizeWeight jb (req_body req) + s1 + s2)"
    "d_timeout d = (case t2 of None \<Rightarrow> timeout | Some t \<Rightarrow> t)"
    using m p unfolding assms analyze_def Let_def path_def meth_def by simp_all
  show ?thesis by (rule that [OF m p [folded d(1)] d(3,2,4,5)])
qed

lemma analyze_bounds:
  assumes "d = analyze jb timeout req"
  shows "d_priority d \<in> {-8..7}" and "d_size d \<in> {1..9}" and "d_category d \<in> set categories"
    and "d_timeout d = timeout \<or> d_timeout d = 15000"
    and "d_category d = ''bulk'' \<or> d_category d = ''analytics'' \<Longrightarrow> d_isBatchable d \<and> d_timeout d = 15000"
proof -
  from assms obtain p1 s1 b1 p2 s2 b2 t2 path meth where
    m: "method_weights meth (req_query req) = (p1, s1, b1)"
    and p: "path_weights path meth = (p2, s2, d_category d, b2, t2)"
    and d: "d_priority d = p1 + p2" "d_isBatchable d = (b1 \<or> b2)"
    "d_size d = max 1 (1 + calculateBodySizeWeight jb (req_body req) + s1 + s2)"
    "d_timeout d = (case t2 of None \<Rightarrow> timeout | Some t \<Rightarrow> t)"
    by (rule analyze_fields)
  note mr = method_weights_range [OF m] and pr = path_weights_range [OF p]
  show "d_priority d \<in> {-8..7}" using d(1) mr pr by simp
  show "d_size d \<in> {1..9}"
    using d(3) mr pr calculateBodySizeWeight_range [of jb "req_body req"] by simp
  show "d_category d \<in> set categories" using pr by simp
  show "d_timeout d = timeout \<or> d_timeout d = 15000" using d(4) pr by auto
  show "d_isBatchable d \<and> d_timeout d = 15000" if "d_category d = ''bulk'' \<or> d_category d = ''analytics''"
    using that d(2,4) pr by auto
qed

lemma trim_categories: "c \<in> set categories \<Longrightarrow> c \<noteq> [] \<and> trim c = c"
proof -
  have "list_all (\<lambda>c. c \<noteq> [] \<and> trim c = c) categories" by code_simp
  then show "c \<in> set categories \<Longrightarrow> c \<noteq> [] \<and> trim c = c" by (simp add: list_all_iff)
qed

lemma parseWorkloadTypeOption_opt_str:
  "\<exists>w k. parseWorkloadTypeOption a (opt_str wt) n = (Inr w, k) \<or>
         \<not> a \<and> parseWorkloadTypeOption a (opt_str wt) n = (Inl CustomDisabled, k)"
  by (auto simp: parseWorkloadTypeOption_def opt_str_def nullish_def Let_def split: option.splits)

lemma parseFunctionCodeOption_opt_str:
  "(\<exists>c. parseFunctionCodeOption a (opt_str fc) = Inr c) \<or>
   \<not> a \<and> parseFunctionCodeOption a (opt_str fc) = Inl CustomDisabled"
  by (auto simp: parseFunctionCodeOption_def opt_str_def nullish_def split: option.splits)

text \<open>C13. Whatever request arrives, the middleware's classification stays in range: priority
  between -8 and 7, size between 1 and 9, one of five categories, and the bulk and analytics
  categories are batchable with the long timeout. The options it builds pass the queue's own
  validation; the only way \<open>enqueue\<close> can refuse them is that custom workloads are disabled.\<close>

theorem analyzed_requests_pass_validation:
  assumes "0 < timeout" and "d = analyze json_bytes timeout req"
    and "normalizeEnqueueOptions allowCustom (enqueue_options rid d) defaultTimeout fallbacks =
           (result, fallbacks')"
  shows "d_priority d \<in> {-8..7} \<and> d_size d \<in> {1..9} \<and> d_category d \<in> set categories \<and>
         (d_category d = ''bulk'' \<or> d_category d = ''analytics'' \<longrightarrow>
            d_isBatchable d \<and> d_timeout d = 15000) \<and>
         (case result of
            Inl err \<Rightarrow> err = CustomDisabled \<and> \<not> allowCustom
          | Inr r \<Rightarrow> n_priority r = d_priority d \<and> n_category r = d_category d \<and>
                     n_size r = d_size d \<and> n_timeout r = d_timeout d \<and> n_batch r = d_isBatchable d)"
proof -
  note b = analyze_bounds [OF assms(2)]
  have pos: "0 < d_size d" "0 < d_timeout d" using b(2,4) assms(1) by auto
  have cat: "d_category d \<noteq> []" "trim (d_category d) = d_category d"
    using trim_categories [OF b(3)] by auto
  let ?o = "enqueue_options rid d"
  have first: "parsePriorityOption (opt_priority ?o) = Inr (d_priority d)"
    "parseCategoryOption (opt_category ?o) = Inr (d_category d)"
    "parsePositiveIntegerOption (opt_size ?o) ''size'' 1 = Inr (d_size d)"
    "parsePositiveIntegerOption (opt_timeout ?o) ''timeout'' defaultTimeout = Inr (d_timeout d)"
    "opt_batch ?o = Bool (d_isBatchable d)"
    using pos cat
    by (simp_all add: enqueue_options_def parsePriorityOption_def parseCategoryOption_def
        parsePositiveIntegerOption_def nullish_def)
  have params: "\<exists>ps. parseParamsOption (opt_params ?o) = Inr ps"
    by (auto simp: enqueue_options_def parseParamsOption_def nullish_def split: option.splits)
  have "case result of
            Inl err \<Rightarrow> err = CustomDisabled \<and> \<not> allowCustom
          | Inr r \<Rightarrow> n_priority r = d_priority d \<and> n_category r = d_category d \<and>
                     n_size r = d_size d \<and> n_timeout r = d_timeout d \<and> n_batch r = d_isBatchable d"
  proof (cases result)
    case (Inr r)
    then show ?thesis
      using normalizeEnqueueOptions_Inr [of allowCustom ?o defaultTimeout fallbacks r fallbacks']
        assms(3) first by simp
  next
    case (Inl err)
    obtain w k where w: "parseWorkloadTypeOption allowCustom (opt_workloadType ?o) fallbacks = (w, k)"
      by (cases "parseWorkloadTypeOption allowCustom (opt_workloadType ?o) fallbacks") auto
    then have "(\<exists>x. w = Inr x) \<or> \<not> allowCustom \<and> w = Inl CustomDisabled"
      using parseWorkloadTypeOption_opt_str [of allowCustom "d_workloadType d" fallbacks]
      by (auto simp: enqueue_options_def)
    moreover have "(\<exists>c. parseFunctionCodeOption allowCustom (opt_functionCode ?o) = Inr c) \<or>
        \<not> allowCustom \<and> parseFunctionCodeOption allowCustom (opt_functionCode ?o) = Inl CustomDisabled"
      using parseFunctionCodeOption_opt_str [of allowCustom "d_functionCode d"]
      by (simp add: enqueue_options_def)
    ultimately show ?thesis
      using assms(3) Inl first w params
      by (auto simp: normalizeEnqueueOptions_def and_then_Inl)
  qed
  then show ?thesis using b by blast
qed

theorem analyzed_requests_pass_validation_witness:
  "let req = \<lparr>req_path = Some ''/API/Bulk/Prime'', req_url = None, req_method = Some ''post'',
              req_query = None, req_body = Obj [(''functionCode'', Str ''x'')]\<rparr>;
       d = analyze (\<lambda>_. None) 10000 req
   in d_priority d = - 8 \<and> d_size d = 6 \<and> d_category d \<in> set categories \<and>
      fst (normalizeEnqueueOptions False (enqueue_options ''r1'' d) 10000 0) = Inl CustomDisabled"
proof -
  let ?req = "\<lparr>req_path = Some ''/API/Bulk/Prime'', req_url = None, req_method = Some ''post'',
              req_query = None, req_body = Obj [(''functionCode'', Str ''x'')]\<rparr>"
  let ?d = "analyze (\<lambda>_. None) 10000 ?req"
  have v: "fst (normalizeEnqueueOptions False (enqueue_options ''r1'' ?d) 10000 0) = Inl CustomDisabled"
    by code_simp
  have "d_priority ?d = - 8 \<and> d_size ?d = 6" by code_simp
  moreover obtain res k where n: "normalizeEnqueueOptions False (enqueue_options ''r1'' ?d) 10000 0 = (res, k)"
    by (cases "normalizeEnqueueOptions False (enqueue_options ''r1'' ?d) 10000 0") auto
  moreover have "d_category ?d \<in> set categories"
    using analyzed_requests_pass_validation [OF _ refl n] by simp
  ultimately show ?thesis using v unfolding Let_def by blast
qed

end
