(* ===== verification/Middleware.thy ===== *)
theory Middleware
  imports QueueSystem RequestAnalyzer
begin

text \<open>
  The HTTP middleware (\<open>src/queue/middleware/queue.middleware.ts\<close>), the per-request state store
  (\<open>src/queue/middleware/request-state.store.ts\<close>) and the settle-once wrapper
  \<open>withExecutionTimeout\<close> of the queue processor. One request is a session: a state and the events
  that touch it (the queue starts its task, its task is settled, the handler sends a response, the
  response ends, a timer fires). The handler behind \<open>next()\<close> is not part of the model: whether
  \<open>next()\<close> throws is an argument of the event, and sending the response is an event of its own.
\<close>

section \<open>Settling once\<close>

datatype exec_event = TimerFires | Yields outcome

record ExecState =
  ex_settled :: bool
  ex_timer :: bool
  ex_calls :: "outcome list"

definition exec_start :: ExecState where
  "exec_start = \<lparr>ex_settled = False, ex_timer = True, ex_calls = []\<rparr>"

fun withExecutionTimeout :: "int \<Rightarrow> exec_event \<Rightarrow> ExecState \<Rightarrow> ExecState" where
  "withExecutionTimeout timeoutMs TimerFires s =
     (if \<not> ex_timer s then s
      else if ex_settled s then s\<lparr>ex_timer := False\<rparr>
      else s\<lparr>ex_settled := True, ex_timer := False,
             ex_calls := ex_calls s @ [Rejected (ExecutionTimeout timeoutMs)]\<rparr>)"
| "withExecutionTimeout timeoutMs (Yields r) s =
     (if ex_settled s then s
      else s\<lparr>ex_settled := True, ex_timer := False, ex_calls := ex_calls s @ [r]\<rparr>)"

fun exec_outcome :: "int \<Rightarrow> exec_event \<Rightarrow> outcome" where
  "exec_outcome timeoutMs TimerFires = Rejected (ExecutionTimeout timeoutMs)"
| "exec_outcome timeoutMs (Yields r) = r"

lemma exec_settled_stable:
  "ex_settled s \<Longrightarrow> \<not> ex_timer s \<Longrightarrow> fold (withExecutionTimeout ms) evs s = s"
proof (induction evs)
  case (Cons ev evs)
  then show ?case by (cases ev) simp_all
qed simp

text \<open>\<open>withExecutionTimeout\<close> settles its promise once, with whatever comes first: the task's own
  result or error, or the timer. Later events change nothing, and no timer is left armed.\<close>

theorem execution_settles_once:
  "ex_calls (fold (withExecutionTimeout ms) evs exec_start) = map (exec_outcome ms) (take 1 evs) \<and>
   ex_timer (fold (withExecutionTimeout ms) evs exec_start) = (evs = [])"
proof (cases evs)
  case (Cons ev rest)
  have "withExecutionTimeout ms ev exec_start =
      \<lparr>ex_settled = True, ex_timer = False, ex_calls = [exec_outcome ms ev]\<rparr>"
    by (cases ev) (simp_all add: exec_start_def)
  then show ?thesis using Cons by (simp add: exec_settled_stable)
qed (simp add: exec_start_def)

section \<open>The request state store\<close>

text \<open>\<open>requestId\<close> to \<open>responded\<close>. The clean-up timer deletes the entry like \<open>release\<close> does.\<close>

type_synonym state_store = "(string \<times> bool) list"

definition register :: "string \<Rightarrow> state_store \<Rightarrow> state_store" where
  "register rid st = AList.update rid False st"

definition markResponded :: "string \<Rightarrow> state_store \<Rightarrow> state_store" where
  "markResponded rid st = (if map_of st rid = None then st else AList.update rid True st)"

definition hasResponded :: "string \<Rightarrow> state_store \<Rightarrow> bool" where
  "hasResponded rid st = (case map_of st rid of None \<Rightarrow> False | Some b \<Rightarrow> b)"

definition release :: "string \<Rightarrow> state_store \<Rightarrow> state_store" where
  "release rid st = AList.delete rid st"

section \<open>Classification of errors\<close>

definition CUSTOM_DISABLED_TEXT :: string where
  "CUSTOM_DISABLED_TEXT =
      ''custom workload '' @ [CHR 0xEA, CHR 0xB8, CHR 0xB0, CHR 0xEB, CHR 0x8A, CHR 0xA5,
      CHR 0xEC, CHR 0x9D, CHR 0xB4] @ '' '' @ [CHR 0xEB, CHR 0xB9, CHR 0x84, CHR 0xED, CHR 0x99,
      CHR 0x9C, CHR 0xEC, CHR 0x84, CHR 0xB1, CHR 0xED, CHR 0x99, CHR 0x94]"

definition MUST_BE_STRING_TEXT :: string where
  "MUST_BE_STRING_TEXT =
      [CHR 0xEB, CHR 0xAC, CHR 0xB8, CHR 0xEC, CHR 0x9E, CHR 0x90, CHR 0xEC, CHR 0x97, CHR 0xB4,
      CHR 0xEC, CHR 0x9D, CHR 0xB4, CHR 0xEC, CHR 0x96, CHR 0xB4, CHR 0xEC, CHR 0x95, CHR 0xBC]"

definition MUST_BE_INTEGER_TEXT :: string where
  "MUST_BE_INTEGER_TEXT =
      [CHR 0xEC, CHR 0xA0, CHR 0x95, CHR 0xEC, CHR 0x88, CHR 0x98, CHR 0xEC, CHR 0x97, CHR 0xAC,
      CHR 0xEC, CHR 0x95, CHR 0xBC]"

definition EMPTY_STRING_TEXT :: string where
  "EMPTY_STRING_TEXT =
      [CHR 0xEB, CHR 0xB9, CHR 0x88] @ '' '' @ [CHR 0xEB, CHR 0xAC, CHR 0xB8, CHR 0xEC, CHR 0x9E,
      CHR 0x90, CHR 0xEC, CHR 0x97, CHR 0xB4]"

definition POSITIVE_INTEGER_TEXT :: string where
  "POSITIVE_INTEGER_TEXT =
      [CHR 0xEA, CHR 0xB0, CHR 0x92, CHR 0xEC, CHR 0x9D, CHR 0x80] @ '' 0'' @ [CHR 0xEB, CHR 0xB3,
      CHR 0xB4, CHR 0xEB, CHR 0x8B, CHR 0xA4] @ '' '' @ [CHR 0xED, CHR 0x81, CHR 0xB0] @ '' '' @
      [CHR 0xEC, CHR 0xA0, CHR 0x95, CHR 0xEC, CHR 0x88, CHR 0x98]"

definition isCustomDisabled :: "string \<Rightarrow> bool" where
  "isCustomDisabled message = str_includes message CUSTOM_DISABLED_TEXT"

definition isValidationError :: "string \<Rightarrow> bool" where
  "isValidationError message =
     (str_includes message MUST_BE_STRING_TEXT \<or> str_includes message MUST_BE_INTEGER_TEXT \<or>
      str_includes message EMPTY_STRING_TEXT \<or> str_includes message POSITIVE_INTEGER_TEXT)"

definition statusCode :: "string \<Rightarrow> nat" where
  "statusCode message =
     (if isCustomDisabled message then 403 else if isValidationError message then 400 else 503)"

section \<open>One request\<close>

record Session =
  rid :: string
  states :: state_store
  headersSent :: bool
  sent :: "nat list"
  handlerSent :: bool
  nextCalls :: nat
  executing :: bool
  exec_finished :: bool
  timer_on :: bool
  listening :: bool
  use_done :: bool

definition new_session :: "string \<Rightarrow> state_store \<Rightarrow> Session" where
  "new_session r st =
     \<lparr>rid = r, states = st, headersSent = False, sent = [], handlerSent = False, nextCalls = 0,
      executing = False, exec_finished = False, timer_on = False, listening = False, use_done = False\<rparr>"

text \<open>\<open>res.status(code).send(...)\<close>, which sends the headers.\<close>

definition respond :: "nat \<Rightarrow> Session \<Rightarrow> Session" where
  "respond code s = s\<lparr>sent := sent s @ [code], headersSent := True\<rparr>"

definition mark :: "Session \<Rightarrow> Session" where
  "mark s = s\<lparr>states := markResponded (rid s) (states s)\<rparr>"

definition finally_release :: "Session \<Rightarrow> Session" where
  "finally_release s = s\<lparr>states := release (rid s) (states s), use_done := True\<rparr>"

text \<open>\<open>use\<close> up to the call of \<open>enqueue\<close>; the flag says whether \<open>enqueue\<close> is called.\<close>

definition use_begin :: "bool \<Rightarrow> bool \<Rightarrow> RequestRoutingDecision \<Rightarrow> Session \<Rightarrow> Session \<times> bool" where
  "use_begin allowCustom pressure d s =
     (if d_bypass d then (s\<lparr>nextCalls := nextCalls s + 1, use_done := True\<rparr>, False)
      else
        let s1 = s\<lparr>states := register (rid s) (states s)\<rparr> in
        if pressure \<and> d_priority d < 0 then
          (let s2 = mark s1 in
           (finally_release (if headersSent s2 then s2 else respond 503 s2), False))
        else if (d_functionCode d \<noteq> None \<and> d_functionCode d \<noteq> Some []) \<and> \<not> allowCustom then
          (let s2 = mark s1 in
           (finally_release (if headersSent s2 then s2 else respond 403 s2), False))
        else (s1, True))"

text \<open>The promise of \<open>enqueue\<close> settles: return, or the \<open>catch\<close> block, then \<open>finally\<close>.\<close>

definition use_settled :: "outcome \<Rightarrow> Session \<Rightarrow> Session" where
  "use_settled r s =
     (case r of
        Resolved _ \<Rightarrow> finally_release s
      | Rejected err \<Rightarrow>
          finally_release
            (if \<not> hasResponded (rid s) (states s) \<and> \<not> headersSent s
             then respond (statusCode (error_message err)) (mark s) else s))"

text \<open>\<open>executeQueuedRequest\<close>: the promise executor, \<open>finish\<close>, \<open>onResponseFinished\<close> and the timer.\<close>

definition finish :: "Session \<Rightarrow> Session" where
  "finish s = (if exec_finished s then s
     else s\<lparr>exec_finished := True, timer_on := False, listening := False\<rparr>)"

definition execute_request :: "bool \<Rightarrow> Session \<Rightarrow> Session" where
  "execute_request next_throws s =
     (let s1 = s\<lparr>executing := True, timer_on := True, listening := True, nextCalls := nextCalls s + 1\<rparr>
      in if next_throws
         then s1\<lparr>timer_on := False, listening := False, exec_finished := True\<rparr> else s1)"

definition onResponseFinished :: "Session \<Rightarrow> Session" where
  "onResponseFinished s = finish (mark s)"

definition request_timeout :: "Session \<Rightarrow> Session" where
  "request_timeout s =
     (if exec_finished s then s\<lparr>timer_on := False\<rparr>
      else
        let s1 = s\<lparr>timer_on := False\<rparr>;
            s2 = (if \<not> headersSent s1 \<and> \<not> hasResponded (rid s1) (states s1)
                  then respond 408 (mark s1) else s1)
        in finish s2)"

datatype http_event =
    QueueExecutes bool
  | QueueSettles outcome
  | HandlerSends
  | ResponseEnds
  | RequestTimer
  | TtlTimer

fun http_enabled :: "http_event \<Rightarrow> Session \<Rightarrow> bool" where
  "http_enabled (QueueExecutes _) s = (\<not> executing s \<and> \<not> use_done s)"
| "http_enabled (QueueSettles _) s = (\<not> use_done s)"
| "http_enabled HandlerSends s = (nextCalls s > 0 \<and> \<not> headersSent s)"
| "http_enabled ResponseEnds s = listening s"
| "http_enabled RequestTimer s = timer_on s"
| "http_enabled TtlTimer s = True"

fun http_handle :: "http_event \<Rightarrow> Session \<Rightarrow> Session" where
  "http_handle (QueueExecutes throws) s = execute_request throws s"
| "http_handle (QueueSettles r) s = use_settled r s"
| "http_handle HandlerSends s = s\<lparr>headersSent := True, handlerSent := True\<rparr>"
| "http_handle ResponseEnds s = onResponseFinished s"
| "http_handle RequestTimer s = request_timeout s"
| "http_handle TtlTimer s = s\<lparr>states := release (rid s) (states s)\<rparr>"

inductive http_step :: "Session \<Rightarrow> Session \<Rightarrow> bool" where
  http_step: "http_enabled ev s \<Longrightarrow> http_step s (http_handle ev s)"

inductive_cases http_stepE: "http_step s t"

section \<open>Responses\<close>

definition http_start :: "Session \<Rightarrow> bool" where
  "http_start s \<longleftrightarrow> (\<exists>allowCustom pressure d r st. s = fst (use_begin allowCustom pressure d (new_session r st)))"

definition http_inv :: "Session \<Rightarrow> bool" where
  "http_inv s \<longleftrightarrow> length (sent s) + (if handlerSent s then 1 else 0) \<le> 1 \<and>
     headersSent s = (sent s \<noteq> [] \<or> handlerSent s) \<and> nextCalls s \<le> 1 \<and>
     (handlerSent s \<longrightarrow> nextCalls s = 1) \<and> (nextCalls s = 1 \<longrightarrow> executing s \<or> use_done s)"

lemma http_inv_begin: "http_inv (fst (use_begin allowCustom pressure d (new_session r st)))"
  by (simp add: http_inv_def use_begin_def new_session_def respond_def mark_def finally_release_def Let_def)

lemma http_inv_start: "http_start s \<Longrightarrow> http_inv s"
  unfolding http_start_def by (elim exE) (simp only: http_inv_begin)

lemma http_inv_step: "http_inv s \<Longrightarrow> http_step s t \<Longrightarrow> http_inv t"
proof (erule http_stepE)
  fix ev assume inv: "http_inv s" and t: "t = http_handle ev s" and en: "http_enabled ev s"
  show "http_inv t"
  proof (cases ev)
    case (QueueExecutes throws)
    then show ?thesis using inv en t by (auto simp: http_inv_def execute_request_def Let_def)
  next
    case (QueueSettles r)
    then show ?thesis
      using inv t by (cases r) (auto simp: http_inv_def use_settled_def finally_release_def respond_def mark_def)
  next
    case RequestTimer
    then show ?thesis
      using inv t by (auto simp: http_inv_def request_timeout_def finish_def respond_def mark_def Let_def)
  qed (use inv t en in \<open>auto simp: http_inv_def onResponseFinished_def finish_def mark_def\<close>)
qed

interpretation http: inductive_invariant http_start http_step http_inv
  by unfold_locales (auto intro: http_inv_start http_inv_step)

text \<open>C14. A request gets at most one response, from the middleware or from its handler but never
  from both, and its handler is started at most once, in every order of queue results, timers and
  response events.\<close>

theorem at_most_one_response:
  assumes "http_start s0" and "http_step\<^sup>*\<^sup>* s0 s"
  shows "length (sent s) \<le> 1 \<and> (handlerSent s \<longrightarrow> sent s = []) \<and> nextCalls s \<le> 1"
  using http.inv_reachable [OF assms] by (auto simp: http_inv_def split: if_splits)

definition sample_decision :: RequestRoutingDecision where
  "sample_decision =
     \<lparr>d_priority = 2, d_category = ''default'', d_isBatchable = False, d_size = 1, d_bypass = False,
      d_timeout = 10, d_workloadType = None, d_params = None, d_functionCode = None\<rparr>"

theorem at_most_one_response_witness:
  "let s0 = fst (use_begin False False sample_decision (new_session ''r'' []));
       s = http_handle RequestTimer (http_handle (QueueExecutes False) s0)
   in sent s = [408] \<and> length (sent s) \<le> 1 \<and> nextCalls s \<le> 1"
proof -
  define s0 where "s0 = fst (use_begin False False sample_decision (new_session ''r'' []))"
  define s1 where "s1 = http_handle (QueueExecutes False) s0"
  define s where "s = http_handle RequestTimer s1"
  have "http_enabled (QueueExecutes False) s0" "http_enabled RequestTimer s1"
    unfolding s1_def s0_def by code_simp+
  then have "http_step\<^sup>*\<^sup>* s0 s"
    unfolding s_def s1_def by (meson http_step r_into_rtranclp rtranclp.rtrancl_into_rtrancl)
  moreover have "http_start s0" unfolding http_start_def s0_def by (intro exI) (rule refl)
  ultimately have "length (sent s) \<le> 1 \<and> (handlerSent s \<longrightarrow> sent s = []) \<and> nextCalls s \<le> 1"
    by (intro at_most_one_response)
  moreover have "sent s = [408]" unfolding s_def s1_def s0_def by code_simp
  ultimately show ?thesis unfolding Let_def s_def s1_def s0_def by blast
qed

text \<open>The status the classification gives to each error with a fixed text.\<close>

fun expected_status :: "queue_error \<Rightarrow> nat" where
  "expected_status CustomDisabled = 403"
| "expected_status (OptionNotPositive _) = 400"
| "expected_status PriorityNotInteger = 400"
| "expected_status CategoryNotString = 400"
| "expected_status CategoryEmpty = 400"
| "expected_status FunctionCodeNotString = 400"
| "expected_status WorkloadTypeNotString = 400"
| "expected_status _ = 503"

fun fixed_text :: "queue_error \<Rightarrow> bool" where
  "fixed_text (OptionNotPositive name) = (name = ''size'' \<or> name = ''timeout'')"
| "fixed_text (WorkerPostFailed _) = False"
| "fixed_text (WorkerCrashed _) = False"
| "fixed_text (Thrown _) = False"
| "fixed_text _ = True"

lemma str_includes_set: "str_includes s p \<Longrightarrow> set p \<subseteq> set s"
  by (auto simp: str_includes_iff)

lemma show_int_chars: "set (show_int i) \<subseteq> insert (CHR ''-'') {c. is_digit c}"
  using show_digits_digits [of "nat (- i)"] show_digits_digits [of "nat i"]
  by (auto simp: show_int_def list_all_iff)

lemma execution_timeout_status: "statusCode (error_message (ExecutionTimeout ms)) = 503"
proof -
  have sub: "set (error_message (ExecutionTimeout ms)) \<subseteq>
      set (error_message (ExecutionTimeout 0)) \<union> insert (CHR ''-'') {c. is_digit c}"
    using show_int_chars [of ms] by auto
  have no: "\<not> str_includes (error_message (ExecutionTimeout ms)) p"
    if "c \<in> set p" "c \<notin> set (error_message (ExecutionTimeout 0))" "\<not> is_digit c" "c \<noteq> CHR ''-''" for c p
    using that sub str_includes_set [of "error_message (ExecutionTimeout ms)" p] by blast
  have "\<not> str_includes (error_message (ExecutionTimeout ms)) CUSTOM_DISABLED_TEXT"
    by (rule no [of "CHR ''u''"]) (code_simp+)
  moreover have "\<not> str_includes (error_message (ExecutionTimeout ms)) MUST_BE_STRING_TEXT"
    by (rule no [of "CHR 0xAC"]) (code_simp+)
  moreover have "\<not> str_includes (error_message (ExecutionTimeout ms)) MUST_BE_INTEGER_TEXT"
    by (rule no [of "CHR 0xA0"]) (code_simp+)
  moreover have "\<not> str_includes (error_message (ExecutionTimeout ms)) EMPTY_STRING_TEXT"
    by (rule no [of "CHR 0xB9"]) (code_simp+)
  moreover have "\<not> str_includes (error_message (ExecutionTimeout ms)) POSITIVE_INTEGER_TEXT"
    by (rule no [of "CHR 0xA0"]) (code_simp+)
  ultimately show ?thesis by (simp only: statusCode_def isCustomDisabled_def isValidationError_def) simp
qed

text \<open>C15. The middleware recognises the queue's errors by their texts: the disabled custom workload
  is a 403, the option errors are 400 and everything else is a 503, among them the option error for
  \<open>params\<close>, whose text matches none of the patterns.\<close>

theorem error_status:
  assumes "fixed_text err"
  shows "statusCode (error_message err) = expected_status err"
proof -
  have option_error: "statusCode (error_message (OptionNotPositive n)) = 400" if "n = ''size'' \<or> n = ''timeout''" for n
    using that by (elim disjE) (simp only:, code_simp)+
  show ?thesis
    using assms
  proof (cases err)
    case (ExecutionTimeout ms)
    then show ?thesis by (simp only: execution_timeout_status expected_status.simps)
  next
    case (OptionNotPositive n)
    then show ?thesis using assms option_error by (simp only: fixed_text.simps expected_status.simps)
  qed (hypsubst, (simp only: fixed_text.simps; fail | code_simp))+
qed

theorem error_status_witness:
  "statusCode (error_message ParamsNotObject) = 503 \<and> statusCode (error_message CategoryEmpty) = 400"
  using error_status [of ParamsNotObject] error_status [of CategoryEmpty] by (simp only: fixed_text.simps expected_status.simps)

section \<open>Requests the client never hears of\<close>

lemma use_begin_enqueues:
  assumes "use_begin allowCustom pressure d (new_session r st) = (s, True)"
  shows "s = new_session r (register r st)"
  using assms by (auto simp: use_begin_def Let_def new_session_def split: if_splits)

text \<open>A request whose task is for the workers is never answered. The task of a CPU request with
  non-negative priority goes to the worker pool, which computes a result but never runs the task's
  own function, and only that function calls \<open>next()\<close>. When the result arrives, the middleware ends
  without a response, without having started the handler and with nothing left that could.\<close>

theorem worker_requests_get_no_answer:
  assumes "d = analyze json_bytes timeout req"
    and "d_workloadType d = Some (workload_name CPU)" and "0 \<le> d_priority d"
    and "use_begin allowCustom pressure d (new_session r st) = (s, True)"
    and "normalizeEnqueueOptions allowCustom (enqueue_options r d) defaultTimeout fb = (Inr n, fb')"
    and "useWorkers (pool sys)" and "s' = http_handle (QueueSettles (Resolved v)) s"
  shows "isWorkerEligibleTask sys (new_task now i n) \<and>
         sent s' = [] \<and> nextCalls s' = 0 \<and> \<not> headersSent s' \<and> use_done s' \<and>
         (\<forall>ev. http_enabled ev s' \<longrightarrow> ev = TtlTimer)"
proof -
  note f = normalizeEnqueueOptions_Inr [OF assms(5)]
  have "parsePriorityOption (opt_priority (enqueue_options r d)) = Inr (d_priority d)"
    by (simp add: enqueue_options_def parsePriorityOption_def nullish_def)
  then have p: "n_priority n = d_priority d" using f(1) by simp
  have "n_workloadType n = Some CPU"
    using f(5) assms(2) parseWorkloadTypeOption_name [of CPU allowCustom fb]
    by (simp add: enqueue_options_def opt_str_def)
  then have "isWorkerEligibleTask sys (new_task now i n)"
    using assms(3,6) p by (simp add: isWorkerEligibleTask_def new_task_def)
  moreover have s': "s' = finally_release (new_session r (register r st))"
    using assms(7) use_begin_enqueues [OF assms(4)] by (simp add: use_settled_def)
  have "ev = TtlTimer" if "http_enabled ev s'" for ev
    using that by (cases ev) (simp_all add: s' finally_release_def new_session_def)
  ultimately show ?thesis by (simp add: s' finally_release_def new_session_def)
qed

definition prime_request :: HttpRequest where
  "prime_request = \<lparr>req_path = Some ''/prime'', req_url = None, req_method = Some ''GET'', req_query = None,
     req_body = Undefined\<rparr>"

theorem worker_requests_get_no_answer_witness:
  "let d = analyze (\<lambda>_. None) 10000 prime_request;
       s = fst (use_begin False False d (new_session ''r'' []));
       s' = http_handle (QueueSettles (Resolved (Num (Fin 2)))) s
   in d_workloadType d = Some ''cpu'' \<and> sent s' = [] \<and> nextCalls s' = 0"
proof -
  define d where "d = analyze (\<lambda>_. None) 10000 prime_request"
  define s where "s = fst (use_begin False False d (new_session ''r'' []))"
  define n where "n = \<lparr>n_priority = 2, n_category = ''default'', n_size = 1, n_timeout = 10000,
    n_workloadType = Some CPU, n_params = [], n_functionCode = None, n_batch = True,
    n_requestId = Str ''r''\<rparr>"
  have w: "d_workloadType d = Some (workload_name CPU)" and p: "0 \<le> d_priority d"
    unfolding d_def by code_simp+
  have "snd (use_begin False False d (new_session ''r'' []))" unfolding d_def by code_simp
  then have u: "use_begin False False d (new_session ''r'' []) = (s, True)" by (simp add: s_def prod_eq_iff)
  have v: "normalizeEnqueueOptions False (enqueue_options ''r'' d) 10000 0 = (Inr n, 0)"
    unfolding d_def n_def by code_simp
  have sys: "useWorkers (pool (sys_init Map.empty 0 init_stats))" by code_simp
  from worker_requests_get_no_answer [where v = "Num (Fin 2)", OF d_def w p u v sys refl]
  show ?thesis using w unfolding Let_def s_def d_def by simp
qed

text \<open>A request that runs into its execution timeout is answered with 503, not with the 408 the
  middleware has for this case: the queue's own timer for the task is set first and with the same
  delay, and once it has fired and its rejection has reached the middleware, the request timer finds
  the headers sent.\<close>

theorem execution_timeout_is_a_503:
  assumes "\<not> headersSent s" and "\<not> hasResponded (rid s) (states s)" and "timer_on s"
  shows "http_enabled RequestTimer (http_handle (QueueSettles (Rejected (ExecutionTimeout ms))) s) \<and>
         sent (http_handle RequestTimer (http_handle (QueueSettles (Rejected (ExecutionTimeout ms))) s)) =
         sent s @ [503]"
proof -
  let ?s = "http_handle (QueueSettles (Rejected (ExecutionTimeout ms))) s"
  have "?s = finally_release (respond 503 (mark s))"
    using assms(1,2) by (simp del: error_message.simps add: use_settled_def execution_timeout_status)
  then have "headersSent ?s" "sent ?s = sent s @ [503]" "timer_on ?s"
    using assms(3) by (simp_all add: finally_release_def respond_def mark_def)
  then show ?thesis by (simp add: request_timeout_def finish_def Let_def)
qed

theorem execution_timeout_is_a_503_witness:
  "sent (http_handle RequestTimer (http_handle (QueueSettles (Rejected (ExecutionTimeout 10)))
     (http_handle (QueueExecutes False) (fst (use_begin False False sample_decision (new_session ''r'' [])))))) = [503]"
proof -
  let ?s = "http_handle (QueueExecutes False) (fst (use_begin False False sample_decision (new_session ''r'' [])))"
  have "\<not> headersSent ?s" "\<not> hasResponded (rid ?s) (states ?s)" "timer_on ?s" "sent ?s = []"
    by code_simp+
  then show ?thesis using execution_timeout_is_a_503 [of ?s 10] by simp
qed

end
