(* ===== verification/LoadTest.thy ===== *)
theory LoadTest
  imports Env
begin

text \<open>
  Load tests and the engine comparison: \<open>src/queue/load-test/load-test-metrics.util.ts\<close>,
  \<open>load-test-compare.service.ts\<close>, \<open>sse-stream.util.ts\<close> and the stream of
  \<open>load-test-runner.service.ts\<close>.

  What a single task does belongs to the queue, to the database driver and to the Go engine: the
  arguments \<open>task\<close>, \<open>node\<close> and \<open>go\<close> give for each round the time it takes, \<open>None\<close> when it
  throws. A stream is the list of its events. Times are exact rationals.
\<close>

section \<open>Metrics\<close>

text \<open>\<open>Math.round(x * 100) / 100\<close>.\<close>

definition round2 :: "rat \<Rightarrow> rat" where
  "round2 x = of_int \<lfloor>x * 100 + 1 / 2\<rfloor> / 100"

definition percentile :: "rat list \<Rightarrow> rat \<Rightarrow> rat option" where
  "percentile vals ratio =
     (if vals = [] then None
      else Some (vals ! nat (min \<lfloor>of_nat (length vals) * ratio\<rfloor> (int (length vals) - 1))))"

definition average :: "rat list \<Rightarrow> rat option" where
  "average vals = (if vals = [] then None else Some (round2 (foldl (+) 0 vals / of_nat (length vals))))"

record LatencySummary =
  ls_avgMs :: "rat option"
  ls_p50 :: "rat option"
  ls_p95 :: "rat option"
  ls_p99 :: "rat option"
  ls_min :: "rat option"
  ls_max :: "rat option"

definition summarizeLatencies :: "rat list \<Rightarrow> LatencySummary" where
  "summarizeLatencies samples =
     (let vals = sort samples in
      \<lparr>ls_avgMs = average vals, ls_p50 = percentile vals (1 / 2), ls_p95 = percentile vals (95 / 100),
       ls_p99 = percentile vals (99 / 100),
       ls_min = (if vals = [] then None else Some (vals ! 0)),
       ls_max = (if vals = [] then None else Some (vals ! (length vals - 1)))\<rparr>)"

record TaskResult =
  tr_index :: nat
  tr_ok :: bool
  tr_ms :: rat

record StreamMetrics =
  sm_total :: nat
  sm_fulfilled :: nat
  sm_rejected :: nat
  sm_totalMs :: rat
  sm_avgMs :: "rat option"
  sm_p50 :: "rat option"
  sm_p95 :: "rat option"
  sm_p99 :: "rat option"
  sm_minMs :: "rat option"
  sm_maxMs :: "rat option"

definition computeMetrics :: "TaskResult list \<Rightarrow> rat \<Rightarrow> StreamMetrics" where
  "computeMetrics results totalMs =
     (let fulfilled = filter tr_ok results; rejected = filter (\<lambda>r. \<not> tr_ok r) results;
          durations = sort (map tr_ms fulfilled) in
      \<lparr>sm_total = length results, sm_fulfilled = length fulfilled, sm_rejected = length rejected, sm_totalMs = totalMs,
       sm_avgMs = average durations, sm_p50 = percentile durations (1 / 2), sm_p95 = percentile durations (95 / 100),
       sm_p99 = percentile durations (99 / 100),
       sm_minMs = (if durations = [] then None else Some (durations ! 0)),
       sm_maxMs = (if durations = [] then None else Some (durations ! (length durations - 1)))\<rparr>)"

section \<open>Event streams\<close>

datatype winner = NodeWins | GoWins | ErrorRound

record CompareRound =
  cr_winner :: winner
  cr_nodeMs :: "rat option"
  cr_goMs :: "rat option"

record Winners =
  w_nodeWins :: nat
  w_goWins :: nat
  w_errors :: nat

datatype event =
    RunStart string rat int
  | RunProgress nat rat bool rat nat nat
  | RunDone string StreamMetrics
  | CompareStart rat rat string rat WorkerEngine int
  | CompareProgress nat rat "rat option" "rat option" winner Winners "rat option" "rat option"
  | CompareDone rat string string rat Winners LatencySummary LatencySummary
  | StreamError string

definition ONLY_BOTH :: string where
  "ONLY_BOTH =
     ''WORKER_ENGINE=both '' @ [CHR 0xEB, CHR 0xAA, CHR 0xA8, CHR 0xEB, CHR 0x93, CHR 0x9C,
      CHR 0xEC, CHR 0x97, CHR 0x90, CHR 0xEC, CHR 0x84, CHR 0x9C, CHR 0xEB, CHR 0xA7, CHR 0x8C] @
      '' '' @ [CHR 0xEC, CHR 0x82, CHR 0xAC, CHR 0xEC, CHR 0x9A, CHR 0xA9] @ '' '' @ [CHR 0xEA,
      CHR 0xB0, CHR 0x80, CHR 0xEB, CHR 0x8A, CHR 0xA5, CHR 0xED, CHR 0x95, CHR 0xA9, CHR 0xEB,
      CHR 0x8B, CHR 0x88, CHR 0xEB, CHR 0x8B, CHR 0xA4] @ ''.''"

definition STREAM_FAILED :: string where
  "STREAM_FAILED =
     [CHR 0xEC, CHR 0x8A, CHR 0xA4, CHR 0xED, CHR 0x8A, CHR 0xB8, CHR 0xEB, CHR 0xA6, CHR 0xBC] @
      '' '' @ [CHR 0xEC, CHR 0x9E, CHR 0x91, CHR 0xEC, CHR 0x97, CHR 0x85] @ '' '' @ [CHR 0xEC,
      CHR 0x8B, CHR 0xA4, CHR 0xED, CHR 0x8C, CHR 0xA8] @ '': ''"

text \<open>\<open>createEventStream\<close>: the events of the work, and one error event at the end when it throws;
  the stream completes either way.\<close>

definition createEventStream :: "event list \<times> string option \<Rightarrow> event list" where
  "createEventStream work = (case work of (evs, None) \<Rightarrow> evs | (evs, Some reason) \<Rightarrow> evs @ [StreamError (STREAM_FAILED @ reason)])"

text \<open>\<open>n || preset\<close>, for an optional number.\<close>

definition num_default :: "rat \<Rightarrow> rat option \<Rightarrow> rat" where
  "num_default preset n = (case n of Some r \<Rightarrow> if r = 0 then preset else r | None \<Rightarrow> preset)"

text \<open>\<open>Math.min(body.count || preset, cap)\<close>, and the rounds of a loop up to it.\<close>

definition capped_count :: "rat \<Rightarrow> rat \<Rightarrow> rat option \<Rightarrow> rat" where
  "capped_count preset cap n = min (num_default preset n) cap"

definition loop_rounds :: "rat \<Rightarrow> nat" where
  "loop_rounds n = nat \<lceil>n\<rceil>"

text \<open>The loop of \<open>runStream\<close>, from round \<open>i\<close> with \<open>todo\<close> rounds left. \<open>task i\<close> is whether round \<open>i\<close>
  succeeds and how long it takes.\<close>

fun run_loop :: "rat \<Rightarrow> (nat \<Rightarrow> bool \<times> rat) \<Rightarrow> nat \<Rightarrow> nat \<Rightarrow> TaskResult list \<Rightarrow> event list \<Rightarrow> TaskResult list \<times> event list" where
  "run_loop n task 0 i results evs = (results, evs)"
| "run_loop n task (Suc todo) i results evs =
     (let (ok, elapsed) = task i; ms = round2 elapsed; results = results @ [\<lparr>tr_index = i, tr_ok = ok, tr_ms = ms\<rparr>]
      in run_loop n task todo (i + 1) results
           (evs @ [RunProgress i n ok ms (length (filter tr_ok results)) (length (filter (\<lambda>r. \<not> tr_ok r) results))]))"

definition runStream :: "string option \<Rightarrow> rat option \<Rightarrow> (nat \<Rightarrow> bool \<times> rat) \<Rightarrow> int \<Rightarrow> rat \<Rightarrow> event list" where
  "runStream type count_opt task now elapsed =
     (let n = capped_count 20 500 count_opt;
          testType = (case type of Some t \<Rightarrow> if t = [] then ''cpu'' else t | None \<Rightarrow> ''cpu'');
          (results, evs) = run_loop n task (loop_rounds n) 0 [] [RunStart testType n now]
      in createEventStream (evs @ [RunDone testType (computeMetrics results (round2 elapsed))], None))"

section \<open>Engine comparison\<close>

definition countWinners :: "CompareRound list \<Rightarrow> Winners" where
  "countWinners rounds =
     \<lparr>w_nodeWins = length (filter (\<lambda>r. cr_winner r = NodeWins) rounds),
      w_goWins = length (filter (\<lambda>r. cr_winner r = GoWins) rounds),
      w_errors = length (filter (\<lambda>r. cr_winner r = ErrorRound) rounds)\<rparr>"

definition pickLatencies :: "CompareRound list \<Rightarrow> (CompareRound \<Rightarrow> rat option) \<Rightarrow> rat list" where
  "pickLatencies rounds key = map the (filter (\<lambda>ms. ms \<noteq> None) (map key rounds))"

record GoTask =
  go_id :: int
  go_requestId :: string
  go_timestamp :: int
  go_priority :: int
  go_workloadType :: string
  go_params :: jsobj
  go_timeout :: int

definition createGoTask :: "int \<times> int \<Rightarrow> nat \<Rightarrow> string \<Rightarrow> jsobj \<Rightarrow> int \<Rightarrow> string \<Rightarrow> GoTask" where
  "createGoTask clock i workload ps timeout requestIdPrefix =
     \<lparr>go_id = fst clock + int i, go_requestId = requestIdPrefix @ ''-'' @ show_int (int i), go_timestamp = snd clock,
      go_priority = 0, go_workloadType = workload, go_params = ps, go_timeout = timeout\<rparr>"

text \<open>\<open>clock i\<close> has the two readings of \<open>Date.now()\<close> in round \<open>i\<close>.\<close>

definition cpu_task :: "(nat \<Rightarrow> int \<times> int) \<Rightarrow> rat \<Rightarrow> nat \<Rightarrow> GoTask" where
  "cpu_task clock mx i = createGoTask (clock i) i ''cpu'' [(''max'', Num (Fin mx))] 30000 ''compare-go''"

definition io_task :: "(nat \<Rightarrow> int \<times> int) \<Rightarrow> rat \<Rightarrow> nat \<Rightarrow> GoTask" where
  "io_task clock delayMs i = createGoTask (clock i) i ''io'' [(''delay_ms'', Num (Fin delayMs))] 60000 ''compare-io-go''"

text \<open>One round: the node side first, then the Go side with its task; a throw on either side makes
  it an error round without measured times.\<close>

definition compare_round :: "(nat \<Rightarrow> rat option) \<Rightarrow> (GoTask \<Rightarrow> rat option) \<Rightarrow> (nat \<Rightarrow> GoTask) \<Rightarrow> nat \<Rightarrow> CompareRound" where
  "compare_round node go task i =
     (case node i of
        None \<Rightarrow> \<lparr>cr_winner = ErrorRound, cr_nodeMs = None, cr_goMs = None\<rparr>
      | Some nodeElapsed \<Rightarrow>
          (case go (task i) of
             None \<Rightarrow> \<lparr>cr_winner = ErrorRound, cr_nodeMs = None, cr_goMs = None\<rparr>
           | Some goElapsed \<Rightarrow>
               let nodeMs = round2 nodeElapsed; goMs = round2 goElapsed in
               \<lparr>cr_winner = (if nodeMs \<le> goMs then NodeWins else GoWins), cr_nodeMs = Some nodeMs, cr_goMs = Some goMs\<rparr>))"

definition measured :: "CompareRound list \<Rightarrow> CompareRound list" where
  "measured results = filter (\<lambda>r. cr_winner r \<noteq> ErrorRound) results"

record CompareReport =
  rp_total :: rat
  rp_task :: string
  rp_winners :: Winners
  rp_avgNodeMs :: "rat option"
  rp_avgGoMs :: "rat option"
  rp_speedup :: "rat option"
  rp_detail :: "CompareRound list"

definition avg_of :: "(CompareRound \<Rightarrow> rat option) \<Rightarrow> CompareRound list \<Rightarrow> rat option" where
  "avg_of key results = ls_avgMs (summarizeLatencies (pickLatencies (measured results) key))"

definition compareEngines ::
  "(rat \<Rightarrow> string) \<Rightarrow> WorkerEngine \<Rightarrow> rat option \<Rightarrow> rat option \<Rightarrow> (nat \<Rightarrow> int \<times> int) \<Rightarrow>
     (nat \<Rightarrow> rat option) \<Rightarrow> (GoTask \<Rightarrow> rat option) \<Rightarrow> string + CompareReport" where
  "compareEngines num_text engine count_opt max_opt clock node go =
     (if engine \<noteq> BothEngine then Inl ONLY_BOTH
      else
        let n = capped_count 10 100 count_opt;
            mx = num_default 500000 max_opt;
            results = map (compare_round node go (cpu_task clock mx)) [0..<loop_rounds n];
            nodeAvg = avg_of cr_nodeMs results;
            goAvg = avg_of cr_goMs results
        in Inr \<lparr>rp_total = n, rp_task = ''findPrimes(max='' @ num_text mx @ '')'', rp_winners = countWinners results,
                 rp_avgNodeMs = nodeAvg, rp_avgGoMs = goAvg,
                 rp_speedup = (case (nodeAvg, goAvg) of
                                 (Some a, Some b) \<Rightarrow> if b > 0 then Some (round2 (a / b)) else None
                               | _ \<Rightarrow> None),
                 rp_detail = results\<rparr>)"

fun compare_loop ::
  "rat \<Rightarrow> (nat \<Rightarrow> CompareRound) \<Rightarrow> nat \<Rightarrow> nat \<Rightarrow> CompareRound list \<Rightarrow> event list \<Rightarrow> CompareRound list \<times> event list" where
  "compare_loop n play 0 i results evs = (results, evs)"
| "compare_loop n play (Suc todo) i results evs =
     (let r = play i; results = results @ [r]
      in compare_loop n play todo (i + 1) results
           (evs @ [CompareProgress i n (cr_nodeMs r) (cr_goMs r) (cr_winner r) (countWinners results)
                     (avg_of cr_nodeMs results) (avg_of cr_goMs results)]))"

definition compareStream ::
  "(rat \<Rightarrow> string) \<Rightarrow> WorkerEngine \<Rightarrow> rat option \<Rightarrow> rat option \<Rightarrow> string option \<Rightarrow> rat option \<Rightarrow> int \<Rightarrow> (nat \<Rightarrow> int \<times> int) \<Rightarrow> rat \<Rightarrow>
     (nat \<Rightarrow> rat option) \<Rightarrow> (rat \<Rightarrow> nat \<Rightarrow> rat option) \<Rightarrow> (GoTask \<Rightarrow> rat option) \<Rightarrow> event list" where
  "compareStream num_text engine count_opt max_opt type delay_opt now clock elapsed node simulateIO go =
     (let n = capped_count 20 200 count_opt;
          mx = num_default 500000 max_opt;
          testType = (case type of Some t \<Rightarrow> if t = [] then ''cpu'' else t | None \<Rightarrow> ''cpu'');
          delayMs = num_default 100 delay_opt;
          begin_evs = [CompareStart n mx testType delayMs engine now]
      in createEventStream
           (if engine \<noteq> BothEngine then (begin_evs @ [StreamError ONLY_BOTH], None)
            else
              let play = (if testType = ''io'' then compare_round (simulateIO delayMs) go (io_task clock delayMs)
                          else compare_round node go (cpu_task clock mx));
                  (results, evs) = compare_loop n play (loop_rounds n) 0 [] begin_evs;
                  valid = measured results;
                  label = (if testType = ''io'' then ''asyncIO(delay='' @ num_text delayMs @ ''ms)''
                           else ''findPrimes(max='' @ num_text mx @ '')'')
              in (evs @ [CompareDone n testType label (round2 elapsed) (countWinners results)
                           (summarizeLatencies (pickLatencies valid cr_nodeMs))
                           (summarizeLatencies (pickLatencies valid cr_goMs))], None)))"

section \<open>What the metrics say\<close>

definition rank :: "rat list \<Rightarrow> rat \<Rightarrow> nat" where
  "rank xs ratio = nat (min \<lfloor>of_nat (length xs) * ratio\<rfloor> (int (length xs) - 1))"

lemma percentile_rank: "xs \<noteq> [] \<Longrightarrow> percentile xs ratio = Some (xs ! rank xs ratio)"
  by (simp add: percentile_def rank_def)

lemma rank_less: "xs \<noteq> [] \<Longrightarrow> rank xs ratio < length xs"
  by (cases xs) (auto simp: rank_def nat_less_iff)

lemma rank_mono:
  assumes "r \<le> s"
  shows "rank xs r \<le> rank xs s"
proof -
  have "\<lfloor>of_nat (length xs) * r\<rfloor> \<le> \<lfloor>of_nat (length xs) * s\<rfloor>"
    using assms by (intro floor_mono mult_left_mono) simp_all
  then show ?thesis unfolding rank_def by (intro nat_mono min.mono) simp_all
qed

lemma percentile_mono:
  assumes "sorted xs" and "xs \<noteq> []" and "r \<le> s"
  shows "the (percentile xs r) \<le> the (percentile xs s)"
  using assms rank_mono [OF assms(3)] rank_less by (simp add: percentile_rank sorted_nth_mono)

lemma round2_error: "\<bar>round2 x - x\<bar> \<le> 1 / 200"
proof -
  have "of_int \<lfloor>x * 100 + 1 / 2\<rfloor> \<le> x * 100 + 1 / 2" "x * 100 + 1 / 2 < of_int \<lfloor>x * 100 + 1 / 2\<rfloor> + 1"
    by linarith+
  then show ?thesis unfolding round2_def abs_le_iff by (simp add: field_simps)
qed

lemma foldl_sum: "foldl (+) a xs = a + sum_list xs" for a :: rat
  by (induction xs arbitrary: a) (simp_all add: add.assoc)

text \<open>The figures of a non-empty sample: what the six fields of a report hold.\<close>

definition figures_of :: "rat list \<Rightarrow> rat option list \<Rightarrow> rat option \<Rightarrow> bool" where
  "figures_of taken figures avg =
     (\<exists>vs a. figures = map Some vs \<and> avg = Some a \<and> sorted vs \<and> set vs \<subseteq> set taken \<and>
        (\<forall>v \<in> set taken. hd vs \<le> v \<and> v \<le> last vs) \<and> \<bar>a - sum_list taken / of_nat (length taken)\<bar> \<le> 1 / 200)"

lemma sample_figures:
  assumes "taken \<noteq> []" and "ds = sort taken"
  shows "figures_of taken
           [Some (ds ! 0), percentile ds (1 / 2), percentile ds (95 / 100), percentile ds (99 / 100), Some (ds ! (length ds - 1))]
           (average ds)"
proof -
  have ne: "ds \<noteq> []" using assms by (metis length_0_conv length_sort)
  have srt: "sorted ds" by (simp add: assms(2))
  let ?p = "\<lambda>r. ds ! rank ds r"
  let ?vs = "[ds ! 0, ?p (1 / 2), ?p (95 / 100), ?p (99 / 100), ds ! (length ds - 1)]"
  have bound: "ds ! 0 \<le> ds ! i \<and> ds ! i \<le> ds ! (length ds - 1)" if "i < length ds" for i
    using that srt by (auto intro: sorted_nth_mono)
  have "?p (1 / 2) \<le> ?p (95 / 100)" "?p (95 / 100) \<le> ?p (99 / 100)" "?p (1 / 2) \<le> ?p (99 / 100)"
    by (auto intro!: sorted_nth_mono [OF srt] rank_mono rank_less [OF ne])
  then have "sorted ?vs" using bound [OF rank_less [OF ne]] bound [of "length ds - 1"] ne by simp
  moreover have "ds ! i \<in> set taken" if "i < length ds" for i using that nth_mem [of i ds] assms(2) by simp
  then have "set ?vs \<subseteq> set taken" using rank_less [OF ne] ne by simp
  moreover have "\<forall>v \<in> set taken. hd ?vs \<le> v \<and> v \<le> last ?vs"
    using bound in_set_conv_nth [of _ ds] assms(2) by auto
  moreover have "sum_list ds = sum_list taken" using assms(2) by (metis mset_sort sum_mset_sum_list)
  then have "average ds = Some (round2 (sum_list taken / of_nat (length taken)))"
    using ne assms(2) by (simp add: average_def foldl_sum)
  moreover note round2_error [of "sum_list taken / of_nat (length taken)"]
  ultimately show ?thesis
    unfolding figures_of_def by (intro exI [of _ ?vs] exI conjI) (auto simp: percentile_rank [OF ne])
qed

text \<open>C32. The latency figures of a load test are consistent. Every task is counted once as fulfilled
  or rejected. Without a fulfilled task every figure is null; otherwise minimum, median, 95th, 99th
  percentile and maximum are measured values of fulfilled tasks in this order, the extremes bound
  every measured value, and the average is within a two hundredth of the mean.\<close>

theorem load_metrics_are_consistent:
  assumes "m = computeMetrics results totalMs" and "taken = map tr_ms (filter tr_ok results)"
  shows "sm_total m = sm_fulfilled m + sm_rejected m \<and>
         (if taken = [] then {sm_avgMs m, sm_minMs m, sm_p50 m, sm_p95 m, sm_p99 m, sm_maxMs m} = {None}
          else figures_of taken [sm_minMs m, sm_p50 m, sm_p95 m, sm_p99 m, sm_maxMs m] (sm_avgMs m))"
proof -
  have "sm_total m = sm_fulfilled m + sm_rejected m"
    using sum_length_filter_compl [of tr_ok results] by (simp add: assms(1) computeMetrics_def Let_def)
  moreover have "sort taken \<noteq> []" if "taken \<noteq> []" using that by (metis length_0_conv length_sort)
  ultimately show ?thesis
    using sample_figures [OF _ refl, of taken]
    by (simp add: assms computeMetrics_def Let_def average_def percentile_def)
qed

theorem load_metrics_are_consistent_witness:
  "let m = computeMetrics [\<lparr>tr_index = 0, tr_ok = True, tr_ms = 4\<rparr>, \<lparr>tr_index = 1, tr_ok = False, tr_ms = 9\<rparr>,
             \<lparr>tr_index = 2, tr_ok = True, tr_ms = 2\<rparr>] 20
   in sm_rejected m = 1 \<and> figures_of [4, 2] [sm_minMs m, sm_p50 m, sm_p95 m, sm_p99 m, sm_maxMs m] (sm_avgMs m)"
proof -
  let ?rs = "[\<lparr>tr_index = 0, tr_ok = True, tr_ms = 4\<rparr>, \<lparr>tr_index = 1, tr_ok = False, tr_ms = 9\<rparr>,
             \<lparr>tr_index = 2, tr_ok = True, tr_ms = 2\<rparr>]"
  have taken: "[4, 2] = map tr_ms (filter tr_ok ?rs)" by simp
  have "sm_rejected (computeMetrics ?rs 20) = 1" by (simp add: computeMetrics_def Let_def)
  then show ?thesis using load_metrics_are_consistent [OF refl taken, of 20] by (simp add: Let_def)
qed

section \<open>The two comparisons agree\<close>

lemma compare_loop_results:
  "\<exists>ps. compare_loop n play todo i results evs = (results @ map play [i..<i + todo], evs @ ps) \<and> length ps = todo"
proof (induction todo arbitrary: i results evs)
  case (Suc todo)
  have upt: "[i..<i + Suc todo] = i # [i + 1..<i + 1 + todo]" by (simp add: upt_conv_Cons)
  let ?rs = "results @ [play i]"
  let ?ev = "CompareProgress i n (cr_nodeMs (play i)) (cr_goMs (play i)) (cr_winner (play i)) (countWinners ?rs)
    (avg_of cr_nodeMs ?rs) (avg_of cr_goMs ?rs)"
  obtain ps where "compare_loop n play todo (i + 1) ?rs (evs @ [?ev]) = (?rs @ map play [i + 1..<i + 1 + todo], (evs @ [?ev]) @ ps)"
    "length ps = todo" using Suc by blast
  then show ?case unfolding upt by (intro exI [of _ "?ev # ps"]) (simp add: Let_def)
qed simp

lemma countWinners_total:
  "w_nodeWins (countWinners rs) + w_goWins (countWinners rs) + w_errors (countWinners rs) = length rs"
proof (induction rs)
  case (Cons r rs)
  then show ?case by (cases "cr_winner r") (simp_all add: countWinners_def)
qed (simp add: countWinners_def)

lemma avg_of_None:
  assumes "\<forall>r \<in> set rs. cr_winner r \<noteq> ErrorRound \<longrightarrow> key r \<noteq> None"
  shows "avg_of key rs = None \<longleftrightarrow> w_errors (countWinners rs) = length rs"
proof -
  have "pickLatencies (measured rs) key = [] \<longleftrightarrow> measured rs = []"
    using assms by (auto simp: pickLatencies_def measured_def filter_empty_conv)
  moreover have "measured rs = [] \<longleftrightarrow> w_errors (countWinners rs) = length rs"
    using sum_length_filter_compl [of "\<lambda>r. cr_winner r = ErrorRound" rs]
    by (simp add: measured_def countWinners_def flip: length_0_conv) linarith
  moreover have "sort xs = [] \<longleftrightarrow> xs = []" for xs :: "rat list" by (metis length_0_conv length_sort)
  ultimately show ?thesis by (simp add: avg_of_def summarizeLatencies_def average_def Let_def)
qed

lemma compare_round_measured:
  "cr_winner (compare_round node go task i) \<noteq> ErrorRound \<longleftrightarrow> cr_nodeMs (compare_round node go task i) \<noteq> None"
  "cr_winner (compare_round node go task i) \<noteq> ErrorRound \<longleftrightarrow> cr_goMs (compare_round node go task i) \<noteq> None"
  by (auto simp: compare_round_def Let_def split: option.split)

text \<open>C33. The streaming and the plain engine comparison agree: for the same rounds (a count both
  accept, CPU work, both engines) the stream has a start event, one progress event per round and a
  final event with the winners and averages of the plain report. Every round is won by one side or
  failed, and an average is null exactly when every round failed. In any other engine mode both
  only report that mode as the error.\<close>

theorem engine_comparisons_agree:
  assumes "count_opt = Some k" and "0 < k" and "k \<le> 100"
    and "evs = compareStream num_text engine count_opt max_opt None None now clock elapsed node simulateIO go"
    and "plain = compareEngines num_text engine count_opt max_opt clock node go"
  shows "(engine = BothEngine \<longrightarrow>
            (\<exists>rep nodeSummary goSummary. plain = Inr rep \<and> length evs = nat \<lceil>k\<rceil> + 2 \<and>
               last evs = CompareDone (rp_total rep) ''cpu'' (rp_task rep) (round2 elapsed) (rp_winners rep) nodeSummary goSummary \<and>
               ls_avgMs nodeSummary = rp_avgNodeMs rep \<and> ls_avgMs goSummary = rp_avgGoMs rep \<and>
               w_nodeWins (rp_winners rep) + w_goWins (rp_winners rep) + w_errors (rp_winners rep) = nat \<lceil>k\<rceil> \<and>
               (rp_avgNodeMs rep = None \<longleftrightarrow> w_errors (rp_winners rep) = nat \<lceil>k\<rceil>) \<and>
               (rp_avgGoMs rep = None \<longleftrightarrow> w_errors (rp_winners rep) = nat \<lceil>k\<rceil>))) \<and>
         (engine \<noteq> BothEngine \<longrightarrow> plain = Inl ONLY_BOTH \<and> last evs = StreamError ONLY_BOTH)"
proof -
  let ?mx = "num_default 500000 max_opt"
  let ?play = "compare_round node go (cpu_task clock ?mx)"
  let ?rs = "map ?play [0..<nat \<lceil>k\<rceil>]"
  have n: "capped_count 10 100 count_opt = k" "capped_count 20 200 count_opt = k"
    using assms(1-3) by (simp_all add: capped_count_def num_default_def)
  obtain ps where loop: "compare_loop k ?play (nat \<lceil>k\<rceil>) 0 [] [CompareStart k ?mx ''cpu'' 100 BothEngine now] =
      (?rs, [CompareStart k ?mx ''cpu'' 100 BothEngine now] @ ps)" "length ps = nat \<lceil>k\<rceil>"
    using compare_loop_results [of k ?play "nat \<lceil>k\<rceil>" 0 "[]" "[CompareStart k ?mx ''cpu'' 100 BothEngine now]"] by auto
  have none: "avg_of cr_nodeMs ?rs = None \<longleftrightarrow> w_errors (countWinners ?rs) = nat \<lceil>k\<rceil>"
    "avg_of cr_goMs ?rs = None \<longleftrightarrow> w_errors (countWinners ?rs) = nat \<lceil>k\<rceil>"
    using avg_of_None [of ?rs cr_nodeMs] avg_of_None [of ?rs cr_goMs] compare_round_measured by auto
  show ?thesis
    using n loop none countWinners_total [of ?rs]
    by (simp add: assms(4,5) compareStream_def compareEngines_def createEventStream_def loop_rounds_def num_default_def
        avg_of_def Let_def)
qed

theorem engine_comparisons_agree_witness:
  "\<exists>rep. compareEngines (\<lambda>_. []) BothEngine (Some 3) None (\<lambda>_. (0, 0)) (\<lambda>i. if i = 1 then None else Some 2) (\<lambda>_. Some 5) = Inr rep \<and>
     w_nodeWins (rp_winners rep) + w_goWins (rp_winners rep) + w_errors (rp_winners rep) = 3"
  using engine_comparisons_agree [of "Some 3" 3, OF refl _ _ refl refl, where engine = BothEngine and max_opt = None
      and num_text = "\<lambda>_. []" and clock = "\<lambda>_. (0, 0)" and node = "\<lambda>i. if i = 1 then None else Some 2" and go = "\<lambda>_. Some 5"
      and now = 0 and elapsed = 0 and simulateIO = "\<lambda>_ _. None"]
  by auto

end
