(* ===== verification/Json.thy ===== *)
theory Json
  imports JsValue
begin

text \<open>
  \<open>JSON.stringify\<close> and \<open>JSON.parse\<close>, which carry the order events, the queue snapshot, the worker's
  cloned objects and the load-test streams. Texts are UTF-8 bytes. A number is printed as its decimal
  expansion, as JavaScript prints a number between a millionth and \<open>10 ^ 21\<close>; twenty digits after the
  point are enough for every value printed here. A lone surrogate escape becomes its three bytes.
  The order that objects give to integer-like keys is not modelled.
\<close>

section \<open>Printing\<close>

fun frac_digits :: "nat \<Rightarrow> rat \<Rightarrow> string" where
  "frac_digits 0 r = []"
| "frac_digits (Suc fuel) r =
     (if r = 0 then []
      else char_of (48 + nat \<lfloor>10 * r\<rfloor>) # frac_digits fuel (10 * r - of_int \<lfloor>10 * r\<rfloor>))"

definition FRACTION_DIGITS :: nat where
  "FRACTION_DIGITS = 20"

definition unsigned_text :: "rat \<Rightarrow> string" where
  "unsigned_text r =
     (let f = frac_digits FRACTION_DIGITS (r - of_int \<lfloor>r\<rfloor>)
      in show_digits (nat \<lfloor>r\<rfloor>) @ (if f = [] then [] else CHR ''.'' # f))"

definition decimal_text :: "rat \<Rightarrow> string" where
  "decimal_text r = (if r < 0 then CHR ''-'' # unsigned_text (- r) else unsigned_text r)"

text \<open>\<open>String(n)\<close>.\<close>

fun number_text :: "jsnum \<Rightarrow> string" where
  "number_text (Fin r) = decimal_text r"
| "number_text PosInf = ''Infinity''"
| "number_text NegInf = ''-Infinity''"
| "number_text NaN = ''NaN''"

definition hex_digit :: "nat \<Rightarrow> char" where
  "hex_digit d = (if d < 10 then char_of (48 + d) else char_of (87 + d))"

definition escape_char :: "char \<Rightarrow> string" where
  "escape_char c =
     (let n = (of_char c :: nat) in
      if n = 34 then [CHR 0x5C, CHR 0x22]
      else if n = 92 then [CHR 0x5C, CHR 0x5C]
      else if n = 8 then [CHR 0x5C, CHR ''b'']
      else if n = 9 then [CHR 0x5C, CHR ''t'']
      else if n = 10 then [CHR 0x5C, CHR ''n'']
      else if n = 12 then [CHR 0x5C, CHR ''f'']
      else if n = 13 then [CHR 0x5C, CHR ''r'']
      else if n < 32 then [CHR 0x5C, CHR ''u'', CHR ''0'', CHR ''0'', hex_digit (n div 16), hex_digit (n mod 16)]
      else [c])"

definition quoted :: "string \<Rightarrow> string" where
  "quoted s = CHR 0x22 # concat (map escape_char s) @ [CHR 0x22]"

fun json_text :: "jsval \<Rightarrow> string" where
  "json_text Undefined = ''null''"
| "json_text Null = ''null''"
| "json_text (Bool b) = (if b then ''true'' else ''false'')"
| "json_text (Num n) = (case n of Fin r \<Rightarrow> decimal_text r | _ \<Rightarrow> ''null'')"
| "json_text (Str s) = quoted s"
| "json_text (Arr vs) = CHR ''['' # join_text '','' (map json_text vs) @ '']''"
| "json_text (Obj ob) =
     CHR ''{'' # join_text '','' (map (\<lambda>(k, v). quoted k @ CHR '':'' # json_text v)
                                   (filter (\<lambda>(k, v). v \<noteq> Undefined) ob)) @ ''}''"

text \<open>What \<open>JSON.parse(JSON.stringify(v))\<close> is for a value that is not \<open>undefined\<close>.\<close>

fun json_clone :: "jsval \<Rightarrow> jsval" where
  "json_clone Undefined = Null"
| "json_clone Null = Null"
| "json_clone (Bool b) = Bool b"
| "json_clone (Num n) = (case n of Fin r \<Rightarrow> Num (Fin r) | _ \<Rightarrow> Null)"
| "json_clone (Str s) = Str s"
| "json_clone (Arr vs) = Arr (map json_clone vs)"
| "json_clone (Obj ob) = Obj (map (\<lambda>(k, v). (k, json_clone v)) (filter (\<lambda>(k, v). v \<noteq> Undefined) ob))"

section \<open>Parsing\<close>

definition skip_ws :: "string \<Rightarrow> string" where
  "skip_ws = dropWhile (\<lambda>c. c \<in> {CHR 0x20, CHR 0x09, CHR 0x0A, CHR 0x0D})"

definition hex4 :: "string \<Rightarrow> nat option" where
  "hex4 ds = (if all_digits 16 ds then Some (digits_value 16 0 ds) else None)"

definition utf8 :: "nat \<Rightarrow> string" where
  "utf8 n =
     (if n < 0x80 then [char_of n]
      else if n < 0x800 then [char_of (0xC0 + n div 64), char_of (0x80 + n mod 64)]
      else if n < 0x10000 then [char_of (0xE0 + n div 4096), char_of (0x80 + n div 64 mod 64), char_of (0x80 + n mod 64)]
      else [char_of (0xF0 + n div 262144), char_of (0x80 + n div 4096 mod 64), char_of (0x80 + n div 64 mod 64),
            char_of (0x80 + n mod 64)])"

definition simple_escape :: "char \<Rightarrow> char option" where
  "simple_escape c =
     map_of [(CHR 0x22, CHR 0x22), (CHR 0x5C, CHR 0x5C), (CHR ''/'', CHR ''/''), (CHR ''b'', CHR 0x08),
             (CHR ''f'', CHR 0x0C), (CHR ''n'', CHR 0x0A), (CHR ''r'', CHR 0x0D), (CHR ''t'', CHR 0x09)] c"

text \<open>The low surrogate that follows a high one, and the text after it.\<close>

fun low_surrogate :: "string \<Rightarrow> (nat \<times> string) option" where
  "low_surrogate (b # u # h1 # h2 # h3 # h4 # s) =
     (if b = CHR 0x5C \<and> u = CHR ''u''
      then case hex4 [h1, h2, h3, h4] of
             Some n \<Rightarrow> if 0xDC00 \<le> n \<and> n < 0xE000 then Some (n, s) else None
           | None \<Rightarrow> None
      else None)"
| "low_surrogate _ = None"

lemma low_surrogate_shorter: "low_surrogate s = Some (n, t) \<Longrightarrow> length t < length s"
  by (cases s rule: low_surrogate.cases) (auto split: if_splits option.splits)

definition unicode_escape :: "string \<Rightarrow> (string \<times> string) option" where
  "unicode_escape s =
     (case s of
        h1 # h2 # h3 # h4 # t \<Rightarrow>
          (case hex4 [h1, h2, h3, h4] of
             None \<Rightarrow> None
           | Some n \<Rightarrow>
               if 0xD800 \<le> n \<and> n < 0xDC00
               then case low_surrogate t of
                      Some (m, u) \<Rightarrow> Some (utf8 (0x10000 + (n - 0xD800) * 1024 + (m - 0xDC00)), u)
                    | None \<Rightarrow> Some (utf8 n, t)
               else Some (utf8 n, t))
      | _ \<Rightarrow> None)"

lemma unicode_escape_shorter: "unicode_escape s = Some (w, t) \<Longrightarrow> length t < length s"
  by (auto simp: unicode_escape_def split: list.splits option.splits if_splits dest!: low_surrogate_shorter)

text \<open>The characters of a string up to its closing quote, and the text after the quote.\<close>

function parse_chars :: "string \<Rightarrow> (string \<times> string) option" where
  "parse_chars s =
     (case s of
        [] \<Rightarrow> None
      | c # r \<Rightarrow>
          if c = CHR 0x22 then Some ([], r)
          else if (of_char c :: nat) < 32 then None
          else if c \<noteq> CHR 0x5C then map_option (apfst (Cons c)) (parse_chars r)
          else (case r of
                  [] \<Rightarrow> None
                | e # t \<Rightarrow>
                    if e = CHR ''u''
                    then (case unicode_escape t of
                            None \<Rightarrow> None
                          | Some (w, u) \<Rightarrow> map_option (apfst ((@) w)) (parse_chars u))
                    else (case simple_escape e of
                            None \<Rightarrow> None
                          | Some d \<Rightarrow> map_option (apfst (Cons d)) (parse_chars t))))"
  by pat_completeness auto
termination
  by (relation "measure length") (auto dest!: unicode_escape_shorter)

declare parse_chars.simps [simp del]

text \<open>The fraction and the exponent of a number literal: whether there is one, its digits, and the text
  after it.\<close>

definition fraction_part :: "string \<Rightarrow> bool \<times> string \<times> string" where
  "fraction_part s =
     (case s of
        c # r \<Rightarrow> if c = CHR ''.'' then (True, takeWhile is_digit r, dropWhile is_digit r) else (False, [], s)
      | [] \<Rightarrow> (False, [], []))"

definition exponent_part :: "string \<Rightarrow> bool \<times> int \<times> string \<times> string" where
  "exponent_part s =
     (case s of
        c # r \<Rightarrow>
          if c = CHR ''e'' \<or> c = CHR ''E''
          then let (sign, q) = (case r of
                                  d # u \<Rightarrow> if d = CHR ''-'' then (- 1, u) else if d = CHR ''+'' then (1, u) else (1, r)
                                | [] \<Rightarrow> (1, []))
               in (True, sign, takeWhile is_digit q, dropWhile is_digit q)
          else (False, 1, [], s)
      | [] \<Rightarrow> (False, 1, [], []))"

definition parse_number :: "string \<Rightarrow> (jsval \<times> string) option" where
  "parse_number s =
     (let (neg, t) = (case s of c # r \<Rightarrow> if c = CHR ''-'' then (True, r) else (False, s) | [] \<Rightarrow> (False, []));
          ip = takeWhile is_digit t;
          (dot, f, r2) = fraction_part (dropWhile is_digit t);
          (expo, sign, ds, r3) = exponent_part r2;
          n = finite_or_inf (scale10 (of_nat (digits_value 10 0 (ip @ f))) (sign * int (digits_value 10 0 ds) - int (length f)))
      in if ip = [] \<or> (hd ip = CHR ''0'' \<and> ip \<noteq> ''0'') \<or> (dot \<and> f = []) \<or> (expo \<and> ds = []) then None
         else Some (Num (if neg then negate_num n else n), r3))"

fun parse_value :: "nat \<Rightarrow> string \<Rightarrow> (jsval \<times> string) option"
  and parse_elems :: "nat \<Rightarrow> string \<Rightarrow> jsval list \<Rightarrow> (jsval \<times> string) option"
  and parse_members :: "nat \<Rightarrow> string \<Rightarrow> jsobj \<Rightarrow> (jsval \<times> string) option" where
  "parse_value 0 s = None"
| "parse_value (Suc n) s =
     (case s of
        [] \<Rightarrow> None
      | c # r \<Rightarrow>
          if c = CHR 0x22 then map_option (apfst Str) (parse_chars r)
          else if c = CHR ''[''
          then (if starts_with (skip_ws r) '']'' then Some (Arr [], tl (skip_ws r)) else parse_elems n r [])
          else if c = CHR ''{''
          then (if starts_with (skip_ws r) ''}'' then Some (Obj [], tl (skip_ws r)) else parse_members n r [])
          else if starts_with s ''null'' then Some (Null, drop 4 s)
          else if starts_with s ''true'' then Some (Bool True, drop 4 s)
          else if starts_with s ''false'' then Some (Bool False, drop 5 s)
          else parse_number s)"
| "parse_elems 0 s vs = None"
| "parse_elems (Suc n) s vs =
     (case parse_value n (skip_ws s) of
        None \<Rightarrow> None
      | Some (v, t) \<Rightarrow>
          (case skip_ws t of
             [] \<Rightarrow> None
           | c # u \<Rightarrow> if c = CHR '','' then parse_elems n u (vs @ [v])
                      else if c = CHR '']'' then Some (Arr (vs @ [v]), u) else None))"
| "parse_members 0 s ob = None"
| "parse_members (Suc n) s ob =
     (case skip_ws s of
        [] \<Rightarrow> None
      | q # r \<Rightarrow>
          if q \<noteq> CHR 0x22 then None
          else (case parse_chars r of
                  None \<Rightarrow> None
                | Some (k, t) \<Rightarrow>
                    (case skip_ws t of
                       [] \<Rightarrow> None
                     | c # u \<Rightarrow>
                         if c \<noteq> CHR '':'' then None
                         else (case parse_value n (skip_ws u) of
                                 None \<Rightarrow> None
                               | Some (v, w) \<Rightarrow>
                                   (case skip_ws w of
                                      [] \<Rightarrow> None
                                    | d # x \<Rightarrow> if d = CHR '','' then parse_members n x (AList.update k v ob)
                                               else if d = CHR ''}'' then Some (Obj (AList.update k v ob), x) else None)))))"

text \<open>\<open>JSON.parse(text)\<close>; \<open>None\<close> is the \<open>SyntaxError\<close>. A value and the elements or members that hold
  it take two units of fuel and at least one character.\<close>

definition json_parse :: "string \<Rightarrow> jsval option" where
  "json_parse s =
     (case parse_value (2 * length s + 2) (skip_ws s) of
        None \<Rightarrow> None
      | Some (v, t) \<Rightarrow> if skip_ws t = [] then Some v else None)"

section \<open>Strings and numbers read back\<close>

lemma small_codes:
  "list_all (\<lambda>n. hex4 [CHR ''0'', CHR ''0'', hex_digit (n div 16), hex_digit (n mod 16)] = Some n \<and>
                 utf8 n = [char_of n]) [0..<32]"
  by (simp add: upt_rec hex4_def all_digits_def digit_value_def hex_digit_def utf8_def Let_def)

lemma unicode_escape_small:
  assumes "n < 32"
  shows "unicode_escape (CHR ''0'' # CHR ''0'' # hex_digit (n div 16) # hex_digit (n mod 16) # t) = Some ([char_of n], t)"
  using assms small_codes by (simp add: unicode_escape_def list_all_iff)

lemma parse_escaped: "parse_chars (escape_char c @ t) = map_option (apfst (Cons c)) (parse_chars t)"
proof -
  define n where "n = (of_char c :: nat)"
  have c: "c = char_of n" by (simp add: n_def)
  have lit: "n = of_char d \<Longrightarrow> c = d" for d by (simp add: n_def)
  consider "c \<in> set [CHR 0x22, CHR 0x5C, CHR 0x08, CHR 0x09, CHR 0x0A, CHR 0x0C, CHR 0x0D]" | "n < 32" "n \<notin> {8, 9, 10, 12, 13}" | "32 \<le> n" "n \<notin> {34, 92}"
    using lit [of "CHR 0x22"] lit [of "CHR 0x5C"] lit [of "CHR 0x08"] lit [of "CHR 0x09"] lit [of "CHR 0x0A"]
      lit [of "CHR 0x0C"] lit [of "CHR 0x0D"] by (cases "n < 32") auto
  then show ?thesis
  proof cases
    case 1
    have "list_all (\<lambda>d. length (escape_char d) = 2 \<and> escape_char d ! 0 = CHR 0x5C \<and> escape_char d ! 1 \<noteq> CHR ''u'' \<and>
             simple_escape (escape_char d ! 1) = Some d)
            [CHR 0x22, CHR 0x5C, CHR 0x08, CHR 0x09, CHR 0x0A, CHR 0x0C, CHR 0x0D]"
      by code_simp
    then obtain e where "escape_char c = [CHR 0x5C, e]" "e \<noteq> CHR ''u''" "simple_escape e = Some c"
      using 1 by (auto simp: list_all_iff length_Suc_conv numeral_2_eq_2)
    then show ?thesis by (subst parse_chars.simps) simp
  next
    case 2
    have "escape_char c = [CHR 0x5C, CHR ''u'', CHR ''0'', CHR ''0'', hex_digit (n div 16), hex_digit (n mod 16)]"
      using 2 by (simp add: escape_char_def Let_def flip: n_def)
    moreover have "(@) [c] = (#) c" by (simp add: fun_eq_iff)
    ultimately show ?thesis
      using unicode_escape_small [OF 2(1), of t] by (subst parse_chars.simps) (simp add: c option.map_comp)
  next
    case 3
    have "c \<noteq> CHR 0x22" "c \<noteq> CHR 0x5C" using 3(2) by (auto simp: n_def)
    moreover have "escape_char c = [c]" using 3 by (simp add: escape_char_def Let_def flip: n_def)
    ultimately show ?thesis using 3(1) by (subst parse_chars.simps) (simp flip: n_def)
  qed
qed

lemma parse_quoted: "parse_chars (concat (map escape_char s) @ CHR 0x22 # t) = Some (s, t)"
proof (induction s)
  case Nil
  show ?case by (subst parse_chars.simps) simp
next
  case (Cons c s)
  then show ?case by (simp add: parse_escaped)
qed

lemma digits_value_acc: "digits_value 10 a ds = a * 10 ^ length ds + digits_value 10 0 ds"
proof (induction ds arbitrary: a)
  case (Cons d ds)
  let ?v = "case digit_value 10 d of None \<Rightarrow> 0 | Some x \<Rightarrow> x"
  have "digits_value 10 a (d # ds) = (a * 10 + ?v) * 10 ^ length ds + digits_value 10 0 ds"
    using Cons [of "a * 10 + ?v"] by simp
  moreover have "digits_value 10 0 (d # ds) = ?v * 10 ^ length ds + digits_value 10 0 ds"
    using Cons [of ?v] by simp
  ultimately show ?case by (simp add: algebra_simps)
qed simp

text \<open>A number that twenty digits after the point write exactly.\<close>

definition is_decimal :: "rat \<Rightarrow> bool" where
  "is_decimal r =
     (of_int \<lfloor>r * 10 ^ FRACTION_DIGITS\<rfloor> = r * 10 ^ FRACTION_DIGITS \<and> \<bar>r\<bar> < of_int DOUBLE_OVERFLOW)"

lemma is_decimal_code [code]:
  "is_decimal r =
     (of_int \<lfloor>r * 10 ^ FRACTION_DIGITS\<rfloor> = r * 10 ^ FRACTION_DIGITS \<and>
      (if \<bar>r\<bar> < 1000000000 then True else \<bar>r\<bar> < of_int DOUBLE_OVERFLOW))"
proof -
  have "(1000000000 :: rat) \<le> of_int DOUBLE_OVERFLOW" by (simp add: DOUBLE_OVERFLOW_def)
  then show ?thesis by (auto simp: is_decimal_def)
qed

lemma is_decimal_Ints: "is_decimal r \<longleftrightarrow> r * 10 ^ FRACTION_DIGITS \<in> \<int> \<and> \<bar>r\<bar> < of_int DOUBLE_OVERFLOW"
  unfolding is_decimal_def by (metis Ints_cases Ints_of_int floor_of_int)

lemma frac_digits_value:
  assumes "0 \<le> r" "r < 1" "r * 10 ^ fuel \<in> \<int>"
  shows "list_all is_digit (frac_digits fuel r) \<and>
         r = of_nat (digits_value 10 0 (frac_digits fuel r)) / 10 ^ length (frac_digits fuel r)"
  using assms
proof (induction fuel arbitrary: r)
  case 0
  then have "r \<in> \<int>" by simp
  then obtain i where "r = of_int i" by (auto elim: Ints_cases)
  then show ?case using 0 by simp
next
  case (Suc fuel)
  show ?case
  proof (cases "r = 0")
    case False
    define d where "d = nat \<lfloor>10 * r\<rfloor>"
    define s where "s = 10 * r - of_int \<lfloor>10 * r\<rfloor>"
    have d: "\<lfloor>10 * r\<rfloor> = int d" "d < 10" using Suc.prems unfolding d_def by (simp, linarith)
    have "0 \<le> s" "s < 1" unfolding s_def by linarith+
    moreover have "s * 10 ^ fuel = r * 10 ^ Suc fuel - of_int (int d * 10 ^ fuel)"
      unfolding s_def d by (simp add: algebra_simps)
    then have "s * 10 ^ fuel \<in> \<int>" using Suc.prems(3) by (metis Ints_diff Ints_of_int)
    ultimately have IH: "list_all is_digit (frac_digits fuel s)"
      "s = of_nat (digits_value 10 0 (frac_digits fuel s)) / 10 ^ length (frac_digits fuel s)"
      using Suc.IH [of s] by blast+
    have "r = (of_nat d + s) / 10" unfolding s_def d by simp
    also have "\<dots> = of_nat (d * 10 ^ length (frac_digits fuel s) + digits_value 10 0 (frac_digits fuel s)) /
        10 ^ Suc (length (frac_digits fuel s))"
      by (subst IH(2)) (simp add: field_simps)
    also have "d * 10 ^ length (frac_digits fuel s) + digits_value 10 0 (frac_digits fuel s) =
        digits_value 10 0 (char_of (48 + d) # frac_digits fuel s)"
      using digits_value_acc [of d] of_char_digit [OF d(2)] by simp
    finally have r: "r = of_nat (digits_value 10 0 (char_of (48 + d) # frac_digits fuel s)) / 10 ^ Suc (length (frac_digits fuel s))" .
    have eq: "frac_digits (Suc fuel) r = char_of (48 + d) # frac_digits fuel s" using False by (simp flip: d_def s_def)
    have "list_all is_digit (char_of (48 + d) # frac_digits fuel s)" using IH(1) is_digit_char [OF d(2)] by simp
    with r show ?thesis unfolding eq by (simp only: length_Cons simp_thms)
  qed simp
qed

definition ends_number :: "string \<Rightarrow> bool" where
  "ends_number t = (case t of [] \<Rightarrow> True | c # _ \<Rightarrow> \<not> is_digit c \<and> c \<notin> {CHR ''.'', CHR ''e'', CHR ''E''})"

lemma takeWhile_digits:
  assumes "list_all is_digit ds" and "case t of [] \<Rightarrow> True | c # _ \<Rightarrow> \<not> is_digit c"
  shows "takeWhile is_digit (ds @ t) = ds \<and> dropWhile is_digit (ds @ t) = t"
  using assms by (induction ds) (cases t; auto)+

lemma show_digits_no_leading_zero: "hd (show_digits n) = CHR ''0'' \<Longrightarrow> show_digits n = ''0''"
proof (induction n rule: show_digits.induct)
  case (1 n)
  show ?case
  proof (cases "n < 10")
    case True
    then show ?thesis using 1(2) by (subst (asm) show_digits.simps, subst show_digits.simps) simp
  next
    case False
    then have "hd (show_digits (n div 10)) = CHR ''0''" using 1(2) by (subst (asm) show_digits.simps) simp
    then have "show_digits (n div 10) = ''0''" using 1(1) False by blast
    then have "n div 10 = 0" using digits_value_show [of "n div 10"] by (simp add: digit_value_def)
    then show ?thesis using False by simp
  qed
qed

lemma parse_unsigned:
  assumes "0 \<le> r" "is_decimal r" "ends_number t"
  shows "parse_number (unsigned_text r @ t) = Some (Num (Fin r), t) \<and>
         parse_number (CHR ''-'' # unsigned_text r @ t) = Some (Num (Fin (- r)), t)"
proof -
  define i where "i = nat \<lfloor>r\<rfloor>"
  define f where "f = frac_digits FRACTION_DIGITS (r - of_int \<lfloor>r\<rfloor>)"
  have i: "of_int \<lfloor>r\<rfloor> = (of_nat i :: rat)" using assms(1) by (simp add: i_def)
  have "(r - of_int \<lfloor>r\<rfloor>) * 10 ^ FRACTION_DIGITS = r * 10 ^ FRACTION_DIGITS - of_int (\<lfloor>r\<rfloor> * 10 ^ FRACTION_DIGITS)"
    by (simp add: algebra_simps)
  then have "(r - of_int \<lfloor>r\<rfloor>) * 10 ^ FRACTION_DIGITS \<in> \<int>" using assms(2) by (metis Ints_diff Ints_of_int is_decimal_Ints)
  moreover have "0 \<le> r - of_int \<lfloor>r\<rfloor>" "r - of_int \<lfloor>r\<rfloor> < 1" by linarith+
  ultimately have f: "list_all is_digit f" "r - of_nat i = of_nat (digits_value 10 0 f) / 10 ^ length f"
    using frac_digits_value [of "r - of_int \<lfloor>r\<rfloor>" FRACTION_DIGITS] i by (simp_all add: f_def)
  obtain c ds where ip: "show_digits i = c # ds" by (cases "show_digits i") auto
  have dig: "list_all is_digit (c # ds)" using show_digits_digits [of i] ip by simp
  then have nc: "c \<noteq> CHR ''-''" "c \<noteq> CHR ''.''" by (auto simp: is_digit_code)
  have zero: "c = CHR ''0'' \<Longrightarrow> ds = []" using show_digits_no_leading_zero [of i] ip by simp
  have "digits_value 10 0 (show_digits i @ f) = i * 10 ^ length f + digits_value 10 0 f"
    using digits_value_acc [of i f] by (simp add: digits_value_append digits_value_show)
  then have "(of_nat (digits_value 10 0 (show_digits i @ f)) :: rat) = r * 10 ^ length f"
    using f(2) by (simp add: field_simps)
  then have val: "scale10 (of_nat (digits_value 10 0 (c # ds @ f))) (- int (length f)) = r"
    by (simp add: scale10_def ip del: digits_value.simps)
  have "\<not> of_int DOUBLE_OVERFLOW \<le> r" using assms(1,2) by (simp add: is_decimal_Ints)
  then have fin: "finite_or_inf r = Fin r" by (simp add: finite_or_inf_def)
  define u where "u = (if f = [] then [] else CHR ''.'' # f) @ t"
  have printed: "unsigned_text r @ t = (c # ds) @ u" by (simp add: unsigned_text_def Let_def u_def ip flip: f_def i_def)
  have "\<not> is_digit (CHR ''.'')" by (simp add: is_digit_code)
  then have stop: "case u of [] \<Rightarrow> True | d # _ \<Rightarrow> \<not> is_digit d"
    using assms(3) by (cases t) (auto simp: u_def ends_number_def)
  have tw: "takeWhile is_digit (c # ds @ u) = c # ds" "dropWhile is_digit (c # ds @ u) = u"
    using takeWhile_digits [OF dig stop] unfolding append_Cons by blast+
  have tf: "takeWhile is_digit (f @ t) = f" "dropWhile is_digit (f @ t) = t"
    using takeWhile_digits [OF f(1), of t] assms(3) by (auto simp: ends_number_def split: list.splits)
  have "c = CHR ''0'' \<Longrightarrow> (c # ds) = ''0''" using zero by simp
  moreover have "t = [] \<or> (\<exists>d u. t = d # u \<and> d \<noteq> CHR ''.'' \<and> d \<noteq> CHR ''e'' \<and> d \<noteq> CHR ''E'')"
    using assms(3) by (cases t) (auto simp: ends_number_def)
  ultimately show ?thesis
    unfolding parse_number_def printed append_Cons
    using tw tf nc val fin by (cases "f = []") (auto simp: u_def Let_def fraction_part_def exponent_part_def simp del: digits_value.simps(2) takeWhile.simps dropWhile.simps
        takeWhile_eq_all_conv dropWhile_eq_Nil_conv)
qed

lemma parse_decimal:
  assumes "is_decimal r" "ends_number t"
  shows "parse_number (decimal_text r @ t) = Some (Num (Fin r), t)"
proof (cases "r < 0")
  case True
  have "is_decimal (- r)" using assms(1) by (simp add: is_decimal_Ints)
  then show ?thesis using parse_unsigned [of "- r" t] assms(2) True by (simp add: decimal_text_def)
next
  case False
  then show ?thesis using parse_unsigned [of r t] assms by (simp add: decimal_text_def)
qed

section \<open>Values read back\<close>

text \<open>The values whose text is read back: their numbers are printed exactly and their keys are distinct.\<close>

fun json_exact :: "jsval \<Rightarrow> bool" where
  "json_exact (Num n) = (case n of Fin r \<Rightarrow> is_decimal r | _ \<Rightarrow> True)"
| "json_exact (Arr vs) = list_all json_exact vs"
| "json_exact (Obj ob) = (distinct (map fst ob) \<and> list_all (\<lambda>(k, v). json_exact v) ob)"
| "json_exact _ = True"

text \<open>No text of a value starts with white space or with a closing bracket.\<close>

lemma unsigned_text_start: "\<exists>c s. unsigned_text r = c # s \<and> is_digit c"
proof -
  obtain c s where "show_digits (nat \<lfloor>r\<rfloor>) = c # s" by (cases "show_digits (nat \<lfloor>r\<rfloor>)") auto
  then show ?thesis using show_digits_digits [of "nat \<lfloor>r\<rfloor>"] by (simp add: unsigned_text_def Let_def)
qed

definition value_start :: "char \<Rightarrow> bool" where
  "value_start c = (is_digit c \<or> c \<in> set (CHR 0x22 # ''-[{ntf''))"

lemma decimal_text_start: "\<exists>c s. decimal_text r = c # s \<and> (is_digit c \<or> c = CHR ''-'')"
  using unsigned_text_start [of r] by (auto simp: decimal_text_def)

lemma json_text_start: "\<exists>c s. json_text v = c # s \<and> value_start c"
proof (cases v)
  case (Num n)
  show ?thesis
  proof (cases n)
    case (Fin r)
    then show ?thesis using Num decimal_text_start [of r] by (auto simp: value_start_def)
  qed (simp_all add: Num value_start_def)
qed (auto simp: quoted_def value_start_def)

lemma value_start_stays: "value_start c \<Longrightarrow> skip_ws (c # s) = c # s \<and> c \<noteq> CHR '']'' \<and> c \<noteq> CHR ''}'' \<and> c \<noteq> CHR '',''"
proof -
  assume c: "value_start c"
  have "list_all (\<lambda>d. \<not> value_start d) [CHR 0x20, CHR 0x09, CHR 0x0A, CHR 0x0D, CHR '']'', CHR ''}'', CHR '','']"
    by (simp add: value_start_def is_digit_code)
  then show ?thesis using c by (auto simp: skip_ws_def)
qed

lemma skip_ws_text: "skip_ws (json_text v @ t) = json_text v @ t"
  using json_text_start [of v] value_start_stays by fastforce

lemma json_text_not_closing:
  "\<not> starts_with (json_text v @ t) '']'' \<and> \<not> starts_with (json_text v @ t) ''}''"
  using json_text_start [of v] value_start_stays by (fastforce simp: starts_with_def)

lemma skip_ws_simps [simp]:
  "skip_ws (CHR '','' # s) = CHR '','' # s" "skip_ws (CHR '']'' # s) = CHR '']'' # s"
  "skip_ws (CHR ''}'' # s) = CHR ''}'' # s" "skip_ws (CHR '':'' # s) = CHR '':'' # s"
  "skip_ws (CHR 0x22 # s) = CHR 0x22 # s" "skip_ws [] = []"
  by (simp_all add: skip_ws_def)

lemma ends_number_simps [simp]:
  "ends_number (CHR '','' # s)" "ends_number (CHR '']'' # s)" "ends_number (CHR ''}'' # s)" "ends_number []"
  by (simp_all add: ends_number_def is_digit_code)

text \<open>Enough fuel for a text.\<close>

definition reads_back :: "jsval \<Rightarrow> bool" where
  "reads_back v =
     (\<forall>fuel t. 2 * length (json_text v) \<le> fuel \<longrightarrow> ends_number t \<longrightarrow>
        parse_value fuel (json_text v @ t) = Some (json_clone v, t))"

lemma reads_backI:
  assumes "\<And>n t. 2 * length (json_text v) \<le> Suc n \<Longrightarrow> ends_number t \<Longrightarrow>
             parse_value (Suc n) (json_text v @ t) = Some (json_clone v, t)"
  shows "reads_back v"
  unfolding reads_back_def
proof (intro allI impI)
  fix fuel t assume "2 * length (json_text v) \<le> fuel" "ends_number t"
  moreover have "json_text v \<noteq> []" using json_text_start [of v] by auto
  ultimately show "parse_value fuel (json_text v @ t) = Some (json_clone v, t)"
    using assms [of "fuel - 1" t] by (cases fuel) auto
qed

lemma parse_elems_back:
  assumes "vs \<noteq> []" "\<forall>v \<in> set vs. reads_back v"
    and "2 * length (join_text '','' (map json_text vs)) + 1 \<le> fuel"
  shows "parse_elems fuel (join_text '','' (map json_text vs) @ CHR '']'' # t) acc = Some (Arr (acc @ map json_clone vs), t)"
  using assms
proof (induction vs arbitrary: fuel acc)
  case (Cons v vs)
  obtain n where n: "fuel = Suc n" using Cons.prems by (cases fuel) auto
  have v: "reads_back v" using Cons.prems by simp
  show ?case
  proof (cases vs)
    case Nil
    have "parse_value n (json_text v @ CHR '']'' # t) = Some (json_clone v, CHR '']'' # t)"
      using v Cons.prems(3) Nil n by (simp add: reads_back_def)
    then show ?thesis using Nil n by (simp add: skip_ws_text)
  next
    case (Cons w ws)
    let ?rest = "join_text '','' (map json_text vs)"
    have split: "join_text '','' (map json_text (v # vs)) = json_text v @ CHR '','' # ?rest" using Cons by simp
    have "parse_value n (json_text v @ CHR '','' # ?rest @ CHR '']'' # t) = Some (json_clone v, CHR '','' # ?rest @ CHR '']'' # t)"
      using v Cons.prems(3) n unfolding split by (simp add: reads_back_def)
    moreover have "parse_elems n (?rest @ CHR '']'' # t) (acc @ [json_clone v]) = Some (Arr (acc @ map json_clone (v # vs)), t)"
      using Cons.IH [of n "acc @ [json_clone v]"] Cons.prems n Cons unfolding split by simp
    ultimately show ?thesis unfolding split n by (simp add: skip_ws_text)
  qed
qed simp

definition member_text :: "string \<times> jsval \<Rightarrow> string" where
  "member_text kv = quoted (fst kv) @ CHR '':'' # json_text (snd kv)"

lemma parse_member:
  assumes "reads_back v" "ends_number t" "2 * length (json_text v) \<le> n"
  shows "parse_members (Suc n) (member_text (k, v) @ t) ob =
           (case skip_ws t of
              [] \<Rightarrow> None
            | d # x \<Rightarrow> if d = CHR '','' then parse_members n x (AList.update k (json_clone v) ob)
                       else if d = CHR ''}'' then Some (Obj (AList.update k (json_clone v) ob), x) else None)"
proof -
  have "parse_value n (json_text v @ t) = Some (json_clone v, t)" using assms by (simp add: reads_back_def)
  then show ?thesis
    using parse_quoted [of k "CHR '':'' # json_text v @ t"] by (simp add: member_text_def quoted_def skip_ws_text)
qed

lemma parse_members_back:
  assumes "kvs \<noteq> []" "\<forall>kv \<in> set kvs. reads_back (snd kv)" "distinct (map fst (ob @ kvs))"
    and "2 * length (join_text '','' (map member_text kvs)) + 1 \<le> fuel"
  shows "parse_members fuel (join_text '','' (map member_text kvs) @ CHR ''}'' # t) ob =
           Some (Obj (ob @ map (\<lambda>(k, v). (k, json_clone v)) kvs), t)"
  using assms
proof (induction kvs arbitrary: fuel ob)
  case (Cons kv kvs)
  obtain k v where kv: "kv = (k, v)" by (cases kv)
  obtain n where n: "fuel = Suc n" using Cons.prems by (cases fuel) auto
  have v: "reads_back v" using Cons.prems kv by simp
  have "k \<notin> set (map fst ob)" using Cons.prems(3) kv by auto
  then have upd: "AList.update k (json_clone v) ob = ob @ [(k, json_clone v)]" by (rule alist_update_absent)
  show ?case
  proof (cases kvs)
    case Nil
    have "2 * length (json_text v) \<le> n" using Cons.prems(4) Nil n kv by (simp add: member_text_def)
    then show ?thesis using parse_member [OF v, of "CHR ''}'' # t" n k ob] Nil n kv upd by simp
  next
    case (Cons w ws)
    let ?rest = "join_text '','' (map member_text kvs)" and ?ob = "ob @ [(k, json_clone v)]"
    have split: "join_text '','' (map member_text (kv # kvs)) = member_text (k, v) @ CHR '','' # ?rest" using Cons kv by simp
    have "2 * length (json_text v) \<le> n" using Cons.prems(4) n unfolding split by (simp add: member_text_def)
    moreover have "parse_members n (?rest @ CHR ''}'' # t) ?ob = Some (Obj (?ob @ map (\<lambda>(k, v). (k, json_clone v)) kvs), t)"
      using Cons.IH [of ?ob n] Cons.prems n Cons kv unfolding split by simp
    ultimately show ?thesis
      using parse_member [OF v, of "CHR '','' # ?rest @ CHR ''}'' # t" n k ob] upd unfolding split n by (simp add: kv)
  qed
qed simp

lemma members_text:
  "map (\<lambda>(k, v). quoted k @ CHR '':'' # json_text v) kvs = map member_text kvs"
  by (simp add: member_text_def case_prod_beta)

lemma distinct_map_filter_fst: "distinct (map fst xs) \<Longrightarrow> distinct (map fst (filter P xs))"
  by (induction xs) auto

lemma json_reads_back: "json_exact v \<Longrightarrow> reads_back v"
proof (induction v rule: json_text.induct)
  case (4 m)
  show ?case
  proof (rule reads_backI)
    fix n t assume t: "ends_number t"
    show "parse_value (Suc n) (json_text (Num m) @ t) = Some (json_clone (Num m), t)"
    proof (cases m)
      case (Fin r)
      obtain c s where c: "decimal_text r = c # s" "is_digit c \<or> c = CHR ''-''" using decimal_text_start by blast
      have "c \<notin> set (CHR 0x22 # ''[{ntf'')" using c(2) by (auto simp: is_digit_code)
      then show ?thesis using parse_decimal [of r t] 4 t Fin c(1) by (simp add: starts_with_def)
    qed (simp_all add: starts_with_def)
  qed
next
  case (5 s)
  show ?case by (rule reads_backI) (simp add: quoted_def parse_quoted)
next
  case (6 vs)
  have IH: "\<forall>v \<in> set vs. reads_back v" using 6 by (auto simp: list_all_iff)
  show ?case
  proof (rule reads_backI)
    fix n t assume n: "2 * length (json_text (Arr vs)) \<le> Suc n"
    show "parse_value (Suc n) (json_text (Arr vs) @ t) = Some (json_clone (Arr vs), t)"
    proof (cases vs)
      case (Cons w ws)
      let ?j = "join_text '','' (map json_text vs)"
      obtain s where s: "?j @ CHR '']'' # t = json_text w @ s" using Cons by (cases ws) auto
      have "\<not> starts_with (skip_ws (?j @ CHR '']'' # t)) '']''"
        unfolding s skip_ws_text using json_text_not_closing by blast
      then show ?thesis using parse_elems_back [OF _ IH, of n t "[]"] n Cons by simp
    qed (simp add: starts_with_def)
  qed
next
  case (7 ob)
  let ?kvs = "filter (\<lambda>(k, v). v \<noteq> Undefined) ob"
  have IH: "\<forall>kv \<in> set ?kvs. reads_back (snd kv)"
    using 7 by (auto simp: list_all_iff)
  have dist: "distinct (map fst ([] @ ?kvs))" using 7 by (simp add: distinct_map_filter_fst)
  show ?case
  proof (rule reads_backI)
    fix n t assume n: "2 * length (json_text (Obj ob)) \<le> Suc n"
    let ?j = "join_text '','' (map member_text ?kvs)"
    have obj: "json_text (Obj ob) = CHR ''{'' # ?j @ ''}''" by (simp add: members_text)
    show "parse_value (Suc n) (json_text (Obj ob) @ t) = Some (json_clone (Obj ob), t)"
    proof (cases ?kvs)
      case (Cons w ws)
      obtain s where s: "?j @ CHR ''}'' # t = CHR 0x22 # s" using Cons by (cases ws) (auto simp: member_text_def quoted_def)
      have "\<not> starts_with (skip_ws (?j @ CHR ''}'' # t)) ''}''" unfolding s by (simp add: starts_with_def)
      then show ?thesis using parse_members_back [OF _ IH dist, of n t] n Cons unfolding obj by simp
    qed (simp add: obj starts_with_def)
  qed
qed (auto intro!: reads_backI simp: starts_with_def)

text \<open>What \<open>JSON.stringify\<close> writes, \<open>JSON.parse\<close> reads: the value without its undefined members, with
  null for numbers that are not finite.\<close>

lemma json_round_trip:
  assumes "json_exact v"
  shows "json_parse (json_text v) = Some (json_clone v)"
proof -
  have "parse_value (2 * length (json_text v) + 2) (json_text v @ []) = Some (json_clone v, [])"
    using json_reads_back [OF assms] unfolding reads_back_def by (meson ends_number_simps(4) le_add1)
  then show ?thesis using skip_ws_text [of v "[]"] by (simp add: json_parse_def)
qed

section \<open>The fuel is enough\<close>

lemma skip_ws_length: "length (skip_ws s) \<le> length s"
  by (simp add: skip_ws_def length_dropWhile_le)

lemma parse_chars_shorter: "parse_chars s = Some (w, t) \<Longrightarrow> length t < length s"
proof (induction s arbitrary: w t rule: parse_chars.induct)
  case (1 s)
  show ?case
  proof (cases s)
    case Nil
    then show ?thesis using 1(4) by (subst (asm) parse_chars.simps) simp
  next
    case (Cons c r)
    consider "c = CHR 0x22" | "c \<noteq> CHR 0x22" "c \<noteq> CHR 0x5C" | "c = CHR 0x5C" by auto
    then show ?thesis
    proof cases
      case 1
      then show ?thesis using Cons \<open>parse_chars s = Some (w, t)\<close> by (subst (asm) parse_chars.simps) simp
    next
      case 2
      then obtain w' where "parse_chars r = Some (w', t)" "\<not> (of_char c :: nat) < 32"
        using Cons \<open>parse_chars s = Some (w, t)\<close> by (subst (asm) parse_chars.simps) (auto split: if_splits)
      then show ?thesis using 1(1) [OF Cons 2(1) _ 2(2)] Cons by fastforce
    next
      case 3
      then have ne: "\<not> c = CHR 0x22" "\<not> (of_char c :: nat) < 32" "\<not> c \<noteq> CHR 0x5C" by auto
      show ?thesis using Cons 3 \<open>parse_chars s = Some (w, t)\<close> 1(2) [OF Cons ne] 1(3) [OF Cons ne]
        by (subst (asm) parse_chars.simps)
           (auto split: list.splits if_splits option.splits dest!: unicode_escape_shorter, fastforce+)
    qed
  qed
qed

lemma digits_eaten: "takeWhile is_digit t \<noteq> [] \<Longrightarrow> length (dropWhile is_digit t) < length t"
  by (cases t) (auto simp: le_imp_less_Suc length_dropWhile_le split: if_splits)

lemma parts_shorter:
  "fraction_part s = (dot, f, t) \<Longrightarrow> length t \<le> length s"
  "exponent_part s = (expo, sign, ds, t) \<Longrightarrow> length t \<le> length s"
  using length_dropWhile_le [of is_digit]
  by (auto simp: fraction_part_def exponent_part_def Let_def intro: le_SucI split: list.splits if_splits)

lemma parse_number_shorter: "parse_number s = Some (v, t) \<Longrightarrow> length t < length s"
proof -
  assume p: "parse_number s = Some (v, t)"
  define u where "u = (case s of c # r \<Rightarrow> if c = CHR ''-'' then r else s | [] \<Rightarrow> [])"
  obtain dot f r2 where f: "fraction_part (dropWhile is_digit u) = (dot, f, r2)" by (cases "fraction_part (dropWhile is_digit u)")
  obtain expo sign ds r3 where e: "exponent_part r2 = (expo, sign, ds, r3)" by (cases "exponent_part r2")
  have "takeWhile is_digit u \<noteq> [] \<and> t = r3"
    using p f e by (auto simp: parse_number_def Let_def u_def split: list.splits if_splits)
  then have "length t < length u" using digits_eaten [of u] parts_shorter(1) [OF f] parts_shorter(2) [OF e] by simp
  moreover have "length u \<le> length s" by (auto simp: u_def split: list.split)
  ultimately show ?thesis by simp
qed

lemma parse_shorter:
  "parse_value n s = Some (v, t) \<Longrightarrow> length t < length s"
  "parse_elems n s vs = Some (v, t) \<Longrightarrow> length t < length s"
  "parse_members n s ob = Some (v, t) \<Longrightarrow> length t < length s"
proof (induction n s and n s vs and n s ob arbitrary: v t and v t and v t rule: parse_value_parse_elems_parse_members.induct)
  case (2 n s)
  show ?case
  proof (cases s)
    case (Cons c r)
    have ws: "length (tl (skip_ws r)) \<le> length r" using skip_ws_length [of r] by (simp add: le_diff_conv)
    consider "c = CHR 0x22" | "c = CHR ''[''" | "c = CHR ''{''"
      | "t = drop 4 s \<or> t = drop 5 s \<or> parse_number s = Some (v, t)"
      using 2(3) Cons by (cases "c = CHR 0x22"; cases "c = CHR ''[''"; cases "c = CHR ''{''") (auto split: if_splits)
    then show ?thesis
    proof cases
      case 1
      then obtain w where "parse_chars r = Some (w, t)" using 2(3) Cons by auto
      then show ?thesis using parse_chars_shorter Cons by fastforce
    next
      case c: 2
      show ?thesis
      proof (cases "starts_with (skip_ws r) '']''")
        case False
        then have "parse_elems n r [] = Some (v, t)" using 2(3) Cons c by simp
        then show ?thesis using 2(1) [OF Cons _ c False] c Cons by fastforce
      qed (use 2(3) Cons c ws in auto)
    next
      case c: 3
      show ?thesis
      proof (cases "starts_with (skip_ws r) ''}''")
        case False
        then have "parse_members n r [] = Some (v, t)" using 2(3) Cons c by simp
        then show ?thesis using 2(2) [OF Cons _ _ c False] c Cons by fastforce
      qed (use 2(3) Cons c ws in auto)
    next
      case 4
      then show ?thesis using parse_number_shorter [of s v t] Cons by auto
    qed
  qed (use 2 in simp)
next
  case (4 n s vs)
  obtain w u where w: "parse_value n (skip_ws s) = Some (w, u)" using 4(3) by (auto split: option.splits)
  obtain c x where c: "skip_ws u = c # x" using 4(3) w by (auto split: list.splits)
  have "length x < length s"
    using 4(1) [OF w] skip_ws_length [of s] skip_ws_length [of u] c by simp
  then show ?case using 4(2) [OF w refl c] 4(3) w c by (fastforce split: if_splits)
next
  case (6 n s ob)
  obtain r where r: "skip_ws s = CHR 0x22 # r" using 6(3) by (auto split: list.splits if_splits)
  obtain k u where k: "parse_chars r = Some (k, u)" using 6(3) r by (auto split: option.splits)
  obtain w where w: "skip_ws u = CHR '':'' # w" using 6(3) r k by (auto split: list.splits if_splits)
  obtain v' y where v': "parse_value n (skip_ws w) = Some (v', y)" using 6(3) r k w by (auto split: option.splits)
  obtain d x where d: "skip_ws y = d # x" using 6(3) r k w v' by (auto split: list.splits)
  have "length y < length (skip_ws w)" using 6(1) r k w v' by fastforce
  then have "length x < length s"
    using parse_chars_shorter [OF k] skip_ws_length [of s] skip_ws_length [of u] skip_ws_length [of w] skip_ws_length [of y] r w d
    by simp
  then show ?case using 6(2) 6(3) r k w v' d by (fastforce split: if_splits)
qed simp_all

lemma fuel_step:
  "(\<forall>s. 2 * length s + 1 \<le> n \<longrightarrow> parse_value (Suc n) s = parse_value n s) \<and>
   (\<forall>s vs. 2 * length s + 2 \<le> n \<longrightarrow> parse_elems (Suc n) s vs = parse_elems n s vs) \<and>
   (\<forall>s ob. 2 * length s + 2 \<le> n \<longrightarrow> parse_members (Suc n) s ob = parse_members n s ob)"
proof (induction n)
  case (Suc n)
  have val: "parse_value (Suc n) s = parse_value n s" if "2 * length s + 1 \<le> n" for s using Suc that by blast
  have elems: "parse_elems (Suc n) s vs = parse_elems n s vs" if "2 * length s + 2 \<le> n" for s vs using Suc that by blast
  have members: "parse_members (Suc n) s ob = parse_members n s ob" if "2 * length s + 2 \<le> n" for s ob using Suc that by blast
  have v: "parse_value (Suc (Suc n)) s = parse_value (Suc n) s" if "2 * length s + 1 \<le> Suc n" for s
    using that elems [of "tl s"] members [of "tl s"]
    by (cases s) (simp_all del: parse_elems.simps parse_members.simps)
  have e: "parse_elems (Suc (Suc n)) s vs = parse_elems (Suc n) s vs" if "2 * length s + 2 \<le> Suc n" for s vs
  proof -
    have len: "2 * length (skip_ws s) + 1 \<le> n" using skip_ws_length [of s] that by linarith
    show ?thesis
    proof (cases "parse_value n (skip_ws s)")
      case (Some vt)
      obtain v t where vt: "vt = (v, t)" by (cases vt)
      have "length (skip_ws t) < length s"
        using parse_shorter(1) [OF Some [unfolded vt]] skip_ws_length [of t] skip_ws_length [of s] by linarith
      then have "parse_elems (Suc n) u (vs @ [v]) = parse_elems n u (vs @ [v])" if "skip_ws t = c # u" for c u
        using that \<open>2 * length s + 2 \<le> Suc n\<close> elems [of u "vs @ [v]"] by simp
      then show ?thesis
        using val [OF len] Some vt by (simp del: parse_value.simps add: parse_elems.simps(2) split: list.split)
    qed (use val [OF len] in \<open>simp del: parse_value.simps\<close>)
  qed
  have m: "parse_members (Suc (Suc n)) s ob = parse_members (Suc n) s ob" if "2 * length s + 2 \<le> Suc n" for s ob
  proof -
    have "parse_value (Suc n) (skip_ws u) = parse_value n (skip_ws u) \<and>
          (\<forall>v w d x. parse_value n (skip_ws u) = Some (v, w) \<longrightarrow> skip_ws w = d # x \<longrightarrow>
             (\<forall>ob. parse_members (Suc n) x ob = parse_members n x ob))"
      if "skip_ws s = q # r" "parse_chars r = Some (k, t)" "skip_ws t = c # u" for q r k t c u
    proof (intro conjI allI impI)
      have u: "2 * length (skip_ws u) + 2 \<le> n"
        using that parse_chars_shorter [OF that(2)] skip_ws_length [of s] skip_ws_length [of t] skip_ws_length [of u]
          \<open>2 * length s + 2 \<le> Suc n\<close> by simp
      then show "parse_value (Suc n) (skip_ws u) = parse_value n (skip_ws u)" by (intro val) simp
      fix v w d x ob assume "parse_value n (skip_ws u) = Some (v, w)" "skip_ws w = d # x"
      then show "parse_members (Suc n) x ob = parse_members n x ob"
        using parse_shorter(1) [of n "skip_ws u" v w] skip_ws_length [of w] u by (intro members) simp
    qed
    then show ?thesis
      by (simp del: parse_value.simps add: parse_members.simps(2) split: list.split option.split prod.split)
  qed
  from v e m show ?case by blast
qed simp

lemma json_parse_fuel:
  assumes "2 * length s + 2 \<le> fuel"
  shows "parse_value fuel (skip_ws s) = parse_value (2 * length s + 2) (skip_ws s)"
  using assms
proof (induction fuel rule: dec_induct)
  case (step n)
  moreover have "2 * length (skip_ws s) + 1 \<le> n" using step skip_ws_length [of s] by simp
  ultimately show ?case using fuel_step by (metis (no_types))
qed simp

section \<open>Texts as lines of a stream\<close>

text \<open>A text has no control character, so it is one line, and it neither starts nor ends with white
  space.\<close>

definition plain_line :: "string \<Rightarrow> bool" where
  "plain_line s = list_all (\<lambda>c. 32 \<le> (of_char c :: nat)) s"

lemma plain_line_append [simp]: "plain_line (s @ t) \<longleftrightarrow> plain_line s \<and> plain_line t"
  by (simp add: plain_line_def)

lemma plain_line_Cons [simp]: "plain_line (c # s) \<longleftrightarrow> 32 \<le> (of_char c :: nat) \<and> plain_line s"
  by (simp add: plain_line_def)

lemma plain_line_Nil [simp]: "plain_line []"
  by (simp add: plain_line_def)

lemma plain_digits: "list_all is_digit s \<Longrightarrow> plain_line s"
  by (auto simp: plain_line_def list_all_iff is_digit_code)

lemma plain_quoted: "plain_line (quoted s)"
proof -
  have hex: "32 \<le> (of_char (hex_digit d) :: nat)" if "d < 16" for d using that by (simp add: hex_digit_def)
  have "plain_line (escape_char c)" for c
    using hex [of "of_char c div 16"] hex [of "of_char c mod 16"] by (auto simp: escape_char_def Let_def)
  then have "plain_line (concat (map escape_char s))" by (induction s) auto
  then show ?thesis by (simp add: quoted_def)
qed

lemma plain_join: "\<forall>w \<in> set ws. plain_line w \<Longrightarrow> plain_line (join_text '','' ws)"
  by (induction "'',''" ws rule: join_text.induct) auto

lemma frac_digits_plain:
  assumes "0 \<le> r" "r < 1"
  shows "list_all is_digit (frac_digits n r)"
  using assms
proof (induction n arbitrary: r)
  case (Suc n)
  have "nat \<lfloor>10 * r\<rfloor> < 10" using Suc.prems by linarith
  then show ?case using Suc.IH [of "10 * r - of_int \<lfloor>10 * r\<rfloor>"] is_digit_char by simp linarith
qed simp

lemma plain_decimal: "plain_line (decimal_text r)"
proof -
  have "plain_line (unsigned_text q)" for q
  proof -
    have "0 \<le> q - of_int \<lfloor>q\<rfloor>" "q - of_int \<lfloor>q\<rfloor> < 1" by linarith+
    then show ?thesis
      using plain_digits [OF show_digits_digits] plain_digits [OF frac_digits_plain] by (simp add: unsigned_text_def Let_def)
  qed
  then show ?thesis by (simp add: decimal_text_def)
qed

lemma plain_json: "plain_line (json_text v)"
proof (induction v rule: json_text.induct)
  case (4 n)
  then show ?case by (cases n) (simp_all add: plain_decimal)
next
  case (6 vs)
  then show ?case by (simp add: plain_join)
next
  case (7 ob)
  then show ?case by (auto intro!: plain_join simp: plain_quoted)
qed (simp_all add: plain_quoted)

lemma no_newline: "plain_line s \<Longrightarrow> CHR 0x0A \<notin> set s"
  by (auto simp: plain_line_def list_all_iff)

end
