(* ===== verification/JsOps.thy ===== *)
theory JsOps
  imports Json OptionsParser
begin

text \<open>
  The JavaScript operators and number functions that the browser code and the report texts apply to
  values they do not check: \<open>+\<close>, \<open>/\<close>, \<open>*\<close>, \<open>%\<close>, \<open>>\<close>, \<open>||\<close>, \<open>Math.round\<close>, \<open>Math.floor\<close>, \<open>Math.max\<close>,
  \<open>toFixed\<close> (below \<open>10 ^ 21\<close>), and the reading of properties, which throws on null and undefined. Numbers are exact
  rationals, infinities and NaN; the sign of zero is not modelled.
\<close>

section \<open>Numbers\<close>

definition signed_inf :: "rat \<Rightarrow> jsnum" where
  "signed_inf r = (if 0 < r then PosInf else if r < 0 then NegInf else NaN)"

text \<open>The sign of a number that is not NaN.\<close>

fun num_sign :: "jsnum \<Rightarrow> rat" where
  "num_sign (Fin r) = r"
| "num_sign PosInf = 1"
| "num_sign NegInf = - 1"
| "num_sign NaN = 0"

fun num_add :: "jsnum \<Rightarrow> jsnum \<Rightarrow> jsnum" where
  "num_add (Fin a) (Fin b) = Fin (a + b)"
| "num_add NaN b = NaN"
| "num_add a NaN = NaN"
| "num_add (Fin a) b = b"
| "num_add a (Fin b) = a"
| "num_add a b = (if a = b then a else NaN)"

fun num_mul :: "jsnum \<Rightarrow> jsnum \<Rightarrow> jsnum" where
  "num_mul (Fin a) (Fin b) = Fin (a * b)"
| "num_mul NaN b = NaN"
| "num_mul a NaN = NaN"
| "num_mul a b = signed_inf (num_sign a * num_sign b)"

fun num_div :: "jsnum \<Rightarrow> jsnum \<Rightarrow> jsnum" where
  "num_div (Fin a) (Fin b) = (if b = 0 then signed_inf a else Fin (a / b))"
| "num_div NaN b = NaN"
| "num_div a NaN = NaN"
| "num_div (Fin a) b = Fin 0"
| "num_div a (Fin b) = (if b < 0 then negate_num a else a)"
| "num_div a b = NaN"

text \<open>\<open>a % b\<close> has the sign of \<open>a\<close>.\<close>

fun num_rem :: "jsnum \<Rightarrow> jsnum \<Rightarrow> jsnum" where
  "num_rem (Fin a) (Fin b) =
     (if b = 0 then NaN
      else let q = \<lfloor>\<bar>a\<bar> / \<bar>b\<bar>\<rfloor>; r = \<bar>a\<bar> - of_int q * \<bar>b\<bar> in Fin (if a < 0 then - r else r))"
| "num_rem (Fin a) NaN = NaN"
| "num_rem (Fin a) b = Fin a"
| "num_rem a b = NaN"

fun num_less :: "jsnum \<Rightarrow> jsnum \<Rightarrow> bool" where
  "num_less (Fin a) (Fin b) = (a < b)"
| "num_less NaN b = False"
| "num_less a NaN = False"
| "num_less NegInf b = (b \<noteq> NegInf)"
| "num_less a PosInf = (a \<noteq> PosInf)"
| "num_less a b = False"

fun num_floor :: "jsnum \<Rightarrow> jsnum" where
  "num_floor (Fin r) = num_of_int \<lfloor>r\<rfloor>"
| "num_floor n = n"

text \<open>\<open>Math.round\<close> takes a half upwards.\<close>

fun num_round :: "jsnum \<Rightarrow> jsnum" where
  "num_round (Fin r) = num_of_int \<lfloor>r + 1 / 2\<rfloor>"
| "num_round n = n"

definition num_max :: "jsnum \<Rightarrow> jsnum \<Rightarrow> jsnum" where
  "num_max a b = (if a = NaN \<or> b = NaN then NaN else if num_less a b then b else a)"

text \<open>\<open>x.toFixed(d)\<close>: the nearest number with \<open>d\<close> digits after the point, the larger one at a tie.\<close>

definition pad_zeros :: "nat \<Rightarrow> string \<Rightarrow> string" where
  "pad_zeros n s = replicate (n - length s) (CHR ''0'') @ s"

definition fixed_digits :: "nat \<Rightarrow> nat \<Rightarrow> string" where
  "fixed_digits d n =
     show_digits (n div 10 ^ d) @ (if d = 0 then [] else CHR ''.'' # pad_zeros d (show_digits (n mod 10 ^ d)))"

definition to_fixed :: "nat \<Rightarrow> rat \<Rightarrow> string" where
  "to_fixed d x =
     (let n = \<lfloor>\<bar>x\<bar> * 10 ^ d + 1 / 2\<rfloor>
      in (if x < 0 then ''-'' else []) @ fixed_digits d (nat n))"

section \<open>Values\<close>

definition val_text :: "jsval \<Rightarrow> string" where
  "val_text = js_text number_text"

text \<open>\<open>v.k\<close>; \<open>None\<close> is the \<open>TypeError\<close>. Properties of strings, arrays and wrappers are not read here.\<close>

definition read_prop :: "jsval \<Rightarrow> string \<Rightarrow> jsval option" where
  "read_prop v k = (if nullish v then None else case v of Obj ob \<Rightarrow> Some (prop_of ob k) | _ \<Rightarrow> Some Undefined)"

fun js_number :: "jsval \<Rightarrow> jsnum" where
  "js_number Undefined = NaN"
| "js_number Null = Fin 0"
| "js_number (Bool b) = Fin (if b then 1 else 0)"
| "js_number (Num n) = n"
| "js_number (Str s) = string_to_number s"
| "js_number (Arr vs) = string_to_number (val_text (Arr vs))"
| "js_number (Obj ob) = NaN"

definition is_text :: "jsval \<Rightarrow> bool" where
  "is_text v = (case v of Str _ \<Rightarrow> True | Arr _ \<Rightarrow> True | Obj _ \<Rightarrow> True | _ \<Rightarrow> False)"

definition js_add :: "jsval \<Rightarrow> jsval \<Rightarrow> jsval" where
  "js_add a b =
     (if is_text a \<or> is_text b then Str (val_text a @ val_text b) else Num (num_add (js_number a) (js_number b)))"

fun str_less :: "string \<Rightarrow> string \<Rightarrow> bool" where
  "str_less s [] = False"
| "str_less [] (d # t) = True"
| "str_less (c # s) (d # t) =
     (if c = d then str_less s t else (of_char c :: nat) < of_char d)"

text \<open>\<open>a > b\<close>: texts are compared as texts, anything else as numbers.\<close>

definition js_greater :: "jsval \<Rightarrow> jsval \<Rightarrow> bool" where
  "js_greater a b =
     (if is_text a \<and> is_text b then str_less (val_text b) (val_text a) else num_less (js_number b) (js_number a))"

definition js_or :: "jsval \<Rightarrow> jsval \<Rightarrow> jsval" where
  "js_or a b = (if truthy a then a else b)"

definition num_val :: "rat \<Rightarrow> jsval" where
  "num_val r = Num (Fin r)"

definition opt_val :: "rat option \<Rightarrow> jsval" where
  "opt_val m = (case m of None \<Rightarrow> Null | Some r \<Rightarrow> num_val r)"

section \<open>Facts\<close>

lemma prop_of_Cons: "prop_of ((k, v) # ob) j = (if j = k then v else prop_of ob j)"
  by (simp add: prop_of_def)

lemma read_prop_Obj [simp]: "read_prop (Obj ob) k = Some (prop_of ob k)"
  by (simp add: read_prop_def nullish_def)

lemma val_text_simps [simp]:
  "val_text (Num n) = number_text n" "val_text (Str s) = s" "val_text (Bool b) = (if b then ''true'' else ''false'')"
  by (simp_all add: val_text_def)

lemma pad_zeros_length: "length s \<le> n \<Longrightarrow> length (pad_zeros n s) = n"
  by (simp add: pad_zeros_def)

lemma show_digits_length: "n < 10 ^ d \<Longrightarrow> 0 < d \<Longrightarrow> length (show_digits n) \<le> d"
proof (induction d arbitrary: n)
  case (Suc d)
  show ?case
  proof (cases "n < 10")
    case True
    then show ?thesis by (subst show_digits.simps) simp
  next
    case False
    then have "0 < d" using Suc.prems by (cases d) auto
    moreover have "n div 10 < 10 ^ d" using Suc.prems by (simp add: less_mult_imp_div_less mult.commute)
    ultimately have "length (show_digits (n div 10)) \<le> d" using Suc.IH by blast
    then show ?thesis using False by (subst show_digits.simps) simp
  qed
qed simp

lemma digits_value_zeros: "digits_value 10 0 (replicate n (CHR ''0'') @ s) = digits_value 10 0 s"
  by (induction n) (simp_all add: digit_value_def)

text \<open>A fixed text reads back as the rounded number.\<close>

lemma fixed_digits_value:
  "digits_value 10 0 (filter (\<lambda>c. c \<noteq> CHR ''.'') (fixed_digits d n)) = n"
proof -
  have keep: "filter (\<lambda>c. c \<noteq> CHR ''.'') s = s" if "list_all is_digit s" for s
    using that by (auto simp: filter_id_conv list_all_iff is_digit_code)
  have zero: "is_digit (CHR ''0'')" by (simp add: is_digit_code)
  show ?thesis
  proof (cases "d = 0")
    case True
    then show ?thesis by (simp add: fixed_digits_def keep show_digits_digits digits_value_show)
  next
    case False
    let ?f = "pad_zeros d (show_digits (n mod 10 ^ d))"
    have f: "list_all is_digit ?f" using show_digits_digits [of "n mod 10 ^ d"] zero by (auto simp: pad_zeros_def list_all_iff)
    have "length ?f = d" using show_digits_length [of "n mod 10 ^ d" d] False by (simp add: pad_zeros_length)
    moreover have "digits_value 10 0 ?f = n mod 10 ^ d" by (simp add: pad_zeros_def digits_value_zeros digits_value_show)
    ultimately have "digits_value 10 (n div 10 ^ d) ?f = n"
      using digits_value_acc [of "n div 10 ^ d" ?f] by (simp add: div_mult_mod_eq)
    then show ?thesis
      using False f by (simp add: fixed_digits_def keep show_digits_digits digits_value_append digits_value_show)
  qed
qed

end
