(* ===== verification/EventStream.thy ===== *)
theory EventStream
  imports LoadTest JsOps
begin

text \<open>
  The load-test streams on their way to the browser: the objects that \<open>createEventStream\<close>
  (\<open>src/queue/load-test/sse-stream.util.ts\<close>) serialises for every event of \<open>runStream\<close> and
  \<open>compareStream\<close>, and \<open>readSseStream\<close> of \<open>public/js/common.js\<close>, which cuts the chunks of the response
  into lines and hands every \<open>data:\<close> line to a handler. How the framework frames a message is the
  argument \<open>frame\<close>. A decoder in stream mode holds back the bytes of a character that is not complete;
  a line end is never one of these, so the buffer here holds the bytes themselves.
\<close>

section \<open>Server side\<close>

fun winner_name :: "winner \<Rightarrow> string" where
  "winner_name NodeWins = ''node''"
| "winner_name GoWins = ''go''"
| "winner_name ErrorRound = ''error''"

definition nat_val :: "nat \<Rightarrow> jsval" where
  "nat_val n = num_val (of_nat n)"

definition int_val :: "int \<Rightarrow> jsval" where
  "int_val i = Num (num_of_int i)"

definition winners_obj :: "Winners \<Rightarrow> jsobj" where
  "winners_obj w =
     [(''nodeWins'', nat_val (w_nodeWins w)), (''goWins'', nat_val (w_goWins w)), (''errors'', nat_val (w_errors w))]"

definition latencies_obj :: "LatencySummary \<Rightarrow> jsobj" where
  "latencies_obj s =
     [(''avgMs'', opt_val (ls_avgMs s)), (''p50'', opt_val (ls_p50 s)), (''p95'', opt_val (ls_p95 s)),
      (''p99'', opt_val (ls_p99 s)), (''min'', opt_val (ls_min s)), (''max'', opt_val (ls_max s))]"

definition metrics_obj :: "StreamMetrics \<Rightarrow> jsobj" where
  "metrics_obj m =
     [(''total'', nat_val (sm_total m)), (''fulfilled'', nat_val (sm_fulfilled m)), (''rejected'', nat_val (sm_rejected m)),
      (''totalMs'', num_val (sm_totalMs m)), (''avgMs'', opt_val (sm_avgMs m)), (''p50'', opt_val (sm_p50 m)),
      (''p95'', opt_val (sm_p95 m)), (''p99'', opt_val (sm_p99 m)), (''minMs'', opt_val (sm_minMs m)),
      (''maxMs'', opt_val (sm_maxMs m))]"

text \<open>\<open>{ event, ...payload }\<close> of \<open>emit\<close>.\<close>

fun event_obj :: "event \<Rightarrow> jsobj" where
  "event_obj (RunStart type n now) =
     [(''event'', Str ''start''), (''type'', Str type), (''count'', num_val n), (''timestamp'', int_val now)]"
| "event_obj (RunProgress i n ok ms done failed) =
     [(''event'', Str ''progress''), (''index'', nat_val i), (''total'', num_val n), (''ok'', Bool ok), (''ms'', num_val ms),
      (''fulfilled'', nat_val done), (''rejected'', nat_val failed)]"
| "event_obj (RunDone type m) = (''event'', Str ''done'') # (''type'', Str type) # metrics_obj m"
| "event_obj (CompareStart n mx type delayMs engine now) =
     [(''event'', Str ''start''), (''count'', num_val n), (''max'', num_val mx), (''testType'', Str type),
      (''delayMs'', num_val delayMs), (''engine'', Str (engine_name engine)), (''timestamp'', int_val now)]"
| "event_obj (CompareProgress i n nodeMs goMs win w avgNode avgGo) =
     [(''event'', Str ''progress''), (''index'', nat_val i), (''total'', num_val n), (''nodeMs'', opt_val nodeMs),
      (''goMs'', opt_val goMs), (''winner'', Str (winner_name win))] @ winners_obj w @
     [(''avgNodeMs'', opt_val avgNode), (''avgGoMs'', opt_val avgGo)]"
| "event_obj (CompareDone n type label totalMs w node go) =
     [(''event'', Str ''done''), (''total'', num_val n), (''testType'', Str type), (''task'', Str label),
      (''totalMs'', num_val totalMs)] @ winners_obj w @ [(''node'', Obj (latencies_obj node)), (''go'', Obj (latencies_obj go))]"
| "event_obj (StreamError reason) = [(''event'', Str ''error''), (''message'', Str reason)]"

definition event_data :: "event \<Rightarrow> string" where
  "event_data e = json_text (Obj (event_obj e))"

section \<open>Client side\<close>

definition sse_message :: "string \<Rightarrow> jsval option" where
  "sse_message line =
     (if \<not> starts_with line ''data: '' then None
      else let raw = trim (drop 6 line) in if raw = [] then None else json_parse raw)"

text \<open>\<open>onMessage\<close> runs inside the \<open>try\<close> that also guards the parsing: what it changed before it threw
  stays, and reading goes on.\<close>

definition deliver :: "(jsval \<Rightarrow> 's \<Rightarrow> 's) \<Rightarrow> string \<Rightarrow> 's \<Rightarrow> 's" where
  "deliver onMessage line s = (case sse_message line of None \<Rightarrow> s | Some msg \<Rightarrow> onMessage msg s)"

fun read_chunks :: "(jsval \<Rightarrow> 's \<Rightarrow> 's) \<Rightarrow> string list \<Rightarrow> string \<Rightarrow> 's \<Rightarrow> 's" where
  "read_chunks onMessage [] buffer s = s"
| "read_chunks onMessage (chunk # chunks) buffer s =
     (let lines = split_on (CHR 0x0A) (buffer @ chunk)
      in read_chunks onMessage chunks (last lines) (fold (deliver onMessage) (butlast lines) s))"

text \<open>The chunks up to the end of the response, or up to the error that \<open>reader.read()\<close> throws.\<close>

definition readSseStream :: "(jsval \<Rightarrow> 's \<Rightarrow> 's) \<Rightarrow> string list \<times> string option \<Rightarrow> 's \<Rightarrow> 's \<times> string option" where
  "readSseStream onMessage body s = (read_chunks onMessage (fst body) [] s, snd body)"

section \<open>Chunks do not matter\<close>

lemma split_on_not_Nil: "split_on d s \<noteq> []"
  by (cases s) (auto split: list.splits)

lemma split_on_append:
  "split_on d (s @ t) = butlast (split_on d s) @ split_on d (last (split_on d s) @ t)"
proof (induction s)
  case (Cons c s)
  obtain w ws where w: "split_on d s = w # ws" using split_on_not_Nil by (cases "split_on d s") blast
  show ?case
  proof (cases "c = d")
    case False
    then show ?thesis using Cons w by (cases ws) (auto split: list.splits)
  qed (use Cons w in simp)
qed simp

lemma split_on_single: "d \<notin> set s \<Longrightarrow> split_on d s = [s]"
  by (induction s) auto

lemma split_on_line: "d \<notin> set l \<Longrightarrow> split_on d (l @ d # s) = l # split_on d s"
  by (induction l) auto

lemma last_split_plain: "d \<notin> set (last (split_on d s))"
proof (induction s)
  case (Cons c s)
  obtain w ws where w: "split_on d s = w # ws" using split_on_not_Nil by (cases "split_on d s") blast
  then show ?case using Cons by (cases ws) auto
qed simp

lemma read_chunks_concat:
  "CHR 0x0A \<notin> set buffer \<Longrightarrow>
   read_chunks onMessage chunks buffer s =
     fold (deliver onMessage) (butlast (split_on (CHR 0x0A) (buffer @ concat chunks))) s"
proof (induction chunks arbitrary: buffer s)
  case Nil
  then show ?case by (simp add: split_on_single)
next
  case (Cons chunk chunks)
  let ?lines = "split_on (CHR 0x0A) (buffer @ chunk)"
  have "split_on (CHR 0x0A) (buffer @ concat (chunk # chunks)) =
      butlast ?lines @ split_on (CHR 0x0A) (last ?lines @ concat chunks)"
    using split_on_append [of "CHR 0x0A" "buffer @ chunk" "concat chunks"] by simp
  moreover have "butlast (xs @ split_on d t) = xs @ butlast (split_on d t)" for xs d t
    by (simp add: butlast_append split_on_not_Nil)
  ultimately show ?case using Cons.IH [OF last_split_plain, of "buffer @ chunk"] by (simp add: Let_def)
qed

section \<open>Messages arrive\<close>

text \<open>The event-stream format: a message is lines, one of them \<open>data: \<close> with the text, the others with
  another field name, and an empty line.\<close>

definition other_line :: "string \<Rightarrow> bool" where
  "other_line l = (CHR 0x0A \<notin> set l \<and> \<not> starts_with l ''data: '')"

definition line_text :: "string \<Rightarrow> string" where
  "line_text l = l @ [CHR 0x0A]"

definition event_stream_format :: "(nat \<Rightarrow> string \<Rightarrow> string) \<Rightarrow> bool" where
  "event_stream_format frame =
     (\<forall>i d. plain_line d \<longrightarrow>
        (\<exists>pre post. list_all other_line (pre @ post) \<and>
           frame i d = concat (map line_text (pre @ (''data: '' @ d) # post))))"

lemma split_lines:
  "list_all (\<lambda>l. CHR 0x0A \<notin> set l) ls \<Longrightarrow>
   split_on (CHR 0x0A) (concat (map line_text ls) @ t) = ls @ split_on (CHR 0x0A) t"
  by (induction ls) (simp_all add: line_text_def split_on_line)

lemma deliver_others: "list_all other_line ls \<Longrightarrow> fold (deliver f) ls s = s"
  by (induction ls) (auto simp: deliver_def sse_message_def other_line_def)

definition text_end :: "char \<Rightarrow> bool" where
  "text_end c = (is_digit c \<or> c \<in> set (CHR 0x22 # '']}le''))"

lemma text_end_digits: "list_all is_digit s \<Longrightarrow> s \<noteq> [] \<Longrightarrow> text_end (last s)"
  by (simp add: list_all_iff text_end_def)

lemma decimal_text_end: "text_end (last (decimal_text r))"
proof -
  have "text_end (last (unsigned_text q))" for q
  proof -
    let ?f = "frac_digits FRACTION_DIGITS (q - of_int \<lfloor>q\<rfloor>)"
    have "list_all is_digit ?f" by (rule frac_digits_plain) linarith+
    then show ?thesis
      using text_end_digits [of ?f] text_end_digits [OF show_digits_digits] by (simp add: unsigned_text_def Let_def)
  qed
  then show ?thesis using unsigned_text_start [of "- r"] by (auto simp: decimal_text_def)
qed

lemma json_text_end: "text_end (last (json_text v))"
proof (cases v)
  case (Num n)
  then show ?thesis using decimal_text_end by (cases n) (simp_all add: text_end_def)
qed (simp_all add: quoted_def text_end_def)

lemma not_white_space_end:
  assumes "s \<noteq> []" and "\<And>w. w \<in> set white_space \<Longrightarrow> last w \<noteq> last s"
  shows "trim_end s = s"
proof -
  have "\<not> starts_with (rev s) w" if "w \<in> set (map rev white_space)" for w
  proof -
    from that obtain v where v: "v \<in> set white_space" "w = rev v" by auto
    moreover have "v \<noteq> []" using v(1) by (auto simp: white_space_def)
    ultimately have "hd w \<noteq> hd (rev s)" "w \<noteq> []" using assms by (auto simp: hd_rev)
    then show ?thesis using assms(1) by (cases w; cases "rev s") (auto simp: starts_with_def)
  qed
  then have "find (starts_with (rev s)) (map rev white_space) = None" by (simp add: find_None_iff)
  then show ?thesis by (cases s) (simp_all add: trim_end_def)
qed

lemma last_white_space:
  "w \<in> set white_space \<Longrightarrow> (of_char (last w) :: nat) \<le> 32 \<or> 128 \<le> (of_char (last w) :: nat)"
  by (auto simp: white_space_def)

lemma value_start_code: "value_start c \<Longrightarrow> 33 \<le> (of_char c :: nat) \<and> of_char c < (128 :: nat)"
  by (auto simp: value_start_def is_digit_code)

lemma text_end_code: "text_end c \<Longrightarrow> 33 \<le> (of_char c :: nat) \<and> of_char c < (128 :: nat)"
  by (auto simp: text_end_def is_digit_code)

lemma trim_json: "trim (json_text v) = json_text v"
proof -
  obtain c s where c: "json_text v = c # s" "value_start c" using json_text_start by blast
  have "trim_start (json_text v) = json_text v"
    using hd_white_space value_start_code [OF c(2)] c(1) by (intro not_white_space_start) fastforce+
  moreover have "trim_end (json_text v) = json_text v"
    using last_white_space text_end_code [OF json_text_end [of v]] c(1) by (intro not_white_space_end) fastforce+
  ultimately show ?thesis by (simp add: trim_def)
qed

lemma sse_message_data:
  assumes "json_exact v"
  shows "sse_message (''data: '' @ json_text v) = Some (json_clone v)"
proof -
  have "json_text v \<noteq> []" using json_text_start [of v] by auto
  then show ?thesis
    using json_round_trip [OF assms] by (simp add: sse_message_def starts_with_def trim_json)
qed

definition response_text :: "(nat \<Rightarrow> string \<Rightarrow> string) \<Rightarrow> jsval list \<Rightarrow> string" where
  "response_text frame vs = concat (map (\<lambda>(i, v). frame i (json_text v)) (enumerate 0 vs))"

lemma frames_delivered:
  assumes "event_stream_format frame" "list_all json_exact vs"
  shows "fold (deliver f) (butlast (split_on (CHR 0x0A) (concat (map (\<lambda>(i, v). frame i (json_text v)) (enumerate k vs))))) s =
         fold f (map json_clone vs) s"
  using assms(2)
proof (induction vs arbitrary: k s)
  case (Cons v vs)
  obtain pre post where f: "list_all other_line (pre @ post)"
    "frame k (json_text v) = concat (map line_text (pre @ (''data: '' @ json_text v) # post))"
    using assms(1) plain_json [of v] unfolding event_stream_format_def by blast
  let ?ls = "pre @ (''data: '' @ json_text v) # post"
  let ?rest = "concat (map (\<lambda>(i, v). frame i (json_text v)) (enumerate (Suc k) vs))"
  have "CHR 0x0A \<notin> set (json_text v)" using plain_json no_newline by blast
  then have "list_all (\<lambda>l. CHR 0x0A \<notin> set l) ?ls" using f(1) by (auto simp: list_all_iff other_line_def)
  then have "split_on (CHR 0x0A) (frame k (json_text v) @ ?rest) = ?ls @ split_on (CHR 0x0A) ?rest"
    unfolding f(2) by (rule split_lines)
  then have "butlast (split_on (CHR 0x0A) (frame k (json_text v) @ ?rest)) = ?ls @ butlast (split_on (CHR 0x0A) ?rest)"
    by (simp only: butlast_append split_on_not_Nil if_False)
  moreover have "fold (deliver f) ?ls s = f (json_clone v) s"
    using f(1) Cons.prems sse_message_data [of v] by (simp add: deliver_others deliver_def)
  ultimately show ?case using Cons.IH [of "Suc k" "f (json_clone v) s"] Cons.prems by simp
qed simp

text \<open>The events whose numbers are printed exactly, as those of a stream are whose count and limits
  have at most twenty digits after the point.\<close>

definition event_exact :: "event \<Rightarrow> bool" where
  "event_exact e = json_exact (Obj (event_obj e))"

lemma clone_vals [simp]:
  "json_clone (num_val r) = num_val r" "json_clone (opt_val m) = opt_val m" "json_clone (nat_val n) = nat_val n"
  "json_clone (int_val i) = int_val i" "num_val r \<noteq> Undefined" "opt_val m \<noteq> Undefined" "nat_val n \<noteq> Undefined"
  "int_val i \<noteq> Undefined"
  by (auto simp: num_val_def opt_val_def nat_val_def int_val_def num_of_int_def split: option.split)

lemma clone_event [simp]: "json_clone (Obj (event_obj e)) = Obj (event_obj e)"
  by (cases e) (simp_all add: winners_obj_def latencies_obj_def metrics_obj_def)

text \<open>C37. Every event of a stream reaches the browser, in order and as it was emitted, however the
  network cuts the response into chunks.\<close>

theorem streams_reach_the_browser:
  assumes "event_stream_format frame" and "list_all event_exact evs"
    and "concat chunks = response_text frame (map (Obj \<circ> event_obj) evs)"
  shows "readSseStream onMessage (chunks, failure) s = (fold (\<lambda>e. onMessage (Obj (event_obj e))) evs s, failure)"
proof -
  let ?vs = "map (Obj \<circ> event_obj) evs"
  have ex: "list_all json_exact ?vs" using assms(2) by (auto simp: list_all_iff event_exact_def)
  have clone: "map json_clone ?vs = ?vs" by (simp del: json_clone.simps)
  have "read_chunks onMessage chunks [] s = fold onMessage (map json_clone ?vs) s"
    using frames_delivered [OF assms(1) ex, of onMessage 0 s] read_chunks_concat [of "[]" onMessage chunks s] assms(3)
    by (simp add: response_text_def)
  then show ?thesis unfolding clone by (simp add: readSseStream_def fold_map comp_def)
qed

definition nest_frame :: "nat \<Rightarrow> string \<Rightarrow> string" where
  "nest_frame i d = ''id: '' @ show_digits i @ [CHR 0x0A] @ ''data: '' @ d @ [CHR 0x0A, CHR 0x0A]"

lemma nest_frame_format: "event_stream_format nest_frame"
proof -
  have "nest_frame i d = concat (map line_text ([''id: '' @ show_digits i] @ (''data: '' @ d) # [[]]))" for i d
    by (simp add: nest_frame_def line_text_def)
  moreover have "list_all other_line ([''id: '' @ show_digits i] @ [[]])" for i
    using no_newline [OF plain_digits [OF show_digits_digits]] by (simp add: other_line_def starts_with_def)
  ultimately show ?thesis unfolding event_stream_format_def by blast
qed

theorem streams_reach_the_browser_witness:
  "let evs = [RunStart ''cpu'' 2 7, RunProgress 0 2 True (5 / 4) 1 0];
       body = response_text nest_frame (map (Obj \<circ> event_obj) evs)
   in readSseStream (\<lambda>msg seen. seen @ [msg]) ([take 50 body, drop 50 body], None) [] =
        (map (Obj \<circ> event_obj) evs, None)"
proof -
  let ?evs = "[RunStart ''cpu'' 2 7, RunProgress 0 2 True (5 / 4) 1 0]"
  let ?body = "response_text nest_frame (map (Obj \<circ> event_obj) ?evs)"
  have "list_all event_exact ?evs"
    by code_simp
  moreover have "concat [take 50 ?body, drop 50 ?body] = ?body" by simp
  ultimately show ?thesis
    using streams_reach_the_browser [OF nest_frame_format, of ?evs _ "\<lambda>msg seen. seen @ [msg]" None "[]"]
    by (simp add: Let_def)
qed

end
