(* ===== verification/Texts.thy ===== *)
theory Texts
  imports Main
begin

text \<open>
  The Korean texts of the dashboard, the consumer report and the server log that the models print,
  as UTF-8 bytes.
\<close>

definition TXT_NOT_MEASURED :: string where
  "TXT_NOT_MEASURED =
     [CHR 0xEC, CHR 0xB8, CHR 0xA1, CHR 0xEC, CHR 0xA0, CHR 0x95] @ '' '' @ [CHR 0xEB, CHR 0xB6,
      CHR 0x88, CHR 0xEA, CHR 0xB0, CHR 0x80]"

definition TXT_RUNNING :: string where
  "TXT_RUNNING =
     [CHR 0xEC, CHR 0x8B, CHR 0xA4, CHR 0xED, CHR 0x96, CHR 0x89] @ '' '' @ [CHR 0xEC, CHR 0xA4,
      CHR 0x91] @ ''...''"

definition TXT_RUN_TEST :: string where
  "TXT_RUN_TEST =
     [CHR 0xED, CHR 0x85, CHR 0x8C, CHR 0xEC, CHR 0x8A, CHR 0xA4, CHR 0xED, CHR 0x8A, CHR 0xB8] @
      '' '' @ [CHR 0xEC, CHR 0x8B, CHR 0xA4, CHR 0xED, CHR 0x96, CHR 0x89]"

definition TXT_RUN_COMPARE :: string where
  "TXT_RUN_COMPARE =
     [CHR 0xEB, CHR 0xB9, CHR 0x84, CHR 0xEA, CHR 0xB5, CHR 0x90] @ '' '' @ [CHR 0xEC, CHR 0x8B,
      CHR 0xA4, CHR 0xED, CHR 0x96, CHR 0x89]"

definition TXT_TEST_START :: string where
  "TXT_TEST_START =
     '' '' @ [CHR 0xED, CHR 0x85, CHR 0x8C, CHR 0xEC, CHR 0x8A, CHR 0xA4, CHR 0xED, CHR 0x8A,
      CHR 0xB8] @ '' '' @ [CHR 0xEC, CHR 0x8B, CHR 0x9C, CHR 0xEC, CHR 0x9E, CHR 0x91] @ '': ''"

definition TXT_CASES :: string where
  "TXT_CASES =
     [CHR 0xEA, CHR 0xB1, CHR 0xB4]"

definition TXT_TEST_STARTED :: string where
  "TXT_TEST_STARTED =
     [CHR 0xED, CHR 0x85, CHR 0x8C, CHR 0xEC, CHR 0x8A, CHR 0xA4, CHR 0xED, CHR 0x8A, CHR 0xB8] @
      '' '' @ [CHR 0xEC, CHR 0x8B, CHR 0x9C, CHR 0xEC, CHR 0x9E, CHR 0x91, CHR 0xEB, CHR 0x90,
      CHR 0xA8] @ '': ''"

definition TXT_FAILED_OPEN :: string where
  "TXT_FAILED_OPEN =
     '' '' @ [CHR 0xEC, CHR 0x8B, CHR 0xA4, CHR 0xED, CHR 0x8C, CHR 0xA8] @ '' (''"

definition TXT_OK_AT :: string where
  "TXT_OK_AT =
     '' '' @ [CHR 0xEC, CHR 0x84, CHR 0xB1, CHR 0xEA, CHR 0xB3, CHR 0xB5] @ '' ''"

definition TXT_OK_SLASH :: string where
  "TXT_OK_SLASH =
     [CHR 0xEC, CHR 0x84, CHR 0xB1, CHR 0xEA, CHR 0xB3, CHR 0xB5] @ ''/''"

definition TXT_FAILED_END :: string where
  "TXT_FAILED_END =
     [CHR 0xEC, CHR 0x8B, CHR 0xA4, CHR 0xED, CHR 0x8C, CHR 0xA8] @ '']''"

definition TXT_DONE :: string where
  "TXT_DONE =
     [CHR 0xEC, CHR 0x99, CHR 0x84, CHR 0xEB, CHR 0xA3, CHR 0x8C] @ '': ''"

definition TXT_OK_OPEN :: string where
  "TXT_OK_OPEN =
     '' '' @ [CHR 0xEC, CHR 0x84, CHR 0xB1, CHR 0xEA, CHR 0xB3, CHR 0xB5] @ '' (''"

definition TXT_AVG :: string where
  "TXT_AVG =
     ''  '' @ [CHR 0xED, CHR 0x8F, CHR 0x89, CHR 0xEA, CHR 0xB7, CHR 0xA0] @ ''=''"

definition TXT_ERROR :: string where
  "TXT_ERROR =
     [CHR 0xEC, CHR 0x98, CHR 0xA4, CHR 0xEB, CHR 0xA5, CHR 0x98] @ '': ''"

definition TXT_COMPARE_START :: string where
  "TXT_COMPARE_START =
     '' '' @ [CHR 0xEB, CHR 0xB9, CHR 0x84, CHR 0xEA, CHR 0xB5, CHR 0x90] @ '' '' @ [CHR 0xEC,
      CHR 0x8B, CHR 0x9C, CHR 0xEC, CHR 0x9E, CHR 0x91] @ '': ''"

definition TXT_ROUNDS :: string where
  "TXT_ROUNDS =
     [CHR 0xEB, CHR 0x9D, CHR 0xBC, CHR 0xEC, CHR 0x9A, CHR 0xB4, CHR 0xEB, CHR 0x93, CHR 0x9C]"

definition TXT_NODE_WINS :: string where
  "TXT_NODE_WINS =
     ''Node '' @ [CHR 0xEC, CHR 0x8A, CHR 0xB9, CHR 0xEB, CHR 0xA6, CHR 0xAC]"

definition TXT_GO_WINS :: string where
  "TXT_GO_WINS =
     ''Go '' @ [CHR 0xEC, CHR 0x8A, CHR 0xB9, CHR 0xEB, CHR 0xA6, CHR 0xAC]"

definition TXT_TIE :: string where
  "TXT_TIE =
     [CHR 0xEB, CHR 0xAC, CHR 0xB4, CHR 0xEC, CHR 0x8A, CHR 0xB9, CHR 0xEB, CHR 0xB6, CHR 0x80]"

definition TXT_DONE_OPEN :: string where
  "TXT_DONE_OPEN =
     [CHR 0xEC, CHR 0x99, CHR 0x84, CHR 0xEB, CHR 0xA3, CHR 0x8C] @ '' (''"

definition TXT_MS_DASH :: string where
  "TXT_MS_DASH =
     ''ms) '' @ [CHR 0xE2, CHR 0x80, CHR 0x94] @ '' Node ''"

definition TXT_GO_ERRORS :: string where
  "TXT_GO_ERRORS =
     '' Go ('' @ [CHR 0xEC, CHR 0x98, CHR 0xA4, CHR 0xEB, CHR 0xA5, CHR 0x98] @ '' ''"

definition TXT_CASES_CLOSE :: string where
  "TXT_CASES_CLOSE =
     [CHR 0xEA, CHR 0xB1, CHR 0xB4] @ '')''"

definition TXT_NODE_AVG :: string where
  "TXT_NODE_AVG =
     ''  Node: '' @ [CHR 0xED, CHR 0x8F, CHR 0x89, CHR 0xEA, CHR 0xB7, CHR 0xA0] @ ''=''"

definition TXT_GO_AVG :: string where
  "TXT_GO_AVG =
     ''  Go:   '' @ [CHR 0xED, CHR 0x8F, CHR 0x89, CHR 0xEA, CHR 0xB7, CHR 0xA0] @ ''=''"

definition TXT_BAR_AVG :: string where
  "TXT_BAR_AVG =
     [CHR 0xED, CHR 0x8F, CHR 0x89, CHR 0xEA, CHR 0xB7, CHR 0xA0]"

definition TXT_BAR_MIN :: string where
  "TXT_BAR_MIN =
     [CHR 0xEC, CHR 0xB5, CHR 0x9C, CHR 0xEC, CHR 0x86, CHR 0x8C]"

definition TXT_BAR_MAX :: string where
  "TXT_BAR_MAX =
     [CHR 0xEC, CHR 0xB5, CHR 0x9C, CHR 0xEB, CHR 0x8C, CHR 0x80]"

definition TXT_PUBLISHING :: string where
  "TXT_PUBLISHING =
     [CHR 0xEB, CHR 0xB0, CHR 0x9C, CHR 0xED, CHR 0x96, CHR 0x89] @ '' '' @ [CHR 0xEC, CHR 0xA4,
      CHR 0x91] @ ''...''"

definition TXT_PUBLISH :: string where
  "TXT_PUBLISH =
     [CHR 0xEC, CHR 0xA3, CHR 0xBC, CHR 0xEB, CHR 0xAC, CHR 0xB8] @ '' '' @ [CHR 0xEB, CHR 0xB0,
      CHR 0x9C, CHR 0xED, CHR 0x96, CHR 0x89]"

definition TXT_ORDERS :: string where
  "TXT_ORDERS =
     [CHR 0xEC, CHR 0xA3, CHR 0xBC, CHR 0xEB, CHR 0xAC, CHR 0xB8] @ '' ''"

definition TXT_PUBLISHED :: string where
  "TXT_PUBLISHED =
     [CHR 0xEA, CHR 0xB1, CHR 0xB4] @ '' '' @ [CHR 0xEB, CHR 0xB0, CHR 0x9C, CHR 0xED, CHR 0x96,
      CHR 0x89] @ '' (''"

definition TXT_PUBLISH_FAILED_N :: string where
  "TXT_PUBLISH_FAILED_N =
     [CHR 0xEB, CHR 0xB0, CHR 0x9C, CHR 0xED, CHR 0x96, CHR 0x89] @ '' '' @ [CHR 0xEC, CHR 0x8B,
      CHR 0xA4, CHR 0xED, CHR 0x8C, CHR 0xA8] @ '' ''"

definition TXT_CASES_COLON :: string where
  "TXT_CASES_COLON =
     [CHR 0xEA, CHR 0xB1, CHR 0xB4] @ '': ''"

definition TXT_PUBLISH_FAILED :: string where
  "TXT_PUBLISH_FAILED =
     [CHR 0xEB, CHR 0xB0, CHR 0x9C, CHR 0xED, CHR 0x96, CHR 0x89] @ '' '' @ [CHR 0xEC, CHR 0x8B,
      CHR 0xA4, CHR 0xED, CHR 0x8C, CHR 0xA8] @ '': ''"

definition TXT_CONSUMER_PID :: string where
  "TXT_CONSUMER_PID =
     [CHR 0xEC, CHR 0xBB, CHR 0xA8, CHR 0xEC, CHR 0x8A, CHR 0x88, CHR 0xEB, CHR 0xA8, CHR 0xB8] @
      '' '' @ [CHR 0xEC, CHR 0x8B, CHR 0x9C, CHR 0xEC, CHR 0x9E, CHR 0x91] @ '' pid=''"

definition TXT_GROUP :: string where
  "TXT_GROUP =
     '' '' @ [CHR 0xEA, CHR 0xB7, CHR 0xB8, CHR 0xEB, CHR 0xA3, CHR 0xB9] @ ''=''"

definition TXT_INSTANCES :: string where
  "TXT_INSTANCES =
     '' '' @ [CHR 0xEC, CHR 0x9D, CHR 0xB8, CHR 0xEC, CHR 0x8A, CHR 0xA4, CHR 0xED, CHR 0x84,
      CHR 0xB4, CHR 0xEC, CHR 0x8A, CHR 0xA4] @ ''=''"

definition TXT_CONSUMER_FAILED :: string where
  "TXT_CONSUMER_FAILED =
     [CHR 0xEC, CHR 0xBB, CHR 0xA8, CHR 0xEC, CHR 0x8A, CHR 0x88, CHR 0xEB, CHR 0xA8, CHR 0xB8] @
      '' '' @ [CHR 0xEC, CHR 0x8B, CHR 0x9C, CHR 0xEC, CHR 0x9E, CHR 0x91] @ '' '' @ [CHR 0xEC,
      CHR 0x8B, CHR 0xA4, CHR 0xED, CHR 0x8C, CHR 0xA8] @ '': ''"

definition TXT_KILLED :: string where
  "TXT_KILLED =
     [CHR 0xEA, CHR 0xB0, CHR 0x95, CHR 0xEC, CHR 0xA0, CHR 0x9C] @ '' '' @ [CHR 0xEC, CHR 0xA2,
      CHR 0x85, CHR 0xEB, CHR 0xA3, CHR 0x8C]"

definition TXT_STOPPED :: string where
  "TXT_STOPPED =
     [CHR 0xEC, CHR 0xA0, CHR 0x95, CHR 0xEC, CHR 0x83, CHR 0x81] @ '' '' @ [CHR 0xEC, CHR 0xA2,
      CHR 0x85, CHR 0xEB, CHR 0xA3, CHR 0x8C]"

definition TXT_STOP_FAILED :: string where
  "TXT_STOP_FAILED =
     [CHR 0xEC, CHR 0xA2, CHR 0x85, CHR 0xEB, CHR 0xA3, CHR 0x8C] @ '' '' @ [CHR 0xEC, CHR 0x8B,
      CHR 0xA4, CHR 0xED, CHR 0x8C, CHR 0xA8] @ '': ''"

definition TXT_CONSUMER :: string where
  "TXT_CONSUMER =
     [CHR 0xEC, CHR 0xBB, CHR 0xA8, CHR 0xEC, CHR 0x8A, CHR 0x88, CHR 0xEB, CHR 0xA8, CHR 0xB8] @
      '' ''"

definition TXT_N_STOPPED :: string where
  "TXT_N_STOPPED =
     [CHR 0xEA, CHR 0xB0, CHR 0x9C] @ '' '' @ [CHR 0xEC, CHR 0xA0, CHR 0x95, CHR 0xEC, CHR 0x83,
      CHR 0x81] @ '' '' @ [CHR 0xEC, CHR 0xA2, CHR 0x85, CHR 0xEB, CHR 0xA3, CHR 0x8C]"

definition TXT_REWIND_DONE :: string where
  "TXT_REWIND_DONE =
     [CHR 0xEC, CHR 0x98, CHR 0xA4, CHR 0xED, CHR 0x94, CHR 0x84, CHR 0xEC, CHR 0x85, CHR 0x8B] @
      '' '' @ [CHR 0xEB, CHR 0x90, CHR 0x98, CHR 0xEA, CHR 0xB0, CHR 0x90, CHR 0xEA, CHR 0xB8,
      CHR 0xB0] @ '' '' @ [CHR 0xEC, CHR 0x99, CHR 0x84, CHR 0xEB, CHR 0xA3, CHR 0x8C] @ '' '' @
      [CHR 0xEA, CHR 0xB7, CHR 0xB8, CHR 0xEB, CHR 0xA3, CHR 0xB9] @ ''=''"

definition TXT_TOPIC :: string where
  "TXT_TOPIC =
     '' '' @ [CHR 0xED, CHR 0x86, CHR 0xA0, CHR 0xED, CHR 0x94, CHR 0xBD] @ ''=''"

definition TXT_ARROW :: string where
  "TXT_ARROW =
     '' '' @ [CHR 0xE2, CHR 0x86, CHR 0x92] @ '' ''"

definition TXT_REWIND_FAILED :: string where
  "TXT_REWIND_FAILED =
     [CHR 0xEB, CHR 0x90, CHR 0x98, CHR 0xEA, CHR 0xB0, CHR 0x90, CHR 0xEA, CHR 0xB8, CHR 0xB0] @
      '' '' @ [CHR 0xEC, CHR 0x8B, CHR 0xA4, CHR 0xED, CHR 0x8C, CHR 0xA8] @ '': ''"

definition TXT_CLEARED :: string where
  "TXT_CLEARED =
     [CHR 0xEC, CHR 0xA3, CHR 0xBC, CHR 0xEB, CHR 0xAC, CHR 0xB8, CHR 0xC2, CHR 0xB7, CHR 0xEC,
      CHR 0x9D, CHR 0xB4, CHR 0xEB, CHR 0xB2, CHR 0xA4, CHR 0xED, CHR 0x8A, CHR 0xB8] @ '' '' @
      [CHR 0xEA, CHR 0xB8, CHR 0xB0, CHR 0xEB, CHR 0xA1, CHR 0x9D, CHR 0xEC, CHR 0x9D, CHR 0x84] @
      '' '' @ [CHR 0xEB, CHR 0xB9, CHR 0x84, CHR 0xEC, CHR 0x9B, CHR 0xA0, CHR 0xEC, CHR 0x8A,
      CHR 0xB5, CHR 0xEB, CHR 0x8B, CHR 0x88, CHR 0xEB, CHR 0x8B, CHR 0xA4]"

definition TXT_CLEAR_FAILED :: string where
  "TXT_CLEAR_FAILED =
     [CHR 0xEC, CHR 0xB4, CHR 0x88, CHR 0xEA, CHR 0xB8, CHR 0xB0, CHR 0xED, CHR 0x99, CHR 0x94] @
      '' '' @ [CHR 0xEC, CHR 0x8B, CHR 0xA4, CHR 0xED, CHR 0x8C, CHR 0xA8] @ '': ''"

definition TXT_COMMIT_AFTER :: string where
  "TXT_COMMIT_AFTER =
     [CHR 0xEC, CHR 0xB2, CHR 0x98, CHR 0xEB, CHR 0xA6, CHR 0xAC, CHR 0xED, CHR 0x9B, CHR 0x84,
      CHR 0xEC, CHR 0xBB, CHR 0xA4, CHR 0xEB, CHR 0xB0, CHR 0x8B]"

definition TXT_COMMIT_BEFORE :: string where
  "TXT_COMMIT_BEFORE =
     [CHR 0xEC, CHR 0xB2, CHR 0x98, CHR 0xEB, CHR 0xA6, CHR 0xAC, CHR 0xEC, CHR 0xA0, CHR 0x84,
      CHR 0xEC, CHR 0xBB, CHR 0xA4, CHR 0xEB, CHR 0xB0, CHR 0x8B]"

definition TXT_DELAY :: string where
  "TXT_DELAY =
     [CHR 0xEC, CHR 0xA7, CHR 0x80, CHR 0xEC, CHR 0x97, CHR 0xB0]"

definition TXT_COMMIT_DELAY :: string where
  "TXT_COMMIT_DELAY =
     [CHR 0xEC, CHR 0xBB, CHR 0xA4, CHR 0xEB, CHR 0xB0, CHR 0x8B, CHR 0xEC, CHR 0xA7, CHR 0x80,
      CHR 0xEC, CHR 0x97, CHR 0xB0]"

definition TXT_CRASH_AFTER :: string where
  "TXT_CRASH_AFTER =
     [CHR 0xEA, CHR 0xB1, CHR 0xB4, CHR 0xED, CHR 0x9B, CHR 0x84, CHR 0xEC, CHR 0xA2, CHR 0x85,
      CHR 0xEB, CHR 0xA3, CHR 0x8C]"

definition TXT_FROM_START :: string where
  "TXT_FROM_START =
     [CHR 0xEC, CHR 0xB2, CHR 0x98, CHR 0xEC, CHR 0x9D, CHR 0x8C, CHR 0xEB, CHR 0xB6, CHR 0x80,
      CHR 0xED, CHR 0x84, CHR 0xB0]"

definition TXT_ALIVE :: string where
  "TXT_ALIVE =
     [CHR 0xEC, CHR 0x8B, CHR 0xA4, CHR 0xED, CHR 0x96, CHR 0x89] @ '' '' @ [CHR 0xEC, CHR 0xA4,
      CHR 0x91]"

definition TXT_EXITED :: string where
  "TXT_EXITED =
     [CHR 0xEC, CHR 0xA2, CHR 0x85, CHR 0xEB, CHR 0xA3, CHR 0x8C] @ '' (''"

definition TXT_REQUEST_FAILED :: string where
  "TXT_REQUEST_FAILED =
     [CHR 0xEC, CHR 0x9A, CHR 0x94, CHR 0xEC, CHR 0xB2, CHR 0xAD] @ '' '' @ [CHR 0xEC, CHR 0x8B,
      CHR 0xA4, CHR 0xED, CHR 0x8C, CHR 0xA8] @ '' (''"

definition TXT_ENGINE :: string where
  "TXT_ENGINE =
     [CHR 0xEC, CHR 0x97, CHR 0x94, CHR 0xEC, CHR 0xA7, CHR 0x84] @ '': ''"

definition TXT_HEAP :: string where
  "TXT_HEAP =
     [CHR 0xED, CHR 0x9E, CHR 0x99] @ '': ''"

definition TXT_ACTIVE :: string where
  "TXT_ACTIVE =
     [CHR 0xED, CHR 0x99, CHR 0x9C, CHR 0xEC, CHR 0x84, CHR 0xB1] @ '': ''"

definition TXT_PROCESSED :: string where
  "TXT_PROCESSED =
     [CHR 0xEC, CHR 0xB2, CHR 0x98, CHR 0xEB, CHR 0xA6, CHR 0xAC, CHR 0xEB, CHR 0x90, CHR 0xA8] @
      '': ''"

definition TXT_UPTIME :: string where
  "TXT_UPTIME =
     [CHR 0xEA, CHR 0xB0, CHR 0x80, CHR 0xEB, CHR 0x8F, CHR 0x99] @ '': ''"

definition TXT_SECONDS :: string where
  "TXT_SECONDS =
     [CHR 0xEC, CHR 0xB4, CHR 0x88]"

definition TXT_OFFLINE :: string where
  "TXT_OFFLINE =
     [CHR 0xEC, CHR 0x98, CHR 0xA4, CHR 0xED, CHR 0x94, CHR 0x84, CHR 0xEB, CHR 0x9D, CHR 0xBC,
      CHR 0xEC, CHR 0x9D, CHR 0xB8]"

definition TXT_SQLITE_QUERY :: string where
  "TXT_SQLITE_QUERY =
     ''SQLite '' @ [CHR 0xEC, CHR 0xBF, CHR 0xBC, CHR 0xEB, CHR 0xA6, CHR 0xAC]"

definition TXT_NO_TAB :: string where
  "TXT_NO_TAB =
     [CHR 0xEA, CHR 0xB7, CHR 0xB8, CHR 0xEB, CHR 0x9F, CHR 0xB0] @ '' '' @ [CHR 0xED, CHR 0x83,
      CHR 0xAD, CHR 0xEC, CHR 0x9D, CHR 0xB4] @ '' '' @ [CHR 0xEC, CHR 0x97, CHR 0x86, CHR 0xEC,
      CHR 0x8A, CHR 0xB5, CHR 0xEB, CHR 0x8B, CHR 0x88, CHR 0xEB, CHR 0x8B, CHR 0xA4] @ '': ''"

definition TXT_PER_SECOND :: string where
  "TXT_PER_SECOND =
     [CHR 0xEA, CHR 0xB1, CHR 0xB4] @ ''/'' @ [CHR 0xEC, CHR 0xB4, CHR 0x88]"

definition TXT_NO_PARTITION :: string where
  "TXT_NO_PARTITION =
     ''('' @ [CHR 0xED, CHR 0x95, CHR 0xA0, CHR 0xEB, CHR 0x8B, CHR 0xB9, CHR 0xEB, CHR 0x90,
      CHR 0x9C] @ '' '' @ [CHR 0xED, CHR 0x8C, CHR 0x8C, CHR 0xED, CHR 0x8B, CHR 0xB0, CHR 0xEC,
      CHR 0x85, CHR 0x98] @ '' '' @ [CHR 0xEC, CHR 0x97, CHR 0x86, CHR 0xEC, CHR 0x9D, CHR 0x8C] @
      '')''"

definition TXT_LEFT :: string where
  "TXT_LEFT =
     '' ['' @ [CHR 0xEC, CHR 0xBB, CHR 0xA4, CHR 0xEB, CHR 0xB0, CHR 0x8B] @ '' '' @ [CHR 0xEC,
      CHR 0x97, CHR 0x86, CHR 0xEC, CHR 0x9D, CHR 0xB4] @ '' '' @ [CHR 0xEB, CHR 0xB9, CHR 0xA0,
      CHR 0xEC, CHR 0xA7, CHR 0x90] @ '']''"

definition TXT_DID :: string where
  "TXT_DID =
     '' '' @ [CHR 0xEC, CHR 0xB2, CHR 0x98, CHR 0xEB, CHR 0xA6, CHR 0xAC] @ ''=''"

definition TXT_MEAN :: string where
  "TXT_MEAN =
     [CHR 0xED, CHR 0x8F, CHR 0x89, CHR 0xEA, CHR 0xB7, CHR 0xA0] @ ''=''"

definition TXT_TOTAL :: string where
  "TXT_TOTAL =
     ''[consumer] '' @ [CHR 0xEB, CHR 0x88, CHR 0x84, CHR 0xEC, CHR 0xA0, CHR 0x81] @ '' '' @
      [CHR 0xEC, CHR 0xB2, CHR 0x98, CHR 0xEB, CHR 0xA6, CHR 0xAC] @ '' ''"

definition TXT_FAILS :: string where
  "TXT_FAILS =
     [CHR 0xEA, CHR 0xB1, CHR 0xB4] @ '' '' @ [CHR 0xEC, CHR 0x8B, CHR 0xA4, CHR 0xED, CHR 0x8C,
      CHR 0xA8] @ '' ''"

definition TXT_HOW_CPU :: string where
  "TXT_HOW_CPU =
     [CHR 0xEB, CHR 0xA7, CHR 0xA4] @ '' '' @ [CHR 0xEB, CHR 0x9D, CHR 0xBC, CHR 0xEC, CHR 0x9A,
      CHR 0xB4, CHR 0xEB, CHR 0x93, CHR 0x9C, CHR 0xEB, CHR 0xA7, CHR 0x88, CHR 0xEB, CHR 0x8B,
      CHR 0xA4] @ '' '' @ [CHR 0xEB, CHR 0x8F, CHR 0x99, CHR 0xEC, CHR 0x9D, CHR 0xBC, CHR 0xED,
      CHR 0x95, CHR 0x9C] @ ''<br><strong>findPrimes(max)</strong> '' @ [CHR 0xEC, CHR 0x9E,
      CHR 0x91, CHR 0xEC, CHR 0x97, CHR 0x85, CHR 0xEC, CHR 0x9D, CHR 0x84] @ ''<br>'' @
      [CHR 0xEC, CHR 0x96, CHR 0x91, CHR 0xEC, CHR 0xAA, CHR 0xBD, CHR 0xEC, CHR 0x97, CHR 0x90,
      CHR 0xEC, CHR 0x84, CHR 0x9C] @ '' '' @ [CHR 0xEC, CHR 0x8B, CHR 0xA4, CHR 0xED, CHR 0x96,
      CHR 0x89, CHR 0xED, CHR 0x95, CHR 0xA9, CHR 0xEB, CHR 0x8B, CHR 0x88, CHR 0xEB, CHR 0x8B,
      CHR 0xA4] @
      '':<br><br><span style=\"color:var(--accent-light);\">Node</span> = Worker Thread<br><span style=\"color:var(--green);\">Go</span> = gRPC + Goroutine<br><br>''
      @ [CHR 0xEB, CHR 0x9D, CHR 0xBC, CHR 0xEC, CHR 0x9A, CHR 0xB4, CHR 0xEB, CHR 0x93, CHR 0x9C,
      CHR 0xEB, CHR 0xB3, CHR 0x84] @ '' '' @ [CHR 0xEC, CHR 0x88, CHR 0x9C, CHR 0xEC, CHR 0xB0,
      CHR 0xA8] @ '' '' @ [CHR 0xEC, CHR 0x8B, CHR 0xA4, CHR 0xED, CHR 0x96, CHR 0x89] @ '',<br>''
      @ [CHR 0xEC, CHR 0x8B, CHR 0xA4, CHR 0xEC, CHR 0xA0, CHR 0x9C] @ '' '' @ [CHR 0xEC,
      CHR 0x86, CHR 0x8C, CHR 0xEC, CHR 0x9A, CHR 0x94] @ '' '' @ [CHR 0xEC, CHR 0x8B, CHR 0x9C,
      CHR 0xEA, CHR 0xB0, CHR 0x84, CHR 0xEC, CHR 0x9D, CHR 0x84] @ '' '' @ [CHR 0xEC, CHR 0xB8,
      CHR 0xA1, CHR 0xEC, CHR 0xA0, CHR 0x95, CHR 0xED, CHR 0x95, CHR 0xA9, CHR 0xEB, CHR 0x8B,
      CHR 0x88, CHR 0xEB, CHR 0x8B, CHR 0xA4] @ ''.''"

definition TXT_HOW_IO :: string where
  "TXT_HOW_IO =
     [CHR 0xEB, CHR 0xA7, CHR 0xA4] @ '' '' @ [CHR 0xEB, CHR 0x9D, CHR 0xBC, CHR 0xEC, CHR 0x9A,
      CHR 0xB4, CHR 0xEB, CHR 0x93, CHR 0x9C, CHR 0xEB, CHR 0xA7, CHR 0x88, CHR 0xEB, CHR 0x8B,
      CHR 0xA4] @ '' '' @ [CHR 0xEB, CHR 0x8F, CHR 0x99, CHR 0xEC, CHR 0x9D, CHR 0xBC, CHR 0xED,
      CHR 0x95, CHR 0x9C] @ ''<br><strong>asyncIO(delay)</strong> '' @ [CHR 0xEC, CHR 0x9E,
      CHR 0x91, CHR 0xEC, CHR 0x97, CHR 0x85, CHR 0xEC, CHR 0x9D, CHR 0x84] @ ''<br>'' @
      [CHR 0xEC, CHR 0x96, CHR 0x91, CHR 0xEC, CHR 0xAA, CHR 0xBD, CHR 0xEC, CHR 0x97, CHR 0x90,
      CHR 0xEC, CHR 0x84, CHR 0x9C] @ '' '' @ [CHR 0xEC, CHR 0x8B, CHR 0xA4, CHR 0xED, CHR 0x96,
      CHR 0x89, CHR 0xED, CHR 0x95, CHR 0xA9, CHR 0xEB, CHR 0x8B, CHR 0x88, CHR 0xEB, CHR 0x8B,
      CHR 0xA4] @
      '':<br><br><span style=\"color:var(--accent-light);\">Node</span> = setTimeout ('' @
      [CHR 0xEC, CHR 0x9D, CHR 0xB4, CHR 0xEB, CHR 0xB2, CHR 0xA4, CHR 0xED, CHR 0x8A, CHR 0xB8] @
      '' '' @ [CHR 0xEB, CHR 0xA3, CHR 0xA8, CHR 0xED, CHR 0x94, CHR 0x84] @
      '')<br><span style=\"color:var(--green);\">Go</span> = gRPC + time.After<br><br>Node'' @
      [CHR 0xEB, CHR 0x8A, CHR 0x94] @ '' '' @ [CHR 0xEB, CHR 0xA1, CHR 0x9C, CHR 0xEC, CHR 0xBB,
      CHR 0xAC] @ '' '' @ [CHR 0xEC, CHR 0x9D, CHR 0xB4, CHR 0xEB, CHR 0xB2, CHR 0xA4, CHR 0xED,
      CHR 0x8A, CHR 0xB8] @ '' '' @ [CHR 0xEB, CHR 0xA3, CHR 0xA8, CHR 0xED, CHR 0x94, CHR 0x84] @
      '',<br>Go'' @ [CHR 0xEB, CHR 0x8A, CHR 0x94] @ '' gRPC '' @ [CHR 0xEB, CHR 0x84, CHR 0xA4,
      CHR 0xED, CHR 0x8A, CHR 0xB8, CHR 0xEC, CHR 0x9B, CHR 0x8C, CHR 0xED, CHR 0x81, CHR 0xAC] @
      '' '' @ [CHR 0xEA, CHR 0xB2, CHR 0xBD, CHR 0xEC, CHR 0x9C, CHR 0xA0] @ ''.<br>I/O '' @
      [CHR 0xEC, CHR 0x98, CHR 0xA4, CHR 0xEB, CHR 0xB2, CHR 0x84, CHR 0xED, CHR 0x97, CHR 0xA4,
      CHR 0xEB, CHR 0x93, CHR 0x9C] @ '' '' @ [CHR 0xEC, CHR 0xB0, CHR 0xA8, CHR 0xEC, CHR 0x9D,
      CHR 0xB4, CHR 0xEB, CHR 0xA5, CHR 0xBC] @ '' '' @ [CHR 0xEC, CHR 0xB8, CHR 0xA1, CHR 0xEC,
      CHR 0xA0, CHR 0x95, CHR 0xED, CHR 0x95, CHR 0xA9, CHR 0xEB, CHR 0x8B, CHR 0x88, CHR 0xEB,
      CHR 0x8B, CHR 0xA4] @ ''.''"

definition TXT_QUEUE_LENGTH :: string where
  "TXT_QUEUE_LENGTH =
     [CHR 0xED, CHR 0x81, CHR 0x90] @ '' '' @ [CHR 0xEA, CHR 0xB8, CHR 0xB8, CHR 0xEC, CHR 0x9D,
      CHR 0xB4]"

definition TXT_ACTIVE_REQUESTS :: string where
  "TXT_ACTIVE_REQUESTS =
     [CHR 0xED, CHR 0x99, CHR 0x9C, CHR 0xEC, CHR 0x84, CHR 0xB1] @ '' '' @ [CHR 0xEC, CHR 0x9A,
      CHR 0x94, CHR 0xEC, CHR 0xB2, CHR 0xAD]"

definition TXT_LAGGING :: string where
  "TXT_LAGGING =
     [CHR 0xEB, CHR 0xB0, CHR 0x80, CHR 0xEB, CHR 0xA6, CHR 0xB0] @ '' '' @ [CHR 0xEA, CHR 0xB1,
      CHR 0xB4, CHR 0xEC, CHR 0x88, CHR 0x98]"

definition TXT_CONFIG_GROUP :: string where
  "TXT_CONFIG_GROUP =
     [CHR 0xEA, CHR 0xB7, CHR 0xB8, CHR 0xEB, CHR 0xA3, CHR 0xB9] @ ''=''"

definition TXT_CONFIG_COMMIT :: string where
  "TXT_CONFIG_COMMIT =
     '' '' @ [CHR 0xEC, CHR 0xBB, CHR 0xA4, CHR 0xEB, CHR 0xB0, CHR 0x8B] @ ''=''"

end
