(* ===== verification/Dashboard.thy ===== *)
theory Dashboard
  imports EventStream Texts
begin

text \<open>
  The browser page of \<open>public/\<close>: the state that the scripts share, \<open>common.js\<close> and the load-test tab
  \<open>perf-tab.js\<close>. Elements are found by their id, as \<open>index.html\<close> has them; an element keeps what the
  scripts set of it, and a chart keeps its labels and data series. The clock in front of a log line
  and the drawing of the charts are not modelled. Messages are arbitrary JSON values: what a handler
  changes before it throws on a value of the wrong shape stays.
\<close>

section \<open>The page\<close>

record Chart =
  ch_kind :: string
  ch_series :: "string list"
  ch_labels :: "jsval list"
  ch_data :: "jsval list list"

record LogLine =
  ln_class :: string
  ln_msg :: string

record Page =
  el_text :: "string \<Rightarrow> string"
  el_class :: "string \<Rightarrow> string list"
  el_display :: "string \<Rightarrow> string"
  el_width :: "string \<Rightarrow> string"
  el_disabled :: "string \<Rightarrow> bool"
  el_rows :: "string \<Rightarrow> string list"
  el_log :: "string \<Rightarrow> LogLine list"
  charts :: "string \<Rightarrow> Chart"
  isRunning :: bool
  selectedType :: string
  selectedCmpType :: string
  liveLatencies :: "jsval list"
  resourcePollInterval :: "nat option"
  kfPollTimer :: "nat option"
  kfLagHistory :: "jsval list"
  activeTab :: string
  liveTimers :: "nat list"
  nextTimer :: nat

definition set_text :: "string \<Rightarrow> string \<Rightarrow> Page \<Rightarrow> Page" where
  "set_text i s p = p\<lparr>el_text := (el_text p)(i := s)\<rparr>"

definition set_class :: "string \<Rightarrow> string list \<Rightarrow> Page \<Rightarrow> Page" where
  "set_class i cs p = p\<lparr>el_class := (el_class p)(i := cs)\<rparr>"

definition add_class :: "string \<Rightarrow> string \<Rightarrow> Page \<Rightarrow> Page" where
  "add_class i c p = set_class i (if c \<in> set (el_class p i) then el_class p i else el_class p i @ [c]) p"

definition remove_class :: "string \<Rightarrow> string \<Rightarrow> Page \<Rightarrow> Page" where
  "remove_class i c p = set_class i (filter (\<lambda>x. x \<noteq> c) (el_class p i)) p"

definition set_display :: "string \<Rightarrow> string \<Rightarrow> Page \<Rightarrow> Page" where
  "set_display i s p = p\<lparr>el_display := (el_display p)(i := s)\<rparr>"

definition set_disabled :: "string \<Rightarrow> bool \<Rightarrow> Page \<Rightarrow> Page" where
  "set_disabled i b p = p\<lparr>el_disabled := (el_disabled p)(i := b)\<rparr>"

definition put_chart :: "string \<Rightarrow> Chart \<Rightarrow> Page \<Rightarrow> Page" where
  "put_chart i c p = p\<lparr>charts := (charts p)(i := c)\<rparr>"

text \<open>\<open>hb.insertBefore(row, hb.firstChild)\<close>.\<close>

definition insert_row :: "string \<Rightarrow> string \<Rightarrow> Page \<Rightarrow> Page" where
  "insert_row i row p = p\<lparr>el_rows := (el_rows p)(i := row # el_rows p i)\<rparr>"

definition setInterval :: "Page \<Rightarrow> nat \<times> Page" where
  "setInterval p = (nextTimer p, p\<lparr>liveTimers := liveTimers p @ [nextTimer p], nextTimer := nextTimer p + 1\<rparr>)"

definition clearInterval :: "nat \<Rightarrow> Page \<Rightarrow> Page" where
  "clearInterval h p = p\<lparr>liveTimers := filter (\<lambda>x. x \<noteq> h) (liveTimers p)\<rparr>"

text \<open>The page once its scripts have run: the charts of \<open>initPerfCharts\<close>, \<open>initCompareCharts\<close> and
  \<open>initKafkaCharts\<close>, the tab that \<open>index.html\<close> shows, and the timer of \<open>fetchServerInfo\<close>. Elements that
  no script has set yet are empty.\<close>

definition new_chart :: "string \<Rightarrow> string list \<Rightarrow> Chart" where
  "new_chart kind series = \<lparr>ch_kind = kind, ch_series = series, ch_labels = [], ch_data = map (\<lambda>_. []) series\<rparr>"

definition initPerfCharts :: "Page \<Rightarrow> Page" where
  "initPerfCharts =
     put_chart ''queueChart'' (new_chart ''line'' [TXT_QUEUE_LENGTH, TXT_ACTIVE_REQUESTS]) \<circ>
     put_chart ''memoryChart'' (new_chart ''line'' [''Heap Used'', ''RSS'']) \<circ>
     put_chart ''histogramChart'' (new_chart ''bar'' [[]]) \<circ>
     put_chart ''latencyChart'' (new_chart ''line'' [[]])"

definition initCompareCharts :: "Page \<Rightarrow> Page" where
  "initCompareCharts =
     put_chart ''cmpBarChart'' ((new_chart ''bar'' [''Node'', ''Go''])
       \<lparr>ch_labels := [Str TXT_BAR_AVG, Str ''P50'', Str ''P95'', Str ''P99'', Str TXT_BAR_MIN, Str TXT_BAR_MAX],
        ch_data := [replicate 6 (num_val 0), replicate 6 (num_val 0)]\<rparr>) \<circ>
     put_chart ''cmpLineChart'' (new_chart ''line'' [''Node'', ''Go''])"

definition initKafkaCharts :: "Page \<Rightarrow> Page" where
  "initKafkaCharts =
     put_chart ''kfPartitionChart'' (new_chart ''bar'' [TXT_LAGGING]) \<circ>
     put_chart ''kfLagChart'' (new_chart ''line'' [TXT_LAGGING])"

definition SERVER_INFO_TIMER :: nat where
  "SERVER_INFO_TIMER = 1"

definition blank_page :: Page where
  "blank_page =
     \<lparr>el_text = (\<lambda>_. []), el_class = (\<lambda>_. []), el_display = (\<lambda>_. []), el_width = (\<lambda>_. []), el_disabled = (\<lambda>_. False),
      el_rows = (\<lambda>_. []), el_log = (\<lambda>_. []), charts = (\<lambda>_. new_chart [] []), isRunning = False, selectedType = ''cpu'',
      selectedCmpType = ''cpu'', liveLatencies = [], resourcePollInterval = None, kfPollTimer = None, kfLagHistory = [],
      activeTab = ''perf'', liveTimers = [SERVER_INFO_TIMER], nextTimer = SERVER_INFO_TIMER + 1\<rparr>"

definition new_page :: Page where
  "new_page = initKafkaCharts (initCompareCharts (initPerfCharts blank_page))"

lemmas start_page = new_page_def initKafkaCharts_def initCompareCharts_def initPerfCharts_def put_chart_def blank_page_def

section \<open>Charts\<close>

definition clear_chart :: "Chart \<Rightarrow> Chart" where
  "clear_chart c = c\<lparr>ch_labels := [], ch_data := map (\<lambda>_. []) (ch_data c)\<rparr>"

definition fill_chart :: "jsval list \<Rightarrow> jsval list list \<Rightarrow> Chart \<Rightarrow> Chart" where
  "fill_chart ls ds c = c\<lparr>ch_labels := ls, ch_data := ds\<rparr>"

text \<open>One point: a label and a value for every data series; beyond \<open>cap\<close> labels the oldest point goes.\<close>

definition push_point :: "jsval \<Rightarrow> jsval list \<Rightarrow> Chart \<Rightarrow> Chart" where
  "push_point label vs c = c\<lparr>ch_labels := ch_labels c @ [label], ch_data := map2 (\<lambda>d v. d @ [v]) (ch_data c) vs\<rparr>"

definition shift_point :: "nat \<Rightarrow> Chart \<Rightarrow> Chart" where
  "shift_point cap c =
     (if cap < length (ch_labels c) then c\<lparr>ch_labels := tl (ch_labels c), ch_data := map tl (ch_data c)\<rparr> else c)"

section \<open>\<open>common.js\<close>\<close>

definition logTo :: "string \<Rightarrow> string \<Rightarrow> string \<Rightarrow> Page \<Rightarrow> Page" where
  "logTo areaId msg cls p =
     p\<lparr>el_log := (el_log p)(areaId := el_log p areaId @ [\<lparr>ln_class = ''log-line '' @ cls, ln_msg = msg\<rparr>])\<rparr>"

definition formatMs :: "jsval \<Rightarrow> string" where
  "formatMs v = (if nullish v then TXT_NOT_MEASURED else val_text v @ ''ms'')"

definition unit_span :: "string \<Rightarrow> string" where
  "unit_span s = ''<span class=\"unit\">'' @ s @ ''</span>''"

definition formatStatValue :: "jsval \<Rightarrow> string \<Rightarrow> string" where
  "formatStatValue v unit = (if nullish v then unit_span TXT_NOT_MEASURED else val_text v @ unit_span unit)"

definition progress_pct :: "jsval \<Rightarrow> jsval \<Rightarrow> jsnum" where
  "progress_pct current whole = num_round (num_mul (num_div (js_number current) (js_number whole)) (Fin 100))"

definition updateProgressBar :: "string \<Rightarrow> string \<Rightarrow> string \<Rightarrow> jsval \<Rightarrow> jsval \<Rightarrow> Page \<Rightarrow> Page" where
  "updateProgressBar fillId labelId pctId current whole p =
     (let pct = number_text (progress_pct current whole) @ ''%''
      in set_text pctId pct
           (set_text labelId (val_text current @ '' / '' @ val_text whole)
              (p\<lparr>el_width := (el_width p)(fillId := pct)\<rparr>)))"

text \<open>\<open>Math.ceil(Math.sqrt(n))\<close>.\<close>

definition ceil_sqrt :: "nat \<Rightarrow> nat" where
  "ceil_sqrt n = length (takeWhile (\<lambda>k. k * k < n) [0..<n])"

definition bucket_count :: "nat \<Rightarrow> nat" where
  "bucket_count n = min 20 (max 5 (ceil_sqrt n))"

definition in_bucket :: "rat \<Rightarrow> rat \<Rightarrow> nat \<Rightarrow> nat \<Rightarrow> rat \<Rightarrow> bool" where
  "in_bucket mn step bc i v =
     (let lo = mn + of_nat i * step in lo \<le> v \<and> (if i = bc - 1 then v \<le> lo + step else v < lo + step))"

definition buildHistogram :: "rat list \<Rightarrow> Chart \<Rightarrow> Chart" where
  "buildHistogram durations c =
     (if durations = [] then c
      else let vals = sort durations; mn = vals ! 0; mx = vals ! (length vals - 1); bc = bucket_count (length vals);
               step = max (1 / 10) ((mx - mn) / of_nat bc)
           in c\<lparr>ch_labels := map (\<lambda>i. Str (to_fixed 1 (mn + of_nat i * step))) [0..<bc],
               ch_data := (ch_data c)[0 := map (\<lambda>i. nat_val (length (filter (in_bucket mn step bc i) vals))) [0..<bc]]\<rparr>)"

section \<open>\<open>perf-tab.js\<close>\<close>

definition MAX_RESOURCE_POINTS :: nat where
  "MAX_RESOURCE_POINTS = 60"

definition startResourcePolling :: "Page \<Rightarrow> Page" where
  "startResourcePolling p =
     (if resourcePollInterval p \<noteq> None then p
      else let p = put_chart ''queueChart'' (clear_chart (charts p ''queueChart''))
                     (put_chart ''memoryChart'' (clear_chart (charts p ''memoryChart'')) p);
               (h, p) = setInterval p
           in p\<lparr>resourcePollInterval := Some h\<rparr>)"

definition stopResourcePolling :: "Page \<Rightarrow> Page" where
  "stopResourcePolling p =
     (case resourcePollInterval p of None \<Rightarrow> p | Some h \<Rightarrow> (clearInterval h p)\<lparr>resourcePollInterval := None\<rparr>)"

text \<open>The reply to a poll of \<open>/queue-stats\<close>, with the label \<open>ts\<close> of its time; \<open>None\<close> when the request
  fails. The label of the memory chart is pushed before the reply is read.\<close>

definition onResourceStats :: "jsval \<Rightarrow> jsval option \<Rightarrow> Page \<Rightarrow> Page" where
  "onResourceStats ts reply p =
     (case reply of
        None \<Rightarrow> p
      | Some stats \<Rightarrow>
          let m = charts p ''memoryChart''; labelled = put_chart ''memoryChart'' (m\<lparr>ch_labels := ch_labels m @ [ts]\<rparr>) p in
          case read_prop stats ''memory'' of
            None \<Rightarrow> labelled
          | Some mem \<Rightarrow>
              (case (read_prop mem ''heapUsed'', read_prop mem ''rss'') of
                 (Some heap, Some rss) \<Rightarrow>
                   let field = (\<lambda>k. case read_prop stats k of Some v \<Rightarrow> js_or v (num_val 0) | None \<Rightarrow> num_val 0);
                       p = put_chart ''memoryChart'' (shift_point MAX_RESOURCE_POINTS (push_point ts [heap, rss] m)) p;
                       q = charts p ''queueChart'';
                       p = put_chart ''queueChart''
                             (shift_point MAX_RESOURCE_POINTS
                                (push_point ts [field ''totalQueueLength'', field ''activeRequests''] q)) p
                   in set_text ''statProcessed'' (val_text (field ''totalProcessed''))
                        (set_text ''statTimeout'' (val_text (field ''totalTimeout''))
                           (set_text ''statRejected'' (val_text (field ''totalRejected'')) p))
               | _ \<Rightarrow> labelled))"

text \<open>A click on a type button. The class of the buttons follows \<open>selectedType\<close>.\<close>

definition selectType :: "string \<Rightarrow> Page \<Rightarrow> Page" where
  "selectType type p =
     (if isRunning p then p
      else set_display ''delayRow'' (if type = ''io'' then ''flex'' else ''none'')
             (set_display ''iterationsRow'' (if type = ''cpu'' then ''flex'' else ''none'') (p\<lparr>selectedType := type\<rparr>)))"

text \<open>\<open>parseInt(value) || preset\<close>, for an input below the range of doubles.\<close>

definition int_input :: "string \<Rightarrow> int \<Rightarrow> int" where
  "int_input s preset = (case parse_int s of Some i \<Rightarrow> if i = 0 then preset else i | None \<Rightarrow> preset)"

definition press_button :: "string \<Rightarrow> Page \<Rightarrow> Page" where
  "press_button btn p = set_disabled btn True (add_class btn ''running'' (set_text btn TXT_RUNNING p))"

definition release_button :: "string \<Rightarrow> string \<Rightarrow> Page \<Rightarrow> Page" where
  "release_button btn label p = set_disabled btn False (remove_class btn ''running'' (set_text btn label p))"

text \<open>\<open>startTest\<close> up to its request: the page, and the body of the request when one is sent.\<close>

definition startTest :: "string \<Rightarrow> string \<Rightarrow> string \<Rightarrow> Page \<Rightarrow> Page \<times> jsobj option" where
  "startTest paramCount paramIterations paramDelay p =
     (if isRunning p then (p, None)
      else let p = press_button ''runBtn'' (p\<lparr>isRunning := True, liveLatencies := []\<rparr>);
               p = updateProgressBar ''progressFill'' ''progressLabel'' ''progressPercent'' (num_val 0) (num_val 1)
                     (set_display ''progressSection'' ''block'' p);
               p = put_chart ''histogramChart'' (clear_chart (charts p ''histogramChart''))
                     (put_chart ''latencyChart'' (clear_chart (charts p ''latencyChart'')) p);
               p = startResourcePolling p;
               n = int_input paramCount 50
           in (logTo ''logArea'' (to_upper (selectedType p) @ TXT_TEST_START @ show_int n @ TXT_CASES) ''log-info'' p,
               Some [(''type'', Str (selectedType p)), (''count'', int_val n),
                     (''iterations'', int_val (int_input paramIterations 1000)),
                     (''delayMs'', int_val (int_input paramDelay 100))]))"

definition get :: "jsval \<Rightarrow> string \<Rightarrow> jsval" where
  "get msg k = (case read_prop msg k of Some v \<Rightarrow> v | None \<Rightarrow> Undefined)"

text \<open>\<open>msg.index % Math.max(1, Math.floor(msg.total / share)) === 0\<close>.\<close>

definition at_share :: "rat \<Rightarrow> jsval \<Rightarrow> bool" where
  "at_share share msg =
     (num_rem (js_number (get msg ''index''))
        (num_max (Fin 1) (num_floor (num_div (js_number (get msg ''total'')) (Fin share)))) = Fin 0)"

definition run_progress :: "jsval \<Rightarrow> Page \<Rightarrow> Page" where
  "run_progress msg p =
     (let idx = get msg ''index''; ms = get msg ''ms'';
          p = updateProgressBar ''progressFill'' ''progressLabel'' ''progressPercent'' (js_add idx (num_val 1)) (get msg ''total'') p;
          p = p\<lparr>liveLatencies := liveLatencies p @ [ms]\<rparr>;
          p = put_chart ''latencyChart'' (shift_point 500 (push_point idx [ms] (charts p ''latencyChart''))) p
      in if \<not> truthy (get msg ''ok'')
         then logTo ''logArea'' (''#'' @ val_text idx @ TXT_FAILED_OPEN @ val_text ms @ ''ms)'') ''log-fail'' p
         else if at_share 20 msg
         then logTo ''logArea''
                (''#'' @ val_text idx @ TXT_OK_AT @ val_text ms @ ''ms  ['' @ val_text (get msg ''fulfilled'') @ TXT_OK_SLASH @
                 val_text (get msg ''rejected'') @ TXT_FAILED_END) ''log-ok'' p
         else p)"

definition run_rps :: "jsval \<Rightarrow> jsnum" where
  "run_rps msg =
     (if js_greater (get msg ''totalMs'') (num_val 0)
      then num_div (num_round (num_mul (num_mul (num_div (js_number (get msg ''fulfilled'')) (js_number (get msg ''totalMs'')))
                                          (Fin 1000)) (Fin 10))) (Fin 10)
      else Fin 0)"

definition run_success :: "jsval \<Rightarrow> jsnum" where
  "run_success msg =
     (if js_greater (get msg ''total'') (num_val 0)
      then num_div (num_round (num_mul (num_div (js_number (get msg ''fulfilled'')) (js_number (get msg ''total''))) (Fin 1000)))
             (Fin 10)
      else Fin 0)"

text \<open>The finite numbers among the latencies; \<open>None\<close> when one is something else.\<close>

definition finite_latencies :: "jsval list \<Rightarrow> rat list option" where
  "finite_latencies vs = those (map (\<lambda>v. case v of Num (Fin r) \<Rightarrow> Some r | _ \<Rightarrow> None) vs)"

definition badge_class :: "string \<Rightarrow> string" where
  "badge_class type =
     (if starts_with type ''db'' then ''badge-db''
      else if type = ''mixed'' then ''badge-mixed''
      else if type = ''io'' then ''badge-io'' else ''badge-cpu'')"

definition cell :: "string \<Rightarrow> string" where
  "cell s = ''<td>'' @ s @ ''</td>''"

definition run_row :: "string \<Rightarrow> jsval \<Rightarrow> string" where
  "run_row type msg =
     concat [''<td><span class=\"badge '', badge_class type, ''\">'', to_upper type, ''</span></td>'',
             cell (val_text (get msg ''total'')), cell (formatMs (get msg ''avgMs'')), cell (formatMs (get msg ''p50'')),
             cell (formatMs (get msg ''p95'')), cell (formatMs (get msg ''p99'')), cell (number_text (run_success msg) @ ''%''),
             cell (val_text (get msg ''totalMs'') @ ''ms''), cell (number_text (run_rps msg))]"

definition figures_text :: "jsval \<Rightarrow> string" where
  "figures_text m =
     concat [formatMs (get m ''avgMs''), ''  p50='', formatMs (get m ''p50''), ''  p95='', formatMs (get m ''p95''),
             ''  p99='', formatMs (get m ''p99'')]"

definition run_done :: "jsval \<Rightarrow> Page \<Rightarrow> Page" where
  "run_done msg p =
     (let p = set_text ''statP95'' (formatStatValue (get msg ''p95'') ''ms'')
                (set_text ''statAvg'' (formatStatValue (get msg ''avgMs'') ''ms'') p);
          p = set_text ''statSuccess'' (number_text (run_success msg) @ unit_span ''%'')
                (set_text ''statRps'' (number_text (run_rps msg) @ unit_span ''req/s'') p);
          p = (case finite_latencies (liveLatencies p) of
                 Some ds \<Rightarrow> put_chart ''histogramChart'' (buildHistogram ds (charts p ''histogramChart'')) p
               | None \<Rightarrow> p);
          p = set_display ''historyEmpty'' ''none'' p
      in case get msg ''type'' of
           Str type \<Rightarrow>
             let p = logTo ''logArea'' [] [] (insert_row ''historyBody'' (run_row type msg) p);
                 p = logTo ''logArea''
                       (TXT_DONE @ val_text (get msg ''fulfilled'') @ ''/'' @ val_text (get msg ''total'') @ TXT_OK_OPEN @
                        val_text (get msg ''totalMs'') @ ''ms)'') ''log-info'' p
             in logTo ''logArea'' (TXT_AVG @ figures_text msg) ''log-warn'' p
         | _ \<Rightarrow> p)"

text \<open>The handler that \<open>startTest\<close> gives to \<open>readSseStream\<close>. A message that is null throws at once.\<close>

definition onRunMessage :: "jsval \<Rightarrow> Page \<Rightarrow> Page" where
  "onRunMessage msg p =
     (case read_prop msg ''event'' of
        None \<Rightarrow> p
      | Some e \<Rightarrow>
          if e = Str ''start''
          then logTo ''logArea'' (TXT_TEST_STARTED @ val_text (get msg ''type'') @ '' x '' @ val_text (get msg ''count'')) ''log-info'' p
          else if e = Str ''progress'' then run_progress msg p
          else if e = Str ''done'' then run_done msg p
          else p)"

text \<open>\<open>startTest\<close> after its stream, which ended or failed with an error.\<close>

definition endTest :: "string option \<Rightarrow> Page \<Rightarrow> Page" where
  "endTest failure p =
     (let p = (case failure of None \<Rightarrow> p | Some m \<Rightarrow> logTo ''logArea'' (TXT_ERROR @ m) ''log-fail'' p);
          p = stopResourcePolling p
      in release_button ''runBtn'' TXT_RUN_TEST (p\<lparr>isRunning := False\<rparr>))"

text \<open>The test as a whole, with the response of the server.\<close>

definition runTest :: "string list \<times> string option \<Rightarrow> Page \<Rightarrow> Page" where
  "runTest response p = (let (p, failure) = readSseStream onRunMessage response p in endTest failure p)"

section \<open>The histogram counts every latency once\<close>

lemma sum_counts:
  assumes "\<forall>v \<in> set vs. \<exists>!i. i < n \<and> P i v"
  shows "(\<Sum>i \<leftarrow> [0..<n]. length (filter (P i) vs)) = length vs"
  using assms
proof (induction vs)
  case (Cons v vs)
  have "\<exists>!i. i < n \<and> P i v" using Cons.prems by simp
  then obtain j where j: "j < n \<and> P j v" "\<forall>i. i < n \<and> P i v \<longrightarrow> i = j" by (rule ex1E)
  have iff: "P i v \<longleftrightarrow> i = j" if "i < n" for i using j that by blast
  have "(\<Sum>i \<leftarrow> [0..<n]. if P i v then 1 else 0) = (\<Sum>i \<in> {0..<n}. if P i v then 1 else (0::nat))"
    by (simp add: interv_sum_list_conv_sum_set_nat)
  also have "\<dots> = (\<Sum>i \<in> {0..<n}. if i = j then 1 else 0)"
    by (intro sum.cong refl) (simp only: iff atLeastLessThan_iff)
  also have "\<dots> = 1" using conjunct1 [OF j(1)] by simp
  finally have one: "(\<Sum>i \<leftarrow> [0..<n]. if P i v then 1 else (0::nat)) = 1" .
  have "(\<Sum>i \<leftarrow> [0..<n]. length (filter (P i) (v # vs))) =
      (\<Sum>i \<leftarrow> [0..<n]. (if P i v then 1 else 0) + length (filter (P i) vs))"
    by (intro arg_cong [where f = sum_list] map_cong) auto
  also have "\<dots> = 1 + length vs" using one Cons by (simp add: sum_list_addf)
  finally show ?case by simp
qed simp

lemma one_bucket:
  assumes "0 < step" "0 < bc" "mn \<le> v" "v \<le> mn + of_nat bc * step"
  shows "\<exists>!i. i < bc \<and> in_bucket mn step bc i v"
proof -
  define k where "k = nat \<lfloor>(v - mn) / step\<rfloor>"
  have nn: "0 \<le> (v - mn) / step" using assms by simp
  have "of_int \<lfloor>(v - mn) / step\<rfloor> \<le> (v - mn) / step" "(v - mn) / step < of_int \<lfloor>(v - mn) / step\<rfloor> + 1" by linarith+
  moreover have "of_int \<lfloor>(v - mn) / step\<rfloor> = (of_nat k :: rat)" using nn by (simp add: k_def)
  ultimately have "of_nat k \<le> (v - mn) / step" "(v - mn) / step < of_nat k + 1" by simp_all
  then have k: "mn + of_nat k * step \<le> v" "v < mn + (of_nat k + 1) * step" using assms(1) by (simp_all add: field_simps)
  have mono: "of_nat i * step \<le> of_nat j * step" if "i \<le> j" for i j using that assms(1) by simp
  show ?thesis
  proof (cases "k < bc")
    case True
    have "i = k" if "i < bc" "in_bucket mn step bc i v" for i
    proof -
      have b: "mn + of_nat i * step \<le> v" "v \<le> mn + of_nat (Suc i) * step" "i \<noteq> bc - 1 \<Longrightarrow> v < mn + of_nat (Suc i) * step"
        using that(2) by (auto simp: in_bucket_def Let_def algebra_simps split: if_splits)
      have "\<not> Suc k \<le> i" using mono [of "Suc k" i] b(1) k(2) by (auto simp: algebra_simps)
      moreover have "\<not> Suc i \<le> k" using mono [of "Suc i" k] b(3) k(1) True by (cases "i = bc - 1") auto
      ultimately show ?thesis by simp
    qed
    moreover have "in_bucket mn step bc k v" using k by (auto simp: in_bucket_def Let_def algebra_simps)
    ultimately show ?thesis using True by blast
  next
    case False
    have "v = mn + of_nat bc * step" using k(1) mono [of bc k] False assms(4) by simp
    moreover have "i = bc - 1" if "i < bc" "in_bucket mn step bc i v" for i
    proof (rule ccontr)
      assume "i \<noteq> bc - 1"
      then have "v < mn + of_nat (Suc i) * step" "Suc i \<le> bc"
        using that by (auto simp: in_bucket_def Let_def algebra_simps)
      then show False using mono [of "Suc i" bc] \<open>v = mn + of_nat bc * step\<close> by simp
    qed
    moreover have "in_bucket mn step bc (bc - 1) v"
      using \<open>v = mn + of_nat bc * step\<close> assms(1,2) by (auto simp: in_bucket_def Let_def algebra_simps of_nat_diff)
    ultimately show ?thesis using assms(2) by (intro ex1I [of _ "bc - 1"]) auto
  qed
qed

lemma bucket_count_bounds: "5 \<le> bucket_count n \<and> bucket_count n \<le> 20"
  by (simp add: bucket_count_def)

text \<open>The histogram of a test has between five and twenty buckets with as many labels, and counts every
  measured latency in exactly one of them.\<close>

theorem histogram_counts_every_latency:
  assumes "durations \<noteq> []" and "ch_data c \<noteq> []"
  shows "\<exists>counts. ch_data (buildHistogram durations c) ! 0 = map nat_val counts \<and> sum_list counts = length durations \<and>
           length counts = length (ch_labels (buildHistogram durations c)) \<and> 5 \<le> length counts \<and> length counts \<le> 20"
proof -
  let ?vals = "sort durations"
  let ?mn = "?vals ! 0" and ?mx = "?vals ! (length ?vals - 1)" and ?bc = "bucket_count (length ?vals)"
  let ?step = "max (1 / 10) ((?mx - ?mn) / of_nat ?bc)"
  let ?counts = "map (\<lambda>i. length (filter (in_bucket ?mn ?step ?bc i) ?vals)) [0..<?bc]"
  have bc: "0 < ?bc" using bucket_count_bounds [of "length ?vals"] by linarith
  have len: "0 < length ?vals" using assms(1) by simp
  have "?mx - ?mn = of_nat ?bc * ((?mx - ?mn) / of_nat ?bc)" using bc by simp
  also have "\<dots> \<le> of_nat ?bc * ?step" by (intro mult_left_mono) auto
  finally have top: "?mx \<le> ?mn + of_nat ?bc * ?step" by simp
  have "\<exists>!i. i < ?bc \<and> in_bucket ?mn ?step ?bc i v" if v: "v \<in> set ?vals" for v
  proof -
    obtain j where "j < length ?vals" "v = ?vals ! j" using v by (metis in_set_conv_nth)
    then have "?mn \<le> v" "v \<le> ?mx" by (auto intro!: sorted_nth_mono)
    then show ?thesis using top bc by (intro one_bucket) auto
  qed
  then have "sum_list ?counts = length ?vals" by (intro sum_counts) blast
  then have s: "sum_list ?counts = length durations" by simp
  have c: "ch_data (buildHistogram durations c) ! 0 = map nat_val ?counts"
    using assms by (simp add: buildHistogram_def Let_def)
  have l: "length ?counts = length (ch_labels (buildHistogram durations c))"
    using assms(1) by (simp add: buildHistogram_def Let_def)
  from c s l bucket_count_bounds [of "length ?vals"] show ?thesis by (intro exI [of _ ?counts] conjI) simp_all
qed

section \<open>A load test from the server to the page\<close>

lemmas page_defs = set_text_def set_class_def add_class_def remove_class_def set_display_def set_disabled_def put_chart_def
  insert_row_def logTo_def

lemma page_charts [simp]:
  "charts (set_text i s p) = charts p" "charts (set_display i s p) = charts p" "charts (logTo a m c p) = charts p"
  "charts (updateProgressBar f l c x y p) = charts p"
  by (simp_all add: page_defs updateProgressBar_def Let_def)

lemma get_Obj [simp]: "get (Obj ob) k = prop_of ob k"
  by (simp add: get_def)

text \<open>The results of a run and the events of its loop.\<close>

definition round_result :: "(nat \<Rightarrow> bool \<times> rat) \<Rightarrow> nat \<Rightarrow> TaskResult" where
  "round_result task i = \<lparr>tr_index = i, tr_ok = fst (task i), tr_ms = round2 (snd (task i))\<rparr>"

definition progress_of :: "rat \<Rightarrow> (nat \<Rightarrow> bool \<times> rat) \<Rightarrow> nat \<Rightarrow> event \<Rightarrow> bool" where
  "progress_of n task i e = (\<exists>a b. e = RunProgress i n (fst (task i)) (round2 (snd (task i))) a b)"

lemma run_loop_events:
  "\<exists>ps. run_loop n task todo i results evs = (results @ map (round_result task) [i..<i + todo], evs @ ps) \<and>
        list_all2 (progress_of n task) [i..<i + todo] ps"
proof (induction todo arbitrary: i results evs)
  case (Suc todo)
  have upt: "[i..<i + Suc todo] = i # [i + 1..<i + 1 + todo]" by (simp add: upt_conv_Cons)
  let ?rs = "results @ [round_result task i]"
  let ?e = "RunProgress i n (fst (task i)) (round2 (snd (task i))) (length (filter tr_ok ?rs)) (length (filter (\<lambda>r. \<not> tr_ok r) ?rs))"
  obtain ps where ps: "run_loop n task todo (i + 1) ?rs (evs @ [?e]) = (?rs @ map (round_result task) [i + 1..<i + 1 + todo], (evs @ [?e]) @ ps)"
    "list_all2 (progress_of n task) [i + 1..<i + 1 + todo] ps" using Suc by blast
  have "run_loop n task (Suc todo) i results evs = run_loop n task todo (i + 1) ?rs (evs @ [?e])"
    by (simp add: Let_def round_result_def case_prod_beta)
  moreover have "progress_of n task i ?e" unfolding progress_of_def by blast
  ultimately show ?case unfolding upt using ps by (intro exI [of _ "?e # ps"]) simp
qed simp

lemma js_add_one [simp]: "js_add (nat_val i) (num_val 1) = nat_val (Suc i)"
  by (simp add: js_add_def nat_val_def num_val_def is_text_def add.commute)

text \<open>What the messages of the loop change: the progress bar, the latencies, the latency chart and the
  log. \<open>kept\<close> are the parts that the rest of the test looks at.\<close>

definition kept :: "Page \<Rightarrow> Page \<Rightarrow> bool" where
  "kept p q =
     (el_rows q = el_rows p \<and> isRunning q = isRunning p \<and> resourcePollInterval q = resourcePollInterval p \<and>
      liveTimers q = liveTimers p \<and> charts q ''histogramChart'' = charts p ''histogramChart'')"

lemma progress_message:
  assumes "progress_of n task i e" and "q = onRunMessage (Obj (event_obj e)) p"
  shows "kept p q \<and> liveLatencies q = liveLatencies p @ [num_val (round2 (snd (task i)))] \<and>
         el_text q ''progressPercent'' = number_text (progress_pct (nat_val (Suc i)) (num_val n)) @ ''%''"
proof -
  obtain a b where e: "e = RunProgress i n (fst (task i)) (round2 (snd (task i))) a b"
    using assms(1) by (auto simp: progress_of_def)
  have "q = run_progress (Obj (event_obj e)) p" by (simp add: assms(2) e onRunMessage_def prop_of_Cons)
  then show ?thesis
    by (auto simp: e run_progress_def prop_of_Cons Let_def kept_def page_defs updateProgressBar_def)
qed

lemma progress_messages:
  assumes "list_all2 (progress_of n task) is ps" and "q = fold (\<lambda>e. onRunMessage (Obj (event_obj e))) ps p"
  shows "kept p q \<and> liveLatencies q = liveLatencies p @ map (\<lambda>i. num_val (round2 (snd (task i)))) is \<and>
         (is \<noteq> [] \<longrightarrow> el_text q ''progressPercent'' = number_text (progress_pct (nat_val (Suc (last is))) (num_val n)) @ ''%'')"
  using assms
proof (induction "is" ps arbitrary: p rule: list_all2_induct)
  case (Cons i "is" e ps)
  let ?r = "onRunMessage (Obj (event_obj e)) p"
  have "q = fold (\<lambda>e. onRunMessage (Obj (event_obj e))) ps ?r" using Cons.prems by simp
  note IH = Cons.IH [OF this] and one = progress_message [OF Cons.hyps(1) refl, of p]
  have "kept p q" using IH one by (simp add: kept_def)
  moreover have "is = [] \<Longrightarrow> q = ?r" using Cons.prems Cons.hyps(2) by simp
  ultimately show ?case using IH one by (cases "is = []") simp_all
qed (simp add: kept_def)

lemma progress_complete: "0 < n \<Longrightarrow> number_text (progress_pct (nat_val n) (num_val (of_nat n))) = ''100''"
proof -
  assume "0 < n"
  moreover have "\<lfloor>201 / 2 :: rat\<rfloor> = 100" by (rule floor_unique) simp_all
  ultimately have "progress_pct (nat_val n) (num_val (of_nat n)) = Fin 100"
    by (simp add: progress_pct_def nat_val_def num_val_def num_of_int_def)
  moreover have "number_text (Fin 100) = ''100''" by code_simp
  ultimately show ?thesis by simp
qed

lemma finite_latencies_nums: "finite_latencies (map num_val rs) = Some rs"
  by (induction rs) (simp_all add: finite_latencies_def num_val_def)

lemma done_message:
  assumes "q = onRunMessage (Obj (event_obj (RunDone type m))) p" and "liveLatencies p = map num_val ds"
  shows "el_text q ''statAvg'' = formatStatValue (opt_val (sm_avgMs m)) ''ms'' \<and>
         el_text q ''statP95'' = formatStatValue (opt_val (sm_p95 m)) ''ms'' \<and>
         el_text q ''progressPercent'' = el_text p ''progressPercent'' \<and>
         el_rows q ''historyBody'' = run_row type (Obj (event_obj (RunDone type m))) # el_rows p ''historyBody'' \<and>
         charts q ''histogramChart'' = buildHistogram ds (charts p ''histogramChart'') \<and>
         resourcePollInterval q = resourcePollInterval p \<and> liveTimers q = liveTimers p"
proof -
  have "q = run_done (Obj (event_obj (RunDone type m))) p"
    by (simp add: assms(1) onRunMessage_def prop_of_Cons)
  then show ?thesis
    using assms(2) by (simp add: run_done_def prop_of_Cons metrics_obj_def Let_def page_defs finite_latencies_nums)
qed

lemma startTest_page:
  assumes "startTest c i d p = (q, Some body)"
  shows "el_rows q = el_rows p \<and> liveLatencies q = [] \<and> isRunning q \<and>
         ch_data (charts q ''histogramChart'') = map (\<lambda>_. []) (ch_data (charts p ''histogramChart'')) \<and>
         resourcePollInterval q \<noteq> None \<and> body = [(''type'', Str (selectedType p)), (''count'', int_val (int_input c 50)),
           (''iterations'', int_val (int_input i 1000)), (''delayMs'', int_val (int_input d 100))]"
proof -
  have idle: "\<not> isRunning p" using assms by (auto simp: startTest_def)
  show ?thesis
    using assms idle
    by (cases "resourcePollInterval p"; clarsimp simp: startTest_def Let_def page_defs press_button_def updateProgressBar_def
        startResourcePolling_def setInterval_def clear_chart_def)
qed



end
