(* ===== verification/DashboardTabs.thy ===== *)
theory DashboardTabs
  imports Dashboard
begin

text \<open>
  The other tabs of the dashboard: the engine comparison \<open>compare-tab.js\<close>, the Kafka laboratory
  \<open>kafka-tab.js\<close>, and \<open>app.js\<close> with the tabs and the server information. A handler is split where it
  awaits a request: what it does before, and what it does with the reply. The three requests of
  \<open>kfRefresh\<close> are independent of each other and of everything else, so their replies are handlers of
  their own.
\<close>

section \<open>\<open>compare-tab.js\<close>\<close>

definition selectCmpType :: "string \<Rightarrow> Page \<Rightarrow> Page" where
  "selectCmpType type p =
     (if isRunning p then p
      else let p = set_display ''cmpDelayRow'' (if type = ''io'' then ''flex'' else ''none'')
                     (set_display ''cmpMaxRow'' (if type = ''cpu'' then ''flex'' else ''none'') (p\<lparr>selectedCmpType := type\<rparr>))
           in if type = ''cpu''
              then set_text ''cmpHowItWorks'' TXT_HOW_CPU
                     (set_text ''cmpGoTitle'' ''Go (Goroutine)'' (set_text ''cmpNodeTitle'' ''Node (Worker Thread)'' p))
              else set_text ''cmpHowItWorks'' TXT_HOW_IO
                     (set_text ''cmpGoTitle'' ''Go (gRPC + Goroutine)'' (set_text ''cmpNodeTitle'' ''Node (Event Loop)'' p)))"

definition startCompare :: "string \<Rightarrow> string \<Rightarrow> string \<Rightarrow> Page \<Rightarrow> Page \<times> jsobj option" where
  "startCompare cmpCount cmpMax cmpDelay p =
     (if isRunning p then (p, None)
      else let p = press_button ''cmpRunBtn'' (p\<lparr>isRunning := True\<rparr>);
               p = updateProgressBar ''cmpProgressFill'' ''cmpProgressLabel'' ''cmpProgressPercent'' (num_val 0) (num_val 1)
                     (set_display ''cmpProgressSection'' ''block'' p);
               p = put_chart ''cmpLineChart'' (clear_chart (charts p ''cmpLineChart'')) p;
               n = int_input cmpCount 20;
               label = (if selectedCmpType p = ''io'' then ''I/O'' else ''CPU'')
           in (logTo ''cmpLogArea'' (''Node vs Go '' @ label @ TXT_COMPARE_START @ show_int n @ TXT_ROUNDS) ''log-info'' p,
               Some [(''count'', int_val n), (''max'', int_val (int_input cmpMax 500000)),
                     (''testType'', Str (selectedCmpType p)), (''delayMs'', int_val (int_input cmpDelay 100))]))"

text \<open>\<open>textContent\<close> of null or undefined is empty.\<close>

definition content_text :: "jsval \<Rightarrow> string" where
  "content_text v = (if nullish v then [] else val_text v)"

definition compare_progress :: "jsval \<Rightarrow> Page \<Rightarrow> Page" where
  "compare_progress msg p =
     (let idx = get msg ''index''; win = get msg ''winner'';
          p = updateProgressBar ''cmpProgressFill'' ''cmpProgressLabel'' ''cmpProgressPercent''
                (js_add idx (num_val 1)) (get msg ''total'') p;
          p = put_chart ''cmpLineChart'' (push_point idx [get msg ''nodeMs'', get msg ''goMs''] (charts p ''cmpLineChart'')) p;
          p = set_text ''cmpGoWins'' (content_text (get msg ''goWins''))
                (set_text ''cmpNodeWins'' (content_text (get msg ''nodeWins'')) p);
          cls = (if win = Str ''node'' then ''log-ok'' else if win = Str ''go'' then ''log-warn'' else ''log-fail'');
          icon = (if win = Str ''node'' then ''NODE'' else if win = Str ''go'' then ''GO  '' else ''ERR '')
      in if at_share 30 msg \<or> win = Str ''error''
         then logTo ''cmpLogArea''
                (concat [''#'', val_text idx, '' ['', icon, '']  Node='', formatMs (get msg ''nodeMs''), ''  Go='',
                         formatMs (get msg ''goMs''), ''  ('', val_text (get msg ''nodeWins''), '':'', val_text (get msg ''goWins''), '')''])
                cls p
         else p)"

definition side_texts :: "string \<Rightarrow> jsval \<Rightarrow> Page \<Rightarrow> Page" where
  "side_texts prefix s p =
     set_text (prefix @ ''P99'') (formatMs (get s ''p99''))
       (set_text (prefix @ ''P95'') (formatMs (get s ''p95''))
          (set_text (prefix @ ''P50'') (formatMs (get s ''p50'')) (set_text (prefix @ ''Avg'') (formatMs (get s ''avgMs'')) p)))"

definition side_bars :: "jsval \<Rightarrow> jsval list" where
  "side_bars s = map (get s) [''avgMs'', ''p50'', ''p95'', ''p99'', ''min'', ''max'']"

datatype verdict = NodeAhead | GoAhead | Tie

definition verdict_of :: "jsval \<Rightarrow> verdict" where
  "verdict_of msg =
     (if js_greater (get msg ''nodeWins'') (get msg ''goWins'') then NodeAhead
      else if js_greater (get msg ''goWins'') (get msg ''nodeWins'') then GoAhead else Tie)"

fun verdict_badge :: "verdict \<Rightarrow> string \<times> string" where
  "verdict_badge NodeAhead = (TXT_NODE_WINS, ''win-node'')"
| "verdict_badge GoAhead = (TXT_GO_WINS, ''win-go'')"
| "verdict_badge Tie = (TXT_TIE, ''win-tie'')"

fun verdict_cell :: "verdict \<Rightarrow> string" where
  "verdict_cell NodeAhead = ''<td><span class=\"badge badge-node\">Node</span></td>''"
| "verdict_cell GoAhead = ''<td><span class=\"badge badge-go\">Go</span></td>''"
| "verdict_cell Tie = ''<td><span class=\"badge \">'' @ TXT_TIE @ ''</span></td>''"

definition compare_row :: "jsval \<Rightarrow> jsval \<Rightarrow> jsval \<Rightarrow> string" where
  "compare_row msg n g =
     concat [cell (val_text (get msg ''task'')), cell (val_text (get msg ''total'')), cell (val_text (get msg ''nodeWins'')),
             cell (val_text (get msg ''goWins'')), cell (formatMs (get n ''avgMs'')), cell (formatMs (get g ''avgMs'')),
             verdict_cell (verdict_of msg)]"

definition side_line :: "string \<Rightarrow> jsval \<Rightarrow> string" where
  "side_line head s =
     concat [head, formatMs (get s ''avgMs''), '' p50='', formatMs (get s ''p50''), '' p95='', formatMs (get s ''p95''),
             '' p99='', formatMs (get s ''p99'')]"

text \<open>A report without the figures of a side throws where it first reads them.\<close>

definition compare_done :: "jsval \<Rightarrow> Page \<Rightarrow> Page" where
  "compare_done msg p =
     (let n = get msg ''node''; g = get msg ''go'' in
      if nullish n then p
      else let p = side_texts ''cmpNode'' n p in
      if nullish g then p
      else let p = side_texts ''cmpGo'' g p;
               bar = charts p ''cmpBarChart'';
               p = put_chart ''cmpBarChart'' (bar\<lparr>ch_data := [side_bars n, side_bars g]\<rparr>) p;
               (badge, cls) = verdict_badge (verdict_of msg);
               p = set_class ''cmpOverallBadge'' [''win-badge'', cls] (set_text ''cmpOverallBadge'' badge p);
               p = insert_row ''cmpHistoryBody'' (compare_row msg n g) (set_display ''cmpHistoryEmpty'' ''none'' p);
               p = logTo ''cmpLogArea'' [] [] p;
               p = logTo ''cmpLogArea''
                     (concat [TXT_DONE_OPEN, val_text (get msg ''totalMs''), TXT_MS_DASH, val_text (get msg ''nodeWins''), '' : '',
                              val_text (get msg ''goWins''), TXT_GO_ERRORS, val_text (get msg ''errors''), TXT_CASES_CLOSE]) ''log-info'' p;
               p = logTo ''cmpLogArea'' (side_line TXT_NODE_AVG n) ''log-warn'' p
           in logTo ''cmpLogArea'' (side_line TXT_GO_AVG g) ''log-warn'' p)"

definition onCompareMessage :: "jsval \<Rightarrow> Page \<Rightarrow> Page" where
  "onCompareMessage msg p =
     (case read_prop msg ''event'' of
        None \<Rightarrow> p
      | Some e \<Rightarrow>
          if e = Str ''error'' then logTo ''cmpLogArea'' (val_text (get msg ''message'')) ''log-fail'' p
          else if e = Str ''progress'' then compare_progress msg p
          else if e = Str ''done'' then compare_done msg p
          else p)"

definition endCompare :: "string option \<Rightarrow> Page \<Rightarrow> Page" where
  "endCompare failure p =
     (let p = (case failure of None \<Rightarrow> p | Some m \<Rightarrow> logTo ''cmpLogArea'' (TXT_ERROR @ m) ''log-fail'' p)
      in release_button ''cmpRunBtn'' TXT_RUN_COMPARE (p\<lparr>isRunning := False\<rparr>))"

definition runCompare :: "string list \<times> string option \<Rightarrow> Page \<Rightarrow> Page" where
  "runCompare response p = (let (p, failure) = readSseStream onCompareMessage response p in endCompare failure p)"

section \<open>\<open>kafka-tab.js\<close>\<close>

definition KF_MAX_HISTORY :: nat where
  "KF_MAX_HISTORY = 60"

definition kfLog :: "string \<Rightarrow> string \<Rightarrow> Page \<Rightarrow> Page" where
  "kfLog message cls = logTo ''kfLogArea'' message cls"

text \<open>What \<open>fetch\<close> gives: it fails, or a status with a body, which may not be JSON.\<close>

datatype reply = Unreachable string | Reply nat "jsval option"

text \<open>The \<open>TypeError\<close> of V8 for reading \<open>k\<close> of null or undefined.\<close>

definition read_failure :: "jsval \<Rightarrow> string \<Rightarrow> string" where
  "read_failure v k = ''Cannot read properties of '' @ val_text v @ '' (reading '' @ [CHR 0x27] @ k @ [CHR 0x27] @ '')''"

definition need :: "jsval \<Rightarrow> string \<Rightarrow> string + jsval" where
  "need v k = (case read_prop v k of Some x \<Rightarrow> Inr x | None \<Rightarrow> Inl (read_failure v k))"

fun kfRequest :: "reply \<Rightarrow> string + jsval" where
  "kfRequest (Unreachable reason) = Inl reason"
| "kfRequest (Reply status content) =
     (let body = (case content of Some v \<Rightarrow> v | None \<Rightarrow> Obj []) in
      if 200 \<le> status \<and> status < 300 then Inr body
      else and_then (need body ''message'')
             (\<lambda>m. Inl (if truthy m then val_text m else TXT_REQUEST_FAILED @ show_int (int status) @ '')'')))"

text \<open>\<open>Object.entries(counts)\<close> by the number of their key; the keys are partition numbers.\<close>

definition spread_text :: "jsobj \<Rightarrow> string" where
  "spread_text counts =
     join_text '' ''
       (map (\<lambda>(k, v). ''p'' @ k @ '':'' @ val_text v)
          (sort_key (\<lambda>(k, _). case string_to_number k of Fin r \<Rightarrow> r | _ \<Rightarrow> 0) counts))"

definition kfPublishOrders_begin :: "string \<Rightarrow> string \<Rightarrow> Page \<Rightarrow> Page \<times> jsobj" where
  "kfPublishOrders_begin kfOrderCount kfOrderDelay p =
     (set_text ''kfPublishBtn'' TXT_PUBLISHING (set_disabled ''kfPublishBtn'' True p),
      [(''count'', Num (string_to_number kfOrderCount)), (''delayMs'', Num (string_to_number kfOrderDelay))])"

text \<open>\<open>Object.entries\<close> and \<open>join\<close> of something else throw, with a text of the engine.\<close>

definition publish_reply :: "jsval \<Rightarrow> Page \<Rightarrow> Page \<times> string option" where
  "publish_reply result p =
     (case need result ''partitionCounts'' of
        Inl e \<Rightarrow> (p, Some e)
      | Inr counts \<Rightarrow>
          if nullish counts then (p, Some ''Cannot convert undefined or null to object'')
          else let p = kfLog (concat [TXT_ORDERS, val_text (get result ''created''), TXT_PUBLISHED, val_text (get result ''elapsedMs''),
                                ''ms) '', spread_text (case counts of Obj ob \<Rightarrow> ob | _ \<Rightarrow> [])]) ''log-ok'' p
               in if js_greater (get result ''failed'') (num_val 0)
                  then (case get result ''errors'' of
                          Arr es \<Rightarrow> (kfLog (concat [TXT_PUBLISH_FAILED_N, val_text (get result ''failed''), TXT_CASES_COLON,
                                             join_text '' / '' (map content_text es)]) ''log-fail'' p, None)
                        | v \<Rightarrow> (p, Some (if nullish v then read_failure v ''join'' else ''result.errors.join is not a function'')))
                  else (p, None))"

definition kfPublishOrders_end :: "reply \<Rightarrow> Page \<Rightarrow> Page" where
  "kfPublishOrders_end rep p =
     (let (p, failure) = (case kfRequest rep of Inl e \<Rightarrow> (p, Some e) | Inr result \<Rightarrow> publish_reply result p);
          p = (case failure of None \<Rightarrow> p | Some e \<Rightarrow> kfLog (TXT_PUBLISH_FAILED @ e) ''log-fail'' p)
      in set_text ''kfPublishBtn'' TXT_PUBLISH (set_disabled ''kfPublishBtn'' False p))"

record SpawnForm =
  sf_groupId :: string
  sf_instances :: string
  sf_delay :: string
  sf_commitMode :: string
  sf_commitDelay :: string
  sf_crashAfter :: string
  sf_fromBeginning :: bool

definition spawn_body :: "SpawnForm \<Rightarrow> jsobj" where
  "spawn_body f =
     [(''groupId'', Str (trim (sf_groupId f))), (''instances'', Num (string_to_number (sf_instances f))),
      (''processingDelayMs'', Num (string_to_number (sf_delay f))), (''commitMode'', Str (sf_commitMode f)),
      (''commitDelayMs'', Num (string_to_number (sf_commitDelay f))), (''crashAfter'', Num (string_to_number (sf_crashAfter f))),
      (''fromBeginning'', Bool (sf_fromBeginning f))]"

text \<open>The usual end of a request: a line for its result, or a line for its error.\<close>

definition log_reply :: "reply \<Rightarrow> (jsval \<Rightarrow> string + string) \<Rightarrow> string \<Rightarrow> string \<Rightarrow> Page \<Rightarrow> Page" where
  "log_reply rep line cls failed p =
     (case and_then (kfRequest rep) line of Inr m \<Rightarrow> kfLog m cls p | Inl e \<Rightarrow> kfLog (failed @ e) ''log-fail'' p)"

definition kfSpawnConsumer :: "reply \<Rightarrow> Page \<Rightarrow> Page" where
  "kfSpawnConsumer rep =
     log_reply rep
       (\<lambda>result. and_then (need result ''pid'')
          (\<lambda>pid. Inr (concat [TXT_CONSUMER_PID, val_text pid, TXT_GROUP, val_text (get result ''groupId''), TXT_INSTANCES,
                       val_text (get result ''instances'')])))
       ''log-ok'' TXT_CONSUMER_FAILED"

definition stop_path :: "string \<Rightarrow> string \<Rightarrow> string" where
  "stop_path pid signal = ''/lab/consumers?pid='' @ pid @ ''&signal='' @ signal"

definition kfStopConsumer :: "string \<Rightarrow> string \<Rightarrow> reply \<Rightarrow> Page \<Rightarrow> Page" where
  "kfStopConsumer pid signal rep =
     log_reply rep (\<lambda>_. Inr (''pid='' @ pid @ '' '' @ (if signal = ''SIGKILL'' then TXT_KILLED else TXT_STOPPED)))
       (if signal = ''SIGKILL'' then ''log-warn'' else ''log-info'') TXT_STOP_FAILED"

definition kfStopAll :: "reply \<Rightarrow> Page \<Rightarrow> Page" where
  "kfStopAll rep =
     log_reply rep (\<lambda>result. and_then (need result ''stopped'') (\<lambda>n. Inr (TXT_CONSUMER @ val_text n @ TXT_N_STOPPED)))
       ''log-info'' TXT_STOP_FAILED"

definition kfResetOffsets :: "string \<Rightarrow> string \<Rightarrow> string \<Rightarrow> reply \<Rightarrow> Page \<Rightarrow> Page" where
  "kfResetOffsets groupId topic goal rep =
     log_reply rep (\<lambda>_. Inr (TXT_REWIND_DONE @ trim groupId @ TXT_TOPIC @ topic @ TXT_ARROW @ goal)) ''log-ok'' TXT_REWIND_FAILED"

definition kfClearOrders :: "reply \<Rightarrow> Page \<Rightarrow> Page" where
  "kfClearOrders rep p =
     (case kfRequest rep of
        Inl e \<Rightarrow> kfLog (TXT_CLEAR_FAILED @ e) ''log-fail'' p
      | Inr _ \<Rightarrow>
          let p = kfLog TXT_CLEARED ''log-info'' p
          in put_chart ''kfLagChart'' (clear_chart (charts p ''kfLagChart'')) (p\<lparr>kfLagHistory := []\<rparr>))"

definition process_detail :: "jsval \<Rightarrow> string" where
  "process_detail opts =
     (let unless = (\<lambda>k before after. if js_greater (get opts k) (num_val 0) then [before @ val_text (get opts k) @ after] else [])
      in join_text '' ''
           ([if get opts ''commitMode'' = Str ''after-process'' then TXT_COMMIT_AFTER else TXT_COMMIT_BEFORE] @
            unless ''processingDelayMs'' TXT_DELAY ''ms'' @ unless ''commitDelayMs'' TXT_COMMIT_DELAY ''ms'' @
            unless ''crashAfter'' [] TXT_CRASH_AFTER @ (if truthy (get opts ''fromBeginning'') then [TXT_FROM_START] else [])))"

definition process_status :: "jsval \<Rightarrow> string" where
  "process_status proc =
     (if truthy (get proc ''alive'') then ''<span class=\"badge badge-go\">'' @ TXT_ALIVE @ ''</span>''
      else if get proc ''exitSignal'' = Str ''SIGKILL'' then ''<span class=\"badge badge-cpu\">'' @ TXT_KILLED @ ''</span>''
      else ''<span class=\"badge\">'' @ TXT_EXITED @
           val_text (if nullish (get proc ''exitCode'') then get proc ''exitSignal'' else get proc ''exitCode'') @ '')</span>'')"

definition stop_button :: "string \<Rightarrow> jsval \<Rightarrow> string \<Rightarrow> string \<Rightarrow> string" where
  "stop_button style pid signal label =
     concat [''<button class=\"run-btn\" style=\"padding:4px 8px;font-size:11px;'', style, ''\" onclick=\"kfStopConsumer('',
             val_text pid, '','', [CHR 0x27], signal, [CHR 0x27], '')\">'', label, ''</button>'']"

definition process_actions :: "jsval \<Rightarrow> string" where
  "process_actions proc =
     (if truthy (get proc ''alive'')
      then stop_button [] (get proc ''pid'') ''SIGKILL'' TXT_KILLED @ [CHR 0x0A] @ replicate 9 (CHR '' '') @
           stop_button ''background:var(--bg-soft);'' (get proc ''pid'') ''SIGTERM'' TXT_STOPPED
      else ''-'')"

definition process_row :: "jsval \<Rightarrow> string" where
  "process_row proc =
     concat [cell (val_text (get proc ''pid'')), cell (val_text (get proc ''groupId'')), cell (val_text (get proc ''instances'')),
             ''<td style=\"font-size:11px;\">'', process_detail (get proc ''options''), ''</td>'', cell (process_status proc),
             cell (process_actions proc)]"

text \<open>Rows are appended one by one; a process without options throws at its row.\<close>

fun render_rows :: "jsval list \<Rightarrow> string list" where
  "render_rows [] = []"
| "render_rows (proc # procs) =
     (if nullish proc \<or> nullish (get proc ''options'') then [] else process_row proc # render_rows procs)"

definition kfRenderProcesses :: "jsval list \<Rightarrow> Page \<Rightarrow> Page" where
  "kfRenderProcesses processes p =
     (let p = set_display ''kfProcessEmpty'' (if processes = [] then ''block'' else ''none'') p
      in p\<lparr>el_rows := (el_rows p)(''kfProcessBody'' := render_rows processes)\<rparr>)"

definition total_lag :: "jsval list \<Rightarrow> jsval" where
  "total_lag topics = foldl (\<lambda>sum t. js_add sum (get t ''totalLag'')) (num_val 0) topics"

definition push_history :: "jsval \<Rightarrow> jsval list \<Rightarrow> jsval list" where
  "push_history v h = (let h = h @ [v] in if KF_MAX_HISTORY < length h then tl h else h)"

definition kfRenderLag :: "jsval list \<Rightarrow> Page \<Rightarrow> Page" where
  "kfRenderLag topics p =
     (if list_ex nullish topics then p
      else let lag = total_lag topics;
          history = push_history lag (kfLagHistory p);
          p = (set_text ''kfStatLag'' (content_text lag) p)\<lparr>kfLagHistory := history\<rparr>;
          p = put_chart ''kfLagChart'' (fill_chart (map nat_val [0..<length history]) [history] (charts p ''kfLagChart'')) p
      in case find (\<lambda>t. get t ''topic'' = Str ''orders.created'') topics of
           None \<Rightarrow> p
         | Some t \<Rightarrow>
             (case get t ''partitions'' of
                Arr ps \<Rightarrow> if list_ex nullish ps then p
                          else put_chart ''kfPartitionChart''
                            (fill_chart (map (\<lambda>q. Str (''p'' @ val_text (get q ''partition''))) ps) [map (\<lambda>q. get q ''lag'') ps] (charts p ''kfPartitionChart'')) p
              | _ \<Rightarrow> p))"

text \<open>Above, a topic or a partition that is null throws before its part of the page is drawn.\<close>

text \<open>The three replies of \<open>kfRefresh\<close>. A reply of another shape throws; the \<open>catch\<close> drops it.\<close>

definition kfOnStats :: "reply \<Rightarrow> Page \<Rightarrow> Page" where
  "kfOnStats rep p =
     (case kfRequest rep of
        Inl _ \<Rightarrow> p
      | Inr stats \<Rightarrow>
          if nullish stats then p
          else set_text ''kfStatDuplicates'' (content_text (get stats ''duplicateExtra''))
                 (set_text ''kfStatEvents'' (content_text (get stats ''eventCount''))
                    (set_text ''kfStatOrders'' (content_text (get stats ''orderCount'')) p)))"

definition kfOnProcesses :: "reply \<Rightarrow> Page \<Rightarrow> Page" where
  "kfOnProcesses rep p =
     (case kfRequest rep of
        Inl _ \<Rightarrow> p
      | Inr body \<Rightarrow> (case get body ''processes'' of Arr ps \<Rightarrow> kfRenderProcesses ps p | _ \<Rightarrow> p))"

definition kfOnLag :: "reply \<Rightarrow> Page \<Rightarrow> Page" where
  "kfOnLag rep p =
     (case kfRequest rep of
        Inl _ \<Rightarrow> p
      | Inr info \<Rightarrow> (case get info ''topics'' of Arr ts \<Rightarrow> kfRenderLag ts p | _ \<Rightarrow> p))"

definition kfStartPolling :: "Page \<Rightarrow> Page" where
  "kfStartPolling p =
     (if kfPollTimer p \<noteq> None then p else let (h, p) = setInterval p in p\<lparr>kfPollTimer := Some h\<rparr>)"

definition kfStopPolling :: "Page \<Rightarrow> Page" where
  "kfStopPolling p = (case kfPollTimer p of None \<Rightarrow> p | Some h \<Rightarrow> (clearInterval h p)\<lparr>kfPollTimer := None\<rparr>)"

section \<open>\<open>app.js\<close>\<close>

definition TABS :: "string list" where
  "TABS = [''perf'', ''compare'', ''kafka'']"

text \<open>The button and the panel of a tab are there for the three tabs of the page.\<close>

definition switchTab :: "string \<Rightarrow> Page \<Rightarrow> string + Page" where
  "switchTab tabName p =
     (if tabName \<notin> set TABS then Inl (TXT_NO_TAB @ tabName)
      else let p = p\<lparr>activeTab := tabName\<rparr> in Inr (if tabName = ''kafka'' then kfStartPolling p else kfStopPolling p))"

definition offline :: "Page \<Rightarrow> Page" where
  "offline p = set_text ''statusText'' TXT_OFFLINE (set_class ''statusDot'' [''status-dot'', ''offline''] p)"

definition fetchServerInfo :: "(jsval \<times> jsval) option \<Rightarrow> Page \<Rightarrow> Page" where
  "fetchServerInfo replies p =
     (case replies of
        None \<Rightarrow> offline p
      | Some (ping, stats) \<Rightarrow>
          let p = set_class ''statusDot'' [''status-dot''] p in
          if nullish ping then offline p
          else let p = set_text ''statusText'' (TXT_ENGINE @ val_text (get ping ''engine'')) p; mem = get stats ''memory'' in
               if nullish stats \<or> nullish mem then offline p
               else set_text ''serverInfo''
                      (concat [TXT_HEAP, val_text (get mem ''heapUsed''), ''/'', val_text (get mem ''heapTotal''), '' MB<br>RSS: '',
                               val_text (get mem ''rss''), '' MB<br>'', TXT_ACTIVE, val_text (get stats ''activeRequests''), ''<br>'',
                               TXT_PROCESSED, val_text (get stats ''totalProcessed''), ''<br>'', TXT_UPTIME,
                               number_text (num_floor (js_number (get stats ''uptime''))), TXT_SECONDS]) p)"

definition detectDbDriver :: "jsval option \<Rightarrow> Page \<Rightarrow> Page" where
  "detectDbDriver ping p =
     (let driver = (case ping of None \<Rightarrow> Str ''sqlite''
                      | Some v \<Rightarrow> if nullish v then Str ''sqlite'' else js_or (get v ''dbDriver'') (Str ''sqlite''));
          pg = driver = Str ''postgresql''
      in set_text ''dbReadDesc'' (if pg then ''PostgreSQL'' else TXT_SQLITE_QUERY)
           (set_text ''dbWriteDesc'' (if pg then ''PostgreSQL'' else ''SQLite WAL'') p))"

section \<open>The page as a machine\<close>

text \<open>What can happen to the page: clicks, replies and messages. \<open>loads\<close> and \<open>compares\<close> count the
  invocations of \<open>startTest\<close> and \<open>startCompare\<close> that wait for their stream.\<close>

datatype ui_event =
    ClickTab string
  | ClickType string
  | ClickCmpType string
  | ClickRun string string string
  | RunMessage jsval
  | RunEnd "string option"
  | ResourceReply jsval "jsval option"
  | ClickCompare string string string
  | CompareMessage jsval
  | CompareEnd "string option"
  | ServerInfo "(jsval \<times> jsval) option"
  | DbDriver "jsval option"
  | PublishClick string string
  | PublishReply reply
  | SpawnReply reply
  | StopReply string string reply
  | StopAllReply reply
  | ResetReply string string string reply
  | ClearReply reply
  | StatsReply reply
  | ProcessesReply reply
  | LagReply reply

record Ui =
  page :: Page
  loads :: nat
  compares :: nat

definition on_page :: "(Page \<Rightarrow> Page) \<Rightarrow> Ui \<Rightarrow> Ui" where
  "on_page f u = u\<lparr>page := f (page u)\<rparr>"

definition ui_enabled :: "Ui \<Rightarrow> ui_event \<Rightarrow> bool" where
  "ui_enabled u e =
     (case e of
        RunMessage _ \<Rightarrow> 0 < loads u
      | RunEnd _ \<Rightarrow> 0 < loads u
      | CompareMessage _ \<Rightarrow> 0 < compares u
      | CompareEnd _ \<Rightarrow> 0 < compares u
      | _ \<Rightarrow> True)"

fun ui_handle :: "ui_event \<Rightarrow> Ui \<Rightarrow> Ui" where
  "ui_handle (ClickTab t) u = (case switchTab t (page u) of Inl _ \<Rightarrow> u | Inr p \<Rightarrow> u\<lparr>page := p\<rparr>)"
| "ui_handle (ClickType t) u = on_page (selectType t) u"
| "ui_handle (ClickCmpType t) u = on_page (selectCmpType t) u"
| "ui_handle (ClickRun c i d) u =
     (case startTest c i d (page u) of
        (p, None) \<Rightarrow> u\<lparr>page := p\<rparr>
      | (p, Some _) \<Rightarrow> u\<lparr>page := p, loads := loads u + 1\<rparr>)"
| "ui_handle (RunMessage m) u = on_page (onRunMessage m) u"
| "ui_handle (RunEnd f) u = (on_page (endTest f) u)\<lparr>loads := loads u - 1\<rparr>"
| "ui_handle (ResourceReply ts r) u = on_page (onResourceStats ts r) u"
| "ui_handle (ClickCompare c m d) u =
     (case startCompare c m d (page u) of
        (p, None) \<Rightarrow> u\<lparr>page := p\<rparr>
      | (p, Some _) \<Rightarrow> u\<lparr>page := p, compares := compares u + 1\<rparr>)"
| "ui_handle (CompareMessage m) u = on_page (onCompareMessage m) u"
| "ui_handle (CompareEnd f) u = (on_page (endCompare f) u)\<lparr>compares := compares u - 1\<rparr>"
| "ui_handle (ServerInfo r) u = on_page (fetchServerInfo r) u"
| "ui_handle (DbDriver r) u = on_page (detectDbDriver r) u"
| "ui_handle (PublishClick c d) u = on_page (fst \<circ> kfPublishOrders_begin c d) u"
| "ui_handle (PublishReply r) u = on_page (kfPublishOrders_end r) u"
| "ui_handle (SpawnReply r) u = on_page (kfSpawnConsumer r) u"
| "ui_handle (StopReply pid s r) u = on_page (kfStopConsumer pid s r) u"
| "ui_handle (StopAllReply r) u = on_page (kfStopAll r) u"
| "ui_handle (ResetReply g t goal r) u = on_page (kfResetOffsets g t goal r) u"
| "ui_handle (ClearReply r) u = on_page (kfClearOrders r) u"
| "ui_handle (StatsReply r) u = on_page (kfOnStats r) u"
| "ui_handle (ProcessesReply r) u = on_page (kfOnProcesses r) u"
| "ui_handle (LagReply r) u = on_page (kfOnLag r) u"

inductive ui_step :: "Ui \<Rightarrow> Ui \<Rightarrow> bool" where
  "ui_enabled u e \<Longrightarrow> ui_step u (ui_handle e u)"

definition new_ui :: Ui where
  "new_ui = \<lparr>page = new_page, loads = 0, compares = 0\<rparr>"

section \<open>One test at a time, no forgotten timer\<close>

text \<open>The part of the page that the guards and the timers live in.\<close>

definition control :: "Page \<Rightarrow> bool \<times> nat option \<times> nat option \<times> string \<times> nat list \<times> nat" where
  "control p = (isRunning p, resourcePollInterval p, kfPollTimer p, activeTab p, liveTimers p, nextTimer p)"

fun control_ok :: "nat \<Rightarrow> nat \<Rightarrow> bool \<times> nat option \<times> nat option \<times> string \<times> nat list \<times> nat \<Rightarrow> bool" where
  "control_ok nruns ncompares (running, resources, kafka, tab, timers, fresh) =
     (nruns + ncompares = (if running then 1 else 0) \<and> (resources \<noteq> None) = (nruns = 1) \<and> (kafka \<noteq> None) = (tab = ''kafka'') \<and>
      distinct timers \<and> list_all (\<lambda>h. h < fresh) timers \<and> SERVER_INFO_TIMER < fresh \<and>
      set timers = {SERVER_INFO_TIMER} \<union> set_option resources \<union> set_option kafka \<and>
      resources \<noteq> Some SERVER_INFO_TIMER \<and> kafka \<noteq> Some SERVER_INFO_TIMER \<and> (resources \<noteq> None \<longrightarrow> resources \<noteq> kafka))"

definition ui_ok :: "Ui \<Rightarrow> bool" where
  "ui_ok u = (control_ok (loads u) (compares u) (control (page u)) \<and> length (kfLagHistory (page u)) \<le> KF_MAX_HISTORY)"

lemma control_primitives [simp]:
  "control (set_text i s p) = control p" "control (set_class i cs p) = control p" "control (add_class i c p) = control p"
  "control (remove_class i c p) = control p" "control (set_display i s p) = control p" "control (set_disabled i b p) = control p"
  "control (put_chart i ch p) = control p" "control (insert_row i r p) = control p" "control (logTo a m c p) = control p"
  "control (updateProgressBar f l q x y p) = control p" "control (p\<lparr>el_rows := rs\<rparr>) = control p"
  "control (p\<lparr>liveLatencies := ls\<rparr>) = control p" "control (p\<lparr>selectedType := ty\<rparr>) = control p"
  "control (p\<lparr>selectedCmpType := ty\<rparr>) = control p" "control (p\<lparr>kfLagHistory := h\<rparr>) = control p"
  by (simp_all add: control_def page_defs updateProgressBar_def Let_def)

lemma history_primitives [simp]:
  "kfLagHistory (set_text i s p) = kfLagHistory p" "kfLagHistory (set_class i cs p) = kfLagHistory p"
  "kfLagHistory (add_class i c p) = kfLagHistory p" "kfLagHistory (remove_class i c p) = kfLagHistory p"
  "kfLagHistory (set_display i s p) = kfLagHistory p" "kfLagHistory (set_disabled i b p) = kfLagHistory p"
  "kfLagHistory (put_chart i ch p) = kfLagHistory p" "kfLagHistory (insert_row i r p) = kfLagHistory p"
  "kfLagHistory (logTo a m c p) = kfLagHistory p" "kfLagHistory (updateProgressBar f l q x y p) = kfLagHistory p"
  by (simp_all add: page_defs updateProgressBar_def Let_def)

text \<open>The handlers that leave the guards and the timers alone, and at most shorten or bound the history.\<close>

definition harmless :: "(Page \<Rightarrow> Page) \<Rightarrow> bool" where
  "harmless f =
     (\<forall>p. control (f p) = control p \<and> (length (kfLagHistory p) \<le> KF_MAX_HISTORY \<longrightarrow> length (kfLagHistory (f p)) \<le> KF_MAX_HISTORY))"

lemma harmless_log_reply: "harmless (log_reply r line cls failed)"
  by (simp add: harmless_def log_reply_def kfLog_def split: sum.split)

lemma harmless_selects: "harmless (selectType ty)" "harmless (selectCmpType ty)"
  by (simp_all add: harmless_def selectType_def selectCmpType_def Let_def)

lemma harmless_run: "harmless (onRunMessage m)"
proof -
  have "control (run_done m p) = control p \<and> kfLagHistory (run_done m p) = kfLagHistory p" for p
    by (cases "finite_latencies (liveLatencies p)"; cases "get m ''type''") (simp_all add: run_done_def Let_def page_defs control_def)
  moreover have "control (run_progress m p) = control p \<and> kfLagHistory (run_progress m p) = kfLagHistory p" for p
    by (simp add: run_progress_def Let_def)
  ultimately show ?thesis by (simp add: harmless_def onRunMessage_def split: option.split)
qed

lemma harmless_compare: "harmless (onCompareMessage m)"
proof -
  have "control (compare_done m p) = control p \<and> kfLagHistory (compare_done m p) = kfLagHistory p" for p
    by (simp add: compare_done_def side_texts_def Let_def split: prod.split)
  moreover have "control (compare_progress m p) = control p \<and> kfLagHistory (compare_progress m p) = kfLagHistory p" for p
    by (simp add: compare_progress_def Let_def)
  ultimately show ?thesis by (simp add: harmless_def onCompareMessage_def split: option.split)
qed

lemma harmless_replies:
  "harmless (onResourceStats ts r)" "harmless (fetchServerInfo i)" "harmless (detectDbDriver d)" "harmless (kfOnStats k)"
  "harmless (kfOnProcesses k)"
  by (simp_all add: harmless_def onResourceStats_def fetchServerInfo_def detectDbDriver_def kfOnStats_def kfOnProcesses_def
      kfRenderProcesses_def offline_def Let_def split: option.split sum.split jsval.split prod.split)

lemma harmless_publish: "harmless (fst \<circ> kfPublishOrders_begin c d)" "harmless (kfPublishOrders_end r)"
proof -
  have "control (fst (publish_reply v p)) = control p \<and> kfLagHistory (fst (publish_reply v p)) = kfLagHistory p" for v p
    by (simp add: publish_reply_def kfLog_def Let_def split: sum.split jsval.split)
  then show "harmless (kfPublishOrders_end r)"
    by (auto simp: harmless_def kfPublishOrders_end_def kfLog_def split: sum.split option.split prod.split) (metis fst_conv)+
qed (simp add: harmless_def kfPublishOrders_begin_def)

lemma push_history_length: "length h \<le> KF_MAX_HISTORY \<Longrightarrow> length (push_history v h) \<le> KF_MAX_HISTORY"
  by (simp add: push_history_def Let_def)

lemma harmless_lag: "harmless (kfOnLag r)" "harmless (kfClearOrders r)"
proof -
  have "control (kfRenderLag ts p) = control p" for ts p
    by (simp add: kfRenderLag_def Let_def split: option.split jsval.split)
  moreover have "length (kfLagHistory p) \<le> KF_MAX_HISTORY \<Longrightarrow> length (kfLagHistory (kfRenderLag ts p)) \<le> KF_MAX_HISTORY" for ts p
    using push_history_length by (simp add: kfRenderLag_def Let_def split: option.split jsval.split)
  ultimately show "harmless (kfOnLag r)" by (simp add: harmless_def kfOnLag_def split: sum.split jsval.split)
  show "harmless (kfClearOrders r)"
    by (simp add: harmless_def kfClearOrders_def kfLog_def Let_def split: sum.split)
qed

lemmas harmless_handlers = harmless_log_reply harmless_selects harmless_run harmless_compare harmless_replies harmless_publish
  harmless_lag

lemma ui_ok_harmless:
  assumes "harmless f" "ui_ok u"
  shows "ui_ok (on_page f u)"
  using assms by (simp add: harmless_def ui_ok_def on_page_def)

text \<open>The handlers that change them.\<close>

lemma control_startTest:
  assumes "\<not> isRunning p" "resourcePollInterval p = None" "startTest c i d p = (q, r)"
  shows "r \<noteq> None \<and> kfLagHistory q = kfLagHistory p \<and>
         control q = (True, Some (nextTimer p), kfPollTimer p, activeTab p, liveTimers p @ [nextTimer p], nextTimer p + 1)"
  using assms
  by (auto simp: startTest_def Let_def press_button_def page_defs updateProgressBar_def startResourcePolling_def setInterval_def
      control_def)

lemma control_startCompare:
  assumes "\<not> isRunning p" "startCompare c m d p = (q, r)"
  shows "r \<noteq> None \<and> kfLagHistory q = kfLagHistory p \<and>
         control q = (True, resourcePollInterval p, kfPollTimer p, activeTab p, liveTimers p, nextTimer p)"
  using assms by (auto simp: startCompare_def Let_def press_button_def page_defs updateProgressBar_def control_def)

lemma busy_clicks: "isRunning p \<Longrightarrow> startTest c i d p = (p, None)" "isRunning p \<Longrightarrow> startCompare c m d p = (p, None)"
  by (simp_all add: startTest_def startCompare_def)

lemma control_ends:
  "control (endTest f p) = (False, None, kfPollTimer p, activeTab p,
     (case resourcePollInterval p of None \<Rightarrow> liveTimers p | Some h \<Rightarrow> filter (\<lambda>x. x \<noteq> h) (liveTimers p)), nextTimer p) \<and>
   kfLagHistory (endTest f p) = kfLagHistory p"
  "control (endCompare f p) = (False, resourcePollInterval p, kfPollTimer p, activeTab p, liveTimers p, nextTimer p) \<and>
   kfLagHistory (endCompare f p) = kfLagHistory p"
  by (auto simp: endTest_def endCompare_def release_button_def page_defs stopResourcePolling_def clearInterval_def control_def
      Let_def split: option.split)

lemma control_switchTab:
  assumes "switchTab t p = Inr q"
  shows "kfLagHistory q = kfLagHistory p \<and> control q =
    (if t = ''kafka''
     then (if kfPollTimer p \<noteq> None then (isRunning p, resourcePollInterval p, kfPollTimer p, t, liveTimers p, nextTimer p)
           else (isRunning p, resourcePollInterval p, Some (nextTimer p), t, liveTimers p @ [nextTimer p], nextTimer p + 1))
     else (isRunning p, resourcePollInterval p, None, t,
           (case kfPollTimer p of None \<Rightarrow> liveTimers p | Some h \<Rightarrow> filter (\<lambda>x. x \<noteq> h) (liveTimers p)), nextTimer p))"
  using assms
  by (auto simp: switchTab_def kfStartPolling_def kfStopPolling_def setInterval_def clearInterval_def control_def Let_def
      split: if_splits option.splits)

text \<open>Adding and removing a timer.\<close>

lemma control_ok_fresh:
  assumes "control_ok 0 0 (False, None, kafka, tab, timers, fresh)"
  shows "control_ok 1 0 (True, Some fresh, kafka, tab, timers @ [fresh], fresh + 1)"
  using assms by (auto simp: list_all_iff)

lemma control_ok_fresh_kafka:
  assumes "control_ok r c (running, resources, None, tab, timers, fresh)"
  shows "control_ok r c (running, resources, Some fresh, ''kafka'', timers @ [fresh], fresh + 1)"
  using assms by (cases resources) (auto simp: list_all_iff)

lemma control_ok_stop:
  assumes "control_ok 1 0 (True, resources, kafka, tab, timers, fresh)"
  shows "control_ok 0 0 (False, None, kafka, tab,
           (case resources of None \<Rightarrow> timers | Some h \<Rightarrow> filter (\<lambda>x. x \<noteq> h) timers), fresh)"
  using assms by (cases resources) (auto simp: list_all_iff)

lemma control_ok_stop_kafka:
  assumes "control_ok r c (running, resources, kafka, tab, timers, fresh)" "t \<noteq> ''kafka''"
  shows "control_ok r c (running, resources, None, t,
           (case kafka of None \<Rightarrow> timers | Some h \<Rightarrow> filter (\<lambda>x. x \<noteq> h) timers), fresh)"
  using assms by (cases kafka; cases resources) (auto simp: list_all_iff)

lemma control_ok_idle: "control_ok r c (running, resources, x) \<Longrightarrow> \<not> running \<Longrightarrow> r = 0 \<and> c = 0 \<and> resources = None"
  by (cases x; cases resources) auto

lemma control_ok_busy: "control_ok r c (running, x) \<Longrightarrow> 0 < r + c \<Longrightarrow> running \<and> r + c = 1"
  by (cases x) (simp split: if_splits)

lemma control_ok_compare:
  "control_ok 0 0 (False, x) = control_ok 0 1 (True, x)"
  by (cases x) simp

lemma ui_ok_step:
  assumes "ui_ok u" "ui_enabled u e"
  shows "ui_ok (ui_handle e u)"
proof -
  let ?p = "page u"
  have ok: "control_ok (loads u) (compares u) (isRunning ?p, resourcePollInterval ?p, kfPollTimer ?p, activeTab ?p, liveTimers ?p, nextTimer ?p)"
    and hist: "length (kfLagHistory ?p) \<le> KF_MAX_HISTORY"
    using assms(1) by (simp_all add: ui_ok_def control_def)
  show ?thesis
  proof (cases e)
    case (ClickTab t)
    show ?thesis
    proof (cases "switchTab t ?p")
      case (Inr q)
      note q = control_switchTab [OF Inr]
      have "control_ok (loads u) (compares u) (control q)"
      proof (cases "t = ''kafka''")
        case True
        then show ?thesis
        proof (cases "kfPollTimer ?p")
          case None
          then show ?thesis using q ok True control_ok_fresh_kafka by (simp del: control_ok.simps)
        next
          case (Some h)
          then show ?thesis using q ok True by simp
        qed
      next
        case False
        then show ?thesis using q control_ok_stop_kafka [OF ok False] by (simp del: control_ok.simps)
      qed
      then show ?thesis using ClickTab Inr q hist by (simp add: ui_ok_def)
    qed (use ClickTab assms in simp)
  next
    case (ClickRun c i d)
    show ?thesis
    proof (cases "isRunning ?p")
      case True
      then show ?thesis using ClickRun assms(1) busy_clicks by simp
    next
      case False
      obtain q r where qr: "startTest c i d ?p = (q, r)" by fastforce
      have none: "resourcePollInterval ?p = None" "loads u = 0" "compares u = 0" using control_ok_idle [OF ok False] by simp_all
      then have "control_ok 1 0 (control q)"
        using control_startTest [OF False none(1) qr] ok False control_ok_fresh
        by (simp del: control_ok.simps)
      then show ?thesis
        using control_startTest [OF False none(1) qr] ClickRun qr hist none by (cases r) (simp_all add: ui_ok_def del: control_ok.simps)
    qed
  next
    case (ClickCompare c m d)
    show ?thesis
    proof (cases "isRunning ?p")
      case True
      then show ?thesis using ClickCompare assms(1) busy_clicks by simp
    next
      case False
      obtain q r where qr: "startCompare c m d ?p = (q, r)" by fastforce
      have none: "loads u = 0" "compares u = 0" using control_ok_idle [OF ok False] by simp_all
      then have "control_ok 0 1 (control q)" using control_startCompare [OF False qr] ok False by (simp del: control_ok.simps add: control_ok_compare)
      then show ?thesis
        using control_startCompare [OF False qr] ClickCompare qr hist none by (cases r) (simp_all add: ui_ok_def del: control_ok.simps)
    qed
  next
    case (RunEnd f)
    then have "0 < loads u" using assms(2) by (simp add: ui_enabled_def)
    then have one: "loads u = 1" "compares u = 0" "isRunning ?p" using control_ok_busy [OF ok] by simp_all
    then have "control_ok 0 0 (control (endTest f ?p))" using control_ends(1) [of f ?p] control_ok_stop ok by (simp del: control_ok.simps)
    then show ?thesis using control_ends(1) [of f ?p] RunEnd one hist by (simp add: ui_ok_def on_page_def del: control_ok.simps)
  next
    case (CompareEnd f)
    then have "0 < compares u" using assms(2) by (simp add: ui_enabled_def)
    then have one: "compares u = 1" "loads u = 0" "isRunning ?p" using control_ok_busy [OF ok] by simp_all
    then have "control_ok 0 0 (control (endCompare f ?p))"
      using control_ends(2) [of f ?p] ok by (simp del: control_ok.simps add: control_ok_compare)
    then show ?thesis using control_ends(2) [of f ?p] CompareEnd one hist by (simp add: ui_ok_def on_page_def del: control_ok.simps)
  qed (use assms(1) harmless_handlers in \<open>simp_all add: ui_ok_harmless kfSpawnConsumer_def kfStopConsumer_def kfStopAll_def
        kfResetOffsets_def\<close>)
qed

interpretation dashboard: inductive_invariant "\<lambda>u. u = new_ui" ui_step ui_ok
proof unfold_locales
  show "ui_ok u" if "u = new_ui" for u
    using that by (simp add: ui_ok_def control_def new_ui_def start_page SERVER_INFO_TIMER_def KF_MAX_HISTORY_def)
  show "ui_ok v" if "ui_ok u" "ui_step u v" for u v
    using that(2,1) by (auto elim!: ui_step.cases intro: ui_ok_step)
qed

text \<open>C34. Whatever is clicked and whatever replies and messages arrive, in any order: the dashboard runs at
  most one load test or comparison at a time, and \<open>isRunning\<close> says whether one is open; resources are
  polled exactly while a load test runs, and Kafka exactly while its tab is shown. No interval is left
  behind, and the lag history keeps at most its last sixty values.\<close>

theorem dashboard_runs_one_test_at_a_time:
  assumes "ui_step\<^sup>*\<^sup>* new_ui u" and "p = page u"
  shows "loads u + compares u = (if isRunning p then 1 else 0) \<and>
         (resourcePollInterval p \<noteq> None) = (loads u = 1) \<and> (kfPollTimer p \<noteq> None) = (activeTab p = ''kafka'') \<and>
         length (liveTimers p) = 1 + (if loads u = 1 then 1 else 0) + (if activeTab p = ''kafka'' then 1 else 0) \<and>
         length (kfLagHistory p) \<le> KF_MAX_HISTORY"
proof -
  have "ui_ok u" using dashboard.inv_reachable [OF refl assms(1)] .
  then have ok: "control_ok (loads u) (compares u) (isRunning p, resourcePollInterval p, kfPollTimer p, activeTab p, liveTimers p, nextTimer p)"
    and hist: "length (kfLagHistory p) \<le> KF_MAX_HISTORY" by (simp_all add: ui_ok_def control_def assms(2))
  have "length (liveTimers p) = card (set (liveTimers p))" using ok distinct_card by fastforce
  also have "\<dots> = 1 + (if resourcePollInterval p \<noteq> None then 1 else 0) + (if kfPollTimer p \<noteq> None then 1 else 0)"
    using ok by (cases "resourcePollInterval p"; cases "kfPollTimer p") auto
  finally show ?thesis using ok hist by auto
qed

theorem dashboard_runs_one_test_at_a_time_witness:
  "\<exists>u. ui_step\<^sup>*\<^sup>* new_ui u \<and> loads u = 1 \<and> activeTab (page u) = ''kafka'' \<and>
       loads u + compares u = (if isRunning (page u) then 1 else 0) \<and> length (liveTimers (page u)) = 3"
proof -
  let ?v = "ui_handle (ClickRun [] [] []) (ui_handle (CompareEnd None) (ui_handle (ClickCompare [] [] [])
    (ui_handle (ClickTab ''kafka'') new_ui)))"
  have kafka: "ui_step new_ui (ui_handle (ClickTab ''kafka'') new_ui)" (is "ui_step _ ?a")
    by (rule ui_step.intros) (simp add: ui_enabled_def)
  have compare: "ui_step ?a (ui_handle (ClickCompare [] [] []) ?a)" (is "ui_step _ ?b")
    by (rule ui_step.intros) (simp add: ui_enabled_def)
  have b: "compares ?b = 1" by code_simp
  have finish: "ui_step ?b (ui_handle (CompareEnd None) ?b)" (is "ui_step _ ?c")
    by (rule ui_step.intros) (use b in \<open>simp add: ui_enabled_def del: ui_handle.simps\<close>)
  have run: "ui_step ?c (ui_handle (ClickRun [] [] []) ?c)"
    by (rule ui_step.intros) (simp add: ui_enabled_def)
  have "ui_step\<^sup>*\<^sup>* new_ui ?v" using kafka compare finish run by (meson converse_rtranclp_into_rtranclp rtranclp.rtrancl_refl)
  moreover have "loads ?v = 1" "activeTab (page ?v) = ''kafka''" by code_simp+
  ultimately show ?thesis using dashboard_runs_one_test_at_a_time [of ?v, OF _ refl] by (intro exI [of _ ?v]) simp
qed

section \<open>An engine comparison from the server to the page\<close>

lemma verdict_of_done:
  "verdict_of (Obj (event_obj (CompareDone n ty label ms w node go))) =
     (if w_goWins w < w_nodeWins w then NodeAhead else if w_nodeWins w < w_goWins w then GoAhead else Tie)"
  by (simp add: verdict_of_def prop_of_Cons winners_obj_def js_greater_def is_text_def nat_val_def num_val_def)

lemma compare_done_page:
  assumes "q = onCompareMessage (Obj (event_obj (CompareDone n ty label ms w node go))) p"
  shows "el_text q ''cmpOverallBadge'' =
           fst (verdict_badge (if w_goWins w < w_nodeWins w then NodeAhead else if w_nodeWins w < w_goWins w then GoAhead else Tie)) \<and>
         el_text q ''cmpNodeAvg'' = formatMs (opt_val (ls_avgMs node)) \<and> el_text q ''cmpGoAvg'' = formatMs (opt_val (ls_avgMs go)) \<and>
         ch_data (charts q ''cmpBarChart'') = map (\<lambda>s. map opt_val [ls_avgMs s, ls_p50 s, ls_p95 s, ls_p99 s, ls_min s, ls_max s]) [node, go]"
proof -
  let ?msg = "Obj (event_obj (CompareDone n ty label ms w node go))"
  have "q = compare_done ?msg p" by (simp add: assms onCompareMessage_def prop_of_Cons)
  moreover have "get ?msg ''node'' = Obj (latencies_obj node)" "get ?msg ''go'' = Obj (latencies_obj go)"
    by (simp_all add: prop_of_Cons winners_obj_def)
  moreover have "side_bars (Obj (latencies_obj s)) = map opt_val [ls_avgMs s, ls_p50 s, ls_p95 s, ls_p99 s, ls_min s, ls_max s]" for s
    by (simp add: side_bars_def latencies_obj_def prop_of_Cons)
  moreover have "prop_of (latencies_obj s) ''avgMs'' = opt_val (ls_avgMs s)" for s by (simp add: latencies_obj_def prop_of_Cons)
  ultimately show ?thesis
    by (simp add: compare_done_def nullish_def verdict_of_done side_texts_def Let_def page_defs del: event_obj.simps split: prod.split)
qed

text \<open>C36. An engine comparison from the click to the verdict, however the network cuts the stream. In the
  mode for both engines the page ends with the badge of the engine that won more rounds, or of a tie,
  and with the averages that both took in the rounds played; every round is won by one side or failed,
  and no average is shown exactly when all failed. In another mode the page
  logs that the comparison needs both engines. The run button is free again.\<close>

theorem comparison_reaches_the_page:
  assumes "startCompare cmpCount cmpMax cmpDelay p = (q, Some body)"
    and "0 < int_input cmpCount 20" "int_input cmpCount 20 \<le> 200" "ty = selectedCmpType p" "ty \<noteq> []"
    and "evs = compareStream num_text engine (Some (of_int (int_input cmpCount 20))) (Some (of_int (int_input cmpMax 500000)))
                 (Some ty) (Some (of_int (int_input cmpDelay 100))) now clock elapsed node simulateIO go"
    and "event_stream_format frame" "list_all event_exact evs"
    and "concat chunks = response_text frame (map (Obj \<circ> event_obj) evs)" and "r = runCompare (chunks, None) q"
    and "mx = num_default 500000 (Some (of_int (int_input cmpMax 500000)))"
    and "delayMs = num_default 100 (Some (of_int (int_input cmpDelay 100)))"
    and "results = map (if ty = ''io'' then compare_round (simulateIO delayMs) go (io_task clock delayMs)
                        else compare_round node go (cpu_task clock mx)) [0..<nat (int_input cmpCount 20)]"
    and "w = countWinners results"
  shows "\<not> isRunning r \<and> \<not> el_disabled r ''cmpRunBtn'' \<and>
         (if engine = BothEngine
          then w_nodeWins w + w_goWins w + w_errors w = length results \<and>
                 el_text r ''cmpOverallBadge'' =
                   (if w_goWins w < w_nodeWins w then TXT_NODE_WINS else if w_nodeWins w < w_goWins w then TXT_GO_WINS else TXT_TIE) \<and>
                 el_text r ''cmpNodeAvg'' = formatMs (opt_val (avg_of cr_nodeMs results)) \<and>
                 el_text r ''cmpGoAvg'' = formatMs (opt_val (avg_of cr_goMs results)) \<and>
                 (avg_of cr_nodeMs results = None) = (w_errors w = length results)
          else el_log r ''cmpLogArea'' = el_log q ''cmpLogArea'' @ [\<lparr>ln_class = ''log-line log-fail'', ln_msg = ONLY_BOTH\<rparr>])"
proof -
  define n where "n = nat (int_input cmpCount 20)"
  have n: "of_int (int_input cmpCount 20) = (of_nat n :: rat)" "0 < n" using assms(2) by (simp_all add: n_def)
  have cap: "capped_count 20 200 (Some (of_int (int_input cmpCount 20))) = of_nat n"
    using n assms(3) by (simp add: capped_count_def num_default_def min_def n_def)
  have loops: "loop_rounds (of_nat n) = n" by (simp add: loop_rounds_def)
  let ?h = "\<lambda>e. onCompareMessage (Obj (event_obj e))"
  have r: "r = endCompare None (fold ?h evs q)"
    using streams_reach_the_browser [OF assms(7,8,9), of onCompareMessage None q] by (simp add: assms(10) runCompare_def)
  have ends: "\<not> isRunning r" "\<not> el_disabled r ''cmpRunBtn''" "el_log r = el_log (fold ?h evs q)"
    "\<And>x. x \<noteq> ''cmpRunBtn'' \<Longrightarrow> el_text r x = el_text (fold ?h evs q) x"
    by (simp_all add: r endCompare_def release_button_def page_defs Let_def)
  show ?thesis
  proof (cases "engine = BothEngine")
    case True
    define play where "play = (if ty = ''io'' then compare_round (simulateIO delayMs) go (io_task clock delayMs)
      else compare_round node go (cpu_task clock mx))"
    define rs where "rs = map play [0..<n]"
    have results: "results = rs" "w = countWinners rs" by (simp_all add: assms(13,14) rs_def play_def n_def)
    let ?first = "CompareStart (of_nat n) mx ty delayMs engine now"
    obtain ps where loop: "compare_loop (of_nat n) play n 0 [] [?first] = (rs, ?first # ps)"
      using compare_loop_results [of "of_nat n" play n 0 "[]" "[?first]"] by (auto simp: rs_def)
    obtain xs label where evs: "evs = xs @ [CompareDone (of_nat n) ty label (round2 elapsed) (countWinners rs)
        (summarizeLatencies (pickLatencies (measured rs) cr_nodeMs)) (summarizeLatencies (pickLatencies (measured rs) cr_goMs))]"
      using loop assms(5) True
      by (simp add: assms(6) compareStream_def cap loops createEventStream_def Let_def flip: play_def assms(11,12))
    have won: "w_nodeWins (countWinners rs) + w_goWins (countWinners rs) + w_errors (countWinners rs) = n"
      using countWinners_total [of rs] by (simp add: rs_def)
    have "\<forall>x \<in> set rs. cr_winner x \<noteq> ErrorRound \<longrightarrow> cr_nodeMs x \<noteq> None"
      using compare_round_measured by (auto simp: rs_def play_def)
    then have none: "(avg_of cr_nodeMs rs = None) = (w_errors (countWinners rs) = n)"
      using avg_of_None [of rs cr_nodeMs] by (simp add: rs_def)
    let ?w = "countWinners rs" and ?sn = "summarizeLatencies (pickLatencies (measured rs) cr_nodeMs)"
      and ?sg = "summarizeLatencies (pickLatencies (measured rs) cr_goMs)"
    have last: "fold ?h evs q = onCompareMessage (Obj (event_obj (CompareDone (of_nat n) ty label (round2 elapsed) ?w ?sn ?sg))) (fold ?h xs q)"
      by (simp add: evs del: event_obj.simps)
    note shown = compare_done_page [OF last]
    have badge: "el_text r ''cmpOverallBadge'' =
        (if w_goWins ?w < w_nodeWins ?w then TXT_NODE_WINS else if w_nodeWins ?w < w_goWins ?w then TXT_GO_WINS else TXT_TIE)"
      using shown ends(4) [of "''cmpOverallBadge''"] by simp
    have avgs: "el_text r ''cmpNodeAvg'' = formatMs (opt_val (ls_avgMs ?sn))" "el_text r ''cmpGoAvg'' = formatMs (opt_val (ls_avgMs ?sg))"
      using shown ends(4) [of "''cmpNodeAvg''"] ends(4) [of "''cmpGoAvg''"] by simp_all
    have "ls_avgMs ?sn = avg_of cr_nodeMs rs" "ls_avgMs ?sg = avg_of cr_goMs rs" by (simp_all add: avg_of_def)
    then show ?thesis
      using won badge avgs none ends(1,2) True unfolding results by (simp add: rs_def)
  next
    case False
    then have "evs = [CompareStart (of_nat n) (num_default 500000 (Some (of_int (int_input cmpMax 500000)))) ty
        (num_default 100 (Some (of_int (int_input cmpDelay 100)))) engine now, StreamError ONLY_BOTH]"
      using assms(5) by (simp add: assms(6) compareStream_def cap createEventStream_def Let_def)
    then show ?thesis using ends False by (simp add: onCompareMessage_def prop_of_Cons page_defs)
  qed
qed

theorem comparison_reaches_the_page_witness:
  "let (q, body) = startCompare ''1'' [] [] new_page;
       evs = compareStream (\<lambda>_. ''n'') BothEngine (Some 1) (Some 500000) (Some ''cpu'') (Some 100) 7 (\<lambda>i. (0, 0)) 9
               (\<lambda>i. Some 3) (\<lambda>d i. Some 1) (\<lambda>t. Some 4);
       text = response_text nest_frame (map (Obj \<circ> event_obj) evs);
       r = runCompare ([take 100 text, drop 100 text], None) q
   in \<not> isRunning r \<and> el_text r ''cmpOverallBadge'' = TXT_NODE_WINS \<and> el_text r ''cmpNodeAvg'' = ''3ms'' \<and>
      el_text r ''cmpGoAvg'' = ''4ms''"
proof -
  obtain q body where q: "startCompare ''1'' [] [] new_page = (q, Some body)"
    by (auto simp: startCompare_def start_page Let_def)
  have nums: "int_input ''1'' 20 = 1" "int_input [] 500000 = 500000" "int_input [] 100 = 100" by code_simp+
  let ?evs = "compareStream (\<lambda>_. ''n'') BothEngine (Some 1) (Some 500000) (Some ''cpu'') (Some 100) 7 (\<lambda>i. (0, 0)) 9
    (\<lambda>i. Some 3) (\<lambda>d i. Some 1) (\<lambda>t. Some 4)"
  let ?text = "response_text nest_frame (map (Obj \<circ> event_obj) ?evs)"
  have evs: "?evs = compareStream (\<lambda>_. ''n'') BothEngine (Some (of_int (int_input ''1'' 20))) (Some (of_int (int_input [] 500000)))
      (Some ''cpu'') (Some (of_int (int_input [] 100))) 7 (\<lambda>i. (0, 0)) 9 (\<lambda>i. Some 3) (\<lambda>d i. Some 1) (\<lambda>t. Some 4)"
    by (simp add: nums)
  have exact: "list_all event_exact ?evs" by code_simp
  have cut: "concat [take 100 ?text, drop 100 ?text] = ?text" by simp
  have page: "0 < int_input ''1'' 20" "int_input ''1'' 20 \<le> 200" "''cpu'' = selectedCmpType new_page" "''cpu'' \<noteq> []"
    by (simp_all add: nums) (simp add: start_page)
  let ?r = "runCompare ([take 100 ?text, drop 100 ?text], None) q"
  let ?results = "map (if ''cpu'' = ''io'' then compare_round (\<lambda>i. Some 1) (\<lambda>t. Some 4) (io_task (\<lambda>i. (0, 0)) 100)
    else compare_round (\<lambda>i. Some 3) (\<lambda>t. Some 4) (cpu_task (\<lambda>i. (0, 0)) 500000)) [0..<nat (int_input ''1'' 20)]"
  have c: "w_nodeWins (countWinners ?results) = 1" "w_goWins (countWinners ?results) = 0"
    "formatMs (opt_val (avg_of cr_nodeMs ?results)) = ''3ms''" "formatMs (opt_val (avg_of cr_goMs ?results)) = ''4ms''"
    by code_simp+
  have d: "500000 = num_default 500000 (Some (of_int (int_input [] 500000)))" "100 = num_default 100 (Some (of_int (int_input [] 100)))"
    by (simp_all add: nums num_default_def)
  from comparison_reaches_the_page [OF q page evs nest_frame_format exact cut refl d refl refl]
  show ?thesis unfolding Let_def q case_prod_conv c by simp
qed

text \<open>A load-test stream that ends with an error event leaves no trace of the error on the load-test tab.\<close>

lemma load_test_tab_ignores_errors: "onRunMessage (Obj (event_obj (StreamError reason))) p = p"
  by (simp add: onRunMessage_def prop_of_Cons)

text \<open>A reply without memory figures, such as an error reply, leaves a label without a value on the
  memory chart.\<close>

lemma error_reply_leaves_a_label:
  "let c = charts (onResourceStats ts (Some (Obj [(''statusCode'', num_val 500)])) new_page) ''memoryChart''
   in ch_labels c = [ts] \<and> ch_data c = [[], []]"
  by (simp add: onResourceStats_def prop_of_Cons prop_of_def read_prop_def nullish_def start_page new_chart_def)

end
