(* ===== verification/Bench.thy ===== *)
theory Bench
  imports LoadTest JsOps
begin

text \<open>
  The database benchmarks: the contract of \<open>src/queue/bench-driver.interface.ts\<close> as the locale
  \<open>bench_driver\<close>, its two implementations \<open>sqlite-bench.driver.ts\<close> and \<open>pg-bench.driver.ts\<close>, and the
  choice between them in \<open>queue.module.ts\<close>.

  A table is the list of its rows with the number of its last id. A statement that throws is an
  argument: \<open>fault\<close> says for the statement what it throws, and whether a database server has carried it
  out all the same, because only its answer was lost. SQLite runs inside the process: there a statement
  that throws has done nothing. \<open>clock i\<close> has the two readings of \<open>Date.now()\<close> for row \<open>i\<close>, and
  \<open>elapsed\<close> is the measured time. A transaction that is not committed leaves the rows of before; a
  sequence of PostgreSQL keeps the ids it has handed out, one of SQLite does not.
\<close>

section \<open>Results and rows\<close>

datatype bench_operation = WriteBench | ReadBench

record BenchResult =
  br_operation :: bench_operation
  br_count :: rat
  br_totalMs :: jsnum
  br_avgMs :: jsnum
  br_opsPerSec :: jsnum

text \<open>\<open>Math.round(x * f) / f\<close>.\<close>

definition rounded :: "rat \<Rightarrow> jsnum \<Rightarrow> jsnum" where
  "rounded f x = num_div (num_round (num_mul x (Fin f))) (Fin f)"

definition bench_report :: "bench_operation \<Rightarrow> rat \<Rightarrow> rat \<Rightarrow> BenchResult" where
  "bench_report oper n totalMs =
     \<lparr>br_operation = oper, br_count = n, br_totalMs = rounded 100 (Fin totalMs),
      br_avgMs = rounded 1000 (num_div (Fin totalMs) (Fin n)),
      br_opsPerSec = num_round (num_mul (num_div (Fin n) (Fin totalMs)) (Fin 1000))\<rparr>"

definition empty_report :: BenchResult where
  "empty_report = \<lparr>br_operation = ReadBench, br_count = 0, br_totalMs = Fin 0, br_avgMs = Fin 0, br_opsPerSec = Fin 0\<rparr>"

record BenchRow =
  bw_id :: nat
  bw_key :: string
  bw_value :: string
  bw_created_at :: int

definition bench_value :: "nat \<Rightarrow> string" where
  "bench_value i = json_text (Obj [(''i'', num_val (of_nat i)), (''data'', Str (replicate 100 (CHR ''x'')))])"

definition bench_row :: "(nat \<Rightarrow> int \<times> int) \<Rightarrow> nat \<Rightarrow> nat \<Rightarrow> BenchRow" where
  "bench_row clock i rowid =
     \<lparr>bw_id = rowid, bw_key = ''key-'' @ show_int (fst (clock i)) @ ''-'' @ show_int (int i), bw_value = bench_value i,
      bw_created_at = snd (clock i)\<rparr>"

record BenchTable =
  bt_rows :: "BenchRow list"
  bt_seq :: nat

definition empty_table :: BenchTable where
  "empty_table = \<lparr>bt_rows = [], bt_seq = 0\<rparr>"

definition insert_bench :: "(nat \<Rightarrow> int \<times> int) \<Rightarrow> nat \<Rightarrow> BenchTable \<Rightarrow> BenchTable" where
  "insert_bench clock i t = t\<lparr>bt_rows := bt_rows t @ [bench_row clock i (bt_seq t + 1)], bt_seq := bt_seq t + 1\<rparr>"

datatype bench_statement =
    Connect | Begin | Insert nat | Commit | Rollback | CountRows | Select nat | Truncate | DeleteRows | Vacuum

type_synonym bench_fault = "bench_statement \<Rightarrow> (string \<times> bool) option"

text \<open>The insert loop from row \<open>i\<close>: the table when it stops, and what stopped it.\<close>

fun insert_loop :: "(nat \<Rightarrow> 'e option) \<Rightarrow> (nat \<Rightarrow> int \<times> int) \<Rightarrow> nat \<Rightarrow> nat \<Rightarrow> BenchTable \<Rightarrow> BenchTable \<times> 'e option" where
  "insert_loop fault clock 0 i t = (t, None)"
| "insert_loop fault clock (Suc todo) i t =
     (case fault i of
        Some e \<Rightarrow> (t, Some e)
      | None \<Rightarrow> insert_loop fault clock todo (i + 1) (insert_bench clock i t))"

section \<open>Reads\<close>

datatype bench_query = SelectRange nat | SelectByKey string

definition bench_query_at :: "nat \<Rightarrow> nat \<Rightarrow> bench_query" where
  "bench_query_at totalRows i =
     (if i mod 2 = 0 then SelectRange (min 50 totalRows) else SelectByKey (''key-nonexistent-'' @ show_int (int i)))"

text \<open>\<open>ORDER BY id DESC LIMIT n\<close>, and \<open>WHERE key = k\<close>.\<close>

fun query_rows :: "BenchTable \<Rightarrow> bench_query \<Rightarrow> BenchRow list" where
  "query_rows t (SelectRange n) = take n (rev (sort_key bw_id (bt_rows t)))"
| "query_rows t (SelectByKey k) = filter (\<lambda>r. bw_key r = k) (bt_rows t)"

fun query_loop :: "(nat \<Rightarrow> 'e option) \<Rightarrow> nat \<Rightarrow> nat \<Rightarrow> 'e option" where
  "query_loop fault 0 i = None"
| "query_loop fault (Suc todo) i = (case fault i of Some e \<Rightarrow> Some e | None \<Rightarrow> query_loop fault todo (i + 1))"

section \<open>SQLite\<close>

record SqliteBench =
  sb_open :: bool
  sb_table :: "BenchTable option"

text \<open>A database file with no table, or with the table of an earlier run.\<close>

definition sqlite_file :: "BenchTable option \<Rightarrow> SqliteBench" where
  "sqlite_file t = \<lparr>sb_open = False, sb_table = t\<rparr>"

definition sqlite_init :: "SqliteBench \<Rightarrow> SqliteBench" where
  "sqlite_init d = \<lparr>sb_open = True, sb_table = Some (case sb_table d of None \<Rightarrow> empty_table | Some t \<Rightarrow> t)\<rparr>"

definition sqlite_destroy :: "SqliteBench \<Rightarrow> SqliteBench" where
  "sqlite_destroy d = d\<lparr>sb_open := False\<rparr>"

definition NOT_OPEN :: string where
  "NOT_OPEN = ''The database connection is not open''"

definition with_table :: "(BenchTable \<Rightarrow> (string + 'a) \<times> BenchTable) \<Rightarrow> SqliteBench \<Rightarrow> (string + 'a) \<times> SqliteBench" where
  "with_table f d =
     (case sb_table d of
        Some t \<Rightarrow> if sb_open d then let (r, t') = f t in (r, d\<lparr>sb_table := Some t'\<rparr>) else (Inl NOT_OPEN, d)
      | None \<Rightarrow> (Inl NOT_OPEN, d))"

definition sqlite_write ::
  "bench_fault \<Rightarrow> (nat \<Rightarrow> int \<times> int) \<Rightarrow> rat \<Rightarrow> rat \<Rightarrow> SqliteBench \<Rightarrow> (string + BenchResult) \<times> SqliteBench" where
  "sqlite_write fault clock n elapsed =
     with_table (\<lambda>t.
       case fault Begin of
         Some (e, _) \<Rightarrow> (Inl e, t)
       | None \<Rightarrow>
           (case insert_loop (fault \<circ> Insert) clock (loop_rounds n) 0 t of
              (_, Some (e, _)) \<Rightarrow> (Inl e, t)
            | (t', None) \<Rightarrow>
                (case fault Commit of
                   Some (e, _) \<Rightarrow> (Inl e, t)
                 | None \<Rightarrow> (Inr (bench_report WriteBench n elapsed), t'))))"

definition sqlite_getRowCount :: "bench_fault \<Rightarrow> SqliteBench \<Rightarrow> (string + nat) \<times> SqliteBench" where
  "sqlite_getRowCount fault =
     with_table (\<lambda>t. case fault CountRows of Some (e, _) \<Rightarrow> (Inl e, t) | None \<Rightarrow> (Inr (length (bt_rows t)), t))"

definition sqlite_read :: "bench_fault \<Rightarrow> rat \<Rightarrow> rat \<Rightarrow> SqliteBench \<Rightarrow> (string + BenchResult) \<times> SqliteBench" where
  "sqlite_read fault n elapsed =
     with_table (\<lambda>t.
       case fault CountRows of
         Some (e, _) \<Rightarrow> (Inl e, t)
       | None \<Rightarrow>
           if length (bt_rows t) = 0 then (Inr empty_report, t)
           else case query_loop (fault \<circ> Select) (loop_rounds n) 0 of
                  Some (e, _) \<Rightarrow> (Inl e, t)
                | None \<Rightarrow> (Inr (bench_report ReadBench n elapsed), t))"

text \<open>Two statements: a \<open>VACUUM\<close> that throws comes after the rows are gone.\<close>

definition sqlite_reset :: "bench_fault \<Rightarrow> SqliteBench \<Rightarrow> (string + unit) \<times> SqliteBench" where
  "sqlite_reset fault =
     with_table (\<lambda>t.
       case fault DeleteRows of
         Some (e, _) \<Rightarrow> (Inl e, t)
       | None \<Rightarrow>
           (let t1 = t\<lparr>bt_rows := []\<rparr>
            in case fault Vacuum of Some (e, _) \<Rightarrow> (Inl e, t1) | None \<Rightarrow> (Inr (), t1)))"

section \<open>PostgreSQL\<close>

record PgConfig =
  pg_host :: string
  pg_port :: int
  pg_database :: string
  pg_user :: string
  pg_password :: string
  pg_max :: int

definition pg_config :: "env \<Rightarrow> env_error + PgConfig" where
  "pg_config e =
     and_then (requireEnv e ''BENCH_PG_HOST'') (\<lambda>host.
     and_then (requirePositiveIntEnv e ''BENCH_PG_PORT'') (\<lambda>port.
     and_then (requireEnv e ''BENCH_PG_DATABASE'') (\<lambda>database.
     and_then (requireEnv e ''BENCH_PG_USER'') (\<lambda>user.
     and_then (requireEnv e ''BENCH_PG_PASSWORD'') (\<lambda>password.
       Inr \<lparr>pg_host = host, pg_port = port, pg_database = database, pg_user = user, pg_password = password,
            pg_max = readPositiveIntEnv e ''BENCH_PG_POOL_SIZE'' 10\<rparr>)))))"

text \<open>\<open>pg_clients\<close>: the connections taken out of the pool.\<close>

record PgBench =
  pb_table :: "BenchTable option"
  pg_clients :: nat

definition pg_init :: "PgBench \<Rightarrow> PgBench" where
  "pg_init d = d\<lparr>pb_table := Some (case pb_table d of None \<Rightarrow> empty_table | Some t \<Rightarrow> t)\<rparr>"

definition pg_table :: "PgBench \<Rightarrow> BenchTable" where
  "pg_table d = (case pb_table d of None \<Rightarrow> empty_table | Some t \<Rightarrow> t)"

text \<open>The statements of \<open>benchWrite\<close> on a connection. On an error before the \<open>COMMIT\<close>, or of a \<open>COMMIT\<close>
  that the server did not carry out, the rows go back and the sequence stays; after one that it did,
  the rows are stored although the caller is told an error. An error of \<open>ROLLBACK\<close> replaces the one
  before.\<close>

definition pg_transaction ::
  "bench_fault \<Rightarrow> (nat \<Rightarrow> int \<times> int) \<Rightarrow> nat \<Rightarrow> BenchTable \<Rightarrow> BenchTable \<times> string option" where
  "pg_transaction fault clock rounds t =
     (let thrown = (\<lambda>e. Some (case fault Rollback of Some (e', _) \<Rightarrow> e' | None \<Rightarrow> e)) in
      case fault Begin of
        Some (e, _) \<Rightarrow> (t, thrown e)
      | None \<Rightarrow>
          (case insert_loop (fault \<circ> Insert) clock rounds 0 t of
             (t', Some (e, carried_out)) \<Rightarrow> (t\<lparr>bt_seq := bt_seq t' + (if carried_out then 1 else 0)\<rparr>, thrown e)
           | (t', None) \<Rightarrow>
               (case fault Commit of
                  None \<Rightarrow> (t', None)
                | Some (e, carried_out) \<Rightarrow> (if carried_out then t' else t\<lparr>bt_seq := bt_seq t'\<rparr>, thrown e))))"

definition pg_write ::
  "bench_fault \<Rightarrow> (nat \<Rightarrow> int \<times> int) \<Rightarrow> rat \<Rightarrow> rat \<Rightarrow> PgBench \<Rightarrow> (string + BenchResult) \<times> PgBench" where
  "pg_write fault clock n elapsed d =
     (case fault Connect of
        Some (e, _) \<Rightarrow> (Inl e, d)
      | None \<Rightarrow>
          let taken = d\<lparr>pg_clients := pg_clients d + 1\<rparr>;
              (t, failure) = pg_transaction fault clock (loop_rounds n) (pg_table taken);
              released = taken\<lparr>pb_table := Some t, pg_clients := pg_clients taken - 1\<rparr>
          in (case failure of Some e \<Rightarrow> Inl e | None \<Rightarrow> Inr (bench_report WriteBench n elapsed), released))"

definition pg_getRowCount :: "bench_fault \<Rightarrow> PgBench \<Rightarrow> (string + nat) \<times> PgBench" where
  "pg_getRowCount fault d =
     (case fault CountRows of Some (e, _) \<Rightarrow> (Inl e, d) | None \<Rightarrow> (Inr (length (bt_rows (pg_table d))), d))"

definition pg_read :: "bench_fault \<Rightarrow> rat \<Rightarrow> rat \<Rightarrow> PgBench \<Rightarrow> (string + BenchResult) \<times> PgBench" where
  "pg_read fault n elapsed d =
     (case pg_getRowCount fault d of
        (Inl e, _) \<Rightarrow> (Inl e, d)
      | (Inr totalRows, _) \<Rightarrow>
          if totalRows = 0 then (Inr empty_report, d)
          else case query_loop (fault \<circ> Select) (loop_rounds n) 0 of
                 Some (e, _) \<Rightarrow> (Inl e, d)
               | None \<Rightarrow> (Inr (bench_report ReadBench n elapsed), d))"

definition pg_reset :: "bench_fault \<Rightarrow> PgBench \<Rightarrow> (string + unit) \<times> PgBench" where
  "pg_reset fault d =
     (let emptied = d\<lparr>pb_table := Some empty_table\<rparr> in
      case fault Truncate of
        Some (e, carried_out) \<Rightarrow> (Inl e, if carried_out then emptied else d)
      | None \<Rightarrow> (Inr (), emptied))"

section \<open>The driver of the module\<close>

datatype bench = SqliteDriver SqliteBench | PgDriver PgBench

text \<open>The factory of \<open>BENCH_DRIVER\<close>: the driver the environment names, on the database that is there.\<close>

definition bench_factory :: "env \<Rightarrow> SqliteBench \<Rightarrow> PgBench \<Rightarrow> env_error + bench" where
  "bench_factory e sqlite pg =
     (if e ''BENCH_DB_DRIVER'' = Some ''postgresql''
      then and_then (pg_config e) (\<lambda>_. Inr (PgDriver (pg_init pg)))
      else Inr (SqliteDriver (sqlite_init sqlite)))"

fun driver_write ::
  "bench_fault \<Rightarrow> (nat \<Rightarrow> int \<times> int) \<Rightarrow> rat \<Rightarrow> rat \<Rightarrow> bench \<Rightarrow> (string + BenchResult) \<times> bench" where
  "driver_write fault clock n elapsed (SqliteDriver d) = map_prod id SqliteDriver (sqlite_write fault clock n elapsed d)"
| "driver_write fault clock n elapsed (PgDriver d) = map_prod id PgDriver (pg_write fault clock n elapsed d)"

fun driver_read :: "bench_fault \<Rightarrow> rat \<Rightarrow> rat \<Rightarrow> bench \<Rightarrow> (string + BenchResult) \<times> bench" where
  "driver_read fault n elapsed (SqliteDriver d) = map_prod id SqliteDriver (sqlite_read fault n elapsed d)"
| "driver_read fault n elapsed (PgDriver d) = map_prod id PgDriver (pg_read fault n elapsed d)"

fun driver_rows :: "bench_fault \<Rightarrow> bench \<Rightarrow> string + nat" where
  "driver_rows fault (SqliteDriver d) = fst (sqlite_getRowCount fault d)"
| "driver_rows fault (PgDriver d) = fst (pg_getRowCount fault d)"

fun driver_reset :: "bench_fault \<Rightarrow> bench \<Rightarrow> (string + unit) \<times> bench" where
  "driver_reset fault (SqliteDriver d) = map_prod id SqliteDriver (sqlite_reset fault d)"
| "driver_reset fault (PgDriver d) = map_prod id PgDriver (pg_reset fault d)"

section \<open>The contract\<close>

text \<open>What the load tests rely on, whatever the database: \<open>rows\<close> are the stored rows of a driver that is
  \<open>ready\<close>, and \<open>lost\<close> says that the answer to a commit on it does not arrive.\<close>

locale bench_driver =
  fixes ready :: "'d \<Rightarrow> bool"
    and rows :: "'d \<Rightarrow> BenchRow list"
    and lost :: "'d \<Rightarrow> bool"
    and wr :: "(nat \<Rightarrow> int \<times> int) \<Rightarrow> rat \<Rightarrow> rat \<Rightarrow> 'd \<Rightarrow> (string + BenchResult) \<times> 'd"
    and rd :: "rat \<Rightarrow> rat \<Rightarrow> 'd \<Rightarrow> (string + BenchResult) \<times> 'd"
    and reset :: "'d \<Rightarrow> (string + unit) \<times> 'd"
  assumes write_ok: "ready d \<Longrightarrow> wr clock n elapsed d = (Inr r, d') \<Longrightarrow>
      ready d' \<and> r = bench_report WriteBench n elapsed \<and>
      (\<exists>ids. length ids = loop_rounds n \<and> rows d' = rows d @ map (\<lambda>i. bench_row clock i (ids ! i)) [0..<loop_rounds n])"
    and write_failed: "ready d \<Longrightarrow> wr clock n elapsed d = (Inl e, d') \<Longrightarrow>
      ready d' \<and> (rows d' = rows d \<or> lost d \<and>
        (\<exists>ids. length ids = loop_rounds n \<and> rows d' = rows d @ map (\<lambda>i. bench_row clock i (ids ! i)) [0..<loop_rounds n]))"
    and read_law: "ready d \<Longrightarrow> rd n elapsed d = (x, d') \<Longrightarrow>
      d' = d \<and> (\<forall>r. x = Inr r \<longrightarrow> r = (if rows d = [] then empty_report else bench_report ReadBench n elapsed))"
    and reset_ok: "ready d \<Longrightarrow> reset d = (Inr (), d') \<Longrightarrow> ready d' \<and> rows d' = []"
    and reset_failed: "ready d \<Longrightarrow> reset d = (Inl e, d') \<Longrightarrow> ready d' \<and> (rows d' = rows d \<or> rows d' = [])"
begin

lemma write_adds:
  assumes "ready d" "wr clock n elapsed d = (x, d')" "\<not> lost d"
  shows "ready d' \<and> length (rows d') = length (rows d) + (if isl x then 0 else loop_rounds n)"
proof (cases x)
  case (Inl e)
  then show ?thesis using write_failed [OF assms(1), of clock n elapsed e d'] assms(2,3) by simp
next
  case (Inr r)
  then show ?thesis using write_ok [OF assms(1), of clock n elapsed r d'] assms(2) by auto
qed

lemma reset_then_read:
  assumes "ready d" "reset d = (Inr (), d1)" "rd n elapsed d1 = (Inr r, d2)"
  shows "r = empty_report \<and> d2 = d1"
  using reset_ok [OF assms(1,2)] read_law [of d1 n elapsed "Inr r" d2] assms(3) by simp

text \<open>A read never looks up a key that a write stores.\<close>

lemma written_keys:
  assumes "ready d" "wr clock n elapsed d = (Inr r, d')"
    and "\<forall>row \<in> set (rows d). take 15 (bw_key row) \<noteq> ''key-nonexistent''" and "\<forall>i. 0 \<le> fst (clock i)"
  shows "\<forall>row \<in> set (rows d'). take 15 (bw_key row) \<noteq> ''key-nonexistent''"
proof -
  obtain ids where rows: "rows d' = rows d @ map (\<lambda>i. bench_row clock i (ids ! i)) [0..<loop_rounds n]"
    using write_ok [OF assms(1,2)] by blast
  have "take 15 (bw_key (bench_row clock i k)) \<noteq> ''key-nonexistent''" for i k
  proof -
    have "show_int (fst (clock i)) = show_digits (nat (fst (clock i)))"
      using spec [OF assms(4), of i] by (simp add: show_int_def)
    then obtain c s where c: "show_int (fst (clock i)) = c # s" "is_digit c"
      using show_digits_digits [of "nat (fst (clock i))"] by (cases "show_digits (nat (fst (clock i)))") auto
    then have "c \<noteq> CHR ''n''" by (auto simp: is_digit_code)
    then show ?thesis using c(1) by (simp add: bench_row_def)
  qed
  then show ?thesis using assms(3) rows by auto
qed

end

section \<open>Both drivers keep it\<close>

lemma insert_loop_ok:
  "insert_loop fault clock todo i t = (t', None) \<Longrightarrow>
   bt_rows t' = bt_rows t @ map (\<lambda>j. bench_row clock (i + j) (bt_seq t + 1 + j)) [0..<todo] \<and> bt_seq t' = bt_seq t + todo"
proof (induction todo arbitrary: i t)
  case (Suc todo)
  then have "insert_loop fault clock todo (i + 1) (insert_bench clock i t) = (t', None)" by (simp split: option.splits)
  note IH = Suc.IH [OF this]
  have "[0..<Suc todo] = 0 # map Suc [0..<todo]" by (simp add: map_Suc_upt upt_conv_Cons)
  then show ?case using IH by (simp add: insert_bench_def comp_def)
qed simp

lemma insert_loop_rows:
  "insert_loop fault clock rounds 0 t = (t', None) \<Longrightarrow>
   \<exists>ids. length ids = rounds \<and> bt_rows t' = bt_rows t @ map (\<lambda>i. bench_row clock i (ids ! i)) [0..<rounds]"
  using insert_loop_ok [of fault clock rounds 0 t t']
  by (intro exI [of _ "map (\<lambda>j. bt_seq t + 1 + j) [0..<rounds]"]) (auto intro!: map_cong)

definition sqlite_rows :: "SqliteBench \<Rightarrow> BenchRow list" where
  "sqlite_rows d = (case sb_table d of None \<Rightarrow> [] | Some t \<Rightarrow> bt_rows t)"

definition sqlite_ready :: "SqliteBench \<Rightarrow> bool" where
  "sqlite_ready d = (sb_open d \<and> sb_table d \<noteq> None)"

lemma with_table_ready:
  "sqlite_ready d \<Longrightarrow> with_table f d = (let (r, t') = f (the (sb_table d)) in (r, d\<lparr>sb_table := Some t'\<rparr>))"
  by (auto simp: sqlite_ready_def with_table_def)

interpretation sqlite_bench: bench_driver sqlite_ready sqlite_rows "\<lambda>_. False"
    "sqlite_write fault" "sqlite_read fault" "sqlite_reset fault" for fault
proof unfold_locales
  fix d d' :: SqliteBench and clock n elapsed r e x
  assume ready: "sqlite_ready d"
  then obtain t where t: "sb_table d = Some t" by (auto simp: sqlite_ready_def)
  show "sqlite_ready d' \<and> r = bench_report WriteBench n elapsed \<and>
      (\<exists>ids. length ids = loop_rounds n \<and> sqlite_rows d' = sqlite_rows d @ map (\<lambda>i. bench_row clock i (ids ! i)) [0..<loop_rounds n])"
    if "sqlite_write fault clock n elapsed d = (Inr r, d')"
    using that ready t insert_loop_rows [of "fault \<circ> Insert" clock "loop_rounds n" t]
    by (auto simp: sqlite_write_def with_table_ready sqlite_rows_def sqlite_ready_def split: prod.splits option.splits)
  show "sqlite_ready d' \<and> (sqlite_rows d' = sqlite_rows d \<or> False \<and>
      (\<exists>ids. length ids = loop_rounds n \<and> sqlite_rows d' = sqlite_rows d @ map (\<lambda>i. bench_row clock i (ids ! i)) [0..<loop_rounds n]))"
    if "sqlite_write fault clock n elapsed d = (Inl e, d')"
    using that ready t
    by (auto simp: sqlite_write_def with_table_ready sqlite_rows_def sqlite_ready_def split: prod.splits option.splits)
  show "d' = d \<and> (\<forall>r. x = Inr r \<longrightarrow> r = (if sqlite_rows d = [] then empty_report else bench_report ReadBench n elapsed))"
    if "sqlite_read fault n elapsed d = (x, d')"
    using that ready t by (auto simp: sqlite_read_def with_table_ready sqlite_rows_def split: if_splits option.splits prod.splits)
  show "sqlite_ready d' \<and> sqlite_rows d' = []" if "sqlite_reset fault d = (Inr (), d')"
    using that ready t
    by (auto simp: sqlite_reset_def with_table_ready sqlite_rows_def sqlite_ready_def Let_def split: option.splits prod.splits)
  show "sqlite_ready d' \<and> (sqlite_rows d' = sqlite_rows d \<or> sqlite_rows d' = [])" if "sqlite_reset fault d = (Inl e, d')"
    using that ready t
    by (auto simp: sqlite_reset_def with_table_ready sqlite_rows_def sqlite_ready_def Let_def split: option.splits prod.splits)
qed

definition pg_rows :: "PgBench \<Rightarrow> BenchRow list" where
  "pg_rows d = bt_rows (pg_table d)"

lemma pg_write_released: "pg_write fault clock n elapsed d = (x, d') \<Longrightarrow> pg_clients d' = pg_clients d"
  by (auto simp: pg_write_def Let_def split: option.splits prod.splits)

definition commit_lost :: "bench_fault \<Rightarrow> bool" where
  "commit_lost fault = (case fault Commit of Some (_, carried_out) \<Rightarrow> carried_out | None \<Rightarrow> False)"

lemma pg_transaction_ok:
  "pg_transaction fault clock rounds t = (t', None) \<Longrightarrow>
   \<exists>ids. length ids = rounds \<and> bt_rows t' = bt_rows t @ map (\<lambda>i. bench_row clock i (ids ! i)) [0..<rounds]"
  by (auto simp: pg_transaction_def Let_def split: option.splits prod.splits if_splits dest!: insert_loop_rows)

lemma pg_transaction_failed:
  "pg_transaction fault clock rounds t = (t', Some e) \<Longrightarrow>
   bt_rows t' = bt_rows t \<or> commit_lost fault \<and>
     (\<exists>ids. length ids = rounds \<and> bt_rows t' = bt_rows t @ map (\<lambda>i. bench_row clock i (ids ! i)) [0..<rounds])"
  by (auto simp: pg_transaction_def Let_def commit_lost_def split: option.splits prod.splits if_splits dest!: insert_loop_rows)

interpretation pg_bench: bench_driver "\<lambda>_. True" pg_rows "\<lambda>_. commit_lost fault"
    "pg_write fault" "pg_read fault" "pg_reset fault" for fault
proof unfold_locales
  fix d d' :: PgBench and clock n elapsed r e x
  have same: "pg_table (d\<lparr>pg_clients := c\<rparr>) = pg_table d" for c by (simp add: pg_table_def)
  show "True \<and> r = bench_report WriteBench n elapsed \<and>
      (\<exists>ids. length ids = loop_rounds n \<and> pg_rows d' = pg_rows d @ map (\<lambda>i. bench_row clock i (ids ! i)) [0..<loop_rounds n])"
    if "pg_write fault clock n elapsed d = (Inr r, d')"
    using that pg_transaction_ok [of fault clock "loop_rounds n" "pg_table d"]
    by (auto simp: pg_write_def Let_def same pg_rows_def pg_table_def split: option.splits prod.splits)
  show "True \<and> (pg_rows d' = pg_rows d \<or> commit_lost fault \<and>
      (\<exists>ids. length ids = loop_rounds n \<and> pg_rows d' = pg_rows d @ map (\<lambda>i. bench_row clock i (ids ! i)) [0..<loop_rounds n]))"
    if "pg_write fault clock n elapsed d = (Inl e, d')"
    using that pg_transaction_failed [of fault clock "loop_rounds n" "pg_table d"]
    by (auto simp: pg_write_def Let_def same pg_rows_def pg_table_def split: option.splits prod.splits)
  show "d' = d \<and> (\<forall>r. x = Inr r \<longrightarrow> r = (if pg_rows d = [] then empty_report else bench_report ReadBench n elapsed))"
    if "pg_read fault n elapsed d = (x, d')"
    using that by (auto simp: pg_read_def pg_getRowCount_def pg_rows_def split: option.splits if_splits prod.splits)
  show "True \<and> pg_rows d' = []" if "pg_reset fault d = (Inr (), d')"
    using that by (auto simp: pg_reset_def Let_def pg_rows_def pg_table_def empty_table_def split: option.splits prod.splits)
  show "True \<and> (pg_rows d' = pg_rows d \<or> pg_rows d' = [])" if "pg_reset fault d = (Inl e, d')"
    using that
    by (auto simp: pg_reset_def Let_def pg_rows_def pg_table_def empty_table_def split: option.splits prod.splits if_splits)
qed

text \<open>The driver that the module made.\<close>

fun bench_ready :: "bench \<Rightarrow> bool" where
  "bench_ready (SqliteDriver d) = sqlite_ready d"
| "bench_ready (PgDriver d) = True"

fun bench_rows :: "bench \<Rightarrow> BenchRow list" where
  "bench_rows (SqliteDriver d) = sqlite_rows d"
| "bench_rows (PgDriver d) = pg_rows d"

fun bench_clients :: "bench \<Rightarrow> nat" where
  "bench_clients (SqliteDriver d) = 0"
| "bench_clients (PgDriver d) = pg_clients d"

text \<open>Only the server of PostgreSQL can commit without an answer.\<close>

fun commit_answer_lost :: "bench_fault \<Rightarrow> bench \<Rightarrow> bool" where
  "commit_answer_lost fault (SqliteDriver d) = False"
| "commit_answer_lost fault (PgDriver d) = commit_lost fault"

lemma map_prod_eq: "map_prod id c p = (x, d') \<longleftrightarrow> (\<exists>a. p = (x, a) \<and> d' = c a)"
  by (cases p) auto

lemma factory_ready: "bench_factory e sqlite pg = Inr b \<Longrightarrow> bench_ready b"
  by (auto simp: bench_factory_def and_then_Inr sqlite_ready_def sqlite_init_def split: if_splits)

interpretation module_bench: bench_driver bench_ready bench_rows "commit_answer_lost fault" "driver_write fault" "driver_read fault" "driver_reset fault" for fault
proof unfold_locales
  fix d d' :: bench and clock n elapsed r e x
  assume ready: "bench_ready d"
  show "bench_ready d' \<and> r = bench_report WriteBench n elapsed \<and>
      (\<exists>ids. length ids = loop_rounds n \<and> bench_rows d' = bench_rows d @ map (\<lambda>i. bench_row clock i (ids ! i)) [0..<loop_rounds n])"
    if w: "driver_write fault clock n elapsed d = (Inr r, d')"
  proof (cases d)
    case (SqliteDriver a)
    then obtain a' where "sqlite_write fault clock n elapsed a = (Inr r, a')" "d' = SqliteDriver a'"
      using w by (auto simp: map_prod_eq)
    then show ?thesis using sqlite_bench.write_ok [of a] ready SqliteDriver by simp
  next
    case (PgDriver a)
    then obtain a' where "pg_write fault clock n elapsed a = (Inr r, a')" "d' = PgDriver a'"
      using w by (auto simp: map_prod_eq)
    then show ?thesis using pg_bench.write_ok [of fault clock n elapsed a] PgDriver by simp
  qed
  show "bench_ready d' \<and> (bench_rows d' = bench_rows d \<or> commit_answer_lost fault d \<and>
      (\<exists>ids. length ids = loop_rounds n \<and> bench_rows d' = bench_rows d @ map (\<lambda>i. bench_row clock i (ids ! i)) [0..<loop_rounds n]))"
    if w: "driver_write fault clock n elapsed d = (Inl e, d')"
  proof (cases d)
    case (SqliteDriver a)
    then obtain a' where "sqlite_write fault clock n elapsed a = (Inl e, a')" "d' = SqliteDriver a'"
      using w by (auto simp: map_prod_eq)
    then show ?thesis using sqlite_bench.write_failed [of a] ready SqliteDriver by simp
  next
    case (PgDriver a)
    then obtain a' where "pg_write fault clock n elapsed a = (Inl e, a')" "d' = PgDriver a'"
      using w by (auto simp: map_prod_eq)
    then show ?thesis using pg_bench.write_failed [of fault clock n elapsed a] PgDriver by simp
  qed
  show "d' = d \<and> (\<forall>r. x = Inr r \<longrightarrow> r = (if bench_rows d = [] then empty_report else bench_report ReadBench n elapsed))"
    if "driver_read fault n elapsed d = (x, d')"
  proof (cases d)
    case (SqliteDriver a)
    then show ?thesis
      using that ready sqlite_bench.read_law [of a fault n elapsed x] by (auto simp: map_prod_eq)
  next
    case (PgDriver a)
    then show ?thesis using that pg_bench.read_law [OF TrueI, of fault n elapsed a x] by (auto simp: map_prod_eq)
  qed
  show "bench_ready d' \<and> bench_rows d' = []" if "driver_reset fault d = (Inr (), d')"
    using that ready sqlite_bench.reset_ok pg_bench.reset_ok [OF TrueI] by (cases d) (auto simp: map_prod_eq)
  show "bench_ready d' \<and> (bench_rows d' = bench_rows d \<or> bench_rows d' = [])" if z: "driver_reset fault d = (Inl e, d')"
  proof (cases d)
    case (SqliteDriver a)
    then obtain a' where "sqlite_reset fault a = (Inl e, a')" "d' = SqliteDriver a'" using z by (auto simp: map_prod_eq)
    then show ?thesis using sqlite_bench.reset_failed [of a fault e a'] ready SqliteDriver by simp
  next
    case (PgDriver a)
    then obtain a' where "pg_reset fault a = (Inl e, a')" "d' = PgDriver a'" using z by (auto simp: map_prod_eq)
    then show ?thesis using pg_bench.reset_failed [OF TrueI, of fault a e a'] PgDriver by simp
  qed
qed

text \<open>What a write adds: after the rows that were there, one for every round with its value.\<close>

definition rows_added :: "nat \<Rightarrow> BenchRow list \<Rightarrow> BenchRow list \<Rightarrow> bool" where
  "rows_added rounds before after \<longleftrightarrow>
     length after = length before + rounds \<and> take (length before) after = before \<and>
     map bw_value (drop (length before) after) = map bench_value [0..<rounds]"

lemma rows_addedI:
  "after = before @ map (\<lambda>i. bench_row clock i (ids ! i)) [0..<rounds] \<Longrightarrow> rows_added rounds before after"
  by (simp add: rows_added_def bench_row_def comp_def)

text \<open>C38. The database benchmark, whichever driver the environment selects and whichever statements throw. A
  write benchmark stores one row for every round after the rows that were there, or none: when it
  succeeds it has stored them, and when it fails it has stored none, unless the answer of PostgreSQL to
  the \<open>COMMIT\<close> was lost. Every connection goes back to the pool. Reading changes nothing and reports
  zeros exactly on an empty table. A reset that succeeds empties the table, and one that fails has
  emptied it or left it as it was (\<open>VACUUM\<close> comes after the rows are gone).\<close>

theorem benchmarks_are_all_or_nothing:
  assumes "bench_factory env sqlite pg = Inr b"
    and "driver_write fault clock n elapsed b = (x, b1)" and "driver_read fault m took b1 = (y, b2)"
    and "driver_reset fault b2 = (z, b3)"
  shows "bench_clients b1 = bench_clients b \<and>
         (if isl x
          then bench_rows b1 = bench_rows b \<or>
               commit_answer_lost fault b \<and> rows_added (loop_rounds n) (bench_rows b) (bench_rows b1)
          else rows_added (loop_rounds n) (bench_rows b) (bench_rows b1)) \<and>
         b2 = b1 \<and> (\<forall>r. y = Inr r \<longrightarrow> r = (if bench_rows b1 = [] then empty_report else bench_report ReadBench m took)) \<and>
         (bench_rows b3 = [] \<or> isl z \<and> bench_rows b3 = bench_rows b1)"
proof -
  note start = factory_ready [OF assms(1)]
  have clients: "bench_clients b1 = bench_clients b"
    using assms(2) pg_write_released by (cases b) (auto simp: map_prod_eq)
  have written: "bench_ready b1 \<and>
      (if isl x then bench_rows b1 = bench_rows b \<or>
          commit_answer_lost fault b \<and> rows_added (loop_rounds n) (bench_rows b) (bench_rows b1)
       else rows_added (loop_rounds n) (bench_rows b) (bench_rows b1))"
  proof (cases x)
    case (Inl e)
    then show ?thesis
      using module_bench.write_failed [OF start, of fault clock n elapsed e b1] assms(2) rows_addedI by fastforce
  next
    case (Inr r)
    then show ?thesis using module_bench.write_ok [OF start, of fault clock n elapsed r b1] assms(2) rows_addedI by fastforce
  qed
  then have ready: "bench_ready b1" by blast
  have rd: "b2 = b1" "\<forall>r. y = Inr r \<longrightarrow> r = (if bench_rows b1 = [] then empty_report else bench_report ReadBench m took)"
    using module_bench.read_law [OF ready assms(3)] by blast+
  have "bench_rows b3 = [] \<or> isl z \<and> bench_rows b3 = bench_rows b1"
  proof (cases z)
    case (Inl e)
    then show ?thesis using module_bench.reset_failed [OF ready, of fault e b3] assms(4) rd(1) by auto
  next
    case (Inr u)
    then show ?thesis using module_bench.reset_ok [OF ready, of fault b3] assms(4) rd(1) by simp
  qed
  then show ?thesis using clients written rd by blast
qed

definition pg_env :: env where
  "pg_env = (\<lambda>_. None)(''BENCH_DB_DRIVER'' \<mapsto> ''postgresql'', ''BENCH_PG_HOST'' \<mapsto> ''h'', ''BENCH_PG_PORT'' \<mapsto> ''5432'',
     ''BENCH_PG_DATABASE'' \<mapsto> ''d'', ''BENCH_PG_USER'' \<mapsto> ''u'', ''BENCH_PG_PASSWORD'' \<mapsto> ''p'')"

theorem benchmarks_are_all_or_nothing_witness:
  "\<exists>b. bench_factory pg_env (sqlite_file None) \<lparr>pb_table = None, pg_clients = 0\<rparr> = Inr b \<and>
       (let fault = (\<lambda>s. if s = Insert 1 then Some (''disk full'', False) else None);
            b1 = snd (driver_write fault (\<lambda>i. (5, 6)) 2 3 b); b2 = snd (driver_write fault (\<lambda>i. (5, 6)) 1 3 b1)
        in bench_clients b1 = bench_clients b \<and> bench_rows b1 = bench_rows b \<and> length (bench_rows b2) = 1)"
proof -
  let ?f = "bench_factory pg_env (sqlite_file None) \<lparr>pb_table = None, pg_clients = 0\<rparr>"
  let ?fault = "\<lambda>s. if s = Insert 1 then Some (''disk full'', False) else None"
  have "\<not> isl ?f" by code_simp
  then have b: "?f = Inr (projr ?f)" by (cases ?f) simp_all
  let ?b = "projr ?f"
  obtain x b1 where w: "driver_write ?fault (\<lambda>i. (5, 6)) 2 3 ?b = (x, b1)" by fastforce
  obtain y b2 where r: "driver_read ?fault 2 3 b1 = (y, b2)" by fastforce
  obtain z b3 where s: "driver_reset ?fault b2 = (z, b3)" by fastforce
  have "isl (fst (driver_write ?fault (\<lambda>i. (5, 6)) 2 3 ?b))" by code_simp
  then have failed: "isl x" by (simp only: w fst_conv)
  have "\<not> commit_answer_lost ?fault ?b" by (cases ?b) (simp_all add: commit_lost_def)
  then have "bench_clients b1 = bench_clients ?b \<and> bench_rows b1 = bench_rows ?b"
    using benchmarks_are_all_or_nothing [OF b w r s] by (simp only: failed if_True simp_thms)
  moreover have "length (bench_rows (snd (driver_write ?fault (\<lambda>i. (5, 6)) 1 3 (snd (driver_write ?fault (\<lambda>i. (5, 6)) 2 3 ?b))))) = 1"
    by code_simp
  ultimately show ?thesis using b by (intro exI [of _ ?b]) (simp only: w Let_def snd_conv simp_thms)
qed

text \<open>A \<open>VACUUM\<close> that throws, on a full disk say, leaves an empty table behind a failed reset.\<close>

lemma failed_vacuum_empties_the_table:
  assumes "sqlite_ready d" and "fault DeleteRows = None" and "fault Vacuum = Some (e, c)"
  shows "\<exists>d'. driver_reset fault (SqliteDriver d) = (Inl e, SqliteDriver d') \<and> sqlite_rows d' = []"
  using assms by (auto simp: sqlite_reset_def with_table_ready sqlite_rows_def Let_def)

text \<open>The key reads of a read benchmark find nothing that a write benchmark stored.\<close>

lemma benchmark_keys_miss:
  assumes "bench_ready b" "bench_rows b = []" "driver_write fault clock n elapsed b = (Inr r, b1)" "\<forall>i. 0 \<le> fst (clock i)"
    and "bench_query_at rowCount i = SelectByKey k"
  shows "\<forall>row \<in> set (bench_rows b1). bw_key row \<noteq> k"
proof -
  have "\<forall>row \<in> set (bench_rows b1). take 15 (bw_key row) \<noteq> ''key-nonexistent''"
    using module_bench.written_keys [OF assms(1,3)] assms(2,4) by simp
  moreover have "take 15 k = ''key-nonexistent''" using assms(5) by (auto simp: bench_query_at_def split: if_splits)
  ultimately show ?thesis by blast
qed

end
