(* ===== verification/Worker.thy ===== *)
theory Worker
  imports QueueSystem Json
begin

text \<open>
  The worker thread (\<open>src/queue/worker.js\<close>): the processors of each workload type, the timeout
  wrapper and the message handler that answers the pool.

  Node and V8 supply what the script does not contain, as arguments. \<open>rnd k\<close> is the value of the
  \<open>k\<close>-th call of \<open>Math.random\<close> in an operation, \<open>run_code\<close> is what \<open>new Function\<close> makes of the
  code of a custom task and what calling it does, and \<open>Proto\<close> is what \<open>processors[type]\<close> and
  \<open>processor[operation]\<close> find on \<open>Object.prototype\<close> when the object has no such property of its own.
  Numbers are exact rationals: the rounding of the products and sums of doubles in
  \<open>matrixMultiply\<close> and \<open>largeArray\<close> is not modelled, while \<open>findPrimes\<close> and \<open>fibonacci\<close> stay
  among the integers a double holds exactly. Exhaustion of the heap is not modelled.
\<close>

section \<open>JavaScript: conversions and arrays\<close>

datatype js_fault = InvalidArrayLength | NotPrimitive | NoProperty string string | StackOverflow

datatype worker_error =
    InvalidRequest
  | UnsupportedType string
  | UnsupportedOperation string string
  | CustomOff
  | NoFunctionCode
  | FunctionFailed "string option"
  | TimedOut int
  | Fault js_fault
  | Raised string
  | RaisedOther

text \<open>\<open>params.name\<close>: reading a property of \<open>null\<close> or \<open>undefined\<close> throws; the other values that
  are not objects have no property of the names used here.\<close>

fun property_of :: "jsval \<Rightarrow> string \<Rightarrow> worker_error + jsval" where
  "property_of Undefined k = Inl (Fault (NoProperty ''undefined'' k))"
| "property_of Null k = Inl (Fault (NoProperty ''null'' k))"
| "property_of (Obj ob) k = Inr (prop_of ob k)"
| "property_of _ k = Inr Undefined"

text \<open>\<open>ToNumber\<close>. An array is converted through the text of its elements joined by commas, so with
  two elements or more it is NaN. An object is NaN, and one with an own \<open>toString\<close>, which is no
  function because it came through a message, cannot be converted.\<close>

fun unprintable :: "jsval \<Rightarrow> bool" where
  "unprintable (Obj ob) = (map_of ob ''toString'' \<noteq> None)"
| "unprintable (Arr vs) = list_ex unprintable vs"
| "unprintable _ = False"

fun text_number :: "jsval \<Rightarrow> jsnum" where
  "text_number Undefined = Fin 0"
| "text_number Null = Fin 0"
| "text_number (Bool b) = NaN"
| "text_number (Num n) = n"
| "text_number (Str s) = string_to_number s"
| "text_number (Arr []) = Fin 0"
| "text_number (Arr [v]) = text_number v"
| "text_number (Arr (v # w # vs)) = NaN"
| "text_number (Obj ob) = NaN"

definition to_number :: "jsval \<Rightarrow> worker_error + jsnum" where
  "to_number v =
     (if unprintable v then Inl (Fault NotPrimitive)
      else Inr (case v of Undefined \<Rightarrow> NaN | Bool b \<Rightarrow> Fin (if b then 1 else 0) | _ \<Rightarrow> text_number v))"

fun math_min :: "jsnum \<Rightarrow> rat \<Rightarrow> jsnum" where
  "math_min (Fin r) cap = Fin (min r cap)"
| "math_min PosInf cap = Fin cap"
| "math_min NegInf cap = NegInf"
| "math_min NaN cap = NaN"

text \<open>\<open>Math.min(params.name || preset, cap)\<close>.\<close>

definition capped_param :: "string \<Rightarrow> rat \<Rightarrow> rat \<Rightarrow> jsval \<Rightarrow> worker_error + jsnum" where
  "capped_param name preset cap ps =
     and_then (property_of ps name) (\<lambda>v.
     and_then (to_number (if truthy v then v else Num (Fin preset))) (\<lambda>n.
     Inr (math_min n cap)))"

text \<open>The length of \<open>new Array(n)\<close>, and \<open>ToLength(n)\<close> that \<open>Array.from({ length: n })\<close> uses.\<close>

fun array_length :: "jsnum \<Rightarrow> worker_error + nat" where
  "array_length (Fin r) =
     (if of_int \<lfloor>r\<rfloor> = r \<and> 0 \<le> r \<and> r < 4294967296 then Inr (nat \<lfloor>r\<rfloor>) else Inl (Fault InvalidArrayLength))"
| "array_length _ = Inl (Fault InvalidArrayLength)"

fun to_length :: "jsnum \<Rightarrow> nat" where
  "to_length (Fin r) = nat \<lfloor>r\<rfloor>"
| "to_length PosInf = 9007199254740991"
| "to_length _ = 0"

text \<open>The number of rounds of \<open>for (let i = 0; i < n; i++)\<close> for a bound below infinity.\<close>

fun rounds :: "jsnum \<Rightarrow> nat" where
  "rounds (Fin r) = nat \<lceil>r\<rceil>"
| "rounds _ = 0"

definition num_nat :: "nat \<Rightarrow> jsval" where
  "num_nat n = Num (Fin (of_nat n))"

section \<open>Processors\<close>

text \<open>The inner and the outer loop of the sieve. The inner loop is entered with \<open>i\<close> at least two;
  the test for zero only makes the recursion total.\<close>

function cross_out :: "nat \<Rightarrow> nat \<Rightarrow> nat \<Rightarrow> bool list \<Rightarrow> bool list" where
  "cross_out limit i j sieve =
     (if j < limit \<and> i \<noteq> 0 then cross_out limit i (j + i) (sieve[j := False]) else sieve)"
  by pat_completeness auto
termination by (relation "measure (\<lambda>(limit, i, j, sieve). limit - j)") auto

function sieve_from :: "nat \<Rightarrow> nat \<Rightarrow> bool list \<Rightarrow> bool list" where
  "sieve_from limit i sieve =
     (if i * i < limit then sieve_from limit (i + 1) (if sieve ! i then cross_out limit i (i * i) sieve else sieve)
      else sieve)"
  by pat_completeness auto
termination
  by (relation "measure (\<lambda>(limit, i, sieve). limit - i)")
    (auto dest: le_less_trans [OF le_square])

declare cross_out.simps [simp del] sieve_from.simps [simp del]

record PrimeReport =
  primeCount :: nat
  first10Primes :: "nat list"
  last10Primes :: "nat list"

definition push_last :: "nat \<Rightarrow> nat list \<Rightarrow> nat list" where
  "push_last i last10 = (if length last10 = 10 then tl last10 else last10) @ [i]"

definition note_prime :: "bool list \<Rightarrow> nat \<Rightarrow> PrimeReport \<Rightarrow> PrimeReport" where
  "note_prime sieve i r =
     (if \<not> sieve ! i then r
      else \<lparr>primeCount = primeCount r + 1,
            first10Primes = (if length (first10Primes r) < 10 then first10Primes r @ [i] else first10Primes r),
            last10Primes = push_last i (last10Primes r)\<rparr>)"

definition primes_below :: "nat \<Rightarrow> PrimeReport" where
  "primes_below limit =
     (let sieve = arr_set False 1 False (arr_set False 0 False (replicate limit True));
          sieve = sieve_from limit 2 sieve
      in fold (note_prime sieve) [2..<limit] \<lparr>primeCount = 0, first10Primes = [], last10Primes = []\<rparr>)"

definition findPrimes :: "jsval \<Rightarrow> worker_error + jsval" where
  "findPrimes ps =
     and_then (capped_param ''max'' 1000000 2000000 ps) (\<lambda>n.
     and_then (array_length n) (\<lambda>limit.
     let r = primes_below limit in
     Inr (Obj [(''primeCount'', num_nat (primeCount r)),
               (''first10Primes'', Arr (map num_nat (first10Primes r))),
               (''last10Primes'', Arr (map num_nat (last10Primes r)))])))"

fun fib_loop :: "nat \<Rightarrow> nat \<Rightarrow> nat \<Rightarrow> nat" where
  "fib_loop 0 a b = a"
| "fib_loop (Suc m) a b = fib_loop m b (a + b)"

definition fibonacci :: "jsval \<Rightarrow> worker_error + jsval" where
  "fibonacci ps =
     and_then (capped_param ''n'' 40 45 ps) (\<lambda>n.
     Inr (Obj [(''n'', Num n), (''result'', num_nat (fib_loop (rounds n) 0 1))]))"

type_synonym matrix = "rat list list"

definition random_matrix :: "(nat \<Rightarrow> rat) \<Rightarrow> nat \<Rightarrow> nat \<Rightarrow> matrix" where
  "random_matrix rnd k sz = map (\<lambda>i. map (\<lambda>j. rnd (k + i * sz + j)) [0..<sz]) [0..<sz]"

text \<open>The three nested loops over \<open>c[i][j] += a[i][k] * b[k][j]\<close>.\<close>

definition add_at :: "nat \<Rightarrow> nat \<Rightarrow> rat \<Rightarrow> matrix \<Rightarrow> matrix" where
  "add_at i j v c = c[i := (c ! i)[j := c ! i ! j + v]]"

definition mult_row :: "matrix \<Rightarrow> rat \<Rightarrow> nat \<Rightarrow> nat \<Rightarrow> nat \<Rightarrow> matrix \<Rightarrow> matrix" where
  "mult_row b aik i k sz c = fold (\<lambda>j. add_at i j (aik * b ! k ! j)) [0..<sz] c"

definition multiply :: "matrix \<Rightarrow> matrix \<Rightarrow> nat \<Rightarrow> matrix" where
  "multiply a b sz =
     fold (\<lambda>i. fold (\<lambda>k. mult_row b (a ! i ! k) i k sz) [0..<sz]) [0..<sz]
       (replicate sz (replicate sz 0))"

text \<open>\<open>Array(size)\<close> is called for every row, so a fractional size throws as soon as there is a row;
  without a row, \<open>c[0]\<close> is undefined.\<close>

definition matrixMultiply :: "(nat \<Rightarrow> rat) \<Rightarrow> jsval \<Rightarrow> worker_error + jsval" where
  "matrixMultiply rnd ps =
     and_then (capped_param ''size'' 80 120 ps) (\<lambda>n.
     if to_length n = 0 then Inl (Fault (NoProperty ''undefined'' ''0''))
     else and_then (array_length n) (\<lambda>sz.
       let c = multiply (random_matrix rnd 0 sz) (random_matrix rnd (sz * sz) sz) sz in
       Inr (Obj [(''size'', Num n), (''sample'', Num (Fin (c ! 0 ! 0))),
                 (''operationCount'', num_nat (sz * sz * sz))])))"

definition largeArray :: "(nat \<Rightarrow> rat) \<Rightarrow> jsval \<Rightarrow> worker_error + jsval" where
  "largeArray rnd ps =
     and_then (capped_param ''sizeInMB'' 10 256 ps) (\<lambda>n.
     and_then (array_length (case n of Fin sizeInMB \<Rightarrow> Fin (of_int \<lfloor>sizeInMB * 1024 * 1024 / 8\<rfloor>) | _ \<Rightarrow> n)) (\<lambda>elementCount.
     let arr = map rnd [0..<elementCount]; sum = fold (\<lambda>value sum. sum + value) arr 0 in
     Inr (Obj [(''arraySize'', num_nat (length arr)), (''sum'', Num (Fin sum)),
               (''average'', Num (Fin (if length arr > 0 then sum / of_nat (length arr) else 0))),
               (''memoryMB'', Num (Fin (of_int \<lfloor>of_nat (length arr) * 8 / 1024 / 1024 :: rat\<rfloor>)))])))"

text \<open>\<open>createNestedObject\<close> with \<open>depth\<close> levels left, threading the number of \<open>Math.random\<close> calls.\<close>

fun nested_object :: "(nat \<Rightarrow> rat) \<Rightarrow> nat \<Rightarrow> nat \<Rightarrow> nat \<Rightarrow> jsval \<times> nat" where
  "nested_object rnd width 0 k = (Obj [(''value'', Num (Fin (rnd k)))], k + 1)"
| "nested_object rnd width (Suc d) k =
     (let (node, k') = fold (\<lambda>i (node, k). let (v, k') = nested_object rnd width d k
                                            in (node @ [(''prop'' @ show_digits i, v)], k'))
                         [0..<width] ([], k)
      in (Obj node, k'))"

text \<open>A depth of NaN is not at most zero at any level, so the recursion does not end unless the
  loop over the properties has no round.\<close>

definition objectCloning :: "(nat \<Rightarrow> rat) \<Rightarrow> jsval \<Rightarrow> worker_error + jsval" where
  "objectCloning rnd ps =
     and_then (capped_param ''depth'' 4 6 ps) (\<lambda>depth.
     and_then (capped_param ''width'' 30 50 ps) (\<lambda>width.
     if depth = NaN \<and> 0 < rounds width then Inl (Fault StackOverflow)
     else
       let original = (if depth = NaN then Obj [] else fst (nested_object rnd (rounds width) (rounds depth) 0));
           cloned = json_clone original
       in Inr (Obj [(''objectDepth'', Num depth), (''objectWidth'', Num width), (''success'', Bool (truthy cloned))])))"

text \<open>What a call of the compiled custom code does. \<open>Hangs\<close>: it runs for ever, or it returns a
  promise that never settles. \<open>Unclonable\<close>: it returns a value that \<open>postMessage\<close> refuses, with
  the text of that error.\<close>

datatype call_outcome =
    Returns jsval
  | Throws string
  | ThrowsOther
  | LaterThrows string
  | LaterThrowsOther
  | Unclonable string
  | Hangs

type_synonym run_code = "string \<Rightarrow> jsval \<Rightarrow> call_outcome"

text \<open>\<open>execute\<close>: an exception of the code is wrapped, a promise it returns is passed on.\<close>

definition execute_custom :: "bool \<Rightarrow> run_code \<Rightarrow> jsval \<Rightarrow> string option \<Rightarrow> call_outcome + worker_error" where
  "execute_custom ALLOW_CUSTOM_WORKLOAD run_code ps fc =
     (if \<not> ALLOW_CUSTOM_WORKLOAD then Inr CustomOff
      else if \<not> present fc then Inr NoFunctionCode
      else case run_code (the fc) ps of
             Throws m \<Rightarrow> Inr (FunctionFailed (Some m))
           | ThrowsOther \<Rightarrow> Inr (FunctionFailed None)
           | other \<Rightarrow> Inl other)"

text \<open>Every operation as a call: a value, an exception, or the fate of a promise.\<close>

fun call_of :: "worker_error + jsval \<Rightarrow> call_outcome + worker_error" where
  "call_of (Inl e) = Inr e"
| "call_of (Inr v) = Inl (Returns v)"

record Runtime =
  rt_random :: "nat \<Rightarrow> rat"
  rt_code :: run_code
  rt_allowCustom :: bool

type_synonym operation_fn = "Runtime \<Rightarrow> jsval \<Rightarrow> string option \<Rightarrow> call_outcome + worker_error"

definition processors :: "(string \<times> (string \<times> operation_fn) list) list" where
  "processors =
     [(''system'', [(''ping'', \<lambda>rt ps fc. Inl (Returns (Obj [(''pong'', Bool True)])))]),
      (''cpu'',
        [(''findPrimes'', \<lambda>rt ps fc. call_of (findPrimes ps)),
         (''fibonacci'', \<lambda>rt ps fc. call_of (fibonacci ps)),
         (''matrixMultiply'', \<lambda>rt ps fc. call_of (matrixMultiply (rt_random rt) ps))]),
      (''memory'',
        [(''largeArray'', \<lambda>rt ps fc. call_of (largeArray (rt_random rt) ps)),
         (''objectCloning'', \<lambda>rt ps fc. call_of (objectCloning (rt_random rt) ps))]),
      (''custom'', [(''execute'', \<lambda>rt ps fc. execute_custom (rt_allowCustom rt) (rt_code rt) ps fc)])]"

section \<open>Timeout and message handler\<close>

text \<open>\<open>withTimeout\<close>. The function is called before control can return to the event loop, and both
  ways out of the call clear the timer: the promise takes the fate of the call, and the timer's
  callback is not run. \<open>None\<close> is a promise that never settles.\<close>

definition withTimeout :: "call_outcome + worker_error \<Rightarrow> int \<Rightarrow> (call_outcome + worker_error) option" where
  "withTimeout fn timeout = (case fn of Inl Hangs \<Rightarrow> None | result \<Rightarrow> Some result)"

definition DEFAULT_TIMEOUTS :: "(string \<times> int) list" where
  "DEFAULT_TIMEOUTS = [(''cpu'', 30000), (''memory'', 15000), (''custom'', 10000), (''system'', 1000)]"

record WorkerData =
  wd_type :: "string option"
  wd_operation :: "string option"
  wd_params :: jsval
  wd_functionCode :: "string option"
  wd_timeout :: "int option"

record Proto =
  proto_types :: "string \<Rightarrow> (string \<Rightarrow> operation_fn option) option"
  proto_ops :: "string \<Rightarrow> operation_fn option"

definition processor_of :: "Proto \<Rightarrow> string \<Rightarrow> (string \<Rightarrow> operation_fn option) option" where
  "processor_of proto type =
     (case map_of processors type of
        Some ops \<Rightarrow> Some (\<lambda>operation. case map_of ops operation of Some f \<Rightarrow> Some f | None \<Rightarrow> proto_ops proto operation)
      | None \<Rightarrow> proto_types proto type)"

text \<open>The texts of the errors; the last part of the list has those of V8.\<close>

fun worker_error_message :: "worker_error \<Rightarrow> string" where
  "worker_error_message InvalidRequest =
      [CHR 0xEC, CHR 0x9C, CHR 0xA0, CHR 0xED, CHR 0x9A, CHR 0xA8, CHR 0xED, CHR 0x95, CHR 0x98,
      CHR 0xEC, CHR 0xA7, CHR 0x80] @ '' '' @ [CHR 0xEC, CHR 0x95, CHR 0x8A, CHR 0xEC, CHR 0x9D,
      CHR 0x80] @ '' '' @ [CHR 0xEC, CHR 0x9E, CHR 0x91, CHR 0xEC, CHR 0x97, CHR 0x85] @ '' '' @
      [CHR 0xEC, CHR 0x9A, CHR 0x94, CHR 0xEC, CHR 0xB2, CHR 0xAD] @ '': type'' @ [CHR 0xEA,
      CHR 0xB3, CHR 0xBC] @ '' operation'' @ [CHR 0xEC, CHR 0x9D, CHR 0xB4] @ '' '' @ [CHR 0xED,
      CHR 0x95, CHR 0x84, CHR 0xEC, CHR 0x9A, CHR 0x94, CHR 0xED, CHR 0x95, CHR 0xA9, CHR 0xEB,
      CHR 0x8B, CHR 0x88, CHR 0xEB, CHR 0x8B, CHR 0xA4]"
| "worker_error_message (UnsupportedType type) =
      [CHR 0xEC, CHR 0xA7, CHR 0x80, CHR 0xEC, CHR 0x9B, CHR 0x90, CHR 0xEB, CHR 0x90, CHR 0x98,
      CHR 0xEC, CHR 0xA7, CHR 0x80] @ '' '' @ [CHR 0xEC, CHR 0x95, CHR 0x8A, CHR 0xEB, CHR 0x8A,
      CHR 0x94] @ '' '' @ [CHR 0xEC, CHR 0x9E, CHR 0x91, CHR 0xEC, CHR 0x97, CHR 0x85] @ '' '' @
      [CHR 0xEC, CHR 0x9C, CHR 0xA0, CHR 0xED, CHR 0x98, CHR 0x95] @ '': '' @ type"
| "worker_error_message (UnsupportedOperation type operation) =
      [CHR 0x27] @ type @ [CHR 0x27] @ '' '' @ [CHR 0xEC, CHR 0x9C, CHR 0xA0, CHR 0xED, CHR 0x98, CHR 0x95, CHR 0xEC, CHR 0x97,
      CHR 0x90, CHR 0xEC, CHR 0x84, CHR 0x9C] @ '' '' @ [CHR 0xEC, CHR 0xA7, CHR 0x80, CHR 0xEC,
      CHR 0x9B, CHR 0x90, CHR 0xEB, CHR 0x90, CHR 0x98, CHR 0xEC, CHR 0xA7, CHR 0x80] @ '' '' @
      [CHR 0xEC, CHR 0x95, CHR 0x8A, CHR 0xEB, CHR 0x8A, CHR 0x94] @ '' '' @ [CHR 0xEC, CHR 0x9E,
      CHR 0x91, CHR 0xEC, CHR 0x97, CHR 0x85] @ '': '' @ operation"
| "worker_error_message CustomOff =
      ''custom workload '' @ [CHR 0xEA, CHR 0xB8, CHR 0xB0, CHR 0xEB, CHR 0x8A, CHR 0xA5,
      CHR 0xEC, CHR 0x9D, CHR 0xB4] @ '' '' @ [CHR 0xEB, CHR 0xB9, CHR 0x84, CHR 0xED, CHR 0x99,
      CHR 0x9C, CHR 0xEC, CHR 0x84, CHR 0xB1, CHR 0xED, CHR 0x99, CHR 0x94, CHR 0xEB, CHR 0x90,
      CHR 0x98, CHR 0xEC, CHR 0x96, CHR 0xB4] @ '' '' @ [CHR 0xEC, CHR 0x9E, CHR 0x88, CHR 0xEC,
      CHR 0x8A, CHR 0xB5, CHR 0xEB, CHR 0x8B, CHR 0x88, CHR 0xEB, CHR 0x8B, CHR 0xA4]"
| "worker_error_message NoFunctionCode =
      [CHR 0xEC, CHR 0x8B, CHR 0xA4, CHR 0xED, CHR 0x96, CHR 0x89, CHR 0xED, CHR 0x95, CHR 0xA0] @
      '' '' @ [CHR 0xED, CHR 0x95, CHR 0xA8, CHR 0xEC, CHR 0x88, CHR 0x98] @ '' '' @ [CHR 0xEC,
      CHR 0xBD, CHR 0x94, CHR 0xEB, CHR 0x93, CHR 0x9C, CHR 0xEA, CHR 0xB0, CHR 0x80] @ '' '' @
      [CHR 0xEC, CHR 0xA0, CHR 0x9C, CHR 0xEA, CHR 0xB3, CHR 0xB5, CHR 0xEB, CHR 0x90, CHR 0x98,
      CHR 0xEC, CHR 0xA7, CHR 0x80] @ '' '' @ [CHR 0xEC, CHR 0x95, CHR 0x8A, CHR 0xEC, CHR 0x95,
      CHR 0x98, CHR 0xEC, CHR 0x8A, CHR 0xB5, CHR 0xEB, CHR 0x8B, CHR 0x88, CHR 0xEB, CHR 0x8B,
      CHR 0xA4]"
| "worker_error_message (FunctionFailed (Some m)) =
      [CHR 0xED, CHR 0x95, CHR 0xA8, CHR 0xEC, CHR 0x88, CHR 0x98] @ '' '' @ [CHR 0xEC, CHR 0x8B,
      CHR 0xA4, CHR 0xED, CHR 0x96, CHR 0x89] @ '' '' @ [CHR 0xEC, CHR 0xA4, CHR 0x91] @ '' '' @
      [CHR 0xEC, CHR 0x98, CHR 0xA4, CHR 0xEB, CHR 0xA5, CHR 0x98] @ '': '' @ m"
| "worker_error_message (FunctionFailed None) =
      [CHR 0xED, CHR 0x95, CHR 0xA8, CHR 0xEC, CHR 0x88, CHR 0x98] @ '' '' @ [CHR 0xEC, CHR 0x8B,
      CHR 0xA4, CHR 0xED, CHR 0x96, CHR 0x89] @ '' '' @ [CHR 0xEC, CHR 0xA4, CHR 0x91] @ '' '' @
      [CHR 0xEC, CHR 0x95, CHR 0x8C] @ '' '' @ [CHR 0xEC, CHR 0x88, CHR 0x98] @ '' '' @ [CHR 0xEC,
      CHR 0x97, CHR 0x86, CHR 0xEB, CHR 0x8A, CHR 0x94] @ '' '' @ [CHR 0xEC, CHR 0x98, CHR 0xA4,
      CHR 0xEB, CHR 0xA5, CHR 0x98]"
| "worker_error_message (TimedOut timeout) =
      [CHR 0xEC, CHR 0x9E, CHR 0x91, CHR 0xEC, CHR 0x97, CHR 0x85] @ '' '' @ [CHR 0xEC, CHR 0x8B,
      CHR 0xA4, CHR 0xED, CHR 0x96, CHR 0x89] @ '' '' @ [CHR 0xEC, CHR 0x8B, CHR 0x9C, CHR 0xEA,
      CHR 0xB0, CHR 0x84, CHR 0xEC, CHR 0x9D, CHR 0xB4] @ '' '' @ show_int timeout @
      ''ms'' @ [CHR 0xEB, CHR 0xA5, CHR 0xBC] @ '' '' @ [CHR 0xEC, CHR 0xB4, CHR 0x88, CHR 0xEA,
      CHR 0xB3, CHR 0xBC, CHR 0xED, CHR 0x96, CHR 0x88, CHR 0xEC, CHR 0x8A, CHR 0xB5, CHR 0xEB,
      CHR 0x8B, CHR 0x88, CHR 0xEB, CHR 0x8B, CHR 0xA4]"
| "worker_error_message (Raised m) = m"
| "worker_error_message RaisedOther =
      [CHR 0xEC, CHR 0x95, CHR 0x8C] @ '' '' @ [CHR 0xEC, CHR 0x88, CHR 0x98] @ '' '' @ [CHR 0xEC,
      CHR 0x97, CHR 0x86, CHR 0xEB, CHR 0x8A, CHR 0x94] @ '' '' @ [CHR 0xEC, CHR 0x98, CHR 0xA4,
      CHR 0xEB, CHR 0xA5, CHR 0x98]"
| "worker_error_message (Fault InvalidArrayLength) = ''Invalid array length''"
| "worker_error_message (Fault NotPrimitive) = ''Cannot convert object to primitive value''"
| "worker_error_message (Fault (NoProperty v k)) = ''Cannot read properties of '' @ v @ '' (reading '' @ [CHR 0x27] @ k @ [CHR 0x27] @ '')''"
| "worker_error_message (Fault StackOverflow) = ''Maximum call stack size exceeded''"

record Posted =
  po_message :: WorkerMessage
  po_operation :: "string option"
  po_duration :: "int option"

definition succeeded_with :: "jsval \<Rightarrow> WorkerMessage" where
  "succeeded_with v = \<lparr>msg_success = True, msg_result = v, msg_error = None, msg_initialized = False, msg_healthCheck = False\<rparr>"

definition failed_with :: "worker_error \<Rightarrow> WorkerMessage" where
  "failed_with e =
     \<lparr>msg_success = False, msg_result = Undefined, msg_error = Some (worker_error_message e),
      msg_initialized = False, msg_healthCheck = False\<rparr>"

definition text_of :: "string option \<Rightarrow> string" where
  "text_of s = (case s of None \<Rightarrow> ''undefined'' | Some t \<Rightarrow> t)"

text \<open>The part of the handler inside \<open>try\<close>: the settled result, \<open>None\<close> when it never settles.\<close>

definition handle_request :: "Proto \<Rightarrow> Runtime \<Rightarrow> WorkerData \<Rightarrow> (call_outcome + worker_error) option" where
  "handle_request proto rt d =
     (if \<not> present (wd_type d) \<or> \<not> present (wd_operation d) then Some (Inr InvalidRequest)
      else
        let type = the (wd_type d); operation = the (wd_operation d);
            ps = (if wd_params d = Undefined then Obj [] else wd_params d)
        in case processor_of proto type of
             None \<Rightarrow> Some (Inr (UnsupportedType type))
           | Some processor \<Rightarrow>
               (case processor operation of
                  None \<Rightarrow> Some (Inr (UnsupportedOperation type operation))
                | Some operationFn \<Rightarrow>
                    let timeoutValue =
                          (case wd_timeout d of
                             Some t \<Rightarrow> if t \<noteq> 0 then t else (case map_of DEFAULT_TIMEOUTS type of Some t \<Rightarrow> t | None \<Rightarrow> 10000)
                           | None \<Rightarrow> (case map_of DEFAULT_TIMEOUTS type of Some t \<Rightarrow> t | None \<Rightarrow> 10000))
                    in withTimeout (operationFn rt ps (wd_functionCode d)) timeoutValue))"

text \<open>The error that reaches the \<open>catch\<close>, from the call, from the promise it returned or from
  \<open>postMessage\<close>; \<open>Inr\<close> is the value of the \<open>await\<close>.\<close>

fun awaited :: "call_outcome + worker_error \<Rightarrow> worker_error + jsval" where
  "awaited (Inr e) = Inl e"
| "awaited (Inl (Returns v)) = Inr v"
| "awaited (Inl (Throws m)) = Inl (Raised m)"
| "awaited (Inl (LaterThrows m)) = Inl (Raised m)"
| "awaited (Inl (Unclonable m)) = Inl (Raised m)"
| "awaited (Inl _) = Inl RaisedOther"

definition worker_on_message :: "Proto \<Rightarrow> Runtime \<Rightarrow> int \<Rightarrow> int \<Rightarrow> WorkerData \<Rightarrow> Posted option" where
  "worker_on_message proto rt startedAt now d =
     (let operationName = text_of (wd_type d) @ '':'' @ text_of (wd_operation d) in
      map_option (\<lambda>r.
        case awaited r of
          Inr result \<Rightarrow>
            if wd_type d = Some ''system'' \<and> wd_operation d = Some ''ping'' then
              \<lparr>po_message = (succeeded_with result)\<lparr>msg_healthCheck := True\<rparr>, po_operation = None, po_duration = None\<rparr>
            else
              \<lparr>po_message = succeeded_with result, po_operation = Some operationName, po_duration = Some (now - startedAt)\<rparr>
        | Inl e \<Rightarrow>
            \<lparr>po_message = failed_with e, po_operation = Some operationName, po_duration = Some (now - startedAt)\<rparr>)
      (handle_request proto rt d))"

text \<open>The message a fresh worker posts, with its supported types and operations.\<close>

record InitMessage =
  im_message :: WorkerMessage
  im_supportedTypes :: "string list"
  im_supportedOperations :: "(string \<times> string list) list"

definition worker_started :: InitMessage where
  "worker_started =
     \<lparr>im_message = (succeeded_with Undefined)\<lparr>msg_initialized := True\<rparr>,
      im_supportedTypes = map fst processors,
      im_supportedOperations = map (\<lambda>(type, ops). (type, map fst ops)) processors\<rparr>"

text \<open>The object the pool posts for a request, as the worker reads it.\<close>

fun data_of :: "WorkerRequest \<Rightarrow> WorkerData" where
  "data_of Ping =
     \<lparr>wd_type = Some ''system'', wd_operation = Some ''ping'', wd_params = Undefined, wd_functionCode = None, wd_timeout = None\<rparr>"
| "data_of (Work type operation ps fc t) =
     \<lparr>wd_type = Some (workload_name type), wd_operation = Some operation, wd_params = Obj ps, wd_functionCode = fc, wd_timeout = t\<rparr>"

section \<open>The sieve finds the primes\<close>

lemma capped_param_le: "capped_param name preset cap ps = Inr (Fin r) \<Longrightarrow> r \<le> cap"
  by (auto simp: capped_param_def and_then_Inr elim!: math_min.elims)

definition is_prime :: "nat \<Rightarrow> bool" where
  "is_prime n = (2 \<le> n \<and> (\<forall>d \<in> {2..<n}. \<not> d dvd n))"

text \<open>\<open>j\<close> has a divisor below \<open>b\<close> whose square does not exceed it.\<close>

definition small_factor :: "nat \<Rightarrow> nat \<Rightarrow> bool" where
  "small_factor b j = (\<exists>d. 2 \<le> d \<and> d < b \<and> d dvd j \<and> d * d \<le> j)"

lemma length_cross_out [simp]: "length (cross_out limit i j s) = length s"
  by (induction limit i j s rule: cross_out.induct) (subst cross_out.simps, simp)

lemma multiples_step:
  fixes i j k :: nat
  assumes "0 < i" and "k \<noteq> j"
  shows "j + i \<le> k \<and> i dvd (k - (j + i)) \<longleftrightarrow> j \<le> k \<and> i dvd (k - j)"
proof -
  have "i \<le> k - j" if "j \<le> k" "i dvd (k - j)"
    using that assms by (intro dvd_imp_le) auto
  moreover have "i dvd (k - (j + i)) \<longleftrightarrow> i dvd (k - j)" if "i \<le> k - j"
    using dvd_diffD [of i "k - j" i] dvd_diff_nat [of i "k - j" i] that by (auto simp: diff_diff_left)
  ultimately show ?thesis by auto
qed

lemma nth_cross_out:
  assumes "0 < i" and "k < length s"
  shows "cross_out limit i j s ! k \<longleftrightarrow> s ! k \<and> \<not> (j \<le> k \<and> k < limit \<and> i dvd (k - j))"
  using assms
proof (induction limit i j s rule: cross_out.induct)
  case (1 limit i j s)
  show ?case
  proof (cases "j < limit")
    case True
    then have step: "cross_out limit i j s = cross_out limit i (j + i) (s[j := False])"
      using 1(2) by (subst cross_out.simps) simp
    have ih: "cross_out limit i (j + i) (s[j := False]) ! k \<longleftrightarrow>
        s[j := False] ! k \<and> \<not> (j + i \<le> k \<and> k < limit \<and> i dvd (k - (j + i)))"
      using 1 True by simp
    show ?thesis
    proof (cases "k = j")
      case True
      then show ?thesis using step ih 1(3) \<open>j < limit\<close> by simp
    next
      case False
      then show ?thesis using step ih multiples_step [OF 1(2) False] by auto
    qed
  next
    case False
    then show ?thesis by (subst cross_out.simps) auto
  qed
qed

lemma small_factor_Suc: "2 \<le> i \<Longrightarrow> small_factor (i + 1) j \<longleftrightarrow> small_factor i j \<or> i dvd j \<and> i * i \<le> j"
  unfolding small_factor_def by (metis Suc_eq_plus1 less_Suc_eq)

lemma small_factor_trans:
  assumes "small_factor i i" and "i dvd j" and "i * i \<le> j"
  shows "small_factor i j"
proof -
  obtain d where d: "2 \<le> d" "d < i" "d dvd i" using assms(1) by (auto simp: small_factor_def)
  moreover have "d * d \<le> i * i" using d(2) by (intro mult_le_mono) simp_all
  ultimately show ?thesis using assms(2,3) unfolding small_factor_def by (meson dvd_trans le_trans)
qed

lemma not_small_factor_prime:
  assumes "2 \<le> j" and "j < i * i"
  shows "\<not> small_factor i j \<longleftrightarrow> is_prime j"
proof -
  have "small_factor i j" if "d \<in> {2..<j}" "d dvd j" for d
  proof -
    from \<open>d dvd j\<close> obtain e where e: "j = d * e" ..
    have "e \<noteq> 0" "e \<noteq> 1" using e that(1) assms(1) by auto
    then have e2: "2 \<le> e" by simp
    let ?m = "min d e"
    have sq: "?m * ?m \<le> j" unfolding e by (intro mult_le_mono) simp_all
    then have "?m < i" using assms(2) by (metis leI le_less_trans less_irrefl mult_le_mono)
    moreover have "?m dvd j" unfolding e by (simp add: min_def)
    ultimately show ?thesis using sq e2 that(1) unfolding small_factor_def by (intro exI [of _ ?m]) auto
  qed
  moreover have "\<exists>d \<in> {2..<j}. d dvd j" if "small_factor i j"
  proof -
    from \<open>small_factor i j\<close> obtain d where d: "2 \<le> d" "d dvd j" "d * d \<le> j" by (auto simp: small_factor_def)
    have "d < d * d" using d(1) by simp
    then show ?thesis using d by (intro bexI [of _ d]) auto
  qed
  ultimately have "small_factor i j \<longleftrightarrow> (\<exists>d \<in> {2..<j}. d dvd j)" by blast
  then show ?thesis using assms(1) by (simp add: is_prime_def)
qed

lemma sieve_from_primes:
  assumes "2 \<le> i" and "limit \<le> length s" and "\<forall>j. 2 \<le> j \<and> j < limit \<longrightarrow> (s ! j \<longleftrightarrow> \<not> small_factor i j)"
    and "2 \<le> k" and "k < limit"
  shows "sieve_from limit i s ! k \<longleftrightarrow> is_prime k"
  using assms
proof (induction limit i s rule: sieve_from.induct)
  case (1 limit i s)
  show ?case
  proof (cases "i * i < limit")
    case True
    let ?s = "if s ! i then cross_out limit i (i * i) s else s"
    have i: "i < limit" using True le_square [of i] by (rule le_less_trans [rotated])
    have next_inv: "?s ! j \<longleftrightarrow> \<not> small_factor (i + 1) j" if "2 \<le> j" "j < limit" for j
    proof (cases "s ! i")
      case marked: True
      have "i dvd (j - i * i) \<longleftrightarrow> i dvd j" if "i * i \<le> j"
        using that by (metis dvd_diff_nat dvd_triv_left le_add_diff_inverse dvd_add)
      then show ?thesis
        using nth_cross_out [of i j s limit "i * i"] 1(2-4) that marked small_factor_Suc [OF 1(2)] by auto
    next
      case False
      then have "small_factor i i" using 1(2,4) i by blast
      then show ?thesis
        using False 1(4) that small_factor_Suc [OF 1(2)] small_factor_trans by auto
    qed
    have "sieve_from limit i s = sieve_from limit (i + 1) ?s"
      using True by (subst sieve_from.simps) simp
    moreover have "sieve_from limit (i + 1) ?s ! k \<longleftrightarrow> is_prime k"
      using 1(2,3,5,6) next_inv by (intro 1(1) [OF True]) auto
    ultimately show ?thesis by simp
  next
    case False
    then have "sieve_from limit i s = s" by (subst sieve_from.simps) simp
    then show ?thesis using 1(4-6) False not_small_factor_prime [of k i] by auto
  qed
qed

lemma fold_note_prime:
  "fold (note_prime s) xs \<lparr>primeCount = 0, first10Primes = [], last10Primes = []\<rparr> =
     (let ps = filter (\<lambda>i. s ! i) xs in
      \<lparr>primeCount = length ps, first10Primes = take 10 ps, last10Primes = drop (length ps - 10) ps\<rparr>)"
proof (induction xs rule: rev_induct)
  case Nil
  then show ?case by simp
next
  case (snoc i xs)
  have "push_last i (drop (length ps - 10) ps) = drop (length ps + 1 - 10) (ps @ [i])" for ps
  proof -
    have "Suc (length ps - 10) = length ps - 9" if "10 \<le> length ps" using that by simp
    then show ?thesis by (auto simp: push_last_def tl_drop drop_Suc [symmetric])
  qed
  then show ?case using snoc by (simp add: note_prime_def Let_def)
qed

lemma primes_below_exact:
  "primes_below limit =
     (let ps = filter is_prime [2..<limit] in
      \<lparr>primeCount = length ps, first10Primes = take 10 ps, last10Primes = drop (length ps - 10) ps\<rparr>)"
proof -
  let ?s = "arr_set False 1 False (arr_set False 0 False (replicate limit True))"
  have s: "limit \<le> length ?s" "\<forall>j. 2 \<le> j \<and> j < limit \<longrightarrow> ?s ! j"
    by (auto simp: arr_set_def nth_list_update nth_append)
  have "\<not> small_factor 2 j" for j by (auto simp: small_factor_def)
  then have "sieve_from limit 2 ?s ! k \<longleftrightarrow> is_prime k" if "2 \<le> k" "k < limit" for k
    using s that by (intro sieve_from_primes) auto
  then have "filter (\<lambda>i. sieve_from limit 2 ?s ! i) [2..<limit] = filter is_prime [2..<limit]"
    by (intro filter_cong) auto
  then show ?thesis by (simp add: primes_below_def fold_note_prime Let_def)
qed

text \<open>C21. \<open>findPrimes\<close> is the sieve it claims to be: with a bound that is a valid array length it
  reports the number, the first ten and the last ten of exactly the primes below the bound, and the
  bound is at most two million. With any other bound it throws before it computes anything.\<close>

theorem findPrimes_is_exact:
  assumes "capped_param ''max'' 1000000 2000000 ps = Inr n"
  shows "(case array_length n of
            Inl e \<Rightarrow> findPrimes ps = Inl e \<and> e = Fault InvalidArrayLength
          | Inr limit \<Rightarrow>
              limit \<le> 2000000 \<and>
              (let primes = filter is_prime [2..<limit] in
               findPrimes ps =
                 Inr (Obj [(''primeCount'', num_nat (length primes)),
                           (''first10Primes'', Arr (map num_nat (take 10 primes))),
                           (''last10Primes'', Arr (map num_nat (drop (length primes - 10) primes)))])))"
proof (cases "array_length n")
  case (Inl e)
  then show ?thesis using assms by (cases n) (auto simp: findPrimes_def split: if_splits)
next
  case (Inr limit)
  obtain r where r: "n = Fin r" "limit = nat \<lfloor>r\<rfloor>" using Inr by (cases n) (auto split: if_splits)
  have "r \<le> 2000000" using capped_param_le [of _ _ _ _ r] assms r by blast
  then have "limit \<le> 2000000" unfolding r(2) by (simp add: floor_le_iff nat_le_iff)
  then show ?thesis using assms Inr by (simp add: findPrimes_def primes_below_exact Let_def)
qed

theorem findPrimes_is_exact_witness:
  "capped_param ''max'' 1000000 2000000 (Obj [(''max'', num_nat 12)]) = Inr (Fin 12) \<and>
   findPrimes (Obj [(''max'', num_nat 12)]) =
     Inr (Obj [(''primeCount'', num_nat 5), (''first10Primes'', Arr (map num_nat [2, 3, 5, 7, 11])),
               (''last10Primes'', Arr (map num_nat [2, 3, 5, 7, 11]))])"
proof -
  have c: "capped_param ''max'' 1000000 2000000 (Obj [(''max'', num_nat 12)]) = Inr (Fin 12)"
    by (simp add: capped_param_def prop_of_def to_number_def num_nat_def)
  have ps: "filter is_prime [2..<12] = [2, 3, 5, 7, 11]" by code_simp
  show ?thesis using findPrimes_is_exact [OF c] c ps by (simp add: num_nat_def)
qed

section \<open>The arithmetic of the other workloads\<close>

fun fib :: "nat \<Rightarrow> nat" where
  "fib 0 = 0"
| "fib (Suc 0) = 1"
| "fib (Suc (Suc n)) = fib n + fib (Suc n)"

lemma fib_loop_fib: "fib_loop m (fib k) (fib (Suc k)) = fib (k + m)"
proof (induction m arbitrary: k)
  case (Suc m)
  then show ?case using Suc [of "Suc k"] by simp
qed simp

lemma fib_le: "fib n \<le> 2 ^ n"
proof (induction n rule: fib.induct)
  case (3 n)
  have "(2 :: nat) ^ n + 2 ^ Suc n \<le> 2 ^ Suc (Suc n)" by simp
  then show ?case using 3 by (simp del: power_Suc)
qed simp_all

definition square :: "nat \<Rightarrow> matrix \<Rightarrow> bool" where
  "square sz c = (length c = sz \<and> (\<forall>i < sz. length (c ! i) = sz))"

lemma add_at_square: "square sz c \<Longrightarrow> square sz (add_at i j v c)"
  by (cases "i < sz") (auto simp: square_def add_at_def nth_list_update)

lemma add_at_nth:
  assumes "square sz c" and "i < sz" and "j < sz" and "i' < sz" and "j' < sz"
  shows "add_at i j v c ! i' ! j' = c ! i' ! j' + (if i' = i \<and> j' = j then v else 0)"
  using assms by (simp add: square_def add_at_def nth_list_update)

text \<open>A loop that adds to entries of a matrix adds the sum of what its rounds add.\<close>

lemma fold_adds:
  assumes "\<And>x c. x \<in> set xs \<Longrightarrow> square sz c \<Longrightarrow> square sz (f x c)"
    and "\<And>x c. x \<in> set xs \<Longrightarrow> square sz c \<Longrightarrow> f x c ! i ! j = c ! i ! j + g x"
    and "square sz c"
  shows "square sz (fold f xs c) \<and> fold f xs c ! i ! j = c ! i ! j + (\<Sum>x \<leftarrow> xs. g x)"
  using assms
proof (induction xs arbitrary: c)
  case (Cons x xs)
  then have "square sz (fold f xs (f x c)) \<and> fold f xs (f x c) ! i ! j = f x c ! i ! j + (\<Sum>x \<leftarrow> xs. g x)"
    by (intro Cons.IH) auto
  then show ?case using Cons.prems by simp
qed simp

lemma sum_list_only:
  "i < n \<Longrightarrow> (\<Sum>x \<leftarrow> [0..<n]. if x = i then f x else 0) = (f i :: rat)"
  by (simp add: sum_list_distinct_conv_sum_set sum.delta)

lemma multiply_square_nth:
  assumes "i < sz" and "j < sz"
  shows "multiply a b sz ! i ! j = (\<Sum>k \<leftarrow> [0..<sz]. a ! i ! k * b ! k ! j)"
proof -
  have row: "square sz (mult_row b v i' k sz c) \<and>
      mult_row b v i' k sz c ! i ! j = c ! i ! j + (if i' = i then v * b ! k ! j else 0)"
    if "square sz c" "i' < sz" for v i' k c
  proof -
    have "square sz (mult_row b v i' k sz c) \<and>
        mult_row b v i' k sz c ! i ! j = c ! i ! j + (\<Sum>j' \<leftarrow> [0..<sz]. if j' = j then (if i' = i then v * b ! k ! j' else 0) else 0)"
      unfolding mult_row_def using that assms by (intro fold_adds) (auto simp: add_at_square add_at_nth)
    then show ?thesis using assms(2) by (simp add: sum_list_only)
  qed
  have rows: "square sz (fold (\<lambda>k. mult_row b (a ! i' ! k) i' k sz) [0..<sz] c) \<and>
      fold (\<lambda>k. mult_row b (a ! i' ! k) i' k sz) [0..<sz] c ! i ! j =
        c ! i ! j + (\<Sum>k \<leftarrow> [0..<sz]. if i' = i then a ! i' ! k * b ! k ! j else 0)"
    if "square sz c" "i' < sz" for i' c
    using that by (intro fold_adds) (simp_all add: row)
  have zero: "square sz (replicate sz (replicate sz 0))" by (simp add: square_def)
  have "multiply a b sz ! i ! j =
      replicate sz (replicate sz 0) ! i ! j +
        (\<Sum>i' \<leftarrow> [0..<sz]. (\<Sum>k \<leftarrow> [0..<sz]. if i' = i then a ! i' ! k * b ! k ! j else 0))"
    unfolding multiply_def by (rule fold_adds [where sz = sz, THEN conjunct2]) (simp_all add: rows zero)
  also have "(\<Sum>i' \<leftarrow> [0..<sz]. (\<Sum>k \<leftarrow> [0..<sz]. if i' = i then a ! i' ! k * b ! k ! j else 0)) =
      (\<Sum>i' \<leftarrow> [0..<sz]. if i' = i then (\<Sum>k \<leftarrow> [0..<sz]. a ! i' ! k * b ! k ! j) else 0)"
    by (intro arg_cong [where f = sum_list] map_cong refl) (simp add: sum_list_0)
  finally show ?thesis using assms by (simp add: sum_list_only)
qed

lemma rounds_capped: "capped_param name preset (of_nat cap) ps = Inr n \<Longrightarrow> rounds n \<le> cap"
  using capped_param_le [of name preset "of_nat cap" ps] by (cases n) (auto simp: nat_le_iff ceiling_le_iff)

text \<open>The two arithmetic workloads compute what they name. \<open>fibonacci\<close> returns the Fibonacci
  number of the (rounded up, capped) argument, every number it adds stays below \<open>2 ^ 53\<close>, so no
  addition rounds. \<open>matrixMultiply\<close>, for a whole size, samples the entry of the matrix product of
  the two random matrices and counts \<open>size ^ 3\<close> steps; a fractional or non-positive size throws.\<close>

theorem arithmetic_workloads_are_exact:
  assumes "capped_param ''n'' 40 45 ps = Inr n" and "capped_param ''size'' 80 120 ps = Inr m"
    and "a = random_matrix rnd 0 sz" and "b = random_matrix rnd (sz * sz) sz"
  shows "fibonacci ps = Inr (Obj [(''n'', Num n), (''result'', num_nat (fib (rounds n)))]) \<and>
         fib (rounds n + 1) < 2 ^ 53 \<and>
         (m = Fin (of_nat sz) \<and> 0 < sz \<longrightarrow>
            sz \<le> 120 \<and>
            matrixMultiply rnd ps =
              Inr (Obj [(''size'', Num m), (''sample'', Num (Fin (\<Sum>k \<leftarrow> [0..<sz]. a ! 0 ! k * b ! k ! 0))),
                        (''operationCount'', num_nat (sz ^ 3))])) \<and>
         ((\<forall>k > 0. m \<noteq> Fin (of_nat k)) \<longrightarrow> (\<exists>f. matrixMultiply rnd ps = Inl (Fault f)))"
proof (intro conjI impI)
  show "fibonacci ps = Inr (Obj [(''n'', Num n), (''result'', num_nat (fib (rounds n)))])"
    using assms(1) fib_loop_fib [of "rounds n" 0] by (simp add: fibonacci_def)
  have "rounds n \<le> 45" using rounds_capped [of _ _ 45] assms(1) by simp
  then have "(2 :: nat) ^ (rounds n + 1) \<le> 2 ^ 46" by (intro power_increasing) simp_all
  then have "fib (rounds n + 1) \<le> 2 ^ 46" using fib_le le_trans by blast
  then show "fib (rounds n + 1) < 2 ^ 53" by (rule le_less_trans) simp
next
  assume m: "m = Fin (of_nat sz) \<and> 0 < sz"
  then have "(of_nat sz :: rat) \<le> 120" using capped_param_le assms(2) by blast
  then have "sz \<le> 120" by linarith
  moreover have "array_length m = Inr sz" "to_length m = sz" using m \<open>sz \<le> 120\<close> by simp_all
  ultimately show "sz \<le> 120" and "matrixMultiply rnd ps =
      Inr (Obj [(''size'', Num m), (''sample'', Num (Fin (\<Sum>k \<leftarrow> [0..<sz]. a ! 0 ! k * b ! k ! 0))),
                (''operationCount'', num_nat (sz ^ 3))])"
    using assms m by (simp_all add: matrixMultiply_def multiply_square_nth power3_eq_cube)
next
  assume none: "\<forall>k > 0. m \<noteq> Fin (of_nat k)"
  have "array_length m = Inl (Fault InvalidArrayLength)" if "to_length m \<noteq> 0"
  proof (cases m)
    case (Fin r)
    have "of_int \<lfloor>r\<rfloor> \<noteq> r"
    proof
      assume r: "of_int \<lfloor>r\<rfloor> = r"
      have "0 < nat \<lfloor>r\<rfloor>" using that Fin by simp
      moreover from calculation have "(of_nat (nat \<lfloor>r\<rfloor>) :: rat) = of_int \<lfloor>r\<rfloor>" by simp
      then have "m = Fin (of_nat (nat \<lfloor>r\<rfloor>))" using r Fin by (simp only:)
      ultimately show False using none by blast
    qed
    then show ?thesis using Fin by simp
  qed simp_all
  then show "\<exists>f. matrixMultiply rnd ps = Inl (Fault f)" using assms(2) by (simp add: matrixMultiply_def)
qed

theorem arithmetic_workloads_are_exact_witness:
  "fibonacci (Obj [(''n'', num_nat 5), (''size'', num_nat 2)]) =
     Inr (Obj [(''n'', num_nat 5), (''result'', num_nat 5)]) \<and>
   matrixMultiply of_nat (Obj [(''n'', num_nat 5), (''size'', num_nat 2)]) =
     Inr (Obj [(''size'', num_nat 2), (''sample'', num_nat 6), (''operationCount'', num_nat 8)])"
proof -
  let ?ps = "Obj [(''n'', num_nat 5), (''size'', num_nat 2)]"
  have n: "capped_param ''n'' 40 45 ?ps = Inr (Fin 5)" and m: "capped_param ''size'' 80 120 ?ps = Inr (Fin 2)"
    by (simp_all add: capped_param_def prop_of_def to_number_def num_nat_def)
  have fib5: "fib (rounds (Fin 5)) = 5" by (simp add: eval_nat_numeral)
  show ?thesis
    using arithmetic_workloads_are_exact [OF n m refl refl, where sz = 2 and rnd = of_nat] fib5
    by (simp add: num_nat_def random_matrix_def upt_rec)
qed

definition json_safe :: "jsval \<Rightarrow> bool" where
  "json_safe v = (json_clone v = v \<and> v \<noteq> Undefined)"

lemma json_safe_Obj:
  assumes "list_all (\<lambda>(_, v). json_safe v) node"
  shows "json_safe (Obj node)"
proof -
  have "filter (\<lambda>(k, v). v \<noteq> Undefined) node = node"
    using assms by (auto simp: list_all_iff json_safe_def filter_id_conv)
  moreover have "map (\<lambda>(k, v). (k, json_clone v)) node = node"
    using assms by (intro map_idI) (auto simp: list_all_iff json_safe_def)
  ultimately show ?thesis by (simp add: json_safe_def)
qed

lemma fold_nodes:
  assumes "\<And>k. json_safe (fst (f k)) \<and> snd (f k) = k + leaves" and "list_all (\<lambda>(_, v). json_safe v) node"
    and "fold (\<lambda>i (node, k). let (v, k') = f k in (node @ [(name i, v)], k')) is (node, k) = (node', k')"
  shows "list_all (\<lambda>(_, v). json_safe v) node' \<and> length node' = length node + length is \<and>
         k' = k + length is * leaves"
  using assms(2,3)
proof (induction "is" arbitrary: node k)
  case (Cons i "is")
  obtain v k1 where v: "f k = (v, k1)" by (cases "f k")
  then have "json_safe v" "k1 = k + leaves" using assms(1) [of k] by simp_all
  then show ?case using Cons.IH [of "node @ [(name i, v)]" k1] Cons.prems v by simp
qed simp

text \<open>Building the nested object calls \<open>Math.random\<close> once for each of its \<open>width ^ depth\<close> leaves,
  and what it builds survives the JSON round trip.\<close>

lemma nested_object_safe:
  "json_safe (fst (nested_object rnd width d k)) \<and> snd (nested_object rnd width d k) = k + width ^ d"
proof (induction d arbitrary: k)
  case 0
  then show ?case by (simp add: json_safe_def)
next
  case (Suc d)
  obtain node k' where f: "fold (\<lambda>i (node, k). let (v, k') = nested_object rnd width d k
        in (node @ [(''prop'' @ show_digits i, v)], k')) [0..<width] ([], k) = (node, k')"
    by fastforce
  then show ?case
    using fold_nodes [where f = "nested_object rnd width d" and leaves = "width ^ d", OF Suc _ f]
    by (simp add: json_safe_Obj)
qed

lemma fold_sum_list: "fold (\<lambda>v total. total + v) vs t = t + sum_list vs" for t :: rat
  by (induction vs arbitrary: t) simp_all

definition array_report :: "(nat \<Rightarrow> rat) \<Rightarrow> rat \<Rightarrow> jsval" where
  "array_report rnd mb =
     (let len = nat \<lfloor>131072 * mb\<rfloor>; total = (\<Sum>k \<leftarrow> [0..<len]. rnd k) in
      Obj [(''arraySize'', num_nat len), (''sum'', Num (Fin total)),
           (''average'', Num (Fin (if len > 0 then total / of_nat len else 0))),
           (''memoryMB'', Num (Fin (of_int \<lfloor>mb\<rfloor>)))])"

lemma floor_blocks: "\<lfloor>of_int \<lfloor>131072 * mb\<rfloor> / 131072 :: rat\<rfloor> = \<lfloor>mb\<rfloor>" for mb :: rat
proof (rule floor_unique)
  have "of_int (131072 * \<lfloor>mb\<rfloor>) \<le> 131072 * mb" by simp
  then have "131072 * \<lfloor>mb\<rfloor> \<le> \<lfloor>131072 * mb\<rfloor>" by (simp only: le_floor_iff)
  then have "(of_int (131072 * \<lfloor>mb\<rfloor>) :: rat) \<le> of_int \<lfloor>131072 * mb\<rfloor>" by (simp only: of_int_le_iff)
  then show "of_int \<lfloor>mb\<rfloor> \<le> (of_int \<lfloor>131072 * mb\<rfloor> / 131072 :: rat)" by simp
  have "of_int \<lfloor>131072 * mb\<rfloor> / 131072 \<le> mb" using of_int_floor_le [of "131072 * mb"] by linarith
  also have "mb < of_int \<lfloor>mb\<rfloor> + 1" by linarith
  finally show "of_int \<lfloor>131072 * mb\<rfloor> / 131072 < (of_int \<lfloor>mb\<rfloor> + 1 :: rat)" .
qed

lemma largeArray_report:
  assumes "capped_param ''sizeInMB'' 10 256 ps = Inr (Fin mb)"
  shows "largeArray rnd ps = (if 0 \<le> mb then Inr (array_report rnd mb) else Inl (Fault InvalidArrayLength))"
proof -
  have eq: "mb * 1024 * 1024 / 8 = 131072 * mb" by simp
  have "131072 * mb \<le> 33554432" using capped_param_le [OF assms] by simp
  then have "\<lfloor>131072 * mb\<rfloor> < 4294967296" by linarith
  then have "array_length (Fin (of_int \<lfloor>131072 * mb\<rfloor>)) =
      (if 0 \<le> mb then Inr (nat \<lfloor>131072 * mb\<rfloor>) else Inl (Fault InvalidArrayLength))"
    by (simp add: zero_le_floor)
  then show ?thesis
    using assms unfolding largeArray_def
    by (simp add: eq fold_sum_list floor_blocks array_report_def Let_def)
qed

text \<open>The two memory workloads. \<open>largeArray\<close> with a non-negative size fills
  \<open>131072\<close> elements for every megabyte, at most 256 of them, and reports their number, sum and
  average and the whole megabytes of the size; any other size throws. \<open>objectCloning\<close> with a depth
  that is a number builds an object with \<open>width ^ depth\<close> leaves, which survives the JSON round trip;
  the caps allow \<open>50 ^ 6\<close> leaves. A depth that is not a number overflows the stack unless the width
  leaves nothing to build.\<close>

theorem memory_workloads_are_exact:
  assumes "capped_param ''sizeInMB'' 10 256 ps = Inr n" and "capped_param ''depth'' 4 6 ps = Inr depth"
    and "capped_param ''width'' 30 50 ps = Inr width"
    and "tree = nested_object rnd (rounds width) (rounds depth) 0"
  shows "largeArray rnd ps =
           (case n of Fin mb \<Rightarrow> if 0 \<le> mb then Inr (array_report rnd mb) else Inl (Fault InvalidArrayLength)
            | _ \<Rightarrow> Inl (Fault InvalidArrayLength)) \<and>
         objectCloning rnd ps =
           (if depth = NaN \<and> 0 < rounds width then Inl (Fault StackOverflow)
            else Inr (Obj [(''objectDepth'', Num depth), (''objectWidth'', Num width), (''success'', Bool True)])) \<and>
         json_clone (fst tree) = fst tree \<and> snd tree = rounds width ^ rounds depth \<and>
         rounds width ^ rounds depth \<le> 50 ^ 6"
proof (intro conjI)
  show "largeArray rnd ps =
      (case n of Fin mb \<Rightarrow> if 0 \<le> mb then Inr (array_report rnd mb) else Inl (Fault InvalidArrayLength)
       | _ \<Rightarrow> Inl (Fault InvalidArrayLength))"
    using largeArray_report [of ps _ rnd] assms(1) by (cases n) (simp_all add: largeArray_def)
  have tree: "json_safe (fst tree)" and leaves: "snd tree = rounds width ^ rounds depth"
    using nested_object_safe [of rnd "rounds width" "rounds depth" 0] assms(4) by simp_all
  then show "json_clone (fst tree) = fst tree" "snd tree = rounds width ^ rounds depth"
    by (simp_all add: json_safe_def)
  have "truthy (json_clone (fst tree))"
    using tree assms(4) by (cases "rounds depth") (auto simp: json_safe_def split: prod.split)
  then show "objectCloning rnd ps =
      (if depth = NaN \<and> 0 < rounds width then Inl (Fault StackOverflow)
       else Inr (Obj [(''objectDepth'', Num depth), (''objectWidth'', Num width), (''success'', Bool True)]))"
    using assms by (simp add: objectCloning_def)
  have "rounds width ^ rounds depth \<le> 50 ^ rounds depth"
    using rounds_capped [of _ _ 50] assms(3) by (intro power_mono) simp_all
  also have "\<dots> \<le> (50 :: nat) ^ 6"
    using rounds_capped [of _ _ 6] assms(2) by (intro power_increasing) simp_all
  finally show "rounds width ^ rounds depth \<le> 50 ^ 6" .
qed

theorem memory_workloads_are_exact_witness:
  "largeArray (\<lambda>_. 1 / 2) (Obj [(''sizeInMB'', Num (Fin (1 / 65536))), (''depth'', num_nat 2), (''width'', num_nat 3)]) =
     Inr (Obj [(''arraySize'', num_nat 2), (''sum'', num_nat 1), (''average'', Num (Fin (1 / 2))), (''memoryMB'', num_nat 0)]) \<and>
   snd (nested_object (\<lambda>_. 1 / 2) 3 2 0) = 9"
proof -
  let ?ps = "Obj [(''sizeInMB'', Num (Fin (1 / 65536))), (''depth'', num_nat 2), (''width'', num_nat 3)]"
  have n: "capped_param ''sizeInMB'' 10 256 ?ps = Inr (Fin (1 / 65536))"
    and d: "capped_param ''depth'' 4 6 ?ps = Inr (Fin 2)" and w: "capped_param ''width'' 30 50 ?ps = Inr (Fin 3)"
    by (simp_all add: capped_param_def prop_of_def to_number_def num_nat_def)
  have "\<lfloor>1 / 65536 :: rat\<rfloor> = 0" by (simp add: floor_eq_iff)
  then show ?thesis
    using memory_workloads_are_exact [OF n d w refl, where rnd = "\<lambda>_. 1 / 2"]
    by (simp add: array_report_def num_nat_def upt_rec)
qed

section \<open>The pool and the worker\<close>

lemma map_of_processors:
  "map_of processors ''system'' = Some [(''ping'', \<lambda>rt ps fc. Inl (Returns (Obj [(''pong'', Bool True)])))]"
  "map_of processors ''cpu'' = Some
     [(''findPrimes'', \<lambda>rt ps fc. call_of (findPrimes ps)), (''fibonacci'', \<lambda>rt ps fc. call_of (fibonacci ps)),
      (''matrixMultiply'', \<lambda>rt ps fc. call_of (matrixMultiply (rt_random rt) ps))]"
  "map_of processors ''memory'' = Some
     [(''largeArray'', \<lambda>rt ps fc. call_of (largeArray (rt_random rt) ps)),
      (''objectCloning'', \<lambda>rt ps fc. call_of (objectCloning (rt_random rt) ps))]"
  "map_of processors ''custom'' = Some [(''execute'', \<lambda>rt ps fc. execute_custom (rt_allowCustom rt) (rt_code rt) ps fc)]"
  by (simp_all add: processors_def)

text \<open>An operation on an object fails with a fault of the engine only.\<close>

lemma capped_param_Inl: "capped_param name preset cap (Obj ob) = Inl e \<Longrightarrow> \<exists>f. e = Fault f"
  by (auto simp: capped_param_def and_then_Inl to_number_def split: if_splits)

lemma array_length_Inl: "array_length n = Inl e \<Longrightarrow> \<exists>f. e = Fault f"
  by (cases n) (auto split: if_splits)

definition faults_only :: "worker_error + jsval \<Rightarrow> bool" where
  "faults_only r = (\<forall>e. r = Inl e \<longrightarrow> (\<exists>f. e = Fault f))"

lemma workloads_fault_only:
  "faults_only (findPrimes (Obj ob))" "faults_only (fibonacci (Obj ob))" "faults_only (matrixMultiply rnd (Obj ob))"
  "faults_only (largeArray rnd (Obj ob))" "faults_only (objectCloning rnd (Obj ob))"
  by (auto simp: faults_only_def findPrimes_def fibonacci_def matrixMultiply_def largeArray_def objectCloning_def
      and_then_Inl Let_def dest!: capped_param_Inl array_length_Inl split: if_splits)

lemma determineOperation_created:
  "determineTaskType (createWorkerTaskData t) = CPU \<Longrightarrow>
     determineOperation (createWorkerTaskData t) \<in> {''findPrimes'', ''fibonacci'', ''matrixMultiply''}"
  "determineTaskType (createWorkerTaskData t) = MEMORY \<Longrightarrow>
     determineOperation (createWorkerTaskData t) \<in> {''largeArray'', ''objectCloning''}"
  "determineTaskType (createWorkerTaskData t) = CUSTOM \<Longrightarrow> determineOperation (createWorkerTaskData t) = ''execute''"
  by (auto simp: determineOperation_def createWorkerTaskData_def present_def Let_def)

text \<open>What the worker posts for the outcome of an operation of its own.\<close>

definition answer :: "int \<Rightarrow> int \<Rightarrow> WorkerData \<Rightarrow> call_outcome + worker_error \<Rightarrow> Posted" where
  "answer startedAt now d r =
     \<lparr>po_message = (case awaited r of Inr v \<Rightarrow> succeeded_with v | Inl e \<Rightarrow> failed_with e),
      po_operation = Some (text_of (wd_type d) @ '':'' @ text_of (wd_operation d)),
      po_duration = Some (now - startedAt)\<rparr>"

lemma worker_answers:
  assumes "wd_type d = Some type" and "wd_operation d = Some operation" and "type \<noteq> []" and "operation \<noteq> []"
    and "type \<noteq> ''system''" and "map_of processors type = Some ops" and "map_of ops operation = Some f"
    and "wd_params d = Obj ob"
  shows "worker_on_message proto rt t0 t1 d =
           (let r = f rt (Obj ob) (wd_functionCode d) in if r = Inl Hangs then None else Some (answer t0 t1 d r))"
  using assms
  by (auto simp: worker_on_message_def handle_request_def processor_of_def present_def withTimeout_def answer_def Let_def
      split: sum.split call_outcome.split)

lemma call_of_answers:
  assumes "faults_only r"
  shows "call_of r \<noteq> Inl Hangs \<and>
         (msg_success (po_message (answer t0 t1 d (call_of r))) \<or>
          (\<exists>f. msg_error (po_message (answer t0 t1 d (call_of r))) = Some (worker_error_message (Fault f))))"
  using assms by (cases r) (auto simp: faults_only_def answer_def succeeded_with_def failed_with_def)

lemma answer_is_result [simp]:
  "\<not> msg_initialized (po_message (answer t0 t1 d r))" "\<not> msg_healthCheck (po_message (answer t0 t1 d r))"
  by (auto simp: answer_def succeeded_with_def failed_with_def split: sum.split)

lemma pinged:
  "\<exists>p. worker_on_message proto rt t0 t1 (data_of Ping) = Some p \<and> msg_healthCheck (po_message p)"
  by (simp add: worker_on_message_def handle_request_def processor_of_def present_def withTimeout_def map_of_processors)

text \<open>C20. The pool and the worker script agree. Every request the pool posts for a task names an
  operation the worker has, so the worker never refuses one as unsupported: a CPU or memory task is
  always answered with a result message, which is a success or reports a fault of the engine (a
  parameter that is no array length, say). A custom task is answered exactly when its code does not
  hang, a ping is always answered as a health check, and the timeout sent along has no effect.\<close>

theorem pool_requests_are_answered:
  assumes "d = createWorkerTaskData t" and "type = determineTaskType d" and "isDispatchableType type"
    and "reply = (\<lambda>timeout. worker_on_message proto rt t0 t1 ((data_of (request_of d type))\<lparr>wd_timeout := timeout\<rparr>))"
  shows "(type \<noteq> CUSTOM \<longrightarrow>
            (\<exists>p. reply timeout = Some p \<and> \<not> msg_initialized (po_message p) \<and> \<not> msg_healthCheck (po_message p) \<and>
              (msg_success (po_message p) \<or> (\<exists>f. msg_error (po_message p) = Some (worker_error_message (Fault f)))))) \<and>
         (type = CUSTOM \<longrightarrow>
            (reply timeout = None \<longleftrightarrow>
               rt_allowCustom rt \<and> present (functionCode t) \<and> rt_code rt (the (functionCode t)) (Obj (wparams d)) = Hangs)) \<and>
         reply timeout = reply timeout' \<and>
         (\<exists>p. worker_on_message proto rt t0 t1 (data_of Ping) = Some p \<and> msg_healthCheck (po_message p))"
proof -
  have data: "data_of (request_of d type) =
      \<lparr>wd_type = Some (workload_name type), wd_operation = Some (determineOperation d), wd_params = Obj (wparams d),
       wd_functionCode = functionCode t, wd_timeout = wtimeout d\<rparr>"
    by (auto simp: request_of_def assms(1) createWorkerTaskData_def split: option.split)
  have ans: "reply s = (let r = f rt (Obj (wparams d)) (functionCode t) in
      if r = Inl Hangs then None else Some (answer t0 t1 (data_of (request_of d type)) r))"
    if "map_of processors (workload_name type) = Some ops" "map_of ops (determineOperation d) = Some f"
       "workload_name type \<noteq> []" "workload_name type \<noteq> ''system''" "determineOperation d \<noteq> []" for s ops f
    using worker_answers [of "(data_of (request_of d type))\<lparr>wd_timeout := s\<rparr>" "workload_name type" "determineOperation d" ops f "wparams d" proto rt t0 t1] that
    unfolding assms(4) by (simp add: data Let_def answer_def)
  note op = determineOperation_created [of t, folded assms(1,2)]
  consider (plain) ops f r where "type \<noteq> CUSTOM" "map_of processors (workload_name type) = Some ops"
      "map_of ops (determineOperation d) = Some f" "f rt (Obj (wparams d)) (functionCode t) = call_of r" "faults_only r"
      "workload_name type \<noteq> []" "workload_name type \<noteq> ''system''" "determineOperation d \<noteq> []"
    | (custom) "type = CUSTOM" "determineOperation d = ''execute''"
    using assms(3) op workloads_fault_only unfolding isDispatchableType_def
    by (cases type) (fastforce simp: map_of_processors)+
  then show ?thesis
  proof cases
    case plain
    then show ?thesis
      using ans [OF plain(2,3,6,7,8)] call_of_answers [OF plain(5)] pinged by auto
  next
    case custom
    then show ?thesis
      using ans [of _ "\<lambda>rt ps fc. execute_custom (rt_allowCustom rt) (rt_code rt) ps fc"] pinged
      by (auto simp: map_of_processors execute_custom_def Let_def split: call_outcome.split)
  qed
qed

definition prime_task :: QueueTask where
  "prime_task =
     \<lparr>task_id = 1, requestId = Undefined, timestamp = 0, priority = 5, category = Some ''prime'', task_size = Some 1,
      workloadType = Some CPU, params = Some [(''max'', num_nat 12)], functionCode = None, task_timeout = None\<rparr>"

definition hanging_runtime :: Runtime where
  "hanging_runtime = \<lparr>rt_random = (\<lambda>_. 0), rt_code = (\<lambda>_ _. Hangs), rt_allowCustom = True\<rparr>"

definition no_prototype :: Proto where
  "no_prototype = \<lparr>proto_types = (\<lambda>_. None), proto_ops = (\<lambda>_. None)\<rparr>"

theorem pool_requests_are_answered_witness:
  "(\<exists>p. worker_on_message no_prototype hanging_runtime 0 7
      ((data_of (request_of (createWorkerTaskData prime_task) CPU))\<lparr>wd_timeout := Some 1\<rparr>) = Some p) \<and>
   worker_on_message no_prototype hanging_runtime 0 7
      ((data_of (request_of (createWorkerTaskData (prime_task\<lparr>workloadType := Some CUSTOM, functionCode := Some ''for(;;);''\<rparr>)) CUSTOM))
         \<lparr>wd_timeout := Some 1\<rparr>) = None"
proof -
  let ?c = "prime_task\<lparr>workloadType := Some CUSTOM, functionCode := Some ''for(;;);''\<rparr>"
  have cpu: "CPU = determineTaskType (createWorkerTaskData prime_task)" "isDispatchableType CPU" by code_simp+
  have custom: "CUSTOM = determineTaskType (createWorkerTaskData ?c)" "isDispatchableType CUSTOM" by code_simp+
  have code: "rt_allowCustom hanging_runtime \<and> present (functionCode ?c) \<and>
      rt_code hanging_runtime (the (functionCode ?c)) (Obj (wparams (createWorkerTaskData ?c))) = Hangs"
    by (simp add: hanging_runtime_def present_def)
  show ?thesis
  proof
    show "\<exists>p. worker_on_message no_prototype hanging_runtime 0 7
        ((data_of (request_of (createWorkerTaskData prime_task) CPU))\<lparr>wd_timeout := Some 1\<rparr>) = Some p"
      using pool_requests_are_answered [OF refl cpu refl] by blast
    show "worker_on_message no_prototype hanging_runtime 0 7
        ((data_of (request_of (createWorkerTaskData ?c) CUSTOM))\<lparr>wd_timeout := Some 1\<rparr>) = None"
      using pool_requests_are_answered [OF refl custom refl] code by blast
  qed
qed

end
