(* ===== verification/Runner.thy ===== *)
theory Runner
  imports QueueSafety Bench Worker "HOL-Library.Word"
begin

text \<open>
  The load-test tasks: \<open>src/queue/simulation.service.ts\<close>, the tasks and the burst of
  \<open>src/queue/load-test/load-test-runner.service.ts\<close>, and what its stream does in one round.

  The body of a request is a JSON object whose fields the routes do not check, so each is any
  value. \<open>rnd k\<close> is the value of the \<open>k\<close>-th call of \<open>Math.random()\<close>. A simulation that resolves is
  the milliseconds it takes on the timers and the value it resolves with; \<open>None\<close> is one that never
  resolves.
\<close>

section \<open>Simulations\<close>

text \<open>The rounds of \<open>for (let i = 0; i < n; i++)\<close>; \<open>None\<close> when it does not end.\<close>

fun count_up :: "jsnum \<Rightarrow> nat option" where
  "count_up (Fin r) = Some (nat \<lceil>r\<rceil>)"
| "count_up PosInf = None"
| "count_up NegInf = Some 0"
| "count_up NaN = Some 0"

text \<open>\<open>((hash << 5) - hash + i) | 0\<close>, a 32-bit integer. The difference and the sum are exact below
  \<open>2 ^ 53\<close>, so the wrap-around of \<open>| 0\<close> is that of the word operations.\<close>

definition hash_step :: "32 word \<Rightarrow> nat \<Rightarrow> 32 word" where
  "hash_step h i = push_bit 5 h - h + of_nat i"

definition cpu_hash :: "nat \<Rightarrow> 32 word" where
  "cpu_hash n = foldl hash_step 0 [0..<n]"

text \<open>\<open>n.toString(16)\<close> of an integer.\<close>

definition hash_digit :: "nat \<Rightarrow> char" where
  "hash_digit d = char_of (if d < 10 then 48 + d else 87 + d)"

fun hex_digits :: "nat \<Rightarrow> string" where
  "hex_digits n = (if n < 16 then [hash_digit n] else hex_digits (n div 16) @ [hash_digit (n mod 16)])"

declare hex_digits.simps [simp del]

definition hex_text :: "int \<Rightarrow> string" where
  "hex_text i = (if i < 0 then CHR ''-'' # hex_digits (nat (- i)) else hex_digits (nat i))"

definition simulateCPU :: "jsval \<Rightarrow> (jsnum \<times> jsval) option" where
  "simulateCPU iterations =
     map_option (\<lambda>n. (Fin 0, Obj [(''hash'', Str (hex_text (sint (cpu_hash n)))), (''iterations'', iterations)]))
       (count_up (js_number iterations))"

text \<open>The delay of \<open>setTimeout\<close>: one millisecond when it is not between 1 and \<open>2 ^ 31 - 1\<close>, and otherwise
  cut to whole milliseconds.\<close>

definition TIMEOUT_MAX :: rat where
  "TIMEOUT_MAX = 2147483647"

definition timer_delay :: "jsval \<Rightarrow> jsnum" where
  "timer_delay v =
     (case js_number v of Fin r \<Rightarrow> if 1 \<le> r \<and> r \<le> TIMEOUT_MAX then Fin (of_int \<lfloor>r\<rfloor>) else Fin 1 | _ \<Rightarrow> Fin 1)"

definition simulateIO :: "jsval \<Rightarrow> (jsnum \<times> jsval) option" where
  "simulateIO delayMs =
     Some (timer_delay delayMs, Obj [(''status'', Str ''completed''), (''delayMs'', delayMs)])"

text \<open>\<open>done >= itemCount\<close>.\<close>

definition reaches :: "nat \<Rightarrow> jsnum \<Rightarrow> bool" where
  "reaches finished n = (n \<noteq> NaN \<and> \<not> num_less (Fin (of_nat finished)) n)"

text \<open>\<open>processOne\<close>, called again every 5 ms until enough items are done.\<close>

partial_function (option) process_items :: "jsnum \<Rightarrow> nat \<Rightarrow> string list \<Rightarrow> (nat \<times> string list) option" where
  "process_items n finished items =
     (let items = items @ [''item-'' @ show_int (int finished)]; finished = finished + 1
      in if reaches finished n then Some (finished, items) else process_items n finished items)"

declare process_items.simps [code]

definition simulateBatch :: "jsval \<Rightarrow> (jsnum \<times> jsval) option" where
  "simulateBatch itemCount =
     map_option (\<lambda>(finished, items).
         (Fin (5 * (of_nat finished - 1)),
          Obj [(''processed'', num_val (of_nat finished)), (''items'', Arr (map Str (take 3 items)))]))
       (process_items (js_number itemCount) 0 [])"

datatype simulation = SimCPU jsval | SimIO jsval | SimBatch jsval

fun simulate :: "simulation \<Rightarrow> (jsnum \<times> jsval) option" where
  "simulate (SimCPU v) = simulateCPU v"
| "simulate (SimIO v) = simulateIO v"
| "simulate (SimBatch v) = simulateBatch v"

section \<open>Tasks for the queue\<close>

definition no_options :: EnqueueOptions where
  "no_options =
     \<lparr>opt_priority = Undefined, opt_requestId = Undefined, opt_category = Undefined, opt_batch = Undefined,
      opt_size = Undefined, opt_timeout = Undefined, opt_workloadType = Undefined, opt_params = Undefined,
      opt_functionCode = Undefined\<rparr>"

definition cpu_call :: "jsval \<Rightarrow> jsval \<Rightarrow> simulation \<times> EnqueueOptions" where
  "cpu_call iterations pri =
     (SimCPU iterations,
      no_options\<lparr>opt_priority := pri, opt_workloadType := Str ''cpu'', opt_params := Obj [(''iterations'', iterations)]\<rparr>)"

definition io_call :: "jsval \<Rightarrow> jsval \<Rightarrow> simulation \<times> EnqueueOptions" where
  "io_call delayMs pri =
     (SimIO delayMs, no_options\<lparr>opt_priority := pri, opt_params := Obj [(''delay_ms'', delayMs)]\<rparr>)"

definition batch_call :: "jsval \<Rightarrow> jsval \<Rightarrow> simulation \<times> EnqueueOptions" where
  "batch_call itemCount pri =
     (SimBatch itemCount,
      no_options\<lparr>opt_priority := pri, opt_params := Obj [(''item_count'', itemCount)], opt_batch := Bool True,
        opt_category := Str ''load-test-batch''\<rparr>)"

text \<open>\<open>a ?? b\<close>.\<close>

definition js_default :: "jsval \<Rightarrow> jsval \<Rightarrow> jsval" where
  "js_default a b = (if nullish a then b else a)"

definition submit :: "int \<Rightarrow> simulation \<times> EnqueueOptions \<Rightarrow> Sys \<Rightarrow> (queue_error + nat) \<times> Sys" where
  "submit now call s = enqueue now (snd call) s"

definition enqueueCpuTask :: "int \<Rightarrow> jsobj \<Rightarrow> Sys \<Rightarrow> (queue_error + nat) \<times> Sys" where
  "enqueueCpuTask now body s =
     (let iterations = js_or (prop_of body ''iterations'') (num_val 1000);
          pri = js_default (prop_of body ''priority'') (num_val 0)
      in submit now (cpu_call iterations pri) s)"

definition enqueueIoTask :: "int \<Rightarrow> jsobj \<Rightarrow> Sys \<Rightarrow> (queue_error + nat) \<times> Sys" where
  "enqueueIoTask now body s =
     (let delayMs = js_or (prop_of body ''delayMs'') (num_val 100);
          pri = js_default (prop_of body ''priority'') (num_val 0)
      in submit now (io_call delayMs pri) s)"

definition enqueueBatchTask :: "int \<Rightarrow> jsobj \<Rightarrow> Sys \<Rightarrow> (queue_error + nat) \<times> Sys" where
  "enqueueBatchTask now body s =
     (let itemCount = js_or (prop_of body ''itemCount'') (num_val 10);
          pri = js_default (prop_of body ''priority'') (num_val (- 3))
      in submit now (batch_call itemCount pri) s)"

section \<open>The burst\<close>

text \<open>\<open>Math.min(v, cap)\<close>.\<close>

fun num_cap :: "rat \<Rightarrow> jsnum \<Rightarrow> jsnum" where
  "num_cap cap (Fin r) = Fin (min r cap)"
| "num_cap cap PosInf = Fin cap"
| "num_cap cap n = n"

definition body_count :: "jsobj \<Rightarrow> rat \<Rightarrow> rat \<Rightarrow> jsnum" where
  "body_count body preset cap = num_cap cap (js_number (js_or (prop_of body ''count'') (num_val preset)))"

text \<open>\<open>Math.floor(Math.random() * 10) - 3\<close>.\<close>

definition random_priority :: "rat \<Rightarrow> jsval" where
  "random_priority r = num_val (of_int (\<lfloor>r * 10\<rfloor> - 3))"

text \<open>\<open>rand < bound\<close>.\<close>

definition falls_below :: "rat \<Rightarrow> jsval \<Rightarrow> bool" where
  "falls_below r bound = js_greater bound (num_val r)"

text \<open>One task of the burst, and the next call of \<open>Math.random()\<close>.\<close>

definition burst_task :: "jsval \<Rightarrow> jsval \<Rightarrow> (nat \<Rightarrow> rat) \<Rightarrow> nat \<Rightarrow> (simulation \<times> EnqueueOptions) \<times> nat" where
  "burst_task cpuRatio ioRatio rnd k =
     (let rand = rnd k in
      if falls_below rand cpuRatio then (cpu_call (num_val 500) (random_priority (rnd (k + 1))), k + 2)
      else if falls_below rand (js_add cpuRatio ioRatio) then (io_call (num_val 50) (random_priority (rnd (k + 1))), k + 2)
      else (batch_call (num_val 5) (num_val (- 5)), k + 1))"

text \<open>The loop of \<open>runMixedBurst\<close>: the promises it pushes, each refused at once or waiting for the
  task with that id. \<open>clock i\<close> is the time of round \<open>i\<close>.\<close>

fun burst_loop ::
  "(nat \<Rightarrow> int) \<Rightarrow> (nat \<Rightarrow> rat) \<Rightarrow> jsval \<Rightarrow> jsval \<Rightarrow> nat \<Rightarrow> nat \<Rightarrow> nat \<Rightarrow> Sys \<Rightarrow> (queue_error + nat) list \<times> Sys" where
  "burst_loop clock rnd cpuRatio ioRatio 0 i k s = ([], s)"
| "burst_loop clock rnd cpuRatio ioRatio (Suc todo) i k s =
     (let (call, k') = burst_task cpuRatio ioRatio rnd k; (promise, s') = submit (clock i) call s;
          (promises, t) = burst_loop clock rnd cpuRatio ioRatio todo (i + 1) k' s'
      in (promise # promises, t))"

definition burst_rounds :: "jsobj \<Rightarrow> nat" where
  "burst_rounds body = the (count_up (body_count body 10 200))"

definition runMixedBurst_begin ::
  "(nat \<Rightarrow> int) \<Rightarrow> (nat \<Rightarrow> rat) \<Rightarrow> jsobj \<Rightarrow> Sys \<Rightarrow> (queue_error + nat) list \<times> Sys" where
  "runMixedBurst_begin clock rnd body s =
     burst_loop clock rnd (js_default (prop_of body ''cpuRatio'') (num_val (4 / 10)))
       (js_default (prop_of body ''ioRatio'') (num_val (4 / 10))) (burst_rounds body) 0 0 s"

text \<open>\<open>Promise.allSettled\<close>: whether a promise of the burst is fulfilled; \<open>None\<close> while it is pending.\<close>

definition promise_state :: "Sys \<Rightarrow> queue_error + nat \<Rightarrow> bool option" where
  "promise_state t promise =
     (case promise of Inl err \<Rightarrow> Some False | Inr i \<Rightarrow> map_option is_resolved (map_of (settled t) i))"

record BurstReport =
  br_total :: jsnum
  br_fulfilled :: nat
  br_rejected :: nat

definition runMixedBurst_end :: "jsobj \<Rightarrow> (queue_error + nat) list \<Rightarrow> Sys \<Rightarrow> BurstReport option" where
  "runMixedBurst_end body promises t =
     (let states = map (promise_state t) promises in
      if None \<in> set states then None
      else Some \<lparr>br_total = body_count body 10 200,
                 br_fulfilled = length (filter (\<lambda>st. st = Some True) states),
                 br_rejected = length (filter (\<lambda>st. st = Some False) states)\<rparr>)"

section \<open>One round of a stream\<close>

datatype dispatched = ToQueue simulation EnqueueOptions | ToWrite jsval | ToRead jsval

definition to_queue :: "simulation \<times> EnqueueOptions \<Rightarrow> dispatched" where
  "to_queue call = ToQueue (fst call) (snd call)"

text \<open>\<open>rand\<close> is the call of \<open>Math.random()\<close> of a mixed round.\<close>

definition dispatchSingleTask :: "jsval \<Rightarrow> jsobj \<Rightarrow> rat \<Rightarrow> dispatched" where
  "dispatchSingleTask type body rand =
     (if type = Str ''cpu'' then to_queue (cpu_call (js_or (prop_of body ''iterations'') (num_val 1000)) (num_val 0))
      else if type = Str ''io'' then to_queue (io_call (js_or (prop_of body ''delayMs'') (num_val 100)) (num_val 0))
      else if type = Str ''db-write'' then ToWrite (js_or (prop_of body ''count'') (num_val 100))
      else if type = Str ''db-read'' then ToRead (js_or (prop_of body ''count'') (num_val 100))
      else
        let cpuRatio = js_default (prop_of body ''cpuRatio'') (num_val (1 / 2));
            ioRatio = js_default (prop_of body ''ioRatio'') (num_val (1 / 2))
        in if falls_below rand cpuRatio then to_queue (cpu_call (num_val 500) (num_val 0))
           else if falls_below rand (js_add cpuRatio ioRatio) then to_queue (io_call (num_val 50) (num_val 0))
           else to_queue (batch_call (num_val 5) (num_val (- 5))))"

section \<open>The database benchmark\<close>

text \<open>A benchmark runs when its count is finite, with \<open>rows\<close> rows written or read.\<close>

definition DB_CAP :: rat where
  "DB_CAP = 100000000"

definition dbWrite ::
  "bench_fault \<Rightarrow> (nat \<Rightarrow> int \<times> int) \<Rightarrow> rat \<Rightarrow> rat option \<Rightarrow> bench \<Rightarrow> (string + BenchResult) \<times> bench" where
  "dbWrite fault clock elapsed count_opt b = driver_write fault clock (capped_count 100 DB_CAP count_opt) elapsed b"

definition dbRead ::
  "bench_fault \<Rightarrow> rat \<Rightarrow> rat option \<Rightarrow> bench \<Rightarrow> (string + BenchResult) \<times> bench" where
  "dbRead fault elapsed count_opt b = driver_read fault (capped_count 100 DB_CAP count_opt) elapsed b"

definition dbRows :: "bench_fault \<Rightarrow> bench \<Rightarrow> string + nat" where
  "dbRows fault b = driver_rows fault b"

definition dbReset :: "bench_fault \<Rightarrow> bench \<Rightarrow> (string + jsval) \<times> bench" where
  "dbReset fault b =
     (case driver_reset fault b of
        (Inl e, b') \<Rightarrow> (Inl e, b')
      | (Inr _, b') \<Rightarrow> (Inr (Obj [(''ok'', Bool True)]), b'))"

text \<open>The rounds of a \<open>db-write\<close> stream from round \<open>i\<close>: each writes the rows of the count of the body,
  the one that is the number of rounds too. \<open>fault\<close>, \<open>clock\<close> and \<open>took\<close> are those of a round.\<close>

fun write_rounds ::
  "(nat \<Rightarrow> bench_fault) \<Rightarrow> (nat \<Rightarrow> nat \<Rightarrow> int \<times> int) \<Rightarrow> (nat \<Rightarrow> rat) \<Rightarrow> rat option \<Rightarrow> nat \<Rightarrow> nat \<Rightarrow>
     bench \<Rightarrow> (bool \<times> rat) list \<times> bench" where
  "write_rounds fault clock took count_opt 0 i b = ([], b)"
| "write_rounds fault clock took count_opt (Suc todo) i b =
     (let (res, b1) = driver_write (fault i) (clock i) (num_default 100 count_opt) (took i) b;
          (rounds, b2) = write_rounds fault clock took count_opt todo (i + 1) b1
      in ((\<not> isl res, took i) # rounds, b2))"

definition write_stream ::
  "(nat \<Rightarrow> bench_fault) \<Rightarrow> (nat \<Rightarrow> nat \<Rightarrow> int \<times> int) \<Rightarrow> (nat \<Rightarrow> rat) \<Rightarrow> rat option \<Rightarrow> int \<Rightarrow> rat \<Rightarrow>
     bench \<Rightarrow> LoadTest.event list \<times> bench" where
  "write_stream fault clock took count_opt now elapsed b =
     (let (rounds, b') = write_rounds fault clock took count_opt (loop_rounds (capped_count 20 500 count_opt)) 0 b
      in (runStream (Some ''db-write'') count_opt (\<lambda>i. rounds ! i) now elapsed, b'))"


section \<open>What the simulations compute\<close>

lemma cpu_hash_Suc: "cpu_hash (Suc n) = 31 * cpu_hash n + of_nat n"
  by (simp add: cpu_hash_def hash_step_def push_bit_eq_mult algebra_simps)

lemma hash_sum_dvd: "(900 :: int) dvd 31 ^ n - 30 * int n - 1"
proof (induction n)
  case (Suc n)
  have "(31 :: int) ^ Suc n - 30 * int (Suc n) - 1 = 31 * (31 ^ n - 30 * int n - 1) + 900 * int n" by simp
  then show ?case using Suc by (metis dvd_add dvd_mult dvd_triv_left)
qed simp

lemma cpu_hash_closed: "cpu_hash n = of_int ((31 ^ n - 30 * int n - 1) div 900)"
proof (induction n)
  case 0
  then show ?case by (simp add: cpu_hash_def)
next
  case (Suc n)
  obtain c :: int where c: "31 ^ n - 30 * int n - 1 = 900 * c" using hash_sum_dvd [of n] by (elim dvdE)
  then have p: "(31 :: int) ^ n = 900 * c + 30 * int n + 1" by simp
  have "(31 :: int) ^ Suc n - 30 * int (Suc n) - 1 = 900 * (31 * c + int n)" by (simp add: p)
  then have "(31 ^ Suc n - 30 * int (Suc n) - 1) div 900 = 31 * c + int n" by simp
  then show ?case using Suc.IH c by (simp add: cpu_hash_Suc)
qed

lemma hash_digit_value: "d < 16 \<Longrightarrow> digit_value 16 (hash_digit d) = Some d"
  by (auto simp: digit_value_def hash_digit_def Let_def)

lemma hex_digits_value: "digits_value 16 0 (hex_digits n) = n"
proof (induction n rule: hex_digits.induct)
  case (1 n)
  show ?case
  proof (cases "n < 16")
    case True
    then show ?thesis by (subst hex_digits.simps) (simp add: hash_digit_value)
  next
    case False
    then show ?thesis using 1 by (subst hex_digits.simps) (simp add: digits_value_append hash_digit_value)
  qed
qed

lemma hex_digits_start: "\<exists>d s. hex_digits n = hash_digit d # s \<and> d < 16"
proof (induction n rule: hex_digits.induct)
  case (1 n)
  show ?case
  proof (cases "n < 16")
    case False
    then obtain d s where "hex_digits (n div 16) = hash_digit d # s \<and> d < 16" using 1 by blast
    then show ?thesis using False by (subst hex_digits.simps) auto
  qed (subst hex_digits.simps, auto)
qed

text \<open>A hexadecimal text with a sign, read back.\<close>

definition hex_value :: "string \<Rightarrow> int" where
  "hex_value s =
     (case s of c # r \<Rightarrow> if c = CHR ''-'' then - int (digits_value 16 0 r) else int (digits_value 16 0 s) | [] \<Rightarrow> 0)"

lemma hash_digit_not_minus: "d < 16 \<Longrightarrow> hash_digit d \<noteq> CHR ''-''"
  using hash_digit_value [of d] by (auto simp: digit_value_def)

lemma hex_value_text: "hex_value (hex_text i) = i"
proof (cases "i < 0")
  case True
  then show ?thesis by (simp add: hex_value_def hex_text_def hex_digits_value)
next
  case False
  obtain d s where h: "hex_digits (nat i) = hash_digit d # s" "d < 16" using hex_digits_start by blast
  then have "hex_value (hex_digits (nat i)) = int (digits_value 16 0 (hex_digits (nat i)))"
    by (simp add: hex_value_def hash_digit_not_minus)
  then show ?thesis using False by (simp add: hex_text_def hex_digits_value)
qed

text \<open>C39. A CPU simulation of \<open>n\<close> rounds resolves with the text of a signed 32-bit integer, the value of
  \<open>sum i * 31 ^ (n - 1 - i)\<close> in closed form, modulo \<open>2 ^ 32\<close>.\<close>

theorem simulated_hash_is_exact:
  assumes "count_up (js_number v) = Some n"
  shows "\<exists>h. simulateCPU v = Some (Fin 0, Obj [(''hash'', Str h), (''iterations'', v)]) \<and>
           - (2 ^ 31) \<le> hex_value h \<and> hex_value h < 2 ^ 31 \<and>
           hex_value h mod 2 ^ 32 = ((31 ^ n - 30 * int n - 1) div 900) mod 2 ^ 32"
proof -
  let ?w = "cpu_hash n" and ?c = "(31 ^ n - 30 * int n - 1) div 900"
  have "sint ?w mod 2 ^ 32 = uint ?w"
    using uint_sint [of ?w] by (simp add: take_bit_eq_mod)
  also have "uint ?w = ?c mod 2 ^ 32" by (simp add: cpu_hash_closed uint_word_of_int)
  finally have "sint ?w mod 2 ^ 32 = ?c mod 2 ^ 32" .
  moreover have "- (2 ^ 31) \<le> sint ?w" "sint ?w < 2 ^ 31"
    using sint_ge [of ?w] sint_lt [of ?w] by simp_all
  ultimately show ?thesis using assms by (simp add: simulateCPU_def hex_value_text)
qed

theorem simulated_hash_is_exact_witness:
  "\<exists>h. simulateCPU (num_val 12) = Some (Fin 0, Obj [(''hash'', Str h), (''iterations'', num_val 12)]) \<and> hex_value h = - 320062458"
proof -
  have c: "count_up (js_number (num_val 12)) = Some 12" by (simp add: num_val_def)
  obtain h where h: "simulateCPU (num_val 12) = Some (Fin 0, Obj [(''hash'', Str h), (''iterations'', num_val 12)])"
      "- (2 ^ 31) \<le> hex_value h" "hex_value h < 2 ^ 31"
      "hex_value h mod 2 ^ 32 = ((31 ^ 12 - 30 * int 12 - 1) div 900) mod 2 ^ 32"
    using simulated_hash_is_exact [OF c] by blast
  have "hex_value h mod 4294967296 = 3974904838" using h(4) by simp
  moreover have bounds: "- 2147483648 \<le> hex_value h" "hex_value h < 2147483648" using h(2,3) by simp_all
  moreover define q where "q = hex_value h div 4294967296"
  ultimately have h': "hex_value h = 4294967296 * q + 3974904838" using mult_div_mod_eq [of 4294967296 "hex_value h"] by simp
  have "q < 0" "- 2 < q" using bounds h' by linarith+
  then have "q = - 1" by simp
  then have "hex_value h = - 320062458" using h' by simp
  then show ?thesis using h(1) by blast
qed

text \<open>The items of a batch.\<close>

definition item_names :: "nat \<Rightarrow> string list" where
  "item_names n = map (\<lambda>i. ''item-'' @ show_int (int i)) [0..<n]"

lemma process_items_ends:
  assumes "process_items n m items = Some r"
  shows "\<exists>k. reaches k n"
proof (rule process_items.raw_induct [of "\<lambda>n m items r. \<exists>k. reaches k n", OF _ assms])
  fix rec n m items r
  assume ih: "\<And>n m items r. rec n m items = Some r \<Longrightarrow> \<exists>k. reaches k n"
    and body: "(let items = items @ [''item-'' @ show_int (int m)]; m = m + 1
                in if reaches m n then Some (m, items) else rec n m items) = Some r"
  show "\<exists>k. reaches k n"
  proof (cases "reaches (m + 1) n")
    case False
    then show ?thesis using body ih by (simp add: Let_def)
  qed blast
qed

lemma process_items_result:
  assumes "\<forall>k. m < k \<and> k < e \<longrightarrow> \<not> reaches k n" "reaches e n" "m < e" "items = item_names m"
  shows "process_items n m items = Some (e, item_names e)"
  using assms
proof (induction "e - m" arbitrary: m items)
  case (Suc d)
  have next_item: "item_names m @ [''item-'' @ show_int (int m)] = item_names (m + 1)" by (simp add: item_names_def)
  show ?case
  proof (cases "m + 1 = e")
    case True
    then show ?thesis using Suc.prems next_item by (subst process_items.simps) simp
  next
    case False
    then have "\<not> reaches (m + 1) n" using Suc.prems by auto
    moreover have "process_items n (m + 1) (item_names (m + 1)) = Some (e, item_names e)"
      using Suc.hyps Suc.prems False by (intro Suc.hyps(1)) auto
    ultimately show ?thesis using Suc.prems(4) next_item by (subst process_items.simps) simp
  qed
qed simp

definition items_done :: "nat \<Rightarrow> (jsnum \<times> jsval) option" where
  "items_done n =
     Some (Fin (5 * (of_nat n - 1)),
           Obj [(''processed'', num_val (of_nat n)), (''items'', Arr (map Str (take 3 (item_names n))))])"


section \<open>The burst is accounted for\<close>

lemma trim_name: "trim ''cpu'' = ''cpu''" "trim ''load-test-batch'' = ''load-test-batch''" "to_lower ''cpu'' = ''cpu''"
  by code_simp+

lemma call_options_pass:
  assumes "call = cpu_call v (num_val (of_int p)) \<or> call = io_call v (num_val (of_int p)) \<or> call = batch_call v (num_val (of_int p))"
  shows "\<exists>n. normalizeEnqueueOptions allowed (snd call) tmo fb = (Inr n, fb) \<and> n_priority n = p"
proof -
  have pri: "parsePriorityOption (num_val (of_int p)) = Inr p"
    using as_integer_of_int [of p] by (simp add: parsePriorityOption_def num_val_def nullish_def num_of_int_def del: as_integer_of_int)
  show ?thesis
    using assms
    by (elim disjE)
       (simp_all add: cpu_call_def io_call_def batch_call_def no_options_def normalizeEnqueueOptions_def pri trim_name
          parseCategoryOption_def parsePositiveIntegerOption_def parseWorkloadTypeOption_def parseParamsOption_def
          parseFunctionCodeOption_def nullish_def Let_def lower_char_def)
qed

definition burst_call :: "simulation \<times> EnqueueOptions \<Rightarrow> bool" where
  "burst_call call \<longleftrightarrow> (\<forall>allowed tmo fb. \<exists>n. normalizeEnqueueOptions allowed (snd call) tmo fb = (Inr n, fb))"

lemma burst_calls:
  "burst_call (cpu_call v (random_priority r))" "burst_call (io_call v (random_priority r))"
  "burst_call (batch_call v (num_val (- 5)))"
proof -
  have c: "burst_call (cpu_call v (num_val (of_int p)))" "burst_call (io_call v (num_val (of_int p)))"
    "burst_call (batch_call v (num_val (of_int p)))" for p
    using call_options_pass [of _ v p] unfolding burst_call_def by blast+
  show "burst_call (cpu_call v (random_priority r))" "burst_call (io_call v (random_priority r))"
    unfolding random_priority_def by (rule c)+
  show "burst_call (batch_call v (num_val (- 5)))" using c(3) [of "- 5"] by simp
qed

lemma burst_task_call: "burst_task c d rnd k = (call, k') \<Longrightarrow> burst_call call"
  using burst_calls by (auto simp: burst_task_def Let_def split: if_splits)

definition refusal :: "queue_error \<Rightarrow> bool" where
  "refusal e \<longleftrightarrow> e = ServerOverloaded \<or> e = QueueFull"

text \<open>What submitting such a call does.\<close>

lemma submit_call:
  assumes "burst_call call" "core s" "submit now call s = (promise, s')"
  shows "core s'" "settled s' = settled s"
    and "case promise of
           Inl e \<Rightarrow> refusal e \<and> taskIdCounter (queue s') = taskIdCounter (queue s) \<and>
             length (waiting (queue s')) = length (waiting (queue s)) \<and>
             totalRejected (stats s') = totalRejected (stats s) + 1
         | Inr i \<Rightarrow> i = taskIdCounter (queue s) + 1 \<and> taskIdCounter (queue s') = i \<and>
             length (waiting (queue s')) = length (waiting (queue s)) + 1 \<and>
             totalRejected (stats s') = totalRejected (stats s)"
proof -
  obtain n where n: "normalizeEnqueueOptions (customAllowed s) (snd call) (executionTimeoutMs (config s)) (fallbackCount s)
      = (Inr n, fallbackCount s)"
    using assms(1) unfolding burst_call_def by blast
  have e: "enqueue now (snd call) s = (promise, s')" using assms(3) by (simp add: submit_def)
  have "core s' \<and> settled s' = settled s \<and> (case promise of
           Inl e \<Rightarrow> refusal e \<and> taskIdCounter (queue s') = taskIdCounter (queue s) \<and>
             length (waiting (queue s')) = length (waiting (queue s)) \<and> totalRejected (stats s') = totalRejected (stats s) + 1
         | Inr i \<Rightarrow> i = taskIdCounter (queue s) + 1 \<and> taskIdCounter (queue s') = i \<and>
             length (waiting (queue s')) = length (waiting (queue s)) + 1 \<and> totalRejected (stats s') = totalRejected (stats s))"
  proof (cases rule: enqueue_cases [of s "snd call" now])
    case (admitted m fb)
    then have m: "m = n" "fb = fallbackCount s" using n by simp_all
    then have s': "s' = admit now n s" "promise = Inr (taskIdCounter (queue s) + 1)" using e admitted(5) by auto
    note a = admit_facts [OF assms(2) _ s'(1)]
    have "stats s' = stats s" by (simp add: s'(1) admit_def Let_def requestProcessQueue_eq place_task_frame)
    moreover have "settled s' = settled s" by (simp add: s'(1) admit_def Let_def requestProcessQueue_eq place_task_frame)
    moreover have "0 < n_size n" using admitted(4) m by simp
    moreover have "length (waiting (queue s')) = length (waiting (queue s)) + 1"
      using arg_cong [OF a(7) [OF \<open>0 < n_size n\<close>], of size] by simp
    ultimately show ?thesis using a(1,4) s'(2) by simp
  qed (use n e assms(2) in \<open>auto simp: refuse_def refusal_def stats_defs core_def active_ok_def\<close>)
  then show "core s'" "settled s' = settled s" "case promise of
           Inl e \<Rightarrow> refusal e \<and> taskIdCounter (queue s') = taskIdCounter (queue s) \<and>
             length (waiting (queue s')) = length (waiting (queue s)) \<and> totalRejected (stats s') = totalRejected (stats s) + 1
         | Inr i \<Rightarrow> i = taskIdCounter (queue s) + 1 \<and> taskIdCounter (queue s') = i \<and>
             length (waiting (queue s')) = length (waiting (queue s)) + 1 \<and> totalRejected (stats s') = totalRejected (stats s)"
    by blast+
qed

lemma submit_step: "submit now call s = (promise, s') \<Longrightarrow> step\<^sup>*\<^sup>* s s'"
  using step [of "Enqueue now (snd call)" s] by (auto simp: submit_def)

definition accepted :: "(queue_error + nat) list \<Rightarrow> nat list" where
  "accepted promises = map projr (filter (\<lambda>p. \<not> isl p) promises)"

lemma accepted_simps [simp]:
  "accepted [] = []" "accepted (Inl e # ps) = accepted ps" "accepted (Inr i # ps) = i # accepted ps"
  by (simp_all add: accepted_def)

lemma burst_loop_facts:
  assumes "core s" "burst_loop clock rnd c d todo i k s = (promises, t)"
  shows "step\<^sup>*\<^sup>* s t \<and> settled t = settled s \<and> length promises = todo \<and>
         (\<forall>e. Inl e \<in> set promises \<longrightarrow> refusal e) \<and>
         accepted promises = [taskIdCounter (queue s) + 1..<taskIdCounter (queue t) + 1] \<and>
         taskIdCounter (queue s) \<le> taskIdCounter (queue t) \<and>
         length (waiting (queue t)) = length (waiting (queue s)) + length (accepted promises) \<and>
         totalRejected (stats t) + length (accepted promises) = totalRejected (stats s) + todo"
  using assms
proof (induction todo arbitrary: i k s promises t)
  case 0
  then show ?case by (simp add: accepted_def)
next
  case (Suc todo)
  obtain call k' where b: "burst_task c d rnd k = (call, k')" by fastforce
  obtain promise s' where u: "submit (clock i) call s = (promise, s')" by fastforce
  obtain ps t' where r: "burst_loop clock rnd c d todo (i + 1) k' s' = (ps, t')" by fastforce
  have eq: "promises = promise # ps" "t' = t" using Suc.prems(2) b u r by simp_all
  note call = submit_call [OF burst_task_call [OF b] Suc.prems(1) u]
  note ih = Suc.IH [OF call(1) r]
  have st: "step\<^sup>*\<^sup>* s t" using submit_step [OF u] ih eq by auto
  show ?case
  proof (cases promise)
    case (Inl e)
    then show ?thesis using call(2,3) ih st unfolding eq by (auto simp del: upt_Suc)
  next
    case (Inr j)
    then have j: "j = taskIdCounter (queue s) + 1" "taskIdCounter (queue s') = j" using call(3) by simp_all
    have "j \<le> taskIdCounter (queue t)" using ih eq j by simp
    then have "accepted promises = [taskIdCounter (queue s) + 1..<taskIdCounter (queue t) + 1]"
      using Inr ih j unfolding eq by (simp add: upt_conv_Cons del: upt_Suc)
    moreover have "length (waiting (queue t)) = length (waiting (queue s)) + length (accepted promises) \<and>
        totalRejected (stats t) + length (accepted promises) = totalRejected (stats s) + Suc todo"
      using Inr call(3) ih unfolding eq by (auto simp del: upt_Suc)
    ultimately show ?thesis using Inr call(2) ih j st unfolding eq by (auto simp del: upt_Suc)
  qed
qed

lemma settled_distinct:
  assumes "reachable s0 t"
  shows "distinct (map fst (settled t))"
proof -
  let ?xs = "map task_id (waiting (queue t) @ running t @ pool_tasks (pool t)) @ map fst (settled t)"
  have "mset ?xs \<subseteq># mset (sorted_list_of_set {taskIdCounter (queue s0)<..taskIdCounter (queue t)})"
    using reachable_inv [OF assms] by (simp add: sys_inv_def ids_def held_def mset_sorted_list ac_simps)
  then have "distinct ?xs" by (rule distinct_subset_mset) simp
  then show ?thesis by simp
qed

lemma fulfilled_count:
  "length (filter (\<lambda>st. st = Some True) (map (promise_state t) ps)) =
   length (filter (\<lambda>i. promise_state t (Inr i) = Some True) (accepted ps))"
proof (induction ps)
  case (Cons p ps)
  then show ?case by (cases p) (simp_all add: accepted_def promise_state_def)
qed (simp add: accepted_def)

lemma two_states: "None \<notin> set sts \<Longrightarrow>
  length (filter (\<lambda>st. st = Some True) sts) + length (filter (\<lambda>st. st = Some False) sts) = length sts"
proof (induction sts)
  case (Cons a sts)
  then show ?case by (cases a) auto
qed simp

lemma burst_rounds_capped: "burst_rounds body \<le> 200"
proof -
  have "nat \<lceil>min r 200\<rceil> \<le> 200" for r :: rat by linarith
  then show ?thesis
    by (cases "js_number (js_or (prop_of body ''count'') (num_val 10))") (simp_all add: burst_rounds_def body_count_def)
qed

text \<open>C9. A burst submits at most 200 tasks. Each is refused at once, because of overload or a full queue,
  or takes the next id and waits. The report comes exactly when every accepted task has been settled;
  then its two counts add up to the tasks submitted, and the fulfilled ones are the tasks resolved,
  whatever else happens in the system meanwhile.\<close>

theorem burst_is_accounted_for:
  assumes "reachable s0 s" and "runMixedBurst_begin clock rnd body s = (promises, s1)" and "step\<^sup>*\<^sup>* s1 t"
  shows "length promises = burst_rounds body \<and> burst_rounds body \<le> 200 \<and> (\<forall>e. Inl e \<in> set promises \<longrightarrow> refusal e) \<and>
         accepted promises = [taskIdCounter (queue s) + 1..<taskIdCounter (queue s1) + 1] \<and>
         length (waiting (queue s1)) = length (waiting (queue s)) + length (accepted promises) \<and>
         totalRejected (stats s1) + length (accepted promises) = totalRejected (stats s) + length promises \<and>
         (case runMixedBurst_end body promises t of
            None \<Rightarrow> \<exists>i \<in> set (accepted promises). i \<notin> fst ` set (settled t)
          | Some rep \<Rightarrow>
              set (accepted promises) \<subseteq> fst ` set (settled t) \<and>
              br_fulfilled rep + br_rejected rep = length promises \<and>
              br_fulfilled rep = card {i \<in> set (accepted promises). \<exists>v. (i, Resolved v) \<in> set (settled t)})"
proof -
  have "core s" using reachable_inv [OF assms(1)] by (simp add: sys_inv_def)
  note facts = burst_loop_facts [OF this assms(2) [unfolded runMixedBurst_begin_def]]
  have "reachable s0 t" using assms(1,3) facts by (auto simp: reachable_def)
  note dist = settled_distinct [OF this]
  let ?states = "map (promise_state t) promises"
  have pending: "None \<in> set ?states \<longleftrightarrow> (\<exists>i \<in> set (accepted promises). i \<notin> fst ` set (settled t))"
  proof -
    have "None \<in> set ?states \<longleftrightarrow> (\<exists>p \<in> set promises. \<not> isl p \<and> projr p \<notin> fst ` set (settled t))"
      by (force simp: promise_state_def map_of_eq_None_iff split: sum.splits)
    then show ?thesis by (auto simp: accepted_def)
  qed
  have resolved: "promise_state t (Inr i) = Some True \<longleftrightarrow> (\<exists>v. (i, Resolved v) \<in> set (settled t))" for i
  proof
    assume "promise_state t (Inr i) = Some True"
    then obtain r where "map_of (settled t) i = Some r" "is_resolved r" by (auto simp: promise_state_def)
    then show "\<exists>v. (i, Resolved v) \<in> set (settled t)" by (cases r) (auto dest: map_of_SomeD)
  next
    assume "\<exists>v. (i, Resolved v) \<in> set (settled t)"
    then show "promise_state t (Inr i) = Some True" using dist by (auto simp: promise_state_def)
  qed
  have count: "length (filter (\<lambda>st. st = Some True) ?states) =
      card {i \<in> set (accepted promises). \<exists>v. (i, Resolved v) \<in> set (settled t)}"
  proof -
    have "accepted promises = [taskIdCounter (queue s) + 1..<taskIdCounter (queue s1) + 1]" using facts by blast
    then have "distinct (accepted promises)" by simp
    then have "distinct (filter (\<lambda>i. promise_state t (Inr i) = Some True) (accepted promises))" by simp
    from distinct_card [OF this] show ?thesis unfolding fulfilled_count resolved by simp
  qed
  have "case runMixedBurst_end body promises t of
            None \<Rightarrow> \<exists>i \<in> set (accepted promises). i \<notin> fst ` set (settled t)
          | Some rep \<Rightarrow>
              set (accepted promises) \<subseteq> fst ` set (settled t) \<and> br_fulfilled rep + br_rejected rep = length promises \<and>
              br_fulfilled rep = card {i \<in> set (accepted promises). \<exists>v. (i, Resolved v) \<in> set (settled t)}"
  proof (cases "None \<in> set ?states")
    case True
    then show ?thesis using pending by (simp add: runMixedBurst_end_def Let_def)
  next
    case False
    moreover have "set (accepted promises) \<subseteq> fst ` set (settled t)" using False pending by blast
    ultimately show ?thesis using two_states [OF False] count by (simp add: runMixedBurst_end_def Let_def)
  qed
  moreover have len: "length promises = burst_rounds body" using facts by blast
  ultimately show ?thesis using facts burst_rounds_capped [of body] unfolding len by blast
qed

text \<open>Three tasks on a queue with no room for the third: one resolves, one throws.\<close>

definition burst_body :: jsobj where
  "burst_body = [(''count'', num_val 3), (''cpuRatio'', num_val 0)]"

definition small_queue :: Sys where
  "small_queue = sys_init ((\<lambda>_. None)(''QUEUE_OVERFLOW_THRESHOLD'' \<mapsto> ''2'')) 0 init_stats"

definition burst_run :: "QueueSystem.event list" where
  "burst_run = [ProcessImmediate (\<lambda>_ _. None), MainDone 1 (Resolved Null), MainDone 2 (Rejected (Thrown ''io''))]"

theorem burst_is_accounted_for_witness:
  "\<exists>promises s1 t rep. runMixedBurst_begin (\<lambda>_. 7) (\<lambda>_. 1 / 4) burst_body small_queue = (promises, s1) \<and>
     run burst_run s1 = Some t \<and> runMixedBurst_end burst_body promises t = Some rep \<and>
     accepted promises = [1, 2] \<and> Inl QueueFull \<in> set promises \<and> br_fulfilled rep = 1 \<and> br_rejected rep = 2"
proof -
  define b where "b = runMixedBurst_begin (\<lambda>_. 7) (\<lambda>_. 1 / 4) burst_body small_queue"
  define t where "t = the (run burst_run (snd b))"
  define rep where "rep = the (runMixedBurst_end burst_body (fst b) t)"
  have reach: "reachable small_queue small_queue" by (rule reachable_start) (auto simp: start_state_def small_queue_def)
  have c: "run burst_run (snd b) \<noteq> None" "runMixedBurst_end burst_body (fst b) t \<noteq> None" "accepted (fst b) = [1, 2]"
    "br_fulfilled rep = 1" "length (fst b) = 3" "Inl QueueFull \<in> set (fst b)"
    unfolding rep_def t_def b_def by code_simp+
  then have run: "run burst_run (snd b) = Some t" "runMixedBurst_end burst_body (fst b) t = Some rep"
    by (simp_all add: t_def rep_def)
  have b: "runMixedBurst_begin (\<lambda>_. 7) (\<lambda>_. 1 / 4) burst_body small_queue = (fst b, snd b)" by (simp add: b_def)
  have "br_fulfilled rep + br_rejected rep = length (fst b)"
    using burst_is_accounted_for [OF reach b run_steps [OF run(1)]] unfolding run(2) option.case by blast
  then have "br_rejected rep = 2" using c(4,5) by linarith
  then show ?thesis using b run c(3,4,6) by blast
qed

text \<open>A \<open>db-write\<close> stream writes the count of its body in each of as many rounds.\<close>

lemma write_rounds_rows:
  assumes "bench_ready b" "write_rounds fault clock took count_opt todo i b = (results, b')" "\<And>j. \<not> commit_lost (fault j)"
  shows "bench_ready b' \<and> length results = todo \<and>
         length (bench_rows b') = length (bench_rows b) +
           length (filter fst results) * loop_rounds (num_default 100 count_opt)"
  using assms(1,2)
proof (induction todo arbitrary: i b results)
  case (Suc todo)
  obtain res b1 where w: "driver_write (fault i) (clock i) (num_default 100 count_opt) (took i) b = (res, b1)" by fastforce
  obtain rs b2 where r: "write_rounds fault clock took count_opt todo (i + 1) b1 = (rs, b2)" by fastforce
  have eq: "results = (\<not> isl res, took i) # rs" "b' = b2" using Suc.prems(2) w r by simp_all
  have b1: "bench_ready b1 \<and> length (bench_rows b1) = length (bench_rows b) + (if isl res then 0 else loop_rounds (num_default 100 count_opt))"
  proof (cases res)
    case (Inl e)
    have "\<not> commit_answer_lost (fault i) b" using assms(3) by (cases b) simp_all
    then show ?thesis using module_bench.write_failed [OF Suc.prems(1), of "fault i"] w Inl by fastforce
  next
    case (Inr x)
    then show ?thesis using module_bench.write_ok [OF Suc.prems(1)] w by fastforce
  qed
  then show ?case using Suc.IH [of b1 "i + 1" rs] r eq by (cases "isl res") (simp_all add: algebra_simps)
qed simp

text \<open>The tasks of a CPU load test run on a worker when one is free, and a worker does not read the
  iterations: it searches the primes below its own preset.\<close>

lemma worker_ignores_iterations: "findPrimes (Obj [(''iterations'', v)]) = findPrimes (Obj [])"
  by (simp add: findPrimes_def capped_param_def prop_of_def)

end
