(* ===== verification/OrderEvents.thy ===== *)
theory OrderEvents
  imports Prelude
begin

text \<open>
  The events of an order's life and the data they carry: \<open>src/orders/order-events.ts\<close>. Numbers of
  the domain (quantities, prices, amounts) are exact rationals; times are integers of milliseconds.
\<close>

section \<open>Data\<close>

datatype OrderEventType = EV_CREATED | EV_INVENTORY_RESERVED | EV_PAYMENT_APPROVED | EV_SHIPMENT_STARTED

fun event_name :: "OrderEventType \<Rightarrow> string" where
  "event_name EV_CREATED = ''orders.created''"
| "event_name EV_INVENTORY_RESERVED = ''inventory.reserved''"
| "event_name EV_PAYMENT_APPROVED = ''payments.approved''"
| "event_name EV_SHIPMENT_STARTED = ''shipments.started''"

definition event_types :: "OrderEventType list" where
  "event_types = [EV_CREATED, EV_INVENTORY_RESERVED, EV_PAYMENT_APPROVED, EV_SHIPMENT_STARTED]"

definition ORDER_TOPICS :: "(OrderEventType \<times> string) list" where
  "ORDER_TOPICS =
     [(EV_CREATED, ''orders.created''), (EV_INVENTORY_RESERVED, ''inventory.reserved''),
      (EV_PAYMENT_APPROVED, ''payments.approved''), (EV_SHIPMENT_STARTED, ''shipments.started'')]"

datatype OrderStatus = ST_CREATED | ST_INVENTORY_RESERVED | ST_PAYMENT_APPROVED | ST_SHIPPED | ST_FAILED

record OrderItem =
  productId :: string
  quantity :: rat
  unitPrice :: rat

record Order =
  orderId :: string
  userId :: string
  amount :: rat
  items :: "OrderItem list"
  status :: OrderStatus
  order_createdAt :: int
  updatedAt :: int

record OrderEventPayload =
  p_eventType :: OrderEventType
  p_orderId :: string
  p_userId :: string
  p_amount :: rat
  p_items :: "OrderItem list"
  emittedAt :: int

record OrderEventRecord =
  rec_id :: "nat option"
  rec_orderId :: string
  rec_eventType :: OrderEventType
  rec_topic :: string
  rec_partition :: int
  rec_offset :: string
  rec_consumerId :: string
  rec_consumedAt :: int

text \<open>The errors of the order side.\<close>

datatype order_error =
    InventoryWithoutItems string
  | NoTopic OrderEventType
  | DuplicateOrderId string
  | StatusOfMissingOrder string
  | OrderNotFound string
  | BrokenItems string
  | StoreFailed string
  | EmptyBrokers
  | NotConnected
  | SendFailed string
  | MemoryQueueStopped
  | EmptyBody
  | UnreadableBody
  | MissingFields
  | UnknownEventType
  | CommitFailed string

section \<open>Operations\<close>

text \<open>The message key: the order, except for inventory events, which go by the first product.\<close>

definition pickEventKey :: "OrderEventPayload \<Rightarrow> order_error + string" where
  "pickEventKey p =
     (if p_eventType p = EV_INVENTORY_RESERVED then
        (case p_items p of
           [] \<Rightarrow> Inl (InventoryWithoutItems (p_orderId p))
         | firstItem # _ \<Rightarrow> Inr (productId firstItem))
      else Inr (p_orderId p))"

definition topicFor :: "OrderEventType \<Rightarrow> order_error + string" where
  "topicFor ty =
     (case map_of ORDER_TOPICS ty of
        None \<Rightarrow> Inl (NoTopic ty)
      | Some topic \<Rightarrow> if topic = [] then Inl (NoTopic ty) else Inr topic)"

fun statusAfter :: "OrderEventType \<Rightarrow> OrderStatus" where
  "statusAfter EV_CREATED = ST_CREATED"
| "statusAfter EV_INVENTORY_RESERVED = ST_INVENTORY_RESERVED"
| "statusAfter EV_PAYMENT_APPROVED = ST_PAYMENT_APPROVED"
| "statusAfter EV_SHIPMENT_STARTED = ST_SHIPPED"

section \<open>The order of the statuses\<close>

fun status_rank :: "OrderStatus \<Rightarrow> nat" where
  "status_rank ST_CREATED = 0"
| "status_rank ST_INVENTORY_RESERVED = 1"
| "status_rank ST_PAYMENT_APPROVED = 2"
| "status_rank ST_SHIPPED = 3"
| "status_rank ST_FAILED = 4"

instantiation OrderStatus :: linorder
begin

definition less_eq_OrderStatus :: "OrderStatus \<Rightarrow> OrderStatus \<Rightarrow> bool" where
  "less_eq_OrderStatus a b = (status_rank a \<le> status_rank b)"

definition less_OrderStatus :: "OrderStatus \<Rightarrow> OrderStatus \<Rightarrow> bool" where
  "less_OrderStatus a b = (status_rank a < status_rank b)"

instance
proof
  fix a b c :: OrderStatus
  show "a < b \<longleftrightarrow> a \<le> b \<and> \<not> b \<le> a"
    by (auto simp: less_eq_OrderStatus_def less_OrderStatus_def)
  show "a \<le> a" by (simp add: less_eq_OrderStatus_def)
  show "a \<le> b \<Longrightarrow> b \<le> c \<Longrightarrow> a \<le> c" by (simp add: less_eq_OrderStatus_def)
  show "a \<le> b \<Longrightarrow> b \<le> a \<Longrightarrow> a = b"
    by (cases a; cases b) (simp_all add: less_eq_OrderStatus_def)
  show "a \<le> b \<or> b \<le> a" by (auto simp: less_eq_OrderStatus_def)
qed

end

section \<open>Facts\<close>

lemma topicFor_name: "topicFor ty = Inr (event_name ty)"
  by (cases ty) (simp_all add: topicFor_def ORDER_TOPICS_def)

lemma event_name_inj: "event_name a = event_name b \<longleftrightarrow> a = b"
  by (cases a; cases b) simp_all

lemma event_types_all: "ty \<in> set event_types"
  by (cases ty) (simp_all add: event_types_def)

lemma pickEventKey_order:
  "p_eventType p \<noteq> EV_INVENTORY_RESERVED \<Longrightarrow> pickEventKey p = Inr (p_orderId p)"
  by (simp add: pickEventKey_def)

lemma pickEventKey_Inr:
  "pickEventKey p = Inr k \<longleftrightarrow>
     (if p_eventType p = EV_INVENTORY_RESERVED
      then p_items p \<noteq> [] \<and> k = productId (hd (p_items p)) else k = p_orderId p)"
  by (auto simp: pickEventKey_def split: list.splits)

end
