(* ===== verification/KafkaAdmin.thy ===== *)
theory KafkaAdmin
  imports OrderEvents Env
begin

text \<open>
  What the server does with the Kafka admin client: creating the order topics at start-up
  (\<open>src/orders/order-topic.provisioner.ts\<close>) and the lag and rewind of the experiment panel
  (\<open>src/orders/lab/kafka-inspector.ts\<close>).

  The admin client is kafkajs: the record \<open>Admin\<close> holds its calls as functions of the broker's
  state \<open>'k\<close>, each with its error. The properties that need to know what the calls do name the
  documented behaviour as hypotheses (\<open>topics_as_documented\<close>, \<open>offsets_as_documented\<close>). Offsets are
  the integers their decimal texts denote.
\<close>

record PartitionOffsets =
  po_partition :: int
  po_low :: int
  po_high :: int

record 'k Admin =
  ad_connect :: "'k \<Rightarrow> string option"
  ad_disconnect :: "'k \<Rightarrow> string option"
  ad_listTopics :: "'k \<Rightarrow> string + string list"
  ad_createTopics :: "(string \<times> int \<times> int) list \<Rightarrow> 'k \<Rightarrow> string + 'k"
  ad_fetchTopicMetadata :: "string list \<Rightarrow> 'k \<Rightarrow> string + (string \<times> int) list"
  ad_fetchTopicOffsets :: "string \<Rightarrow> 'k \<Rightarrow> string + PartitionOffsets list"
  ad_fetchOffsets :: "string \<Rightarrow> string \<Rightarrow> 'k \<Rightarrow> string + (string \<times> (int \<times> int) list) list"
  ad_setOffsets :: "string \<Rightarrow> string \<Rightarrow> (int \<times> int) list \<Rightarrow> 'k \<Rightarrow> string + 'k"

datatype admin_error = BrokersEmpty | AdminFailed string | RewindFailed string string string

fun admin_call :: "string + 'a \<Rightarrow> admin_error + 'a" where
  "admin_call (Inl e) = Inl (AdminFailed e)"
| "admin_call (Inr a) = Inr a"

text \<open>The frame of both classes: connect, work, disconnect in a \<open>finally\<close> whose error wins. The
  state is the broker's; a failed call leaves it as the calls before made it.\<close>

definition with_admin ::
  "'k Admin \<Rightarrow> string list \<Rightarrow> ('k \<Rightarrow> (admin_error + 'a) \<times> 'k) \<Rightarrow> 'k \<Rightarrow> (admin_error + 'a) \<times> 'k" where
  "with_admin admin brokers work k =
     (if brokers = [] then (Inl BrokersEmpty, k)
      else case ad_connect admin k of
             Some e \<Rightarrow> (Inl (AdminFailed e), k)
           | None \<Rightarrow>
               (let (r, k') = work k in
                case ad_disconnect admin k' of Some e \<Rightarrow> (Inl (AdminFailed e), k') | None \<Rightarrow> (r, k')))"

section \<open>Topic provisioning\<close>

record TopicProvisionerConfig =
  tp_brokers :: "string list"
  tp_clientId :: string
  tp_enabled :: bool
  tp_partitions :: int
  tp_replicationFactor :: int

definition topicProvisionerConfigFromEnv :: "env \<Rightarrow> bool \<Rightarrow> TopicProvisionerConfig" where
  "topicProvisionerConfigFromEnv e enabled =
     \<lparr>tp_brokers = readKafkaBrokersEnv e ''localhost:9092'',
      tp_clientId = (case e ''ORDER_TOPIC_ADMIN_CLIENT_ID'' of None \<Rightarrow> ''order-topic-admin'' | Some c \<Rightarrow> c),
      tp_enabled = enabled,
      tp_partitions = readPositiveIntEnv e ''ORDER_TOPIC_PARTITIONS'' 6,
      tp_replicationFactor = readPositiveIntEnv e ''ORDER_TOPIC_REPLICATION_FACTOR'' 1\<rparr>"

record UnderPartitioned =
  up_topic :: string
  up_actual :: int
  up_expected :: int

record ProvisionReport =
  pr_created :: "string list"
  pr_existing :: "string list"
  pr_underPartitioned :: "UnderPartitioned list"

record OrderTopicProvisioner =
  ot_config :: TopicProvisionerConfig
  lastReport :: "ProvisionReport option"

definition findUnderPartitioned :: "'k Admin \<Rightarrow> string list \<Rightarrow> int \<Rightarrow> 'k \<Rightarrow> admin_error + UnderPartitioned list" where
  "findUnderPartitioned admin topics expected k =
     (if topics = [] then Inr []
      else and_then (admin_call (ad_fetchTopicMetadata admin topics k)) (\<lambda>metadata.
        Inr (filter (\<lambda>entry. up_actual entry < up_expected entry)
               (map (\<lambda>(name, partitions). \<lparr>up_topic = name, up_actual = partitions, up_expected = expected\<rparr>) metadata))))"

definition wanted :: "string list" where
  "wanted = map snd ORDER_TOPICS"

definition ensureTopics :: "'k Admin \<Rightarrow> int \<Rightarrow> int \<Rightarrow> 'k \<Rightarrow> (admin_error + ProvisionReport) \<times> 'k" where
  "ensureTopics admin partitions replicationFactor k =
     (case ad_listTopics admin k of
        Inl e \<Rightarrow> (Inl (AdminFailed e), k)
      | Inr existingNames \<Rightarrow>
          let missing = filter (\<lambda>t. t \<notin> set existingNames) wanted;
              existing = filter (\<lambda>t. t \<in> set existingNames) wanted in
          case (if missing \<noteq> [] then ad_createTopics admin (map (\<lambda>t. (t, partitions, replicationFactor)) missing) k
                else Inr k) of
            Inl e \<Rightarrow> (Inl (AdminFailed e), k)
          | Inr k' \<Rightarrow>
              (and_then (findUnderPartitioned admin existing partitions k') (\<lambda>under.
                 Inr \<lparr>pr_created = missing, pr_existing = existing, pr_underPartitioned = under\<rparr>), k'))"

text \<open>\<open>provision\<close> remembers the report before it disconnects.\<close>

definition provision ::
  "'k Admin \<Rightarrow> OrderTopicProvisioner \<times> 'k \<Rightarrow> (admin_error + ProvisionReport) \<times> OrderTopicProvisioner \<times> 'k" where
  "provision admin x =
     (let (p, k) = x; cfg = ot_config p in
      case with_admin admin (tp_brokers cfg) (ensureTopics admin (tp_partitions cfg) (tp_replicationFactor cfg)) k of
        (r, k') \<Rightarrow>
          (r, (if tp_brokers cfg \<noteq> [] \<and> ad_connect admin k = None
               then case fst (ensureTopics admin (tp_partitions cfg) (tp_replicationFactor cfg) k) of
                      Inr report \<Rightarrow> p\<lparr>lastReport := Some report\<rparr>
                    | Inl _ \<Rightarrow> p
               else p), k'))"

definition topics_onModuleInit ::
  "'k Admin \<Rightarrow> OrderTopicProvisioner \<times> 'k \<Rightarrow> (admin_error + unit) \<times> OrderTopicProvisioner \<times> 'k" where
  "topics_onModuleInit admin x =
     (if \<not> tp_enabled (ot_config (fst x)) then (Inr (), x)
      else let (r, x') = provision admin x in (map_sum id (\<lambda>_. ()) r, x'))"

section \<open>Lag and rewind\<close>

record PartitionLag =
  pl_partition :: int
  pl_latestOffset :: int
  pl_committedOffset :: "int option"
  pl_lag :: int

record TopicLag =
  tl_topic :: string
  tl_totalLag :: int
  tl_partitions :: "PartitionLag list"

text \<open>The \<open>Map\<close> of committed offsets: a later entry for a partition replaces an earlier one.\<close>

definition committed_map :: "(string \<times> (int \<times> int) list) list \<Rightarrow> (int \<times> int) list" where
  "committed_map committed = fold (\<lambda>(partition, offset) m. AList.update partition offset m) (concat (map snd committed)) []"

definition partition_lag :: "(int \<times> int) list \<Rightarrow> PartitionOffsets \<Rightarrow> PartitionLag" where
  "partition_lag committed entry =
     (let rawCommitted = map_of committed (po_partition entry);
          hasCommit = (rawCommitted \<noteq> None \<and> the rawCommitted \<ge> 0)
      in \<lparr>pl_partition = po_partition entry, pl_latestOffset = po_high entry,
          pl_committedOffset = (if hasCommit then rawCommitted else None),
          pl_lag = (if hasCommit then max (po_high entry - the rawCommitted) 0
                    else max (po_high entry - po_low entry) 0)\<rparr>)"

definition topicLag :: "'k Admin \<Rightarrow> string \<Rightarrow> string \<Rightarrow> 'k \<Rightarrow> admin_error + TopicLag" where
  "topicLag admin groupId topic k =
     and_then (admin_call (ad_fetchTopicOffsets admin topic k)) (\<lambda>latest.
     and_then (admin_call (ad_fetchOffsets admin groupId topic k)) (\<lambda>committed.
       let partitions = sort_key pl_partition (map (partition_lag (committed_map committed)) latest) in
       Inr \<lparr>tl_topic = topic, tl_totalLag = foldl (\<lambda>sum p. sum + pl_lag p) 0 partitions, tl_partitions = partitions\<rparr>))"

record TopicDescription =
  td_topic :: string
  td_partitions :: nat
  td_messages :: int
  td_perPartition :: "(int \<times> int) list"

definition describe_topic :: "string \<Rightarrow> PartitionOffsets list \<Rightarrow> TopicDescription" where
  "describe_topic topic offsets =
     \<lparr>td_topic = topic, td_partitions = length offsets,
      td_messages = foldl (\<lambda>sum entry. sum + max (po_high entry - po_low entry) 0) 0 offsets,
      td_perPartition = sort_key fst (map (\<lambda>entry. (po_partition entry, max (po_high entry - po_low entry) 0)) offsets)\<rparr>"

fun describe_each :: "'k Admin \<Rightarrow> 'k \<Rightarrow> string list \<Rightarrow> admin_error + TopicDescription list" where
  "describe_each admin k [] = Inr []"
| "describe_each admin k (topic # topics) =
     and_then (admin_call (ad_fetchTopicOffsets admin topic k)) (\<lambda>offsets.
     and_then (describe_each admin k topics) (\<lambda>rest. Inr (describe_topic topic offsets # rest)))"

definition describeTopics ::
  "'k Admin \<Rightarrow> string list \<Rightarrow> string list \<Rightarrow> 'k \<Rightarrow> (admin_error + TopicDescription list \<times> string list) \<times> 'k" where
  "describeTopics admin brokers topics =
     with_admin admin brokers (\<lambda>k.
       (and_then (admin_call (ad_listTopics admin k)) (\<lambda>existing.
        and_then (describe_each admin k (filter (\<lambda>t. t \<in> set existing) topics)) (\<lambda>results.
          Inr (results, filter (\<lambda>t. t \<notin> set existing) topics))), k))"

datatype target = Earliest | Latest

definition rewind_offsets :: "target \<Rightarrow> PartitionOffsets list \<Rightarrow> (int \<times> int) list" where
  "rewind_offsets tgt offsets =
     map (\<lambda>entry. (po_partition entry, if tgt = Earliest then po_low entry else po_high entry)) offsets"

definition resetOffsets ::
  "'k Admin \<Rightarrow> string list \<Rightarrow> string \<Rightarrow> string \<Rightarrow> target \<Rightarrow> 'k \<Rightarrow> (admin_error + (int \<times> int) list) \<times> 'k" where
  "resetOffsets admin brokers groupId topic tgt =
     with_admin admin brokers (\<lambda>k.
       case ad_fetchTopicOffsets admin topic k of
         Inl e \<Rightarrow> (Inl (AdminFailed e), k)
       | Inr topicOffsets \<Rightarrow>
           let offsets = rewind_offsets tgt topicOffsets in
           case ad_setOffsets admin groupId topic offsets k of
             Inl reason \<Rightarrow> (Inl (RewindFailed groupId topic reason), k)
           | Inr k' \<Rightarrow> (Inr offsets, k'))"

section \<open>What provisioning guarantees\<close>

text \<open>The documented behaviour of the topic calls, against \<open>parts k topic\<close>, the number of partitions
  of a topic that exists.\<close>

definition topics_as_documented :: "('k \<Rightarrow> string \<Rightarrow> int option) \<Rightarrow> 'k Admin \<Rightarrow> bool" where
  "topics_as_documented parts admin =
     ((\<forall>k ts. ad_listTopics admin k = Inr ts \<longrightarrow> set ts = dom (parts k)) \<and>
      (\<forall>specs k k'. ad_createTopics admin specs k = Inr k' \<longrightarrow>
         parts k' = parts k ++ map_of (map (\<lambda>(t, n, _). (t, n)) specs)) \<and>
      (\<forall>ts k ms. ad_fetchTopicMetadata admin ts k = Inr ms \<longrightarrow>
         set ms = {(t, n). t \<in> set ts \<and> parts k t = Some n}))"

lemma with_admin_Inr:
  "with_admin admin brokers work k = (Inr a, k') \<Longrightarrow> work k = (Inr a, k') \<and> brokers \<noteq> [] \<and> ad_connect admin k = None"
  by (auto simp: with_admin_def split: if_splits option.splits prod.splits)

lemma findUnderPartitioned_Inr:
  assumes "topics_as_documented parts admin" and "findUnderPartitioned admin ts n k = Inr short"
  shows "set short = {\<lparr>up_topic = t, up_actual = a, up_expected = n\<rparr> | t a. t \<in> set ts \<and> parts k t = Some a \<and> a < n}"
proof (cases "ts = []")
  case False
  then obtain ms where ms: "ad_fetchTopicMetadata admin ts k = Inr ms"
    and short: "short = filter (\<lambda>entry. up_actual entry < up_expected entry)
      (map (\<lambda>(name, partitions). \<lparr>up_topic = name, up_actual = partitions, up_expected = n\<rparr>) ms)"
    using assms(2) by (cases "ad_fetchTopicMetadata admin ts k") (auto simp: findUnderPartitioned_def)
  have "set ms = {(t, a). t \<in> set ts \<and> parts k t = Some a}" using assms(1) ms unfolding topics_as_documented_def by blast
  then show ?thesis unfolding short by force
qed (use assms(2) in \<open>simp add: findUnderPartitioned_def\<close>)

lemma ensureTopics_Inr:
  assumes "topics_as_documented parts admin" and "ensureTopics admin n rf k = (Inr report, k')"
  shows "pr_created report = filter (\<lambda>t. parts k t = None) wanted"
    and "pr_existing report = filter (\<lambda>t. parts k t \<noteq> None) wanted"
    and "parts k' = (\<lambda>t. if t \<in> set wanted \<and> parts k t = None then Some n else parts k t)"
    and "findUnderPartitioned admin (pr_existing report) n k' = Inr (pr_underPartitioned report)"
proof -
  obtain names where names: "ad_listTopics admin k = Inr names"
    using assms(2) by (auto simp: ensureTopics_def split: sum.splits)
  let ?missing = "filter (\<lambda>t. t \<notin> set names) wanted"
  have dom: "t \<in> set names \<longleftrightarrow> parts k t \<noteq> None" for t
    using assms(1) names unfolding topics_as_documented_def by (metis domIff)
  have run: "(if ?missing \<noteq> [] then ad_createTopics admin (map (\<lambda>t. (t, n, rf)) ?missing) k else Inr k) = Inr k'"
    and rep: "report = \<lparr>pr_created = ?missing, pr_existing = filter (\<lambda>t. t \<in> set names) wanted,
      pr_underPartitioned = pr_underPartitioned report\<rparr>"
    and short: "findUnderPartitioned admin (filter (\<lambda>t. t \<in> set names) wanted) n k' = Inr (pr_underPartitioned report)"
    using assms(2) by (auto simp: ensureTopics_def names Let_def and_then_Inr split: sum.splits)
  show "pr_created report = filter (\<lambda>t. parts k t = None) wanted" "pr_existing report = filter (\<lambda>t. parts k t \<noteq> None) wanted"
    using arg_cong [OF rep, of pr_created] arg_cong [OF rep, of pr_existing] dom by simp_all
  then show "findUnderPartitioned admin (pr_existing report) n k' = Inr (pr_underPartitioned report)"
    using short dom by simp
  have created: "map_of (map (\<lambda>t. (t, n)) ts) t = (if t \<in> set ts then Some n else None)" for ts t
    by (induction ts) simp_all
  have "parts k' = parts k ++ map_of (map (\<lambda>t. (t, n)) ?missing)"
    using assms(1) run unfolding topics_as_documented_def
    by (cases "?missing = []") (auto simp: comp_def)
  then show "parts k' = (\<lambda>t. if t \<in> set wanted \<and> parts k t = None then Some n else parts k t)"
    using dom by (auto simp: fun_eq_iff map_add_def created)
qed

lemma provision_Inr:
  assumes "provision admin (p, k) = (Inr report, p', k')"
  shows "ensureTopics admin (tp_partitions (ot_config p)) (tp_replicationFactor (ot_config p)) k = (Inr report, k') \<and>
         p' = p\<lparr>lastReport := Some report\<rparr>"
proof -
  let ?work = "ensureTopics admin (tp_partitions (ot_config p)) (tp_replicationFactor (ot_config p))"
  have "with_admin admin (tp_brokers (ot_config p)) ?work k = (Inr report, k')"
    using assms by (auto simp: provision_def Let_def split: prod.splits)
  from with_admin_Inr [OF this] show ?thesis using assms by (auto simp: provision_def Let_def split: prod.splits)
qed

text \<open>A successful provisioning leaves every order topic in place: the topics that were missing
  are created with the configured number of partitions, no other topic changes, and the report names
  exactly the created ones, the existing ones and, of these, the ones with too few partitions. So
  with no topic reported short every order topic has the configured number of partitions, and
  provisioning again creates nothing.\<close>

theorem provisioning_ensures_topics:
  assumes "topics_as_documented parts admin" and "provision admin (p, k) = (Inr report, p', k')"
    and "n = tp_partitions (ot_config p)"
  shows "lastReport p' = Some report \<and> ot_config p' = ot_config p \<and>
         pr_created report = filter (\<lambda>t. parts k t = None) wanted \<and>
         parts k' = (\<lambda>t. if t \<in> set (pr_created report) then Some n else parts k t) \<and>
         set (pr_underPartitioned report) =
           {\<lparr>up_topic = t, up_actual = a, up_expected = n\<rparr> | t a. t \<in> set wanted \<and> parts k t = Some a \<and> a < n} \<and>
         (pr_underPartitioned report = [] \<longrightarrow> (\<forall>t \<in> set wanted. \<exists>a \<ge> n. parts k' t = Some a)) \<and>
         (\<forall>report2 p2 k2. provision admin (p', k') = (Inr report2, p2, k2) \<longrightarrow>
            pr_created report2 = [] \<and> pr_existing report2 = wanted \<and> parts k2 = parts k')"
proof -
  note first = ensureTopics_Inr [OF assms(1) provision_Inr [OF assms(2), THEN conjunct1]]
  have p': "lastReport p' = Some report" "ot_config p' = ot_config p"
    using provision_Inr [OF assms(2)] by simp_all
  have all: "parts k' t \<noteq> None" if "t \<in> set wanted" for t using that first(3) by auto
  have short: "set (pr_underPartitioned report) =
      {\<lparr>up_topic = t, up_actual = a, up_expected = n\<rparr> | t a. t \<in> set wanted \<and> parts k t = Some a \<and> a < n}"
    using findUnderPartitioned_Inr [OF assms(1) first(4)] unfolding first(2,3) assms(3) by auto
  have "\<exists>a \<ge> n. parts k' t = Some a" if none: "pr_underPartitioned report = []" and t: "t \<in> set wanted" for t
  proof (cases "parts k t")
    case (Some a)
    then have "\<not> a < n" using short none t by auto
    then show ?thesis using Some first(3) by auto
  qed (use first(3) t assms(3) in auto)
  moreover have "pr_created report2 = [] \<and> pr_existing report2 = wanted \<and> parts k2 = parts k'"
    if "provision admin (p', k') = (Inr report2, p2, k2)" for report2 p2 k2
    using ensureTopics_Inr [OF assms(1) provision_Inr [OF that, THEN conjunct1]] all by (auto simp: filter_empty_conv fun_eq_iff)
  ultimately show ?thesis using p' first(1,3) short assms(3) by (auto simp: fun_eq_iff)
qed

section \<open>What a rewind does to the lag\<close>

text \<open>The documented behaviour of the offset calls, against what the broker holds: \<open>stored k t\<close>, the
  partitions of a topic with their first and next offset, and \<open>commits k g t p\<close>, the offset a group has
  committed, \<open>-1\<close> for none. Any call may fail. One that succeeds lists every partition of the topic,
  in an order of its own; \<open>fetchOffsets\<close> gives the committed offset of each, also of those without one,
  and may list a partition more than once; \<open>setOffsets\<close> commits the given offsets, keeps the other
  partitions and does not touch the log.\<close>

type_synonym 'k log_view = "'k \<Rightarrow> string \<Rightarrow> PartitionOffsets set"
type_synonym 'k commit_view = "'k \<Rightarrow> string \<Rightarrow> string \<Rightarrow> int \<Rightarrow> int"

definition offsets_as_documented :: "'k log_view \<Rightarrow> 'k commit_view \<Rightarrow> 'k Admin \<Rightarrow> bool" where
  "offsets_as_documented stored commits admin =
     ((\<forall>t k es. ad_fetchTopicOffsets admin t k = Inr es \<longrightarrow>
         set es = stored k t \<and> distinct (map po_partition es) \<and> (\<forall>e \<in> set es. 0 \<le> po_low e \<and> po_low e \<le> po_high e)) \<and>
      (\<forall>g t k resp. ad_fetchOffsets admin g t k = Inr resp \<longrightarrow>
         set (concat (map snd resp)) = (\<lambda>e. (po_partition e, commits k g t (po_partition e))) ` stored k t) \<and>
      (\<forall>g t offs k k'. ad_setOffsets admin g t offs k = Inr k' \<and> distinct (map fst offs) \<longrightarrow>
         stored k' t = stored k t \<and>
         commits k' g t = (\<lambda>p. case map_of offs p of Some off \<Rightarrow> off | None \<Rightarrow> commits k g t p)))"

lemma offsets_documented:
  assumes "offsets_as_documented stored commits admin"
  shows "ad_fetchTopicOffsets admin t k = Inr es \<Longrightarrow>
      set es = stored k t \<and> distinct (map po_partition es) \<and> (\<forall>e \<in> set es. 0 \<le> po_low e \<and> po_low e \<le> po_high e)"
    and "ad_fetchOffsets admin g t k = Inr resp \<Longrightarrow>
      set (concat (map snd resp)) = (\<lambda>e. (po_partition e, commits k g t (po_partition e))) ` stored k t"
    and "ad_setOffsets admin g t offs k = Inr k' \<Longrightarrow> distinct (map fst offs) \<Longrightarrow>
      stored k' t = stored k t \<and> commits k' g t = (\<lambda>p. case map_of offs p of Some off \<Rightarrow> off | None \<Rightarrow> commits k g t p)"
proof -
  note d = assms [unfolded offsets_as_documented_def]
  show "ad_fetchTopicOffsets admin t k = Inr es \<Longrightarrow>
      set es = stored k t \<and> distinct (map po_partition es) \<and> (\<forall>e \<in> set es. 0 \<le> po_low e \<and> po_low e \<le> po_high e)"
    by (rule conjunct1 [OF d, THEN spec, THEN spec, THEN spec, THEN mp])
  show "ad_fetchOffsets admin g t k = Inr resp \<Longrightarrow>
      set (concat (map snd resp)) = (\<lambda>e. (po_partition e, commits k g t (po_partition e))) ` stored k t"
    by (rule conjunct1 [OF conjunct2 [OF d], THEN spec, THEN spec, THEN spec, THEN spec, THEN mp])
  show "ad_setOffsets admin g t offs k = Inr k' \<Longrightarrow> distinct (map fst offs) \<Longrightarrow>
      stored k' t = stored k t \<and> commits k' g t = (\<lambda>p. case map_of offs p of Some off \<Rightarrow> off | None \<Rightarrow> commits k g t p)"
    by (rule conjunct2 [OF conjunct2 [OF d], THEN spec, THEN spec, THEN spec, THEN spec, THEN spec, THEN mp, OF conjI])
qed

text \<open>The map of committed offsets that \<open>topicLag\<close> builds, when every entry of a partition has the
  same offset.\<close>

lemma fold_update_function:
  "(\<And>p v. (p, v) \<in> set ps \<Longrightarrow> v = f p) \<Longrightarrow>
   map_of (fold (\<lambda>(p, v) m. AList.update p v m) ps m) p = (if p \<in> fst ` set ps then Some (f p) else map_of m p)"
  by (induction ps arbitrary: m) (auto simp: AList.update_conv' image_iff)

lemma committed_map_reads:
  assumes "set (concat (map snd resp)) = (\<lambda>e. (po_partition e, f (po_partition e))) ` es" and "e \<in> es"
  shows "map_of (committed_map resp) (po_partition e) = Some (f (po_partition e))"
proof -
  have "v = f p" if "(p, v) \<in> set (concat (map snd resp))" for p v using that unfolding assms(1) by auto
  moreover have "po_partition e \<in> fst ` set (concat (map snd resp))" unfolding assms(1) using assms(2) by force
  ultimately show ?thesis
    unfolding committed_map_def by (subst fold_update_function [where f = f]) auto
qed

lemma foldl_sum_key: "foldl (\<lambda>sum x. sum + f x) a xs = a + sum_list (map f xs)" for a :: int
  by (induction xs arbitrary: a) simp_all

lemma sum_list_sort_key: "sum_list (map f (sort_key g xs)) = sum_list (map f xs)" for f :: "'a \<Rightarrow> int"
  by (metis mset_map mset_sort sum_mset_sum_list)

text \<open>A rewind shows in the lag. After \<open>resetOffsets\<close> succeeds, a lag that can be read is the number of
  messages the topic still holds for \<open>earliest\<close> and zero for \<open>latest\<close>, the committed offset of each
  partition being the one that was set.\<close>

theorem rewind_sets_the_lag:
  assumes "offsets_as_documented stored commits admin" and "resetOffsets admin brokers g t tgt k = (Inr offs, k')"
    and "topicLag admin g t k' = Inr lag" and "ad_fetchTopicOffsets admin t k = Inr before"
  shows "tl_totalLag lag = (if tgt = Earliest then td_messages (describe_topic t before) else 0) \<and>
         mset (map (\<lambda>p. (pl_partition p, pl_committedOffset p)) (tl_partitions lag)) =
           mset (map (\<lambda>(p, off). (p, Some off)) offs)"
proof -
  let ?at = "\<lambda>e. if tgt = Earliest then po_low e else po_high e"
  have set: "ad_setOffsets admin g t (rewind_offsets tgt before) k = Inr k'" "offs = rewind_offsets tgt before"
    using with_admin_Inr [OF assms(2) [unfolded resetOffsets_def]] assms(4) by (auto simp: Let_def split: sum.splits)
  obtain latest resp where calls: "ad_fetchTopicOffsets admin t k' = Inr latest" "ad_fetchOffsets admin g t k' = Inr resp"
    and lag: "lag = \<lparr>tl_topic = t,
      tl_totalLag = foldl (\<lambda>sum p. sum + pl_lag p) 0 (sort_key pl_partition (map (partition_lag (committed_map resp)) latest)),
      tl_partitions = sort_key pl_partition (map (partition_lag (committed_map resp)) latest)\<rparr>"
    using assms(3)
    by (cases "ad_fetchTopicOffsets admin t k'"; cases "ad_fetchOffsets admin g t k'") (auto simp: topicLag_def Let_def)
  have before: "set before = stored k t" "distinct (map po_partition before)"
      "\<forall>e \<in> set before. 0 \<le> po_low e \<and> po_low e \<le> po_high e"
    and latest: "set latest = stored k' t" "distinct (map po_partition latest)"
    and resp: "set (concat (map snd resp)) = (\<lambda>e. (po_partition e, commits k' g t (po_partition e))) ` stored k' t"
    using offsets_documented(1) [OF assms(1,4)] offsets_documented(1) [OF assms(1) calls(1)]
      offsets_documented(2) [OF assms(1) calls(2)] by simp_all
  have d: "distinct (map fst offs)" using before(2) by (simp add: set(2) rewind_offsets_def comp_def)
  have kept: "stored k' t = stored k t"
      "commits k' g t = (\<lambda>p. case map_of offs p of Some off \<Rightarrow> off | None \<Rightarrow> commits k g t p)"
    using offsets_documented(3) [OF assms(1) set(1)] d unfolding set(2) by simp_all
  have "distinct before" "distinct latest" using before(2) latest(2) by (simp_all add: distinct_map)
  then have same: "mset latest = mset before"
    using before(1) latest(1) kept(1) by (simp add: set_eq_iff_mset_eq_distinct [symmetric])
  have put: "commits k' g t (po_partition e) = ?at e" if "e \<in> set before" for e
  proof -
    have "(po_partition e, ?at e) \<in> set offs" using that by (auto simp: set(2) rewind_offsets_def)
    then show ?thesis using d by (simp add: kept(2))
  qed
  have row: "partition_lag (committed_map resp) e =
      \<lparr>pl_partition = po_partition e, pl_latestOffset = po_high e, pl_committedOffset = Some (?at e),
       pl_lag = (if tgt = Earliest then max (po_high e - po_low e) 0 else 0)\<rparr>" if "e \<in> set before" for e
    using committed_map_reads [OF resp, of e] that before(1,3) kept(1) put [OF that] by (auto simp: partition_lag_def Let_def)
  let ?ps = "map (partition_lag (committed_map resp)) latest"
  have rows: "mset ?ps = mset (map (partition_lag (committed_map resp)) before)" using same by simp
  have "sum_list (map pl_lag ?ps) = sum_list (map pl_lag (map (partition_lag (committed_map resp)) before))"
    using rows by (metis mset_map sum_mset_sum_list)
  also have "\<dots> = (if tgt = Earliest then td_messages (describe_topic t before) else 0)"
    using row by (auto simp: describe_topic_def foldl_sum_key comp_def cong: map_cong)
  finally have total: "tl_totalLag lag = (if tgt = Earliest then td_messages (describe_topic t before) else 0)"
    by (simp add: lag foldl_sum_key sum_list_sort_key)
  have "map (\<lambda>p. (pl_partition p, pl_committedOffset p)) (map (partition_lag (committed_map resp)) before) =
      map (\<lambda>(p, off). (p, Some off)) offs"
    using row by (simp add: set(2) rewind_offsets_def)
  note shown = this
  have "mset (tl_partitions lag) = mset (map (partition_lag (committed_map resp)) before)"
    using rows by (simp only: lag TopicLag.simps mset_sort)
  then have "mset (map (\<lambda>p. (pl_partition p, pl_committedOffset p)) (tl_partitions lag)) =
      mset (map (\<lambda>(p, off). (p, Some off)) offs)"
    unfolding shown [symmetric] mset_map by (rule arg_cong)
  then show ?thesis using total by (rule conjI [rotated])
qed

section \<open>A broker for examples\<close>

record Broker =
  bk_topics :: "(string \<times> int) list"
  bk_offsets :: "(string \<times> PartitionOffsets list) list"
  bk_committed :: "((string \<times> string) \<times> (int \<times> int) list) list"

text \<open>It lists the partitions of a fetched commit in another order than those of the log, with \<open>-1\<close> where
  nothing is committed, and refuses a topic it does not hold.\<close>

definition broker_log :: "Broker \<Rightarrow> string \<Rightarrow> PartitionOffsets list" where
  "broker_log k t = (case map_of (bk_offsets k) t of None \<Rightarrow> [] | Some es \<Rightarrow> es)"

definition sound_log :: "PartitionOffsets list \<Rightarrow> bool" where
  "sound_log es =
     (es \<noteq> [] \<and> distinct (map po_partition es) \<and> list_all (\<lambda>e. 0 \<le> po_low e \<and> po_low e \<le> po_high e) es)"

fun find_commit :: "((string \<times> string) \<times> (int \<times> int) list) list \<Rightarrow> string \<times> string \<Rightarrow> int \<Rightarrow> int" where
  "find_commit [] gt p = -1"
| "find_commit ((gt', offs) # cs) gt p =
     (if gt' = gt then (case map_of offs p of Some off \<Rightarrow> off | None \<Rightarrow> find_commit cs gt p) else find_commit cs gt p)"

definition broker_committed :: "Broker \<Rightarrow> string \<Rightarrow> string \<Rightarrow> int \<Rightarrow> int" where
  "broker_committed k g t = find_commit (bk_committed k) (g, t)"

definition broker_admin :: "Broker Admin" where
  "broker_admin =
     \<lparr>ad_connect = (\<lambda>_. None), ad_disconnect = (\<lambda>_. None),
      ad_listTopics = (\<lambda>k. Inr (map fst (bk_topics k))),
      ad_createTopics = (\<lambda>specs k. Inr (k\<lparr>bk_topics := map (\<lambda>(t, n, _). (t, n)) specs @ bk_topics k\<rparr>)),
      ad_fetchTopicMetadata = (\<lambda>ts k. Inr (filter (\<lambda>(t, n). t \<in> set ts \<and> map_of (bk_topics k) t = Some n) (bk_topics k))),
      ad_fetchTopicOffsets = (\<lambda>t k. if sound_log (broker_log k t) then Inr (broker_log k t) else Inl ''unknown topic''),
      ad_fetchOffsets = (\<lambda>g t k. Inr [(t, map (\<lambda>e. (po_partition e, broker_committed k g t (po_partition e)))
                                               (rev (broker_log k t)))]),
      ad_setOffsets = (\<lambda>g t offs k. if offs = [] then Inl ''no partitions''
                                   else Inr (k\<lparr>bk_committed := ((g, t), offs) # bk_committed k\<rparr>))\<rparr>"

lemma broker_documented:
  "topics_as_documented (\<lambda>k. map_of (bk_topics k)) broker_admin"
  "offsets_as_documented (\<lambda>k t. set (broker_log k t)) broker_committed broker_admin"
  by (auto simp: topics_as_documented_def offsets_as_documented_def broker_admin_def dom_map_of_conv_image_fst
      sound_log_def list_all_iff broker_log_def broker_committed_def [abs_def] fun_eq_iff dest: map_of_SomeD)

definition sample_broker :: Broker where
  "sample_broker =
     \<lparr>bk_topics = [(''other'', 2), (hd wanted, 1)],
      bk_offsets = [(''t'', [\<lparr>po_partition = 1, po_low = 2, po_high = 7\<rparr>, \<lparr>po_partition = 0, po_low = 0, po_high = 3\<rparr>])],
      bk_committed = []\<rparr>"

definition sample_provisioner :: OrderTopicProvisioner where
  "sample_provisioner = \<lparr>ot_config = topicProvisionerConfigFromEnv (\<lambda>_. None) True, lastReport = None\<rparr>"

theorem provisioning_ensures_topics_witness:
  "\<exists>report p' k'. provision broker_admin (sample_provisioner, sample_broker) = (Inr report, p', k') \<and>
     length (pr_created report) = 3 \<and> map up_actual (pr_underPartitioned report) = [1] \<and>
     map_of (bk_topics k') ''other'' = Some 2 \<and> lastReport p' = Some report"
proof -
  let ?x = "provision broker_admin (sample_provisioner, sample_broker)"
  let ?r = "projr (fst ?x)"
  have c: "\<not> isl (fst ?x)" "length (pr_created ?r) = 3" "map up_actual (pr_underPartitioned ?r) = [1]"
    "map_of (bk_topics (snd (snd ?x))) ''other'' = Some 2"
    by code_simp+
  then have run: "?x = (Inr ?r, fst (snd ?x), snd (snd ?x))" by (cases "fst ?x") (simp_all add: prod_eq_iff)
  have "lastReport (fst (snd ?x)) = Some ?r"
    using provisioning_ensures_topics [OF broker_documented(1) run refl] by blast
  then show ?thesis using run c(2-4) by (intro exI [of _ ?r] exI [of _ "fst (snd ?x)"] exI [of _ "snd (snd ?x)"] conjI)
qed

theorem rewind_sets_the_lag_witness:
  "\<exists>offs k' lag. resetOffsets broker_admin [''b''] ''g'' ''t'' Earliest sample_broker = (Inr offs, k') \<and>
     topicLag broker_admin ''g'' ''t'' k' = Inr lag \<and> tl_totalLag lag = 8"
proof -
  let ?x = "resetOffsets broker_admin [''b''] ''g'' ''t'' Earliest sample_broker"
  let ?y = "topicLag broker_admin ''g'' ''t'' (snd ?x)"
  let ?before = "[\<lparr>po_partition = 1, po_low = 2, po_high = 7\<rparr>, \<lparr>po_partition = 0, po_low = 0, po_high = 3\<rparr>]"
  have c: "\<not> isl (fst ?x)" "\<not> isl ?y" "ad_fetchTopicOffsets broker_admin ''t'' sample_broker = Inr ?before"
    "td_messages (describe_topic ''t'' ?before) = 8" by code_simp+
  have run: "?x = (Inr (projr (fst ?x)), snd ?x)" using c(1) by (cases "fst ?x") (simp_all add: prod_eq_iff)
  have lag: "?y = Inr (projr ?y)" using c(2) by (cases ?y) simp_all
  have "tl_totalLag (projr ?y) = 8" using rewind_sets_the_lag [OF broker_documented(2) run lag c(3)] c(4) by simp
  then show ?thesis using run lag by blast
qed

end
