(* ===== verification/OrderStore.thy ===== *)
theory OrderStore
  imports OrderEvents
begin

text \<open>
  The store of orders and consumed events. The interface \<open>src/orders/order-store.interface.ts\<close> is
  the record \<open>OrderStore\<close> of its operations; what its clients rely on is the locale \<open>order_store\<close>.
  \<open>src/orders/sqlite-order.store.ts\<close> is modelled as tables of rows with the effect of the SQL
  statements written out, and \<open>sqlite\<close> is its interpretation of the locale.

  The \<open>items\<close> column holds the list that \<open>JSON.parse\<close> reads from its text, or \<open>None\<close> for a text it
  refuses. The order in which the engine returns groups of equal count is not determined by the
  statements: it is the argument \<open>arrange\<close>. A fault of the database file (busy, read-only) makes
  writing statements throw; it is the field \<open>db_fault\<close>, which only the environment sets. The second
  statement of \<open>reset\<close> can meet a fault that the first did not: that is the field \<open>later_fault\<close>.
\<close>

section \<open>The interface\<close>

record DuplicateEventSummary =
  dup_orderId :: string
  dup_eventType :: OrderEventType
  dup_count :: nat

record GroupConsumptionSummary =
  grp_groupId :: string
  grp_count :: nat
  grp_consumers :: nat

record 'd OrderStore =
  st_saveOrder :: "Order \<Rightarrow> 'd \<Rightarrow> order_error + 'd"
  st_findOrder :: "string \<Rightarrow> 'd \<Rightarrow> order_error + Order option"
  st_updateStatus :: "int \<Rightarrow> string \<Rightarrow> OrderStatus \<Rightarrow> 'd \<Rightarrow> order_error + 'd"
  st_recordEvent :: "OrderEventRecord \<Rightarrow> 'd \<Rightarrow> order_error + 'd"
  st_findEvents :: "string option \<Rightarrow> int option \<Rightarrow> 'd \<Rightarrow> OrderEventRecord list"
  st_findDuplicates :: "'d \<Rightarrow> DuplicateEventSummary list"
  st_countByGroup :: "'d \<Rightarrow> GroupConsumptionSummary list"
  st_countOrders :: "'d \<Rightarrow> nat"
  st_countEvents :: "'d \<Rightarrow> nat"
  st_reset :: "'d \<Rightarrow> (order_error + unit) \<times> 'd"

text \<open>The laws: orders are a map from ids, consumed events are a log that \<open>recordEvent\<close> extends
  and nothing else changes.\<close>

locale order_store =
  fixes st :: "'d OrderStore"
    and wf :: "'d \<Rightarrow> bool"
    and orders_of :: "'d \<Rightarrow> string \<Rightarrow> Order option"
    and log_of :: "'d \<Rightarrow> OrderEventRecord list"
  assumes find_law: "wf d \<Longrightarrow> st_findOrder st i d = Inr (orders_of d i)"
    and save_law: "wf d \<Longrightarrow> st_saveOrder st ord d = Inr d' \<Longrightarrow>
      wf d' \<and> orders_of d (orderId ord) = None \<and> orders_of d' = (orders_of d)(orderId ord \<mapsto> ord) \<and>
      log_of d' = log_of d"
    and update_law: "wf d \<Longrightarrow> st_updateStatus st now i s d = Inr d' \<Longrightarrow>
      wf d' \<and> log_of d' = log_of d \<and>
      (\<exists>ord. orders_of d i = Some ord \<and> orders_of d' = (orders_of d)(i \<mapsto> ord\<lparr>status := s, updatedAt := now\<rparr>))"
    and record_law: "wf d \<Longrightarrow> st_recordEvent st r d = Inr d' \<Longrightarrow>
      wf d' \<and> orders_of d' = orders_of d \<and> (\<exists>n. log_of d' = log_of d @ [r\<lparr>rec_id := Some n\<rparr>])"
    and count_law: "wf d \<Longrightarrow> st_countEvents st d = length (log_of d)"

section \<open>Rows\<close>

record OrderRow =
  order_id :: string
  user_id :: string
  row_amount :: rat
  row_items :: "OrderItem list option"
  row_status :: OrderStatus
  created_at :: int
  updated_at :: int

record EventRow =
  ev_id :: nat
  ev_order_id :: string
  ev_event_type :: OrderEventType
  ev_topic :: string
  ev_partition :: int
  ev_offset :: string
  ev_consumer_id :: string
  ev_consumed_at :: int

record Db =
  orders :: "OrderRow list"
  order_events :: "EventRow list"
  event_seq :: nat
  db_fault :: "string option"
  later_fault :: "string option"

definition empty_db :: Db where
  "empty_db = \<lparr>orders = [], order_events = [], event_seq = 0, db_fault = None, later_fault = None\<rparr>"

section \<open>Operations\<close>

definition insert_order :: "Order \<Rightarrow> OrderRow" where
  "insert_order ord =
     \<lparr>order_id = orderId ord, user_id = userId ord, row_amount = amount ord, row_items = Some (items ord),
      row_status = status ord, created_at = order_createdAt ord, updated_at = updatedAt ord\<rparr>"

definition saveOrder :: "Order \<Rightarrow> Db \<Rightarrow> order_error + Db" where
  "saveOrder ord db =
     (case db_fault db of
        Some err \<Rightarrow> Inl (StoreFailed err)
      | None \<Rightarrow>
          if orderId ord \<in> order_id ` set (orders db) then Inl (DuplicateOrderId (orderId ord))
          else Inr (db\<lparr>orders := orders db @ [insert_order ord]\<rparr>))"

definition parseItems :: "OrderItem list option \<Rightarrow> string \<Rightarrow> order_error + OrderItem list" where
  "parseItems raw i = (case raw of None \<Rightarrow> Inl (BrokenItems i) | Some its \<Rightarrow> Inr its)"

definition toOrder :: "OrderRow \<Rightarrow> order_error + Order" where
  "toOrder row =
     and_then (parseItems (row_items row) (order_id row)) (\<lambda>its.
       Inr \<lparr>orderId = order_id row, userId = user_id row, amount = row_amount row, items = its,
            status = row_status row, order_createdAt = created_at row, updatedAt = updated_at row\<rparr>)"

definition findOrder :: "string \<Rightarrow> Db \<Rightarrow> order_error + Order option" where
  "findOrder i db =
     (case find (\<lambda>row. order_id row = i) (orders db) of
        None \<Rightarrow> Inr None
      | Some row \<Rightarrow> and_then (toOrder row) (\<lambda>ord. Inr (Some ord)))"

definition updateStatus :: "int \<Rightarrow> string \<Rightarrow> OrderStatus \<Rightarrow> Db \<Rightarrow> order_error + Db" where
  "updateStatus now i s db =
     (case db_fault db of
        Some err \<Rightarrow> Inl (StoreFailed err)
      | None \<Rightarrow>
          (let changes = length (filter (\<lambda>row. order_id row = i) (orders db));
               db' = db\<lparr>orders := map (\<lambda>row. if order_id row = i
                                               then row\<lparr>row_status := s, updated_at := now\<rparr> else row) (orders db)\<rparr>
           in if changes = 0 then Inl (StatusOfMissingOrder i) else Inr db'))"

definition recordEvent :: "OrderEventRecord \<Rightarrow> Db \<Rightarrow> order_error + Db" where
  "recordEvent r db =
     (case db_fault db of
        Some err \<Rightarrow> Inl (StoreFailed err)
      | None \<Rightarrow>
          Inr (db\<lparr>event_seq := event_seq db + 1,
                  order_events := order_events db @
                    [\<lparr>ev_id = event_seq db + 1, ev_order_id = rec_orderId r, ev_event_type = rec_eventType r,
                      ev_topic = rec_topic r, ev_partition = rec_partition r, ev_offset = rec_offset r,
                      ev_consumer_id = rec_consumerId r, ev_consumed_at = rec_consumedAt r\<rparr>]\<rparr>))"

definition toEventRecord :: "EventRow \<Rightarrow> OrderEventRecord" where
  "toEventRecord row =
     \<lparr>rec_id = Some (ev_id row), rec_orderId = ev_order_id row, rec_eventType = ev_event_type row,
      rec_topic = ev_topic row, rec_partition = ev_partition row, rec_offset = ev_offset row,
      rec_consumerId = ev_consumer_id row, rec_consumedAt = ev_consumed_at row\<rparr>"

text \<open>\<open>LIMIT n\<close>: a negative limit is no limit.\<close>

definition sql_limit :: "int \<Rightarrow> 'a list \<Rightarrow> 'a list" where
  "sql_limit n xs = (if n < 0 then xs else take (nat n) xs)"

definition findEvents :: "string option \<Rightarrow> int option \<Rightarrow> Db \<Rightarrow> OrderEventRecord list" where
  "findEvents i limit db =
     (let n = (case limit of None \<Rightarrow> 200 | Some l \<Rightarrow> l);
          rows = (case i of
             Some oid \<Rightarrow>
               if oid \<noteq> [] then
                 sql_limit n (sort_key ev_consumed_at (sort_key ev_id
                   (filter (\<lambda>row. ev_order_id row = oid) (order_events db))))
               else sql_limit n (rev (sort_key ev_id (order_events db)))
           | None \<Rightarrow> sql_limit n (rev (sort_key ev_id (order_events db))))
      in map toEventRecord rows)"

text \<open>\<open>GROUP BY key\<close> with \<open>COUNT(*)\<close>.\<close>

definition group_count :: "('r \<Rightarrow> 'k) \<Rightarrow> 'r list \<Rightarrow> ('k \<times> nat) list" where
  "group_count key rows =
     map (\<lambda>k. (k, length (filter (\<lambda>r. key r = k) rows))) (remdups (map key rows))"

definition event_key :: "EventRow \<Rightarrow> string \<times> OrderEventType" where
  "event_key row = (ev_order_id row, ev_event_type row)"

type_synonym arrange = "((string \<times> OrderEventType) \<times> nat) list \<Rightarrow> ((string \<times> OrderEventType) \<times> nat) list"

definition findDuplicates :: "arrange \<Rightarrow> Db \<Rightarrow> DuplicateEventSummary list" where
  "findDuplicates arrange db =
     map (\<lambda>((oid, ty), n). \<lparr>dup_orderId = oid, dup_eventType = ty, dup_count = n\<rparr>)
       (sort_key (\<lambda>(_, n). - int n)
          (arrange (filter (\<lambda>(_, n). n > 1) (group_count event_key (order_events db)))))"

text \<open>The group of a consumer id: what stands before its first slash.\<close>

definition group_of :: "string \<Rightarrow> string" where
  "group_of c = (if CHR ''/'' \<in> set c then takeWhile (\<lambda>x. x \<noteq> CHR ''/'') c else c)"

type_synonym arrange_groups = "(string \<times> nat) list \<Rightarrow> (string \<times> nat) list"

definition countByGroup :: "arrange_groups \<Rightarrow> Db \<Rightarrow> GroupConsumptionSummary list" where
  "countByGroup arrange db =
     map (\<lambda>(g, n). \<lparr>grp_groupId = g, grp_count = n,
             grp_consumers = length (remdups (filter (\<lambda>c. group_of c = g) (map ev_consumer_id (order_events db))))\<rparr>)
       (sort_key (\<lambda>(_, n). - int n) (arrange (group_count (group_of \<circ> ev_consumer_id) (order_events db))))"

definition countOrders :: "Db \<Rightarrow> nat" where
  "countOrders db = length (orders db)"

definition countEvents :: "Db \<Rightarrow> nat" where
  "countEvents db = length (order_events db)"

text \<open>Two statements, each a transaction of its own: when the second one throws the events are gone and
  the orders are not.\<close>

definition reset :: "Db \<Rightarrow> (order_error + unit) \<times> Db" where
  "reset db =
     (case db_fault db of
        Some err \<Rightarrow> (Inl (StoreFailed err), db)
      | None \<Rightarrow>
          (let db1 = db\<lparr>order_events := []\<rparr> in
           case later_fault db of
             Some err \<Rightarrow> (Inl (StoreFailed err), db1)
           | None \<Rightarrow> (Inr (), db1\<lparr>orders := []\<rparr>)))"

definition sqlite_store :: "arrange \<Rightarrow> arrange_groups \<Rightarrow> Db OrderStore" where
  "sqlite_store arrange arrange_groups =
     \<lparr>st_saveOrder = saveOrder, st_findOrder = findOrder, st_updateStatus = updateStatus,
      st_recordEvent = recordEvent, st_findEvents = findEvents,
      st_findDuplicates = findDuplicates arrange, st_countByGroup = countByGroup arrange_groups,
      st_countOrders = countOrders, st_countEvents = countEvents, st_reset = reset\<rparr>"

section \<open>The tables meet the interface\<close>

text \<open>The constraints of the schema (a unique order id, ascending event ids) and that every items
  column was written by \<open>saveOrder\<close>.\<close>

definition wf_db :: "Db \<Rightarrow> bool" where
  "wf_db db \<longleftrightarrow> distinct (map order_id (orders db)) \<and> list_all (\<lambda>row. row_items row \<noteq> None) (orders db) \<and>
     sorted_wrt (<) (map ev_id (order_events db)) \<and> list_all (\<lambda>row. ev_id row \<le> event_seq db) (order_events db)"

definition row_order :: "OrderRow \<Rightarrow> Order" where
  "row_order row =
     \<lparr>orderId = order_id row, userId = user_id row, amount = row_amount row,
      items = (case row_items row of None \<Rightarrow> [] | Some its \<Rightarrow> its),
      status = row_status row, order_createdAt = created_at row, updatedAt = updated_at row\<rparr>"

definition db_orders :: "Db \<Rightarrow> string \<Rightarrow> Order option" where
  "db_orders db i = map_option row_order (find (\<lambda>row. order_id row = i) (orders db))"

definition db_log :: "Db \<Rightarrow> OrderEventRecord list" where
  "db_log db = map toEventRecord (order_events db)"

lemma find_id_append:
  "find (\<lambda>row. order_id row = i) (xs @ [x]) =
   (case find (\<lambda>row. order_id row = i) xs of Some y \<Rightarrow> Some y | None \<Rightarrow> if order_id x = i then Some x else None)"
  by (induction xs) auto

lemma find_id_map:
  assumes "\<And>row. order_id (f row) = order_id row"
  shows "find (\<lambda>row. order_id row = i) (map f rows) = map_option f (find (\<lambda>row. order_id row = i) rows)"
  using assms by (induction rows) auto

lemma findOrder_wf:
  assumes "wf_db db"
  shows "findOrder i db = Inr (db_orders db i)"
proof (cases "find (\<lambda>row. order_id row = i) (orders db)")
  case (Some row)
  then have "row \<in> set (orders db)" by (auto simp: find_Some_iff in_set_conv_nth)
  then have "row_items row \<noteq> None" using assms by (simp add: wf_db_def list_all_iff)
  with Some show ?thesis
    by (auto simp: findOrder_def db_orders_def toOrder_def parseItems_def row_order_def)
qed (simp add: findOrder_def db_orders_def)

lemma row_order_insert [simp]: "row_order (insert_order ord) = ord"
  by (simp add: row_order_def insert_order_def)

lemma saveOrder_wf:
  assumes "wf_db db" and "saveOrder ord db = Inr db'"
  shows "wf_db db' \<and> db_orders db (orderId ord) = None \<and> db_orders db' = (db_orders db)(orderId ord \<mapsto> ord) \<and>
         db_log db' = db_log db"
proof -
  have new: "orderId ord \<notin> order_id ` set (orders db)"
    and db': "db' = db\<lparr>orders := orders db @ [insert_order ord]\<rparr>"
    using assms(2) by (auto simp: saveOrder_def split: option.splits if_splits)
  have none: "find (\<lambda>row. order_id row = orderId ord) (orders db) = None"
    using new by (auto simp: find_None_iff dest: image_eqI [of _ order_id, OF sym])
  have "db_orders db' i = ((db_orders db)(orderId ord \<mapsto> ord)) i" for i
    using none by (auto simp: db_orders_def db' find_id_append insert_order_def row_order_def split: option.split)
  then have "db_orders db' = (db_orders db)(orderId ord \<mapsto> ord)" by blast
  moreover have "wf_db db'"
    using assms(1) new by (auto simp: wf_db_def db' insert_order_def)
  ultimately show ?thesis using none by (simp add: db_orders_def db_log_def db')
qed

lemma updateStatus_wf:
  assumes "wf_db db" and "updateStatus now i s db = Inr db'"
  shows "wf_db db' \<and> db_log db' = db_log db \<and>
         (\<exists>ord. db_orders db i = Some ord \<and>
            db_orders db' = (db_orders db)(i \<mapsto> ord\<lparr>status := s, updatedAt := now\<rparr>))"
proof -
  let ?f = "\<lambda>row. if order_id row = i then row\<lparr>row_status := s, updated_at := now\<rparr> else row"
  have some: "\<exists>row \<in> set (orders db). order_id row = i" and db': "db' = db\<lparr>orders := map ?f (orders db)\<rparr>"
    using assms(2) by (auto simp: updateStatus_def Let_def filter_empty_conv split: option.splits if_splits)
  obtain row where row: "find (\<lambda>row. order_id row = i) (orders db) = Some row" "order_id row = i"
    using some by (cases "find (\<lambda>row. order_id row = i) (orders db)") (auto simp: find_None_iff find_Some_iff)
  have fid: "order_id (?f r) = order_id r" for r by simp
  have find': "find (\<lambda>r. order_id r = j) (orders db') = map_option ?f (find (\<lambda>r. order_id r = j) (orders db))" for j
    using find_id_map [of ?f, OF fid] by (simp add: db')
  let ?ord = "row_order row"
  have upd: "db_orders db' j = ((db_orders db)(i \<mapsto> ?ord\<lparr>status := s, updatedAt := now\<rparr>)) j" for j
  proof (cases "j = i")
    case True
    then show ?thesis using row by (simp add: db_orders_def find' row_order_def)
  next
    case False
    have "order_id r = j" if "find (\<lambda>r. order_id r = j) (orders db) = Some r" for r
      using that by (auto simp: find_Some_iff)
    with False show ?thesis
      by (cases "find (\<lambda>r. order_id r = j) (orders db)") (auto simp: db_orders_def find')
  qed
  have "wf_db db'"
    using assms(1) by (auto simp: wf_db_def db' comp_def list_all_iff if_distrib cong: if_cong)
  moreover have "db_orders db i = Some ?ord" using row by (simp add: db_orders_def)
  moreover have "db_orders db' = (db_orders db)(i \<mapsto> ?ord\<lparr>status := s, updatedAt := now\<rparr>)"
    using upd by blast
  ultimately show ?thesis by (simp add: db_log_def db')
qed

lemma recordEvent_wf:
  assumes "wf_db db" and "recordEvent r db = Inr db'"
  shows "wf_db db' \<and> db_orders db' = db_orders db \<and> (\<exists>n. db_log db' = db_log db @ [r\<lparr>rec_id := Some n\<rparr>])"
proof (intro conjI)
  show "wf_db db'"
    using assms by (auto simp: recordEvent_def wf_db_def sorted_wrt_append list_all_iff le_SucI less_Suc_eq_le
        split: option.splits)
  show "db_orders db' = db_orders db"
    using assms(2) by (auto simp: recordEvent_def db_orders_def fun_eq_iff split: option.splits)
  have "db_log db' = db_log db @ [r\<lparr>rec_id := Some (event_seq db + 1)\<rparr>]"
    using assms(2) by (cases r) (auto simp: recordEvent_def db_log_def toEventRecord_def split: option.splits)
  then show "\<exists>n. db_log db' = db_log db @ [r\<lparr>rec_id := Some n\<rparr>]" ..
qed

lemma sqlite_store_simps [simp]:
  "st_saveOrder (sqlite_store a g) = saveOrder" "st_findOrder (sqlite_store a g) = findOrder"
  "st_updateStatus (sqlite_store a g) = updateStatus" "st_recordEvent (sqlite_store a g) = recordEvent"
  "st_findEvents (sqlite_store a g) = findEvents" "st_findDuplicates (sqlite_store a g) = findDuplicates a"
  "st_countByGroup (sqlite_store a g) = countByGroup g" "st_countOrders (sqlite_store a g) = countOrders"
  "st_countEvents (sqlite_store a g) = countEvents" "st_reset (sqlite_store a g) = reset"
  by (simp_all add: sqlite_store_def)

interpretation sqlite: order_store "sqlite_store arrange arrange_groups" wf_db db_orders db_log
proof unfold_locales
  fix d d' i ord now s r
  assume wf: "wf_db d"
  show "st_findOrder (sqlite_store arrange arrange_groups) i d = Inr (db_orders d i)"
    using findOrder_wf [OF wf] by simp
  show "st_countEvents (sqlite_store arrange arrange_groups) d = length (db_log d)"
    by (simp add: countEvents_def db_log_def)
  show "wf_db d' \<and> db_orders d (orderId ord) = None \<and> db_orders d' = (db_orders d)(orderId ord \<mapsto> ord) \<and>
      db_log d' = db_log d" if "st_saveOrder (sqlite_store arrange arrange_groups) ord d = Inr d'"
    using saveOrder_wf [OF wf] that by simp
  show "wf_db d' \<and> db_log d' = db_log d \<and> (\<exists>ord. db_orders d i = Some ord \<and>
      db_orders d' = (db_orders d)(i \<mapsto> ord\<lparr>status := s, updatedAt := now\<rparr>))"
    if "st_updateStatus (sqlite_store arrange arrange_groups) now i s d = Inr d'"
    using updateStatus_wf [OF wf] that by simp
  show "wf_db d' \<and> db_orders d' = db_orders d \<and> (\<exists>n. db_log d' = db_log d @ [r\<lparr>rec_id := Some n\<rparr>])"
    if "st_recordEvent (sqlite_store arrange arrange_groups) r d = Inr d'"
    using recordEvent_wf [OF wf] that by simp
qed

section \<open>Aggregates\<close>

lemma group_count_keys: "map fst (group_count key rows) = remdups (map key rows)"
  by (simp add: group_count_def comp_def)

lemma group_count_member:
  "(k, n) \<in> set (group_count key rows) \<longleftrightarrow>
     k \<in> key ` set rows \<and> n = length (filter (\<lambda>r. key r = k) rows)"
  by (auto simp: group_count_def)

lemma count_list_key: "count_list (map key rows) k = length (filter (\<lambda>r. key r = k) rows)"
  by (induction rows) auto

lemma group_count_sum: "sum_list (map snd (group_count key rows)) = length rows"
proof -
  have "sum_list (map snd (group_count key rows)) =
      (\<Sum>k \<in> set (map key rows). length (filter (\<lambda>r. key r = k) rows))"
    by (simp add: group_count_def comp_def sum_list_distinct_conv_sum_set)
  also have "\<dots> = (\<Sum>k \<in> set (map key rows). count_list (map key rows) k)"
    by (simp add: count_list_key)
  also have "\<dots> = length rows"
    using sum_count_set [of "map key rows" "set (map key rows)"] by simp
  finally show ?thesis .
qed

lemma group_count_pos: "x \<in> set (group_count key rows) \<Longrightarrow> 0 < snd x"
  by (cases x) (auto simp: group_count_member filter_empty_conv)

lemma sum_list_mset_cong:
  "mset xs = mset ys \<Longrightarrow> sum_list (map f xs) = sum_list (map (f :: _ \<Rightarrow> nat) ys)"
  by (metis mset_map sum_mset_sum_list)

lemma sum_list_excess:
  assumes "\<And>x. x \<in> set xs \<Longrightarrow> 0 < f x"
  shows "sum_list (map (\<lambda>x. f x - 1) (filter (\<lambda>x. f x > 1) xs)) + length xs = sum_list (map f xs)"
  using assms
proof (induction xs)
  case (Cons x xs)
  have "0 < f x" using Cons.prems by simp
  then have "f x = 1" if "\<not> f x > 1" using that by simp
  then show ?case using Cons by auto
qed simp

section \<open>Refinement\<close>

text \<open>The specification of the store: a map of orders and a log of consumed events.\<close>

record StoreSpec =
  sp_orders :: "string \<Rightarrow> Order option"
  sp_log :: "OrderEventRecord list"

definition spec_save :: "Order \<Rightarrow> StoreSpec \<Rightarrow> order_error + StoreSpec" where
  "spec_save ord s =
     (if sp_orders s (orderId ord) \<noteq> None then Inl (DuplicateOrderId (orderId ord))
      else Inr (s\<lparr>sp_orders := (sp_orders s)(orderId ord \<mapsto> ord)\<rparr>))"

definition spec_update :: "int \<Rightarrow> string \<Rightarrow> OrderStatus \<Rightarrow> StoreSpec \<Rightarrow> order_error + StoreSpec" where
  "spec_update now i t s =
     (case sp_orders s i of
        None \<Rightarrow> Inl (StatusOfMissingOrder i)
      | Some ord \<Rightarrow> Inr (s\<lparr>sp_orders := (sp_orders s)(i \<mapsto> ord\<lparr>status := t, updatedAt := now\<rparr>)\<rparr>))"

definition spec_record :: "OrderEventRecord \<Rightarrow> StoreSpec \<Rightarrow> StoreSpec" where
  "spec_record r s = s\<lparr>sp_log := sp_log s @ [r\<lparr>rec_id := None\<rparr>]\<rparr>"

definition abs_db :: "Db \<Rightarrow> StoreSpec" where
  "abs_db db = \<lparr>sp_orders = db_orders db, sp_log = map (\<lambda>r. r\<lparr>rec_id := None\<rparr>) (db_log db)\<rparr>"

lemma db_orders_None: "db_orders db i = None \<longleftrightarrow> i \<notin> order_id ` set (orders db)"
  by (auto simp: db_orders_def find_None_iff)

lemma save_refines:
  assumes "wf_db db" and "db_fault db = None"
  shows "map_sum id abs_db (saveOrder ord db) = spec_save ord (abs_db db)"
proof (cases "saveOrder ord db")
  case (Inl err)
  then show ?thesis using assms(2)
    by (auto simp: saveOrder_def spec_save_def abs_db_def db_orders_None split: if_splits)
next
  case (Inr db')
  then show ?thesis using saveOrder_wf [OF assms(1) Inr] by (simp add: spec_save_def abs_db_def)
qed

lemma update_refines:
  assumes "wf_db db" and "db_fault db = None"
  shows "map_sum id abs_db (updateStatus now i t db) = spec_update now i t (abs_db db)"
proof (cases "updateStatus now i t db")
  case (Inl err)
  then have "err = StatusOfMissingOrder i" "db_orders db i = None"
    using assms(2) by (auto simp: updateStatus_def Let_def filter_empty_conv db_orders_None split: if_splits)
  then show ?thesis by (simp add: Inl spec_update_def abs_db_def)
next
  case (Inr db')
  then show ?thesis using updateStatus_wf [OF assms(1) Inr] by (auto simp: spec_update_def abs_db_def)
qed

lemma record_refines:
  assumes "wf_db db" and "db_fault db = None"
  shows "map_sum id abs_db (recordEvent r db) = Inr (spec_record r (abs_db db))"
proof -
  obtain db' where r: "recordEvent r db = Inr db'" using assms(2) by (simp add: recordEvent_def)
  obtain n where "db_orders db' = db_orders db" "db_log db' = db_log db @ [r\<lparr>rec_id := Some n\<rparr>]"
    using recordEvent_wf [OF assms(1) r] by blast
  then show ?thesis by (simp add: r spec_record_def abs_db_def)
qed

text \<open>C18. The tables implement the specification: reading gives the specified order, and saving,
  updating and recording commute with the abstraction, on the error branches too. A reset empties
  both parts; it is not atomic: one whose second statement throws has emptied the log and kept the
  orders, and one whose first statement throws has changed nothing. With a database that throws, every
  writing operation is that error and changes nothing.\<close>

theorem store_refines_specification:
  assumes "wf_db db"
  shows "findOrder i db = Inr (sp_orders (abs_db db) i) \<and> countEvents db = length (sp_log (abs_db db)) \<and>
    (case db_fault db of
       None \<Rightarrow>
         map_sum id abs_db (saveOrder ord db) = spec_save ord (abs_db db) \<and>
         map_sum id abs_db (updateStatus now i t db) = spec_update now i t (abs_db db) \<and>
         map_sum id abs_db (recordEvent r db) = Inr (spec_record r (abs_db db)) \<and>
         map_prod id abs_db (reset db) =
           (case later_fault db of
              None \<Rightarrow> (Inr (), \<lparr>sp_orders = (\<lambda>_. None), sp_log = []\<rparr>)
            | Some err \<Rightarrow> (Inl (StoreFailed err), (abs_db db)\<lparr>sp_log := []\<rparr>)) \<and>
         wf_db (snd (reset db))
     | Some err \<Rightarrow>
         saveOrder ord db = Inl (StoreFailed err) \<and> updateStatus now i t db = Inl (StoreFailed err) \<and>
         recordEvent r db = Inl (StoreFailed err) \<and> reset db = (Inl (StoreFailed err), db))"
proof -
  have "findOrder i db = Inr (sp_orders (abs_db db) i)" "countEvents db = length (sp_log (abs_db db))"
    using findOrder_wf [OF assms] by (simp_all add: abs_db_def countEvents_def db_log_def)
  moreover have "map_prod id abs_db (reset db) =
      (case later_fault db of
         None \<Rightarrow> (Inr (), \<lparr>sp_orders = (\<lambda>_. None), sp_log = []\<rparr>)
       | Some err \<Rightarrow> (Inl (StoreFailed err), (abs_db db)\<lparr>sp_log := []\<rparr>)) \<and> wf_db (snd (reset db))" if "db_fault db = None"
    using that assms
    by (auto simp: reset_def Let_def abs_db_def db_orders_def db_log_def wf_db_def fun_eq_iff split: option.split)
  ultimately show ?thesis
    using save_refines [OF assms] update_refines [OF assms] record_refines [OF assms]
    by (auto simp: saveOrder_def updateStatus_def recordEvent_def reset_def split: option.split)
qed

definition sample_order :: Order where
  "sample_order =
     \<lparr>orderId = ''ord-1'', userId = ''u'', amount = 30, items = [\<lparr>productId = ''p'', quantity = 3, unitPrice = 10\<rparr>],
      status = ST_CREATED, order_createdAt = 1, updatedAt = 1\<rparr>"

lemma wf_empty_db: "wf_db empty_db"
  by (simp add: wf_db_def empty_db_def)

theorem store_refines_specification_witness:
  "map_sum id (\<lambda>db. sp_orders (abs_db db) ''ord-1'') (saveOrder sample_order empty_db) = Inr (Some sample_order) \<and>
   (let db = (projr (saveOrder sample_order empty_db))\<lparr>later_fault := Some ''busy''\<rparr>
    in fst (reset db) = Inl (StoreFailed ''busy'') \<and> sp_orders (abs_db (snd (reset db))) ''ord-1'' = Some sample_order)"
proof -
  have fault: "db_fault empty_db = None" by (simp add: empty_db_def)
  let ?db = "(projr (saveOrder sample_order empty_db))\<lparr>later_fault := Some ''busy''\<rparr>"
  have db: "wf_db ?db" "db_fault ?db = None" "later_fault ?db = Some ''busy''" "db_orders ?db ''ord-1'' = Some sample_order"
    by code_simp+
  have half: "map_prod id abs_db (reset ?db) = (Inl (StoreFailed ''busy''), (abs_db ?db)\<lparr>sp_log := []\<rparr>)"
    using store_refines_specification [OF db(1)] db(2,3) by simp
  have "fst (map_prod id abs_db (reset ?db)) = Inl (StoreFailed ''busy'')"
    "sp_orders (snd (map_prod id abs_db (reset ?db))) ''ord-1'' = Some sample_order"
    unfolding half using db(4) by (simp_all add: abs_db_def)
  then have reset: "fst (reset ?db) = Inl (StoreFailed ''busy'')" "sp_orders (abs_db (snd (reset ?db))) ''ord-1'' = Some sample_order"
    by (simp_all only: fst_map_prod snd_map_prod id_apply)
  have "map_sum id abs_db (saveOrder sample_order empty_db) = spec_save sample_order (abs_db empty_db)"
    using store_refines_specification [OF wf_empty_db] fault by simp
  also have "\<dots> = Inr ((abs_db empty_db)\<lparr>sp_orders := [''ord-1'' \<mapsto> sample_order]\<rparr>)"
    by (simp add: spec_save_def abs_db_def empty_db_def db_orders_def sample_order_def fun_eq_iff)
  finally have "map_sum id (\<lambda>s. sp_orders s ''ord-1'') (map_sum id abs_db (saveOrder sample_order empty_db)) = Inr (Some sample_order)"
    by simp
  then show ?thesis using reset by (simp add: sum.map_comp comp_def id_def Let_def)
qed

text \<open>The duplicate report is exact, whatever order the engine returns equal counts in: it has
  one entry for every order and event type consumed more than once, with the number of times, most
  frequent first; the excess over one of its counts is the number of consumed events minus the
  number of different ones. The counts per consumer group add up to all consumed events.\<close>

theorem duplicate_report_is_exact:
  assumes "\<And>xs. mset (arrange xs) = mset xs" and "\<And>xs. mset (arrange_groups xs) = mset xs"
    and "consumed = map (\<lambda>r. (rec_orderId r, rec_eventType r)) (db_log db)"
  shows "(\<forall>oid ty n. \<lparr>dup_orderId = oid, dup_eventType = ty, dup_count = n\<rparr> \<in> set (findDuplicates arrange db) \<longleftrightarrow>
            n = count_list consumed (oid, ty) \<and> 1 < n) \<and>
         sorted (rev (map dup_count (findDuplicates arrange db))) \<and>
         sum_list (map (\<lambda>d. dup_count d - 1) (findDuplicates arrange db)) + card (set consumed) = countEvents db \<and>
         sum_list (map grp_count (countByGroup arrange_groups db)) = countEvents db"
proof (intro conjI allI)
  let ?g = "group_count event_key (order_events db)"
  let ?d = "filter (\<lambda>(_, n). n > 1) ?g"
  let ?s = "sort_key (\<lambda>(_, n). - int n) (arrange ?d)"
  have consumed: "consumed = map event_key (order_events db)"
    by (simp add: assms(3) db_log_def toEventRecord_def event_key_def comp_def)
  have mset: "mset ?s = mset ?d" by (simp add: assms(1))
  have count: "count_list consumed k = length (filter (\<lambda>r. event_key r = k) (order_events db))" for k
    by (simp add: consumed count_list_key)
  fix oid ty n
  have "\<lparr>dup_orderId = oid, dup_eventType = ty, dup_count = n\<rparr> \<in> set (findDuplicates arrange db) \<longleftrightarrow>
      ((oid, ty), n) \<in> set ?s"
    by (force simp: findDuplicates_def)
  also have "\<dots> \<longleftrightarrow> ((oid, ty), n) \<in> set ?d" using mset_eq_setD [OF mset] by simp
  also have "\<dots> \<longleftrightarrow> n = count_list consumed (oid, ty) \<and> 1 < n"
    unfolding count by (auto simp: group_count_member) (metis (mono_tags, lifting) filter_False imageI
        list.size(3) not_less0)
  finally show "\<lparr>dup_orderId = oid, dup_eventType = ty, dup_count = n\<rparr> \<in> set (findDuplicates arrange db) \<longleftrightarrow>
      n = count_list consumed (oid, ty) \<and> 1 < n" .
next
  let ?g = "group_count event_key (order_events db)"
  let ?d = "filter (\<lambda>(_, n). n > 1) ?g"
  let ?s = "sort_key (\<lambda>(_, n). - int n) (arrange ?d)"
  have counts: "map dup_count (findDuplicates arrange db) = map snd ?s"
    by (auto simp: findDuplicates_def)
  have "sorted (map (\<lambda>(_, n). - int n) ?s)" by simp
  then show "sorted (rev (map dup_count (findDuplicates arrange db)))"
    unfolding counts by (simp add: sorted_map sorted_wrt_rev sorted_wrt_map case_prod_beta)
  have consumed: "set consumed = set (map fst ?g)" "card (set (map fst ?g)) = length ?g"
    unfolding group_count_keys
    by (simp_all add: assms(3) db_log_def toEventRecord_def event_key_def image_image group_count_def
        length_remdups_card_conv)
  have "sum_list (map (\<lambda>d. dup_count d - 1) (findDuplicates arrange db)) =
      sum_list (map (\<lambda>x. snd x - 1) ?s)"
    by (simp add: findDuplicates_def comp_def case_prod_beta)
  also have "\<dots> = sum_list (map (\<lambda>x. snd x - 1) ?d)"
    by (rule sum_list_mset_cong) (simp add: assms(1))
  also have "\<dots> + length ?g = length (order_events db)"
    using sum_list_excess [of ?g snd, OF group_count_pos]
    by (simp add: group_count_sum case_prod_unfold)
  finally show "sum_list (map (\<lambda>d. dup_count d - 1) (findDuplicates arrange db)) + card (set consumed) = countEvents db"
    by (simp only: consumed countEvents_def)
next
  have "sum_list (map grp_count (countByGroup arrange_groups db)) =
      sum_list (map snd (arrange_groups (group_count (group_of \<circ> ev_consumer_id) (order_events db))))"
    by (auto simp: countByGroup_def comp_def case_prod_beta intro!: sum_list_mset_cong)
  also have "\<dots> = countEvents db"
    using sum_list_mset_cong [OF assms(2), of snd] by (simp add: group_count_sum countEvents_def)
  finally show "sum_list (map grp_count (countByGroup arrange_groups db)) = countEvents db" .
qed

theorem duplicate_report_is_exact_witness:
  "\<exists>db. map dup_count (findDuplicates rev db) = [2] \<and> countEvents db = 3 \<and>
     sum_list (map (\<lambda>d. dup_count d - 1) (findDuplicates rev db)) = 1 \<and>
     sum_list (map grp_count (countByGroup (\<lambda>xs. xs) db)) = 3"
proof -
  define row where "row = (\<lambda>i oid. \<lparr>ev_id = i, ev_order_id = oid, ev_event_type = EV_CREATED, ev_topic = ''orders.created'',
    ev_partition = 0, ev_offset = ''0'', ev_consumer_id = ''g/1-0'', ev_consumed_at = 5\<rparr>)"
  define db where "db = empty_db\<lparr>order_events := [row 1 ''a'', row 2 ''b'', row 3 ''a''], event_seq := 3\<rparr>"
  let ?c = "map (\<lambda>r. (rec_orderId r, rec_eventType r)) (db_log db)"
  have d: "map dup_count (findDuplicates rev db) = [2]" and n: "countEvents db = 3"
    and c: "card (set ?c) = 2"
    unfolding db_def row_def by code_simp+
  note r = duplicate_report_is_exact [of rev "\<lambda>xs. xs" ?c db, OF mset_rev refl refl]
  have "sum_list (map (\<lambda>d. dup_count d - 1) (findDuplicates rev db)) + 2 = 3" using r c n by simp
  then have "sum_list (map (\<lambda>d. dup_count d - 1) (findDuplicates rev db)) = 1" by linarith
  moreover have "sum_list (map grp_count (countByGroup (\<lambda>xs. xs) db)) = 3" using r n by simp
  ultimately show ?thesis using d n by (intro exI [of _ db] conjI) assumption+
qed

end
