(* ===== verification/OrderDispatch.thy ===== *)
theory OrderDispatch
  imports OrderStore Env
begin

text \<open>
  How order events leave the service: the choice of the channel
  (\<open>src/orders/dispatch/dispatcher-mode.ts\<close>), the interface of a channel
  (\<open>order-dispatcher.interface.ts\<close>, the record \<open>OrderDispatcher\<close>), the Kafka channel
  (\<open>src/orders/order-publisher.ts\<close> and \<open>dispatch/kafka-order.dispatcher.ts\<close>) and the queue inside
  the process (\<open>dispatch/memory-order.dispatcher.ts\<close>).

  \<open>kafkajs\<close> is a parameter: \<open>send\<close> is the producer's \<open>send\<close> on a state of its own, which throws
  (\<open>Inl\<close>) or returns record metadata. The memory channel is a state machine, because its \<open>drain\<close>
  loop runs across turns of the event loop: a message in hand waits for the delay timer
  (\<open>Delaying\<close>) or for the promise of \<open>recordEvent\<close> (\<open>Recorded\<close>).
\<close>

section \<open>The mode\<close>

datatype DispatcherMode = KafkaMode | MemoryMode

fun mode_name :: "DispatcherMode \<Rightarrow> string" where
  "mode_name KafkaMode = ''kafka''"
| "mode_name MemoryMode = ''memory''"

definition DISPATCHER_MODES :: "DispatcherMode list" where
  "DISPATCHER_MODES = [KafkaMode, MemoryMode]"

text \<open>\<open>Inl raw\<close> is the error that names the value.\<close>

definition readDispatcherModeEnv :: "env \<Rightarrow> string + DispatcherMode" where
  "readDispatcherModeEnv e =
     (case e ''ORDER_DISPATCHER'' of
        None \<Rightarrow> Inr KafkaMode
      | Some raw \<Rightarrow>
          if trim raw = [] then Inr KafkaMode
          else (case find (\<lambda>m. mode_name m = to_lower (trim raw)) DISPATCHER_MODES of
                  Some m \<Rightarrow> Inr m
                | None \<Rightarrow> Inl raw))"

section \<open>The interface\<close>

record DispatchResult =
  destination :: string
  dr_partition :: "int option"
  dr_offset :: "string option"
  dr_key :: "string option"

text \<open>\<open>dispatch\<close> gets the clock; the state it works on is shared with the store.\<close>

record 'w OrderDispatcher =
  dis_name :: string
  dis_isReady :: "'w \<Rightarrow> bool"
  dis_dispatch :: "int \<Rightarrow> OrderEventPayload \<Rightarrow> 'w \<Rightarrow> (order_error + DispatchResult) \<times> 'w"

text \<open>A channel accepts a payload or throws, and never touches the orders.\<close>

locale order_dispatcher =
  fixes dis :: "'w OrderDispatcher"
    and accepted :: "'w \<Rightarrow> OrderEventPayload list"
    and wf :: "'w \<Rightarrow> bool"
    and orders_of :: "'w \<Rightarrow> string \<Rightarrow> Order option"
  assumes dispatch_ok: "wf w \<Longrightarrow> dis_dispatch dis now p w = (Inr r, w') \<Longrightarrow> accepted w' = accepted w @ [p]"
    and dispatch_err: "wf w \<Longrightarrow> dis_dispatch dis now p w = (Inl err, w') \<Longrightarrow> accepted w' = accepted w"
    and dispatch_orders: "wf w \<Longrightarrow> dis_dispatch dis now p w = (res, w') \<Longrightarrow> wf w' \<and> orders_of w' = orders_of w"

section \<open>The publisher\<close>

record OrderPublisherConfig =
  pc_brokers :: "string list"
  pc_clientId :: string
  pc_enabled :: bool
  idempotent :: bool
  acks :: jsnum
  disableKey :: bool

definition orderPublisherConfigFromEnv :: "env \<Rightarrow> bool \<Rightarrow> OrderPublisherConfig" where
  "orderPublisherConfigFromEnv e enabled =
     (let idem = (e ''ORDER_PRODUCER_IDEMPOTENT'' \<noteq> Some ''false'') in
      \<lparr>pc_brokers = readKafkaBrokersEnv e ''localhost:9092'',
       pc_clientId = (case e ''ORDER_PRODUCER_CLIENT_ID'' of None \<Rightarrow> ''order-publisher'' | Some c \<Rightarrow> c),
       pc_enabled = enabled,
       idempotent = idem,
       acks = (if idem then num_of_int (- 1)
               else case e ''ORDER_PRODUCER_ACKS'' of
                      None \<Rightarrow> num_of_int (- 1)
                    | Some raw \<Rightarrow> string_to_number raw),
       disableKey = (e ''ORDER_PRODUCER_DISABLE_KEY'' = Some ''true'')\<rparr>)"

text \<open>\<open>published\<close> logs the payloads whose \<open>publish\<close> returned.\<close>

record OrderPublisher =
  pub_config :: OrderPublisherConfig
  connected :: bool
  published :: "OrderEventPayload list"

text \<open>\<open>fault\<close> is what the producer's \<open>connect\<close> or \<open>disconnect\<close> throws.\<close>

definition pub_connect :: "string option \<Rightarrow> OrderPublisher \<Rightarrow> order_error + OrderPublisher" where
  "pub_connect fault pub =
     (if pc_brokers (pub_config pub) = [] then Inl EmptyBrokers
      else case fault of
             Some err \<Rightarrow> Inl (SendFailed err)
           | None \<Rightarrow> Inr (pub\<lparr>connected := True\<rparr>))"

definition pub_onModuleInit :: "string option \<Rightarrow> OrderPublisher \<Rightarrow> order_error + OrderPublisher" where
  "pub_onModuleInit fault pub =
     (if \<not> pc_enabled (pub_config pub) then Inr pub else pub_connect fault pub)"

definition pub_onModuleDestroy :: "string option \<Rightarrow> OrderPublisher \<Rightarrow> order_error + OrderPublisher" where
  "pub_onModuleDestroy fault pub =
     (if connected pub then
        (case fault of Some err \<Rightarrow> Inl (SendFailed err) | None \<Rightarrow> Inr (pub\<lparr>connected := False\<rparr>))
      else Inr pub)"

record RecordMetadata =
  topicName :: string
  md_partition :: int
  baseOffset :: "string option"

type_synonym 'k send =
  "string \<Rightarrow> jsnum \<Rightarrow> string option \<Rightarrow> OrderEventPayload \<Rightarrow> 'k \<Rightarrow> (string + RecordMetadata list) \<times> 'k"

text \<open>The key of a message: none when keys are switched off.\<close>

definition message_key :: "OrderPublisherConfig \<Rightarrow> OrderEventPayload \<Rightarrow> order_error + string option" where
  "message_key c p = (if disableKey c then Inr None else and_then (pickEventKey p) (\<lambda>k. Inr (Some k)))"

record PublishResult =
  pr_topic :: string
  pr_partition :: int
  pr_offset :: string
  pr_key :: "string option"

definition publish ::
  "'k send \<Rightarrow> OrderEventPayload \<Rightarrow> OrderPublisher \<times> 'k \<Rightarrow> (order_error + PublishResult) \<times> OrderPublisher \<times> 'k" where
  "publish send p = (\<lambda>(pub, k).
     if \<not> connected pub then (Inl NotConnected, pub, k)
     else case and_then (topicFor (p_eventType p)) (\<lambda>topic.
                 and_then (message_key (pub_config pub) p) (\<lambda>key. Inr (topic, key))) of
            Inl err \<Rightarrow> (Inl err, pub, k)
          | Inr (topic, key) \<Rightarrow>
              (case send topic (acks (pub_config pub)) key p k of
                 (Inl err, k') \<Rightarrow> (Inl (SendFailed err), pub, k')
               | (Inr [], k') \<Rightarrow> (Inl (SendFailed ''TypeError''), pub, k')
               | (Inr (md # _), k') \<Rightarrow>
                   (Inr \<lparr>pr_topic = topicName md, pr_partition = md_partition md,
                         pr_offset = (case baseOffset md of None \<Rightarrow> ''undefined'' | Some off \<Rightarrow> off),
                         pr_key = key\<rparr>,
                    pub\<lparr>published := published pub @ [p]\<rparr>, k')))"

section \<open>The queue inside the process\<close>

definition QUEUE_NAME :: string where
  "QUEUE_NAME = ''memory://orders''"

datatype hand = Delaying OrderEventPayload | Recorded OrderEventPayload bool

text \<open>\<open>in_hand\<close> is the message the suspended \<open>drain\<close> call works on. \<open>handled\<close> logs the messages it
  is done with and whether they were recorded.\<close>

record MemoryOrderDispatcher =
  mem_queue :: "OrderEventPayload list"
  draining :: bool
  stopped :: bool
  enqueued :: nat
  processed :: nat
  failed :: nat
  processingDelayMs :: int
  mem_pid :: int
  in_hand :: "hand option"
  handled :: "(OrderEventPayload \<times> bool) list"

definition mem_init :: "int \<Rightarrow> env \<Rightarrow> env_error + MemoryOrderDispatcher" where
  "mem_init pid e =
     and_then (readNonNegativeIntEnv e ''MEMORY_CONSUMER_DELAY_MS'' 0) (\<lambda>delay.
       Inr \<lparr>mem_queue = [], draining = False, stopped = False, enqueued = 0, processed = 0, failed = 0,
            processingDelayMs = delay, mem_pid = pid, in_hand = None, handled = []\<rparr>)"

definition mem_onModuleDestroy :: "MemoryOrderDispatcher \<Rightarrow> MemoryOrderDispatcher" where
  "mem_onModuleDestroy m = m\<lparr>stopped := True\<rparr>"

definition mem_isReady :: "MemoryOrderDispatcher \<Rightarrow> bool" where
  "mem_isReady m = (\<not> stopped m)"

record MemoryStats =
  ms_enqueued :: nat
  ms_processed :: nat
  ms_failed :: nat
  ms_pending :: nat

definition mem_getStats :: "MemoryOrderDispatcher \<Rightarrow> MemoryStats" where
  "mem_getStats m =
     \<lparr>ms_enqueued = enqueued m, ms_processed = processed m, ms_failed = failed m,
      ms_pending = length (mem_queue m)\<rparr>"

definition mem_record :: "int \<Rightarrow> OrderEventPayload \<Rightarrow> MemoryOrderDispatcher \<Rightarrow> OrderEventRecord" where
  "mem_record now event m =
     \<lparr>rec_id = None, rec_orderId = p_orderId event, rec_eventType = p_eventType event, rec_topic = QUEUE_NAME,
      rec_partition = - 1, rec_offset = [], rec_consumerId = ''memory/'' @ show_int (mem_pid m), rec_consumedAt = now\<rparr>"

text \<open>The call of \<open>recordEvent\<close>. It runs at once; its promise settles later.\<close>

definition record_call ::
  "int \<Rightarrow> OrderEventPayload \<Rightarrow> Db \<times> MemoryOrderDispatcher \<Rightarrow> Db \<times> MemoryOrderDispatcher" where
  "record_call now event = (\<lambda>(db, m).
     case recordEvent (mem_record now event m) db of
       Inl err \<Rightarrow> (db, m\<lparr>in_hand := Some (Recorded event False)\<rparr>)
     | Inr db' \<Rightarrow> (db', m\<lparr>in_hand := Some (Recorded event True)\<rparr>))"

text \<open>The loop of \<open>drain\<close> up to its next \<open>await\<close>, or to its end.\<close>

definition drain_loop :: "int \<Rightarrow> Db \<times> MemoryOrderDispatcher \<Rightarrow> Db \<times> MemoryOrderDispatcher" where
  "drain_loop now = (\<lambda>(db, m).
     case mem_queue m of
       event # rest \<Rightarrow>
         if stopped m then (db, m\<lparr>draining := False\<rparr>)
         else if processingDelayMs m > 0
              then (db, m\<lparr>mem_queue := rest, in_hand := Some (Delaying event)\<rparr>)
              else record_call now event (db, m\<lparr>mem_queue := rest\<rparr>)
     | [] \<Rightarrow> (db, m\<lparr>draining := False\<rparr>))"

definition drain :: "int \<Rightarrow> Db \<times> MemoryOrderDispatcher \<Rightarrow> Db \<times> MemoryOrderDispatcher" where
  "drain now = (\<lambda>(db, m). if draining m then (db, m) else drain_loop now (db, m\<lparr>draining := True\<rparr>))"

definition mem_dispatch ::
  "int \<Rightarrow> OrderEventPayload \<Rightarrow> Db \<times> MemoryOrderDispatcher \<Rightarrow>
   (order_error + DispatchResult) \<times> Db \<times> MemoryOrderDispatcher" where
  "mem_dispatch now p = (\<lambda>(db, m).
     if stopped m then (Inl MemoryQueueStopped, db, m)
     else (Inr \<lparr>destination = QUEUE_NAME, dr_partition = None, dr_offset = None, dr_key = None\<rparr>,
           drain now (db, m\<lparr>mem_queue := mem_queue m @ [p], enqueued := enqueued m + 1\<rparr>)))"

text \<open>The suspended \<open>drain\<close> resumes: after the delay, and after the promise of \<open>recordEvent\<close>.\<close>

definition delay_elapsed :: "int \<Rightarrow> Db \<times> MemoryOrderDispatcher \<Rightarrow> Db \<times> MemoryOrderDispatcher" where
  "delay_elapsed now = (\<lambda>(db, m).
     case in_hand m of Some (Delaying event) \<Rightarrow> record_call now event (db, m) | _ \<Rightarrow> (db, m))"

definition record_settled :: "int \<Rightarrow> Db \<times> MemoryOrderDispatcher \<Rightarrow> Db \<times> MemoryOrderDispatcher" where
  "record_settled now = (\<lambda>(db, m).
     case in_hand m of
       Some (Recorded event ok) \<Rightarrow>
         drain_loop now (db,
           m\<lparr>in_hand := None, handled := handled m @ [(event, ok)],
             processed := processed m + (if ok then 1 else 0), failed := failed m + (if ok then 0 else 1)\<rparr>)
     | _ \<Rightarrow> (db, m))"

section \<open>The memory queue as a state machine\<close>

text \<open>\<open>MFault\<close> is the environment making the database throw or work again.\<close>

datatype mem_event =
    MDispatch int OrderEventPayload
  | MDelayElapsed int
  | MRecordSettled int
  | MStop
  | MFault "string option"

fun mem_enabled :: "mem_event \<Rightarrow> Db \<times> MemoryOrderDispatcher \<Rightarrow> bool" where
  "mem_enabled (MDelayElapsed _) (db, m) = (case in_hand m of Some (Delaying _) \<Rightarrow> True | _ \<Rightarrow> False)"
| "mem_enabled (MRecordSettled _) (db, m) = (case in_hand m of Some (Recorded _ _) \<Rightarrow> True | _ \<Rightarrow> False)"
| "mem_enabled _ _ = True"

fun mem_handle :: "mem_event \<Rightarrow> Db \<times> MemoryOrderDispatcher \<Rightarrow> Db \<times> MemoryOrderDispatcher" where
  "mem_handle (MDispatch now p) x = snd (mem_dispatch now p x)"
| "mem_handle (MDelayElapsed now) x = delay_elapsed now x"
| "mem_handle (MRecordSettled now) x = record_settled now x"
| "mem_handle MStop (db, m) = (db, mem_onModuleDestroy m)"
| "mem_handle (MFault f) (db, m) = (db\<lparr>db_fault := f\<rparr>, m)"

inductive mem_step :: "Db \<times> MemoryOrderDispatcher \<Rightarrow> Db \<times> MemoryOrderDispatcher \<Rightarrow> bool" where
  mem_step: "mem_enabled ev x \<Longrightarrow> mem_step x (mem_handle ev x)"

fun mem_run :: "mem_event list \<Rightarrow> Db \<times> MemoryOrderDispatcher \<Rightarrow> (Db \<times> MemoryOrderDispatcher) option" where
  "mem_run [] x = Some x"
| "mem_run (ev # evs) x = (if mem_enabled ev x then mem_run evs (mem_handle ev x) else None)"

text \<open>The messages accepted so far, in order: those done, the one in hand, those queued.\<close>

fun hand_list :: "hand option \<Rightarrow> OrderEventPayload list" where
  "hand_list None = []"
| "hand_list (Some (Delaying p)) = [p]"
| "hand_list (Some (Recorded p _)) = [p]"

definition mem_accepted :: "MemoryOrderDispatcher \<Rightarrow> OrderEventPayload list" where
  "mem_accepted m = map fst (handled m) @ hand_list (in_hand m) @ mem_queue m"

text \<open>The messages a run submits before the queue is stopped.\<close>

fun submitted :: "bool \<Rightarrow> mem_event list \<Rightarrow> OrderEventPayload list" where
  "submitted s [] = []"
| "submitted s (MDispatch _ p # evs) = (if s then [] else [p]) @ submitted s evs"
| "submitted s (MStop # evs) = submitted True evs"
| "submitted s (_ # evs) = submitted s evs"

text \<open>The messages recorded in the store: those done with success, and the one in hand whose
  promise has not been seen yet.\<close>

fun hand_recorded :: "hand option \<Rightarrow> OrderEventPayload list" where
  "hand_recorded (Some (Recorded p True)) = [p]"
| "hand_recorded _ = []"

definition mem_recorded :: "MemoryOrderDispatcher \<Rightarrow> OrderEventPayload list" where
  "mem_recorded m = map fst (filter snd (handled m)) @ hand_recorded (in_hand m)"

definition log_keys :: "Db \<Rightarrow> (string \<times> OrderEventType) list" where
  "log_keys db = map (\<lambda>r. (rec_orderId r, rec_eventType r)) (db_log db)"

definition payload_key :: "OrderEventPayload \<Rightarrow> string \<times> OrderEventType" where
  "payload_key p = (p_orderId p, p_eventType p)"

definition mem_inv :: "(string \<times> OrderEventType) list \<Rightarrow> Db \<times> MemoryOrderDispatcher \<Rightarrow> bool" where
  "mem_inv base = (\<lambda>(db, m).
     wf_db db \<and> enqueued m = length (mem_accepted m) \<and>
     processed m = length (filter snd (handled m)) \<and>
     failed m = length (filter (\<lambda>h. \<not> snd h) (handled m)) \<and>
     draining m = (in_hand m \<noteq> None) \<and> (\<not> draining m \<longrightarrow> mem_queue m = [] \<or> stopped m) \<and>
     log_keys db = base @ map payload_key (mem_recorded m))"

text \<open>What \<open>drain_loop\<close> needs and gives: nothing is in hand.\<close>

definition loop_ready :: "(string \<times> OrderEventType) list \<Rightarrow> Db \<times> MemoryOrderDispatcher \<Rightarrow> bool" where
  "loop_ready base = (\<lambda>(db, m).
     wf_db db \<and> enqueued m = length (mem_accepted m) \<and>
     processed m = length (filter snd (handled m)) \<and>
     failed m = length (filter (\<lambda>h. \<not> snd h) (handled m)) \<and>
     in_hand m = None \<and> draining m \<and> log_keys db = base @ map payload_key (mem_recorded m))"

lemma recordEvent_keys:
  assumes "wf_db db" and "recordEvent (mem_record now p m) db = Inr db'"
  shows "wf_db db' \<and> log_keys db' = log_keys db @ [payload_key p]"
  using recordEvent_wf [OF assms] by (auto simp: log_keys_def mem_record_def payload_key_def)

lemma record_call_keeps:
  assumes "record_call now p (db, m) = (db', m')"
  shows "mem_queue m' = mem_queue m" "draining m' = draining m" "stopped m' = stopped m"
    "enqueued m' = enqueued m" "processed m' = processed m" "failed m' = failed m" "handled m' = handled m"
    "\<exists>ok. in_hand m' = Some (Recorded p ok)"
    "wf_db db \<Longrightarrow> wf_db db' \<and> log_keys db' = log_keys db @ map payload_key (hand_recorded (in_hand m'))"
  using assms by (auto simp: record_call_def dest: recordEvent_keys split: sum.splits)

lemma drain_loop_inv:
  assumes "loop_ready base x" and "drain_loop now x = (db', m')"
  shows "mem_inv base (db', m') \<and> mem_accepted m' = mem_accepted (snd x) \<and> stopped m' = stopped (snd x) \<and>
         handled m' = handled (snd x)"
proof -
  obtain db m where x: "x = (db, m)" by fastforce
  show ?thesis
  proof (cases "mem_queue m")
    case Nil
    then show ?thesis using assms
      by (auto simp: x drain_loop_def loop_ready_def mem_inv_def mem_accepted_def mem_recorded_def)
  next
    case (Cons event rest)
    show ?thesis
    proof (cases "stopped m \<or> processingDelayMs m > 0")
      case True
      then show ?thesis using assms Cons
        by (auto simp: x drain_loop_def loop_ready_def mem_inv_def mem_accepted_def mem_recorded_def split: if_splits)
    next
      case False
      then have "record_call now event (db, m\<lparr>mem_queue := rest\<rparr>) = (db', m')"
        using assms(2) Cons by (simp add: x drain_loop_def)
      note k = record_call_keeps [OF this]
      obtain ok where "in_hand m' = Some (Recorded event ok)" using k(8) by blast
      then show ?thesis using assms(1) Cons k(1-7,9)
        by (auto simp: x loop_ready_def mem_inv_def mem_accepted_def mem_recorded_def)
    qed
  qed
qed

lemma mem_handle_inv:
  assumes "mem_inv base x" and "mem_enabled ev x"
  shows "mem_inv base (mem_handle ev x) \<and>
         mem_accepted (snd (mem_handle ev x)) = mem_accepted (snd x) @ submitted (stopped (snd x)) [ev] \<and>
         stopped (snd (mem_handle ev x)) = (stopped (snd x) \<or> ev = MStop)"
proof -
  obtain db m where x: "x = (db, m)" by fastforce
  show ?thesis
  proof (cases ev)
    case (MDispatch now p)
    let ?m = "m\<lparr>mem_queue := mem_queue m @ [p], enqueued := enqueued m + 1\<rparr>"
    show ?thesis
    proof (cases "stopped m \<or> draining m")
      case True
      then show ?thesis using assms(1)
        by (auto simp: x MDispatch mem_dispatch_def drain_def mem_inv_def mem_accepted_def mem_recorded_def)
    next
      case False
      obtain db' m' where l: "drain_loop now (db, ?m\<lparr>draining := True\<rparr>) = (db', m')" by fastforce
      have "loop_ready base (db, ?m\<lparr>draining := True\<rparr>)"
        using assms(1) False by (auto simp: x mem_inv_def loop_ready_def mem_accepted_def mem_recorded_def)
      from drain_loop_inv [OF this l] False l show ?thesis
        using assms(1) by (auto simp: x MDispatch mem_dispatch_def drain_def mem_inv_def mem_accepted_def)
    qed
  next
    case (MDelayElapsed now)
    then obtain p where h: "in_hand m = Some (Delaying p)"
      using assms(2) by (auto simp: x split: option.splits hand.splits)
    obtain db' m' where r: "record_call now p (db, m) = (db', m')" by fastforce
    note k = record_call_keeps [OF r]
    obtain ok where "in_hand m' = Some (Recorded p ok)" using k(8) by blast
    then show ?thesis using assms(1) k(1-7,9) r h
      by (auto simp: x MDelayElapsed delay_elapsed_def mem_inv_def mem_accepted_def mem_recorded_def)
  next
    case (MRecordSettled now)
    then obtain p ok where h: "in_hand m = Some (Recorded p ok)"
      using assms(2) by (auto simp: x split: option.splits hand.splits)
    let ?m = "m\<lparr>in_hand := None, handled := handled m @ [(p, ok)],
      processed := processed m + (if ok then 1 else 0), failed := failed m + (if ok then 0 else 1)\<rparr>"
    obtain db' m' where l: "drain_loop now (db, ?m) = (db', m')" by fastforce
    have "loop_ready base (db, ?m)"
      using assms(1) h by (cases ok) (auto simp: x mem_inv_def loop_ready_def mem_accepted_def mem_recorded_def)
    from drain_loop_inv [OF this l] l h show ?thesis
      by (auto simp: x MRecordSettled record_settled_def mem_accepted_def)
  next
    case MStop
    then show ?thesis using assms(1)
      by (auto simp: x mem_onModuleDestroy_def mem_inv_def mem_accepted_def mem_recorded_def)
  next
    case (MFault f)
    then show ?thesis using assms(1)
      by (auto simp: x mem_inv_def wf_db_def log_keys_def db_log_def)
  qed
qed

definition mem_start :: "(string \<times> OrderEventType) list \<Rightarrow> Db \<times> MemoryOrderDispatcher \<Rightarrow> bool" where
  "mem_start base = (\<lambda>(db, m). wf_db db \<and> base = log_keys db \<and> (\<exists>pid e. mem_init pid e = Inr m))"

lemma mem_start_inv:
  assumes "mem_start base x"
  shows "mem_inv base x" "mem_accepted (snd x) = []" "\<not> stopped (snd x)"
  using assms
  by (auto simp: mem_start_def mem_init_def and_then_Inr mem_inv_def mem_accepted_def mem_recorded_def)

interpretation memory_queue: inductive_invariant "mem_start base" mem_step "mem_inv base"
  by unfold_locales (auto simp: mem_start_inv elim!: mem_step.cases dest: mem_handle_inv)

lemma submitted_Cons: "submitted s (ev # evs) = submitted s [ev] @ submitted (s \<or> ev = MStop) evs"
  by (cases ev) auto

lemma mem_run_inv:
  "mem_run evs x = Some y \<Longrightarrow> mem_inv base x \<Longrightarrow>
   mem_inv base y \<and> mem_accepted (snd y) = mem_accepted (snd x) @ submitted (stopped (snd x)) evs"
proof (induction evs arbitrary: x)
  case (Cons ev evs)
  then have en: "mem_enabled ev x" and run: "mem_run evs (mem_handle ev x) = Some y"
    by (auto split: if_splits)
  note h = mem_handle_inv [OF Cons.prems(2) en]
  have "mem_inv base y \<and> mem_accepted (snd y) = mem_accepted (snd (mem_handle ev x)) @
      submitted (stopped (snd (mem_handle ev x))) evs"
    using Cons.IH [OF run] h by simp
  then show ?case using h submitted_Cons [of "stopped (snd x)" ev evs] by simp
qed simp

text \<open>C29. The queue inside the process accounts for every message: in every run from start-up the
  messages accepted before it was stopped are, in the order of their dispatch, those done, the one
  in hand and those queued, and the counter of accepted messages is their number. The done ones are
  counted as processed or failed, and exactly the processed ones (with the one in hand once its row
  is written) are in the event log, in order.\<close>

theorem memory_queue_accounts_for_every_message:
  assumes "mem_init pid e = Inr m0" and "wf_db db0" and "mem_run evs (db0, m0) = Some (db, m)"
  shows "map fst (handled m) @ hand_list (in_hand m) @ mem_queue m = submitted False evs \<and>
         enqueued m = length (submitted False evs) \<and>
         enqueued m = processed m + failed m + length (hand_list (in_hand m)) + length (mem_queue m) \<and>
         map (\<lambda>r. (rec_orderId r, rec_eventType r)) (db_log db) =
           map (\<lambda>r. (rec_orderId r, rec_eventType r)) (db_log db0) @
           map (\<lambda>p. (p_orderId p, p_eventType p))
             (map fst (filter snd (handled m)) @ hand_recorded (in_hand m))"
proof -
  have start: "mem_start (log_keys db0) (db0, m0)" using assms(1,2) by (auto simp: mem_start_def)
  note inv = mem_run_inv [OF assms(3) mem_start_inv(1) [OF start]]
  have acc: "mem_accepted m = submitted False evs" using inv mem_start_inv(2,3) [OF start] by simp
  have len: "length (handled m) = processed m + failed m"
    using inv sum_length_filter_compl [of snd "handled m"] by (simp add: mem_inv_def)
  have enq: "enqueued m = length (mem_accepted m)"
    and log: "log_keys db = log_keys db0 @ map payload_key (mem_recorded m)"
    using inv by (simp_all add: mem_inv_def)
  have "payload_key = (\<lambda>p. (p_orderId p, p_eventType p))" by (simp add: payload_key_def fun_eq_iff)
  with log have "map (\<lambda>r. (rec_orderId r, rec_eventType r)) (db_log db) =
      map (\<lambda>r. (rec_orderId r, rec_eventType r)) (db_log db0) @ map (\<lambda>p. (p_orderId p, p_eventType p)) (mem_recorded m)"
    by (simp add: log_keys_def)
  moreover have "enqueued m = processed m + failed m + length (hand_list (in_hand m)) + length (mem_queue m)"
    by (simp add: enq mem_accepted_def len)
  ultimately show ?thesis using acc enq by (simp only: mem_accepted_def mem_recorded_def simp_thms)
qed

definition sample_payload :: "string \<Rightarrow> OrderEventPayload" where
  "sample_payload i = \<lparr>p_eventType = EV_CREATED, p_orderId = i, p_userId = ''u'', p_amount = 1, p_items = [], emittedAt = 0\<rparr>"

definition idle_memory :: "int \<Rightarrow> MemoryOrderDispatcher" where
  "idle_memory delay = \<lparr>mem_queue = [], draining = False, stopped = False, enqueued = 0, processed = 0, failed = 0,
     processingDelayMs = delay, mem_pid = 7, in_hand = None, handled = []\<rparr>"

definition delayed_run :: "mem_event list" where
  "delayed_run = [MDispatch 0 (sample_payload ''a''), MDispatch 0 (sample_payload ''b''), MDelayElapsed 5,
     MFault (Some ''busy''), MRecordSettled 6]"

lemma idle_memory_init: "mem_init 7 (\<lambda>_. None) = Inr (idle_memory 0)"
  "mem_init 7 [''MEMORY_CONSUMER_DELAY_MS'' \<mapsto> ''5''] = Inr (idle_memory 5)"
proof -
  have "parse_int ''5'' = Some 5" by code_simp
  then show "mem_init 7 [''MEMORY_CONSUMER_DELAY_MS'' \<mapsto> ''5''] = Inr (idle_memory 5)"
    by (simp add: mem_init_def readNonNegativeIntEnv_def raw_env_def idle_memory_def)
qed (simp add: mem_init_def readNonNegativeIntEnv_def raw_env_def idle_memory_def)

theorem memory_queue_accounts_for_every_message_witness:
  "\<exists>db m. mem_run delayed_run (empty_db, idle_memory 5) = Some (db, m) \<and> enqueued m = 2 \<and> processed m = 1 \<and>
     length (hand_list (in_hand m)) = 1 \<and> mem_queue m = [] \<and> length (db_log db) = 1"
proof -
  obtain db m where r: "mem_run delayed_run (empty_db, idle_memory 5) = Some (db, m)"
    "processed m = 1" "failed m = 0" "mem_queue m = []" "length (db_log db) = 1"
  proof (rule that)
    let ?y = "the (mem_run delayed_run (empty_db, idle_memory 5))"
    show "mem_run delayed_run (empty_db, idle_memory 5) = Some (fst ?y, snd ?y)"
      "processed (snd ?y) = 1" "failed (snd ?y) = 0" "mem_queue (snd ?y) = []" "length (db_log (fst ?y)) = 1"
      by code_simp+
  qed
  have "length (submitted False delayed_run) = 2" by code_simp
  then have "enqueued m = 2 \<and> length (hand_list (in_hand m)) = 1"
    using memory_queue_accounts_for_every_message [OF idle_memory_init(2) wf_empty_db r(1)] r(2-4) by simp
  with r show ?thesis by blast
qed

text \<open>The \<open>pending\<close> figure of \<open>getStats\<close> is not what is lost when the process dies: while the
  queue works on a message during its processing delay, that message is neither queued nor recorded,
  so the accepted messages that are in no log and not counted as failed are one more than
  \<open>pending\<close>.\<close>

theorem pending_misses_the_message_in_hand:
  assumes "mem_start base (db0, m0)" and "mem_step\<^sup>*\<^sup>* (db0, m0) (db, m)" and "in_hand m = Some (Delaying p)"
  shows "length (log_keys db) + failed m + (ms_pending (mem_getStats m) + 1) = length base + enqueued m"
proof -
  have inv: "mem_inv base (db, m)" using memory_queue.inv_reachable [OF assms(1,2)] .
  then show ?thesis using assms(3) sum_length_filter_compl [of snd "handled m"]
    by (auto simp: mem_inv_def mem_accepted_def mem_recorded_def mem_getStats_def)
qed

lemma mem_run_steps: "mem_run evs x = Some y \<Longrightarrow> mem_step\<^sup>*\<^sup>* x y"
proof (induction evs arbitrary: x)
  case (Cons ev evs)
  then have "mem_step x (mem_handle ev x)" "mem_step\<^sup>*\<^sup>* (mem_handle ev x) y"
    by (auto split: if_splits intro: mem_step)
  then show ?case by (rule converse_rtranclp_into_rtranclp)
qed simp

theorem pending_misses_the_message_in_hand_witness:
  "\<exists>db m. mem_run [MDispatch 0 (sample_payload ''a'')] (empty_db, idle_memory 5) = Some (db, m) \<and>
     enqueued m = 1 \<and> failed m = 0 \<and> log_keys db = [] \<and> ms_pending (mem_getStats m) = 0"
proof -
  let ?y = "the (mem_run [MDispatch 0 (sample_payload ''a'')] (empty_db, idle_memory 5))"
  have r: "mem_run [MDispatch 0 (sample_payload ''a'')] (empty_db, idle_memory 5) = Some (fst ?y, snd ?y)"
    and h: "in_hand (snd ?y) = Some (Delaying (sample_payload ''a''))"
    and z: "failed (snd ?y) = 0" "log_keys (fst ?y) = []" "ms_pending (mem_getStats (snd ?y)) = 0"
    by code_simp+
  have "mem_start [] (empty_db, idle_memory 5)"
    using idle_memory_init(2) by (auto simp: mem_start_def wf_db_def empty_db_def log_keys_def db_log_def)
  from pending_misses_the_message_in_hand [OF this mem_run_steps [OF r] h] z
  have "enqueued (snd ?y) = 1" by simp
  with r z show ?thesis by (intro exI conjI)
qed

fun hand_work :: "hand option \<Rightarrow> nat" where
  "hand_work None = 0"
| "hand_work (Some (Recorded _ _)) = 1"
| "hand_work (Some (Delaying _)) = 2"

definition mem_work :: "MemoryOrderDispatcher \<Rightarrow> nat" where
  "mem_work m = 2 * length (mem_queue m) + hand_work (in_hand m)"

lemma record_call_work:
  "mem_work (snd (record_call now p (db, m))) = 2 * length (mem_queue m) + 1"
  by (auto simp: record_call_def mem_work_def split: sum.splits)

lemma drain_loop_work:
  "in_hand m = None \<Longrightarrow> mem_work (snd (drain_loop now (db, m))) \<le> 2 * length (mem_queue m)"
  by (cases "mem_queue m") (simp_all add: drain_loop_def record_call_work, simp_all add: mem_work_def)

text \<open>C30. The drain loop ends: every resumption of the suspended loop does strictly less work than
  was left, and when none is possible the queue is empty or was stopped.\<close>

theorem memory_queue_drains:
  assumes "mem_start base x0" and "mem_step\<^sup>*\<^sup>* x0 x" and "m = snd x"
  shows "(\<forall>now. mem_enabled (MDelayElapsed now) x \<longrightarrow> mem_work (snd (mem_handle (MDelayElapsed now) x)) < mem_work m) \<and>
         (\<forall>now. mem_enabled (MRecordSettled now) x \<longrightarrow> mem_work (snd (mem_handle (MRecordSettled now) x)) < mem_work m) \<and>
         ((\<forall>now. \<not> mem_enabled (MDelayElapsed now) x \<and> \<not> mem_enabled (MRecordSettled now) x) \<longrightarrow>
            \<not> draining m \<and> (mem_queue m = [] \<or> stopped m))"
proof -
  obtain db where x: "x = (db, m)" using assms(3) by (cases x) auto
  have inv: "mem_inv base x" using memory_queue.inv_reachable [OF assms(1,2)] .
  have "mem_work (snd (mem_handle (MDelayElapsed now) x)) < mem_work m"
    if "mem_enabled (MDelayElapsed now) x" for now
    using that by (auto simp: x delay_elapsed_def record_call_work mem_work_def [of m] split: option.splits hand.splits)
  moreover have "mem_work (snd (mem_handle (MRecordSettled now) x)) < mem_work m"
    if "mem_enabled (MRecordSettled now) x" for now
    using that by (auto simp: x record_settled_def mem_work_def [of m] less_Suc_eq_le
        intro!: order_trans [OF drain_loop_work] split: option.splits hand.splits)
  moreover have "\<not> draining m \<and> (mem_queue m = [] \<or> stopped m)"
    if "\<forall>now. \<not> mem_enabled (MDelayElapsed now) x \<and> \<not> mem_enabled (MRecordSettled now) x"
    using that inv by (auto simp: x mem_inv_def split: option.splits hand.splits)
  ultimately show ?thesis by blast
qed

theorem memory_queue_drains_witness:
  "\<exists>x. mem_run delayed_run (empty_db, idle_memory 5) = Some x \<and> mem_enabled (MDelayElapsed 7) x \<and>
     mem_work (snd (mem_handle (MDelayElapsed 7) x)) < mem_work (snd x)"
proof -
  let ?x = "the (mem_run delayed_run (empty_db, idle_memory 5))"
  have r: "mem_run delayed_run (empty_db, idle_memory 5) = Some ?x" and e: "mem_enabled (MDelayElapsed 7) ?x"
    by code_simp+
  have "mem_start [] (empty_db, idle_memory 5)"
    using idle_memory_init(2) by (auto simp: mem_start_def wf_db_def empty_db_def log_keys_def db_log_def)
  from memory_queue_drains [OF this mem_run_steps [OF r] refl] r e show ?thesis by blast
qed

end
