(* ===== verification/OrderConsumer.thy ===== *)
theory OrderConsumer
  imports OrderDispatch
begin

text \<open>
  The Kafka consumer of order events: its configuration
  (\<open>src/orders/consumer/consumer-config.ts\<close>) and \<open>src/orders/consumer/order-consumer.ts\<close>.

  \<open>handleMessage\<close> is split where the process can die: the commit before processing, the processing,
  and the end (leaving or committing). The state machine \<open>partition_step\<close> interleaves these parts
  with deaths of the consumer and faults of the database, on one partition that Kafka reads to one
  member of the group at a time, in offset order, from the committed offset. A message body is the
  value that \<open>JSON.parse\<close> reads from its text. How \<open>better-sqlite3\<close> stores a bound value is the
  parameter \<open>bind\<close>.
\<close>

section \<open>Configuration\<close>

datatype CommitMode = AfterProcess | BeforeProcess

fun commit_mode_name :: "CommitMode \<Rightarrow> string" where
  "commit_mode_name AfterProcess = ''after-process''"
| "commit_mode_name BeforeProcess = ''before-process''"

datatype consumer_config_error =
    BadCommitMode string
  | NoTopics
  | BadNumber env_error

record ConsumerConfig =
  cc_brokers :: "string list"
  cc_clientId :: string
  cc_groupId :: string
  cc_topics :: "string list"
  cc_instances :: int
  cc_processingDelayMs :: int
  commitMode :: CommitMode
  commitDelayMs :: int
  fromBeginning :: bool
  crashAfter :: int
  sessionTimeoutMs :: int

definition DEFAULT_TOPICS :: "string list" where
  "DEFAULT_TOPICS = map snd ORDER_TOPICS"

definition parseCommitMode :: "string option \<Rightarrow> consumer_config_error + CommitMode" where
  "parseCommitMode raw =
     (case raw of
        None \<Rightarrow> Inr AfterProcess
      | Some r \<Rightarrow>
          if trim r = [] then Inr AfterProcess
          else (let normalized = to_lower (trim r) in
                if normalized = ''after-process'' then Inr AfterProcess
                else if normalized = ''before-process'' then Inr BeforeProcess
                else Inl (BadCommitMode r)))"

definition parseTopics :: "string option \<Rightarrow> consumer_config_error + string list" where
  "parseTopics raw =
     (case raw of
        None \<Rightarrow> Inr DEFAULT_TOPICS
      | Some r \<Rightarrow>
          if trim r = [] then Inr DEFAULT_TOPICS
          else (let topics = filter (\<lambda>s. s \<noteq> []) (map trim (split_on (CHR '','') r)) in
                if topics = [] then Inl NoTopics else Inr topics))"

definition number_env :: "env \<Rightarrow> string \<Rightarrow> consumer_config_error + int" where
  "number_env e name =
     (case readNonNegativeIntEnv e name 0 of Inl err \<Rightarrow> Inl (BadNumber err) | Inr n \<Rightarrow> Inr n)"

text \<open>The object literal evaluates its fields in order; the first that throws decides the error.\<close>

definition consumerConfigFromEnv :: "env \<Rightarrow> consumer_config_error + ConsumerConfig" where
  "consumerConfigFromEnv e =
     and_then (parseTopics (e ''CONSUMER_TOPICS'')) (\<lambda>topics.
     and_then (number_env e ''CONSUMER_DELAY_MS'') (\<lambda>delay.
     and_then (parseCommitMode (e ''CONSUMER_COMMIT_MODE'')) (\<lambda>mode.
     and_then (number_env e ''CONSUMER_COMMIT_DELAY_MS'') (\<lambda>commitDelay.
     and_then (number_env e ''CONSUMER_CRASH_AFTER'') (\<lambda>crash.
       Inr \<lparr>cc_brokers = readKafkaBrokersEnv e ''localhost:9092'',
            cc_clientId = (case e ''CONSUMER_CLIENT_ID'' of None \<Rightarrow> ''order-consumer'' | Some c \<Rightarrow> c),
            cc_groupId = (case e ''CONSUMER_GROUP_ID'' of None \<Rightarrow> ''order-processor'' | Some g \<Rightarrow> g),
            cc_topics = topics,
            cc_instances = readPositiveIntEnv e ''CONSUMER_COUNT'' 1,
            cc_processingDelayMs = delay, commitMode = mode, commitDelayMs = commitDelay,
            fromBeginning = (e ''CONSUMER_FROM_BEGINNING'' = Some ''true''),
            crashAfter = crash,
            sessionTimeoutMs = readPositiveIntEnv e ''CONSUMER_SESSION_TIMEOUT_MS'' 60000\<rparr>)))))"

section \<open>The consumer\<close>

record ConsumerStats =
  cs_consumerId :: string
  cs_processed :: nat
  cs_failed :: nat
  cs_partitionCounts :: "(int \<times> nat) list"
  cs_startedAt :: int
  firstProcessedAt :: "int option"
  lastProcessedAt :: "int option"
  latenciesMs :: "rat list"

record OrderConsumer =
  con_config :: ConsumerConfig
  consumerId :: string
  con_stats :: ConsumerStats
  con_running :: bool
  crashed :: bool

definition new_consumer :: "ConsumerConfig \<Rightarrow> string \<Rightarrow> int \<Rightarrow> OrderConsumer" where
  "new_consumer cfg cid now =
     \<lparr>con_config = cfg, consumerId = cid,
      con_stats = \<lparr>cs_consumerId = cid, cs_processed = 0, cs_failed = 0, cs_partitionCounts = [],
                   cs_startedAt = now, firstProcessedAt = None, lastProcessedAt = None, latenciesMs = []\<rparr>,
      con_running = False, crashed = False\<rparr>"

text \<open>\<open>start\<close> and \<open>stop\<close>; \<open>fault\<close> is what the Kafka client throws.\<close>

definition con_start :: "string option \<Rightarrow> OrderConsumer \<Rightarrow> order_error + OrderConsumer" where
  "con_start fault c = (case fault of Some err \<Rightarrow> Inl (SendFailed err) | None \<Rightarrow> Inr (c\<lparr>con_running := True\<rparr>))"

definition con_stop :: "string option \<Rightarrow> OrderConsumer \<Rightarrow> order_error + OrderConsumer" where
  "con_stop fault c =
     (if \<not> con_running c then Inr c
      else case fault of Some err \<Rightarrow> Inl (SendFailed err) | None \<Rightarrow> Inr (c\<lparr>con_running := False\<rparr>))"

datatype body = NoValue | BadJson | Json jsval

record Message =
  m_topic :: string
  m_partition :: int
  m_offset :: nat
  m_value :: body

text \<open>A property of a parsed value: \<open>null\<close> throws, what is not an object has none.\<close>

fun field :: "jsval \<Rightarrow> string \<Rightarrow> order_error + jsval" where
  "field Null k = Inl UnreadableBody"
| "field Undefined k = Inl UnreadableBody"
| "field (Obj kvs) k = Inr (prop_of kvs k)"
| "field _ k = Inr Undefined"

definition event_type_of :: "jsval \<Rightarrow> OrderEventType option" where
  "event_type_of v = (case v of Str s \<Rightarrow> find (\<lambda>ty. event_name ty = s) event_types | _ \<Rightarrow> None)"

definition parseEvent :: "body \<Rightarrow> order_error + jsval \<times> OrderEventType" where
  "parseEvent value =
     (case value of
        NoValue \<Rightarrow> Inl EmptyBody
      | BadJson \<Rightarrow> Inl UnreadableBody
      | Json v \<Rightarrow>
          and_then (field v ''orderId'') (\<lambda>oid.
          and_then (field v ''eventType'') (\<lambda>ty.
            if \<not> truthy oid \<or> \<not> truthy ty then Inl MissingFields
            else case event_type_of ty of None \<Rightarrow> Inl UnknownEventType | Some t \<Rightarrow> Inr (oid, t))))"

definition process ::
  "(jsval \<Rightarrow> string option) \<Rightarrow> int \<Rightarrow> string \<Rightarrow> Message \<Rightarrow> Db \<Rightarrow> order_error + Db" where
  "process bind now cid msg db =
     and_then (parseEvent (m_value msg)) (\<lambda>(oid, ty).
       case bind oid of
         None \<Rightarrow> Inl (StoreFailed ''bind'')
       | Some s \<Rightarrow>
           recordEvent \<lparr>rec_id = None, rec_orderId = s, rec_eventType = ty, rec_topic = m_topic msg,
             rec_partition = m_partition msg, rec_offset = show_int (int (m_offset msg)),
             rec_consumerId = cid, rec_consumedAt = now\<rparr> db)"

text \<open>The commit before processing. The result says whether an offset was committed.\<close>

definition commit_before :: "string option \<Rightarrow> ConsumerConfig \<Rightarrow> order_error + bool" where
  "commit_before fault cfg =
     (if commitMode cfg = BeforeProcess then
        (case fault of Some err \<Rightarrow> Inl (CommitFailed err) | None \<Rightarrow> Inr True)
      else Inr False)"

text \<open>The clock readings around the processing.\<close>

record Clocks =
  ck_started :: rat
  ck_finished :: rat
  ck_now :: int

definition count_processed :: "Clocks \<Rightarrow> int \<Rightarrow> ConsumerStats \<Rightarrow> ConsumerStats" where
  "count_processed ck p st =
     st\<lparr>firstProcessedAt := (if cs_processed st = 0 then Some (ck_now ck) else firstProcessedAt st),
        cs_processed := cs_processed st + 1,
        cs_partitionCounts :=
          AList.update p ((case map_of (cs_partitionCounts st) p of None \<Rightarrow> 0 | Some n \<Rightarrow> n) + 1) (cs_partitionCounts st),
        lastProcessedAt := Some (ck_now ck),
        latenciesMs := latenciesMs st @ [ck_finished ck - ck_started ck]\<rparr>"

text \<open>The \<open>try\<close>/\<open>catch\<close> around the processing: an error is counted and swallowed.\<close>

definition process_caught ::
  "(jsval \<Rightarrow> string option) \<Rightarrow> Clocks \<Rightarrow> Message \<Rightarrow> OrderConsumer \<Rightarrow> Db \<Rightarrow> bool \<times> OrderConsumer \<times> Db" where
  "process_caught bind ck msg c db =
     (case process bind (ck_now ck) (consumerId c) msg db of
        Inr db' \<Rightarrow> (True, c\<lparr>con_stats := count_processed ck (m_partition msg) (con_stats c)\<rparr>, db')
      | Inl err \<Rightarrow> (False, c\<lparr>con_stats := (con_stats c)\<lparr>cs_failed := cs_failed (con_stats c) + 1\<rparr>\<rparr>, db))"

text \<open>The end of \<open>handleMessage\<close>: leave without commit at the crash point, or commit.\<close>

definition at_crash_point :: "OrderConsumer \<Rightarrow> bool" where
  "at_crash_point c \<longleftrightarrow>
     crashAfter (con_config c) > 0 \<and> int (cs_processed (con_stats c)) \<ge> crashAfter (con_config c)"

definition finish_message :: "string option \<Rightarrow> OrderConsumer \<Rightarrow> (order_error + bool) \<times> OrderConsumer" where
  "finish_message fault c =
     (if at_crash_point c then
        (case fault of
           Some err \<Rightarrow> (Inl (SendFailed err), c\<lparr>crashed := True\<rparr>)
         | None \<Rightarrow> (Inr False, c\<lparr>crashed := True, con_running := False\<rparr>))
      else if commitMode (con_config c) = AfterProcess then
        (case fault of Some err \<Rightarrow> (Inl (CommitFailed err), c) | None \<Rightarrow> (Inr True, c))
      else (Inr False, c))"

text \<open>The offset that \<open>commit\<close> hands to Kafka: the next one to read.\<close>

definition commit_offset :: "Message \<Rightarrow> string \<times> int \<times> nat" where
  "commit_offset msg = (m_topic msg, m_partition msg, m_offset msg + 1)"

definition handleMessage ::
  "(jsval \<Rightarrow> string option) \<Rightarrow> string option \<Rightarrow> string option \<Rightarrow> Clocks \<Rightarrow> Message \<Rightarrow> OrderConsumer \<Rightarrow> Db \<Rightarrow>
   (order_error + (string \<times> int \<times> nat) list) \<times> OrderConsumer \<times> Db" where
  "handleMessage bind fault_before fault_after ck msg c db =
     (case commit_before fault_before (con_config c) of
        Inl err \<Rightarrow> (Inl err, c, db)
      | Inr before \<Rightarrow>
          (let (ok, c1, db1) = process_caught bind ck msg c db;
               (res, c2) = finish_message fault_after c1
           in (map_sum id (\<lambda>after. (if before then [commit_offset msg] else []) @
                                     (if after then [commit_offset msg] else [])) res, c2, db1)))"

section \<open>Performance figures\<close>

definition percentileMs :: "rat list \<Rightarrow> int \<Rightarrow> rat option" where
  "percentileMs values p =
     (if values = [] then None
      else
        let srt = sort values;
            index = min (max (\<lceil>(of_nat (length srt) * of_int p) / 100 :: rat\<rceil> - 1) 0) (int (length srt) - 1)
        in Some (srt ! nat index))"

record ConsumerPerformance =
  perf_processed :: nat
  perf_failed :: nat
  avgMs :: "rat option"
  p50Ms :: "rat option"
  p95Ms :: "rat option"
  throughputPerSec :: "rat option"

definition throughput :: "ConsumerStats \<Rightarrow> rat option" where
  "throughput st =
     (case (firstProcessedAt st, lastProcessedAt st) of
        (Some t0, Some t1) \<Rightarrow>
          if cs_processed st > 1 \<and> t1 - t0 > 0 then Some (of_nat (cs_processed st) / of_int (t1 - t0) * 1000) else None
      | _ \<Rightarrow> None)"

definition summarizePerformance :: "ConsumerStats \<Rightarrow> ConsumerPerformance" where
  "summarizePerformance st =
     \<lparr>perf_processed = cs_processed st, perf_failed = cs_failed st,
      avgMs = (if latenciesMs st \<noteq> [] then Some (foldl (+) 0 (latenciesMs st) / of_nat (length (latenciesMs st))) else None),
      p50Ms = percentileMs (latenciesMs st) 50, p95Ms = percentileMs (latenciesMs st) 95,
      throughputPerSec = throughput st\<rparr>"

section \<open>One partition of a consumer group\<close>

datatype phase = Idle | Fetched | Worked

text \<open>\<open>committed\<close> is the group's committed offset, \<open>position\<close> the next offset the current member reads.
  \<open>attempts\<close> logs the offsets whose processing ran, and whether it succeeded.\<close>

record Partition =
  part_topic :: string
  part_no :: int
  messages :: "body list"
  committed :: nat
  position :: nat
  phase :: phase
  holder :: OrderConsumer
  pdb :: Db
  attempts :: "(nat \<times> bool) list"

definition message_at :: "Partition \<Rightarrow> Message" where
  "message_at p = \<lparr>m_topic = part_topic p, m_partition = part_no p, m_offset = position p, m_value = messages p ! position p\<rparr>"

text \<open>\<open>PDie\<close> replaces the member by a new one, which reads from the committed offset. A call that
  throws leaves the message to be delivered again.\<close>

datatype partition_event =
    PFetch "string option"
  | PProcess Clocks
  | PFinish "string option"
  | PDie string int
  | PFault "string option"

fun partition_enabled :: "partition_event \<Rightarrow> Partition \<Rightarrow> bool" where
  "partition_enabled (PFetch _) p = (phase p = Idle \<and> position p < length (messages p) \<and> con_running (holder p))"
| "partition_enabled (PProcess _) p = (phase p = Fetched)"
| "partition_enabled (PFinish _) p = (phase p = Worked)"
| "partition_enabled _ p = True"

definition advance :: "bool \<Rightarrow> Partition \<Rightarrow> Partition" where
  "advance commits p = (if commits then p\<lparr>committed := snd (snd (commit_offset (message_at p)))\<rparr> else p)"

fun partition_handle :: "(jsval \<Rightarrow> string option) \<Rightarrow> partition_event \<Rightarrow> Partition \<Rightarrow> Partition" where
  "partition_handle bind (PFetch fault) p =
     (case commit_before fault (con_config (holder p)) of
        Inl err \<Rightarrow> p
      | Inr commits \<Rightarrow> (advance commits p)\<lparr>phase := Fetched\<rparr>)"
| "partition_handle bind (PProcess ck) p =
     (let (ok, c, db) = process_caught bind ck (message_at p) (holder p) (pdb p)
      in p\<lparr>phase := Worked, holder := c, pdb := db, attempts := attempts p @ [(position p, ok)]\<rparr>)"
| "partition_handle bind (PFinish fault) p =
     (case finish_message fault (holder p) of
        (Inl err, c) \<Rightarrow> p\<lparr>phase := Idle, holder := c\<rparr>
      | (Inr commits, c) \<Rightarrow> (advance commits p)\<lparr>phase := Idle, holder := c, position := position p + 1\<rparr>)"
| "partition_handle bind (PDie cid now) p =
     p\<lparr>phase := Idle, position := committed p,
       holder := (new_consumer (con_config (holder p)) cid now)\<lparr>con_running := True\<rparr>\<rparr>"
| "partition_handle bind (PFault fault) p = p\<lparr>pdb := (pdb p)\<lparr>db_fault := fault\<rparr>\<rparr>"

inductive partition_step :: "(jsval \<Rightarrow> string option) \<Rightarrow> Partition \<Rightarrow> Partition \<Rightarrow> bool" for bind where
  partition_step: "partition_enabled ev p \<Longrightarrow> partition_step bind p (partition_handle bind ev p)"

fun partition_run :: "(jsval \<Rightarrow> string option) \<Rightarrow> partition_event list \<Rightarrow> Partition \<Rightarrow> Partition option" where
  "partition_run bind [] p = Some p"
| "partition_run bind (ev # evs) p =
     (if partition_enabled ev p then partition_run bind evs (partition_handle bind ev p) else None)"

section \<open>Invariants of a partition\<close>

definition row_place :: "OrderEventRecord \<Rightarrow> string \<times> int \<times> string" where
  "row_place r = (rec_topic r, rec_partition r, rec_offset r)"

definition place :: "Partition \<Rightarrow> nat \<Rightarrow> string \<times> int \<times> string" where
  "place p i = (part_topic p, part_no p, show_int (int i))"

definition succeeded :: "Partition \<Rightarrow> nat list" where
  "succeeded p = map fst (filter snd (attempts p))"

text \<open>A partition whose consumers start at the committed offset \<open>c0\<close>, with an event log \<open>rows\<close>.\<close>

definition partition_start :: "CommitMode \<Rightarrow> nat \<Rightarrow> (string \<times> int \<times> string) list \<Rightarrow> Partition \<Rightarrow> bool" where
  "partition_start mode c0 rows p \<longleftrightarrow>
     commitMode (con_config (holder p)) = mode \<and> committed p = c0 \<and> position p = c0 \<and> phase p = Idle \<and>
     attempts p = [] \<and> wf_db (pdb p) \<and> map row_place (db_log (pdb p)) = rows"

text \<open>What holds in either mode: the event log grew by one row for each success.\<close>

definition rows_inv :: "CommitMode \<Rightarrow> (string \<times> int \<times> string) list \<Rightarrow> Partition \<Rightarrow> bool" where
  "rows_inv mode rows p \<longleftrightarrow>
     commitMode (con_config (holder p)) = mode \<and> wf_db (pdb p) \<and>
     map row_place (db_log (pdb p)) = rows @ map (place p) (succeeded p)"

text \<open>Committing after processing: the member reads at the committed offset unless it has left, and
  every committed offset was attempted.\<close>

definition after_inv :: "nat \<Rightarrow> (string \<times> int \<times> string) list \<Rightarrow> Partition \<Rightarrow> bool" where
  "after_inv c0 rows p \<longleftrightarrow> rows_inv AfterProcess rows p \<and>
     (position p = committed p \<or> \<not> con_running (holder p) \<and> phase p = Idle) \<and>
     (phase p = Worked \<longrightarrow> position p \<in> fst ` set (attempts p)) \<and>
     (\<forall>i. c0 \<le> i \<and> i < committed p \<longrightarrow> i \<in> fst ` set (attempts p))"

text \<open>Committing before processing, with the crash point off: an offset is attempted once, and only
  after it was committed.\<close>

definition before_inv :: "(string \<times> int \<times> string) list \<Rightarrow> Partition \<Rightarrow> bool" where
  "before_inv rows p \<longleftrightarrow> rows_inv BeforeProcess rows p \<and> crashAfter (con_config (holder p)) \<le> 0 \<and>
     committed p = (if phase p = Idle then position p else position p + 1) \<and>
     distinct (map fst (attempts p)) \<and>
     (\<forall>i \<in> fst ` set (attempts p). i < committed p) \<and>
     (phase p = Fetched \<longrightarrow> position p \<notin> fst ` set (attempts p))"

lemma process_row:
  assumes "wf_db db" and "process bind now cid msg db = Inr db'"
  shows "wf_db db' \<and> map row_place (db_log db') =
         map row_place (db_log db) @ [(m_topic msg, m_partition msg, show_int (int (m_offset msg)))]"
proof -
  obtain r where r: "recordEvent r db = Inr db'"
    and rp: "row_place r = (m_topic msg, m_partition msg, show_int (int (m_offset msg)))"
    using assms(2) by (auto simp: process_def and_then_Inr row_place_def split: prod.splits option.splits)
  obtain n where "wf_db db'" "db_log db' = db_log db @ [r\<lparr>rec_id := Some n\<rparr>]"
    using recordEvent_wf [OF assms(1) r] by blast
  then show ?thesis using rp by (simp add: row_place_def)
qed

lemma process_caught_facts:
  assumes "process_caught bind ck msg c db = (ok, c', db')"
  shows "con_config c' = con_config c" "con_running c' = con_running c" "crashed c' = crashed c" "consumerId c' = consumerId c"
    "wf_db db \<Longrightarrow> wf_db db' \<and> map row_place (db_log db') = map row_place (db_log db) @
       (if ok then [(m_topic msg, m_partition msg, show_int (int (m_offset msg)))] else [])"
  using assms by (auto simp: process_caught_def dest: process_row split: sum.splits)

lemma finish_message_config: "finish_message fault c = (r, c') \<Longrightarrow> con_config c' = con_config c"
  by (auto simp: finish_message_def split: if_splits option.splits)

lemma advance_simps [simp]:
  "committed (advance b p) = (if b then position p + 1 else committed p)"
  "position (advance b p) = position p" "holder (advance b p) = holder p" "attempts (advance b p) = attempts p"
  "pdb (advance b p) = pdb p" "part_topic (advance b p) = part_topic p" "part_no (advance b p) = part_no p"
  "phase (advance b p) = phase p" "messages (advance b p) = messages p"
  by (simp_all add: advance_def commit_offset_def message_at_def)

lemma message_at_simps [simp]:
  "m_topic (message_at p) = part_topic p" "m_partition (message_at p) = part_no p" "m_offset (message_at p) = position p"
  by (simp_all add: message_at_def)

lemma rows_inv_handle:
  assumes "rows_inv mode rows p"
  shows "rows_inv mode rows (partition_handle bind ev p)"
proof (cases ev)
  case (PProcess ck)
  obtain ok c db where pc: "process_caught bind ck (message_at p) (holder p) (pdb p) = (ok, c, db)"
    by (metis prod_cases3)
  show ?thesis
    using assms process_caught_facts [OF pc]
    by (simp add: PProcess pc rows_inv_def succeeded_def place_def)
next
  case (PFinish fault)
  obtain r c where "finish_message fault (holder p) = (r, c)" by fastforce
  then show ?thesis using assms finish_message_config [of fault "holder p" r c]
    by (auto simp: PFinish rows_inv_def succeeded_def place_def split: sum.splits)
qed (use assms in \<open>auto simp: rows_inv_def succeeded_def place_def new_consumer_def wf_db_def db_log_def
       split: sum.splits\<close>)

lemma after_inv_handle:
  assumes "after_inv c0 rows p" and "partition_enabled ev p"
  shows "after_inv c0 rows (partition_handle bind ev p)"
proof -
  have rows: "rows_inv AfterProcess rows (partition_handle bind ev p)"
    using assms(1) by (simp add: after_inv_def rows_inv_handle)
  have mode: "commitMode (con_config (holder p)) = AfterProcess"
    using assms(1) by (simp add: after_inv_def rows_inv_def)
  show ?thesis
  proof (cases ev)
    case (PFetch fault)
    then show ?thesis using assms rows mode by (auto simp: after_inv_def commit_before_def)
  next
    case (PProcess ck)
    obtain ok c db where pc: "process_caught bind ck (message_at p) (holder p) (pdb p) = (ok, c, db)"
      by (metis prod_cases3)
    then show ?thesis using assms rows by (auto simp: PProcess after_inv_def pc)
  next
    case (PFinish fault)
    then show ?thesis using assms rows mode
      by (auto simp: after_inv_def finish_message_def less_Suc_eq split: if_splits option.splits)
  qed (use assms rows in \<open>auto simp: after_inv_def new_consumer_def\<close>)
qed

lemma before_inv_handle:
  assumes "before_inv rows p" and "partition_enabled ev p"
  shows "before_inv rows (partition_handle bind ev p)"
proof -
  have rows: "rows_inv BeforeProcess rows (partition_handle bind ev p)"
    using assms(1) by (simp add: before_inv_def rows_inv_handle)
  have mode: "commitMode (con_config (holder p)) = BeforeProcess" "\<not> at_crash_point (holder p)"
    using assms(1) by (auto simp: before_inv_def rows_inv_def at_crash_point_def)
  show ?thesis
  proof (cases ev)
    case (PFetch fault)
    then show ?thesis using assms rows mode
      by (cases fault) (auto simp: before_inv_def commit_before_def less_Suc_eq)
  next
    case (PProcess ck)
    obtain ok c db where pc: "process_caught bind ck (message_at p) (holder p) (pdb p) = (ok, c, db)"
      by (metis prod_cases3)
    then show ?thesis using assms rows process_caught_facts(1) [OF pc] by (auto simp: PProcess before_inv_def pc)
  next
    case (PFinish fault)
    then show ?thesis using assms rows mode by (auto simp: before_inv_def finish_message_def)
  qed (use assms rows in \<open>auto simp: before_inv_def new_consumer_def split: if_splits\<close>)
qed

lemma partition_start_inv:
  "partition_start AfterProcess c0 rows p \<Longrightarrow> after_inv c0 rows p"
  "partition_start BeforeProcess c0 rows p \<Longrightarrow> crashAfter (con_config (holder p)) \<le> 0 \<Longrightarrow> before_inv rows p"
  by (auto simp: partition_start_def after_inv_def before_inv_def rows_inv_def succeeded_def)

interpretation after_process: inductive_invariant
    "partition_start AfterProcess c0 rows" "partition_step bind" "after_inv c0 rows"
  by unfold_locales (auto simp: partition_start_inv after_inv_handle elim!: partition_step.cases)

interpretation before_process: inductive_invariant
    "\<lambda>p. partition_start BeforeProcess c0 rows p \<and> crashAfter (con_config (holder p)) \<le> 0"
    "partition_step bind" "before_inv rows"
  by unfold_locales (auto simp: partition_start_inv before_inv_handle elim!: partition_step.cases)

lemma show_nat_inj: "show_int (int i) = show_int (int j) \<longleftrightarrow> i = j"
  by (simp add: show_int_def) (metis digits_value_show)

lemma count_place: "count_list (map (place p) is) (place p i) = count_list is i"
  by (induction "is") (auto simp: place_def show_nat_inj)

lemma count_succeeded: "count_list (succeeded p) i = count_list (attempts p) (i, True)"
proof -
  have "count_list (map fst (filter snd xs)) i = count_list xs (i, True)" for xs :: "(nat \<times> bool) list"
    by (induction xs) auto
  then show ?thesis by (simp add: succeeded_def)
qed

lemma partition_run_steps: "partition_run bind evs p = Some q \<Longrightarrow> (partition_step bind)\<^sup>*\<^sup>* p q"
proof (induction evs arbitrary: p)
  case (Cons ev evs)
  then have "partition_step bind p (partition_handle bind ev p)" "(partition_step bind)\<^sup>*\<^sup>* (partition_handle bind ev p) q"
    by (auto split: if_splits intro: partition_step)
  then show ?case by (rule converse_rtranclp_into_rtranclp)
qed simp

section \<open>Theorems\<close>

text \<open>C25. Committing after processing is at-least-once up to swallowed failures: whatever members
  die and whenever, the processing of every offset below the committed one was attempted, and the event
  log has exactly one row more for the offset than at the start for each attempt that succeeded. So it
  has a row unless every attempt failed, and two when the offset was processed twice.\<close>

theorem after_process_attempts_every_committed_offset:
  assumes "partition_start AfterProcess c0 rows p0" and "(partition_step bind)\<^sup>*\<^sup>* p0 p"
    and "c0 \<le> i" and "i < committed p"
  shows "i \<in> fst ` set (attempts p) \<and>
         count_list (map (\<lambda>r. (rec_topic r, rec_partition r, rec_offset r)) (db_log (pdb p)))
             (part_topic p, part_no p, show_int (int i)) =
           count_list rows (part_topic p, part_no p, show_int (int i)) + count_list (attempts p) (i, True) \<and>
         ((\<forall>ok. (i, ok) \<in> set (attempts p) \<longrightarrow> \<not> ok) \<or>
          (part_topic p, part_no p, show_int (int i)) \<in>
            (\<lambda>r. (rec_topic r, rec_partition r, rec_offset r)) ` set (db_log (pdb p)))"
proof -
  have inv: "after_inv c0 rows p" using after_process.inv_reachable [OF assms(1,2)] .
  then have log: "map row_place (db_log (pdb p)) = rows @ map (place p) (succeeded p)"
    by (simp add: after_inv_def rows_inv_def)
  have count: "count_list (map row_place (db_log (pdb p))) (place p i) =
      count_list rows (place p i) + count_list (attempts p) (i, True)"
    unfolding log by (simp add: count_place count_succeeded)
  have "place p i \<in> row_place ` set (db_log (pdb p))" if "(i, True) \<in> set (attempts p)"
  proof -
    have "count_list (attempts p) (i, True) \<noteq> 0" using that by (simp add: count_list_0_iff)
    then have "place p i \<in> set (map row_place (db_log (pdb p)))" using count by (metis add_is_0 count_list_0_iff)
    then show ?thesis by simp
  qed
  then have "(\<forall>ok. (i, ok) \<in> set (attempts p) \<longrightarrow> \<not> ok) \<or> place p i \<in> row_place ` set (db_log (pdb p))"
    by (cases "(i, True) \<in> set (attempts p)") auto
  moreover have "i \<in> fst ` set (attempts p)" using inv assms(3,4) by (simp add: after_inv_def)
  ultimately show ?thesis using count by (simp only: place_def row_place_def [abs_def] simp_thms)
qed

text \<open>C26. Committing before processing is at-most-once for a consumer without a crash point
  (\<open>crashAfter\<close> is zero): however members die, no offset is processed twice, every processed offset was
  committed before, and the rows added to the event log are those of pairwise different offsets. With
  a crash point it is not: \<open>crash_point_repeats_an_offset\<close>.\<close>

theorem before_process_never_repeats_an_offset:
  assumes "partition_start BeforeProcess c0 rows p0" and "crashAfter (con_config (holder p0)) \<le> 0"
    and "(partition_step bind)\<^sup>*\<^sup>* p0 p"
  shows "distinct (map fst (attempts p)) \<and> (\<forall>i ok. (i, ok) \<in> set (attempts p) \<longrightarrow> i < committed p) \<and>
         (\<exists>added. map row_place (db_log (pdb p)) = rows @ added \<and> distinct added)"
proof -
  have inv: "before_inv rows p" using before_process.inv_reachable [OF _ assms(3)] assms(1,2) by blast
  then have d: "distinct (map fst (attempts p))" by (simp add: before_inv_def)
  have "distinct (succeeded p)" unfolding succeeded_def using d by (rule distinct_map_filter)
  moreover have "inj (place p)" by (rule injI) (simp add: place_def show_nat_inj)
  ultimately have "distinct (map (place p) (succeeded p))"
    by (auto simp: distinct_map intro: inj_on_subset)
  then have "\<exists>added. map row_place (db_log (pdb p)) = rows @ added \<and> distinct added"
    using inv by (intro exI [of _ "map (place p) (succeeded p)"]) (simp add: before_inv_def rows_inv_def)
  moreover have "i < committed p" if "(i, ok) \<in> set (attempts p)" for i ok
    using inv that by (force simp: before_inv_def)
  ultimately show ?thesis using d by blast
qed

definition sample_consumer_config :: "CommitMode \<Rightarrow> ConsumerConfig" where
  "sample_consumer_config mode =
     \<lparr>cc_brokers = [''b:9092''], cc_clientId = ''c'', cc_groupId = ''g'', cc_topics = DEFAULT_TOPICS, cc_instances = 1,
      cc_processingDelayMs = 0, commitMode = mode, commitDelayMs = 0, fromBeginning = True, crashAfter = 0,
      sessionTimeoutMs = 60000\<rparr>"

definition sample_body :: body where
  "sample_body = Json (Obj [(''eventType'', Str ''orders.created''), (''orderId'', Str ''a'')])"

definition sample_partition :: "CommitMode \<Rightarrow> Partition" where
  "sample_partition mode =
     \<lparr>part_topic = ''orders.created'', part_no = 0, messages = [sample_body, BadJson, sample_body], committed = 0, position = 0,
      phase = Idle, holder = (new_consumer (sample_consumer_config mode) ''g/1-0'' 0)\<lparr>con_running := True\<rparr>,
      pdb = empty_db, attempts = []\<rparr>"

definition text_bind :: "jsval \<Rightarrow> string option" where
  "text_bind v = (case v of Str s \<Rightarrow> Some s | _ \<Rightarrow> None)"

definition sample_clocks :: Clocks where
  "sample_clocks = \<lparr>ck_started = 1, ck_finished = 3, ck_now = 100\<rparr>"

text \<open>A member that dies after processing and before its commit, and its successor.\<close>

definition death_run :: "partition_event list" where
  "death_run = [PFetch None, PProcess sample_clocks, PDie ''g/2-0'' 5,
     PFetch None, PProcess sample_clocks, PFinish None, PFetch None]"

lemma sample_partition_start: "partition_start mode 0 [] (sample_partition mode)"
  by (simp add: partition_start_def sample_partition_def new_consumer_def sample_consumer_config_def wf_empty_db)
     (simp add: empty_db_def db_log_def)

theorem after_process_attempts_every_committed_offset_witness:
  "\<exists>p. partition_run text_bind death_run (sample_partition AfterProcess) = Some p \<and> committed p = 1 \<and>
     length (db_log (pdb p)) = 2 \<and> count_list (attempts p) (0, True) = 2 \<and>
     (''orders.created'', 0, ''0'') \<in> (\<lambda>r. (rec_topic r, rec_partition r, rec_offset r)) ` set (db_log (pdb p))"
proof -
  let ?p = "the (partition_run text_bind death_run (sample_partition AfterProcess))"
  have r: "partition_run text_bind death_run (sample_partition AfterProcess) = Some ?p" by code_simp
  have c: "committed ?p = 1" "length (db_log (pdb ?p)) = 2" "count_list (attempts ?p) (0, True) = 2"
    "(part_topic ?p, part_no ?p, show_int (int 0)) = (''orders.created'', 0, ''0'')"
    by code_simp+
  have "0 < committed ?p" using c(1) by simp
  from after_process_attempts_every_committed_offset [OF sample_partition_start partition_run_steps [OF r] le0 this]
  have "(\<forall>ok. (0, ok) \<in> set (attempts ?p) \<longrightarrow> \<not> ok) \<or>
      (''orders.created'', 0, ''0'') \<in> (\<lambda>r. (rec_topic r, rec_partition r, rec_offset r)) ` set (db_log (pdb ?p))"
    unfolding c(4) by blast
  moreover have "(0, True) \<in> set (attempts ?p)" using c(3) by (metis count_list_0_iff zero_neq_numeral)
  ultimately have "(''orders.created'', 0, ''0'') \<in> (\<lambda>r. (rec_topic r, rec_partition r, rec_offset r)) ` set (db_log (pdb ?p))"
    by blast
  with r c(1-3) show ?thesis by (intro exI [of _ ?p] conjI)
qed

theorem before_process_never_repeats_an_offset_witness:
  "\<exists>p. partition_run text_bind death_run (sample_partition BeforeProcess) = Some p \<and> committed p = 3 \<and>
     map fst (attempts p) = [0, 1] \<and> distinct (map fst (attempts p))"
proof -
  let ?p = "the (partition_run text_bind death_run (sample_partition BeforeProcess))"
  have r: "partition_run text_bind death_run (sample_partition BeforeProcess) = Some ?p" by code_simp
  have c: "committed ?p = 3" "map fst (attempts ?p) = [0, 1]" by code_simp+
  have off: "crashAfter (con_config (holder (sample_partition BeforeProcess))) \<le> 0"
    by (simp add: sample_partition_def new_consumer_def sample_consumer_config_def)
  have "distinct (map fst (attempts ?p))"
    using before_process_never_repeats_an_offset [OF sample_partition_start off partition_run_steps [OF r]] by (rule conjunct1)
  with r c show ?thesis by (intro exI [of _ ?p] conjI)
qed

text \<open>A failure is committed like a success: in this run of the at-least-once mode the database is
  busy while the first message is processed, and a restarted member goes on with the next message.
  The good message is never recorded although its offset is committed.\<close>

theorem failed_message_is_committed_and_lost:
  "\<exists>p. partition_run text_bind
     [PFault (Some ''busy''), PFetch None, PProcess sample_clocks, PFinish None, PFault None, PDie ''g/2-0'' 9, PFetch None]
     (sample_partition AfterProcess) = Some p \<and>
     committed p = 1 \<and> position p = 1 \<and> attempts p = [(0, False)] \<and> db_log (pdb p) = []"
proof -
  let ?r = "partition_run text_bind
     [PFault (Some ''busy''), PFetch None, PProcess sample_clocks, PFinish None, PFault None, PDie ''g/2-0'' 9, PFetch None]
     (sample_partition AfterProcess)"
  have "?r = Some (the ?r)" "committed (the ?r) = 1" "position (the ?r) = 1" "attempts (the ?r) = [(0, False)]"
    "db_log (pdb (the ?r)) = []"
    by code_simp+
  then show ?thesis by (intro exI [of _ "the ?r"] conjI)
qed

text \<open>At a crash point whose \<open>disconnect\<close> fails the call throws, and the message is delivered again: a
  consumer that commits before processing then processes a committed offset a second time.\<close>

definition crash_partition :: Partition where
  "crash_partition =
     (let p = sample_partition BeforeProcess; c = holder p in p\<lparr>holder := c\<lparr>con_config := (con_config c)\<lparr>crashAfter := 1\<rparr>\<rparr>\<rparr>)"

theorem crash_point_repeats_an_offset:
  "\<exists>p. partition_run text_bind
     [PFetch None, PProcess sample_clocks, PFinish (Some ''timeout''), PFetch None, PProcess sample_clocks] crash_partition = Some p \<and>
     attempts p = [(0, True), (0, True)] \<and> length (db_log (pdb p)) = 2"
proof -
  let ?r = "partition_run text_bind
     [PFetch None, PProcess sample_clocks, PFinish (Some ''timeout''), PFetch None, PProcess sample_clocks] crash_partition"
  have "?r = Some (the ?r)" "attempts (the ?r) = [(0, True), (0, True)]" "length (db_log (pdb (the ?r))) = 2"
    by code_simp+
  then show ?thesis by (intro exI [of _ "the ?r"] conjI)
qed

text \<open>Three uninterrupted steps of the partition are one call of \<open>handleMessage\<close>: the same
  consumer, the same event log, and the committed offset moves to the next one exactly when the call
  committed.\<close>

lemma uninterrupted_steps_are_handleMessage:
  assumes "phase p = Idle" and "position p < length (messages p)" and "con_running (holder p)"
    and "handleMessage bind fault_before fault_after ck (message_at p) (holder p) (pdb p) = (Inr commits, c, db)"
  shows "\<exists>q. partition_run bind [PFetch fault_before, PProcess ck, PFinish fault_after] p = Some q \<and>
           holder q = c \<and> pdb q = db \<and> phase q = Idle \<and> position q = position p + 1 \<and>
           committed q = (if commits = [] then committed p else position p + 1) \<and>
           set commits \<subseteq> {(part_topic p, part_no p, position p + 1)}"
proof -
  obtain before where b: "commit_before fault_before (con_config (holder p)) = Inr before"
    using assms(4) by (auto simp: handleMessage_def split: sum.splits)
  obtain ok c1 db1 where pc: "process_caught bind ck (message_at p) (holder p) (pdb p) = (ok, c1, db1)"
    by (metis prod_cases3)
  obtain res c2 where f: "finish_message fault_after c1 = (res, c2)" by fastforce
  obtain after where a: "res = Inr after" and out: "c = c2" "db = db1"
    "commits = (if before then [commit_offset (message_at p)] else []) @ (if after then [commit_offset (message_at p)] else [])"
    using assms(4) b pc f by (cases res) (auto simp: handleMessage_def)
  have m: "message_at ((advance before p)\<lparr>phase := Fetched\<rparr>) = message_at p" by (simp add: message_at_def)
  show ?thesis using assms(1-3) b pc f a m
    by (auto simp: out commit_offset_def)
qed

lemma uninterrupted_steps_are_handleMessage_witness:
  "\<exists>q. partition_run text_bind [PFetch None, PProcess sample_clocks, PFinish None] (sample_partition AfterProcess) = Some q \<and>
     committed q = 1 \<and> position q = 1"
proof -
  let ?p = "sample_partition AfterProcess"
  let ?h = "handleMessage text_bind None None sample_clocks (message_at ?p) (holder ?p) (pdb ?p)"
  have "fst ?h = Inr [(''orders.created'', 0, 1)]" by code_simp
  then obtain c db where h: "?h = (Inr [(''orders.created'', 0, 1)], c, db)" by (cases ?h) auto
  have st: "phase ?p = Idle" "position ?p < length (messages ?p)" "con_running (holder ?p)" "position ?p = 0"
    by (simp_all add: sample_partition_def)
  from uninterrupted_steps_are_handleMessage [OF st(1-3) h] show ?thesis
    unfolding st(4) by (elim exE conjE) (intro exI conjI; simp)
qed

lemma length_filter_sort: "length (filter P (sort xs)) = length (filter P xs)"
  by (metis mset_filter mset_sort size_mset)

lemma sorted_nth_ranks:
  fixes xs :: "'a :: linorder list"
  assumes "sorted xs" and "j < length xs"
  shows "Suc j \<le> length (filter (\<lambda>x. x \<le> xs ! j) xs)" and "length (filter (\<lambda>x. x < xs ! j) xs) \<le> j"
proof -
  have lo: "filter (\<lambda>x. x \<le> xs ! j) (take (Suc j) xs) = take (Suc j) xs"
    using assms by (auto simp: filter_id_conv in_set_conv_nth intro!: sorted_nth_mono)
  have "length (filter (\<lambda>x. x \<le> xs ! j) (take (Suc j) xs @ drop (Suc j) xs)) \<ge> Suc j"
    using assms(2) by (simp add: lo del: append_take_drop_id)
  then show "Suc j \<le> length (filter (\<lambda>x. x \<le> xs ! j) xs)" by simp
  have hi: "filter (\<lambda>x. x < xs ! j) (drop j xs) = []"
    using assms by (auto simp: filter_empty_conv in_set_conv_nth not_less intro!: sorted_nth_mono)
  have "length (filter (\<lambda>x. x < xs ! j) (take j xs @ drop j xs)) \<le> j"
    using length_filter_le [of "\<lambda>x. x < xs ! j" "take j xs"] by (simp add: hi del: append_take_drop_id)
  then show "length (filter (\<lambda>x. x < xs ! j) xs) \<le> j" by simp
qed

text \<open>The percentile is the nearest-rank one: it is one of the measured values, at least \<open>p\<close>
  percent of the values (and at least one) are not above it, and fewer are strictly below it.\<close>

theorem percentile_is_nearest_rank:
  assumes "values \<noteq> []" and "0 \<le> p" and "p \<le> 100"
    and "k = max 1 (nat \<lceil>(of_nat (length values) * of_int p) / 100 :: rat\<rceil>)"
  shows "\<exists>v. percentileMs values p = Some v \<and> v \<in> set values \<and>
           k \<le> length (filter (\<lambda>x. x \<le> v) values) \<and> length (filter (\<lambda>x. x < v) values) < k"
proof -
  let ?q = "(of_nat (length values) * of_int p) / 100 :: rat"
  let ?xs = "sort values"
  have q0: "0 \<le> ?q" using assms(2) by simp
  have "?q \<le> of_nat (length values)"
    using assms(3) mult_left_mono [of "of_int p" 100 "of_nat (length values) :: rat"] by simp
  then have "\<lceil>?q\<rceil> \<le> int (length values)" by (simp add: ceiling_le_iff)
  moreover define c where "c = \<lceil>?q\<rceil>"
  ultimately have c: "0 \<le> c" "c \<le> int (length values)" using q0 by (auto simp: zero_le_ceiling)
  have n: "0 < length values" using assms(1) by simp
  have kc: "k = max 1 (nat c)" by (simp only: assms(4) c_def)
  have "nat (min (max (c - 1) 0) (int (length values) - 1)) = k - 1" "k - 1 < length values" and k1: "1 \<le> k"
    using c n unfolding kc by linarith+
  then have idx: "nat (min (max (\<lceil>?q\<rceil> - 1) 0) (int (length ?xs) - 1)) = k - 1" and k: "k - 1 < length ?xs" "1 \<le> k"
    by (simp_all add: c_def)
  let ?v = "?xs ! (k - 1)"
  have "percentileMs values p = Some ?v"
    using assms(1) idx by (simp add: percentileMs_def Let_def)
  moreover have "?v \<in> set values" using nth_mem [OF k(1)] by simp
  moreover have "k \<le> length (filter (\<lambda>x. x \<le> ?v) values)"
    using sorted_nth_ranks(1) [of ?xs "k - 1"] k by (simp add: length_filter_sort)
  moreover have "length (filter (\<lambda>x. x < ?v) values) < k"
    using sorted_nth_ranks(2) [of ?xs "k - 1"] k by (simp add: length_filter_sort)
  ultimately show ?thesis by blast
qed

theorem percentile_is_nearest_rank_witness:
  "percentileMs [5, 1, 9, 3] 95 = Some 9 \<and> length (filter (\<lambda>x. x < (9 :: rat)) [5, 1, 9, 3]) < 4"
proof -
  have v: "percentileMs [5, 1, 9, 3] 95 = Some 9" by code_simp
  have k: "4 = max 1 (nat \<lceil>(of_nat (length [5, 1, 9, 3 :: rat]) * of_int 95) / 100 :: rat\<rceil>)" by code_simp
  show ?thesis using percentile_is_nearest_rank [OF _ _ _ k] v by simp
qed

end
