(* ===== verification/ConsumerLab.thy ===== *)
theory ConsumerLab
  imports OrderConsumer
begin

text \<open>
  The experiment panel's consumer processes: \<open>src/orders/lab/consumer-process.manager.ts\<close> and the
  process routes of \<open>src/orders/lab/lab.controller.ts\<close>.

  A child process is an instance number, fresh for every \<open>spawn\<close>; \<open>infos\<close> holds the object
  \<open>info\<close> of each instance, which its listeners go on changing after the manager has forgotten it.
  The operating system says what \<open>spawn\<close> gives (\<open>spawn_outcome\<close>), when a child writes and when it
  ends. It keeps its own table of the children that run (\<open>children\<close>), apart from what the manager has
  noted about them, and gives no process number of a child in that table. A child leaves the table when
  Node reaps it, which is when the exit listener runs. The text \<open>String(n)\<close> of a number
  is the argument \<open>num_text\<close>.
\<close>

section \<open>Options\<close>

definition MAX_INSTANCES :: int where "MAX_INSTANCES = 20"
definition MAX_DELAY_MS :: int where "MAX_DELAY_MS = 60000"
definition MAX_LOG_LINES :: nat where "MAX_LOG_LINES = 50"
definition MIN_SESSION_TIMEOUT_MS :: int where "MIN_SESSION_TIMEOUT_MS = 6000"
definition MAX_SESSION_TIMEOUT_MS :: int where "MAX_SESSION_TIMEOUT_MS = 1800000"

definition COMMIT_MODES :: "CommitMode list" where
  "COMMIT_MODES = [AfterProcess, BeforeProcess]"

record SpawnConsumerOptions =
  so_groupId :: jsval
  so_instances :: jsval
  so_processingDelayMs :: jsval
  so_commitMode :: jsval
  so_commitDelayMs :: jsval
  so_fromBeginning :: jsval
  so_crashAfter :: jsval
  so_sessionTimeoutMs :: jsval

record RequiredOptions =
  ro_groupId :: string
  ro_instances :: int
  ro_processingDelayMs :: int
  ro_commitMode :: CommitMode
  ro_commitDelayMs :: int
  ro_fromBeginning :: jsval
  ro_crashAfter :: int
  ro_sessionTimeoutMs :: int

datatype lab_error =
    ScriptMissing
  | BadInstances
  | BadProcessingDelay
  | BadCommitDelay
  | BadCrashAfter
  | BadSessionTimeout
  | UnknownCommitMode
  | GroupNotText
  | GroupEmpty
  | SpawnThrew string
  | NotSpawned
  | UnknownProcess int
  | AlreadyExited int
  | BadSignal
  | BadPid string

definition or_default :: "jsval \<Rightarrow> jsval \<Rightarrow> jsval" where
  "or_default v d = (case v of Undefined \<Rightarrow> d | Null \<Rightarrow> d | _ \<Rightarrow> v)"

text \<open>\<open>Number.isInteger(v)\<close> and a range.\<close>

fun integer_in :: "int \<Rightarrow> (int \<Rightarrow> bool) \<Rightarrow> jsval \<Rightarrow> int option" where
  "integer_in lo below (Num n) =
     (case as_integer n of Some i \<Rightarrow> if i < lo \<or> \<not> below i then None else Some i | None \<Rightarrow> None)"
| "integer_in lo below _ = None"

definition checked :: "lab_error \<Rightarrow> 'a option \<Rightarrow> lab_error + 'a" where
  "checked e r = (case r of None \<Rightarrow> Inl e | Some a \<Rightarrow> Inr a)"

definition int_option :: "lab_error \<Rightarrow> int \<Rightarrow> int \<Rightarrow> (int \<Rightarrow> bool) \<Rightarrow> jsval \<Rightarrow> lab_error + int" where
  "int_option e preset lo below v = checked e (integer_in lo below (or_default v (Num (num_of_int preset))))"

definition group_option :: "jsval \<Rightarrow> lab_error + string" where
  "group_option v =
     (case or_default v (Str ''order-processor'') of
        Str s \<Rightarrow> if trim s = [] then Inl GroupEmpty else Inr (trim s)
      | _ \<Rightarrow> Inl GroupNotText)"

definition mode_option :: "jsval \<Rightarrow> lab_error + CommitMode" where
  "mode_option v =
     checked UnknownCommitMode (find (\<lambda>m. Str (commit_mode_name m) = or_default v (Str ''after-process'')) COMMIT_MODES)"

definition normalize :: "SpawnConsumerOptions \<Rightarrow> lab_error + RequiredOptions" where
  "normalize opts =
     and_then (int_option BadInstances 1 1 (\<lambda>i. i \<le> MAX_INSTANCES) (so_instances opts)) (\<lambda>n.
     and_then (int_option BadProcessingDelay 0 0 (\<lambda>i. i \<le> MAX_DELAY_MS) (so_processingDelayMs opts)) (\<lambda>delay.
     and_then (int_option BadCommitDelay 0 0 (\<lambda>i. i \<le> MAX_DELAY_MS) (so_commitDelayMs opts)) (\<lambda>commitDelay.
     and_then (int_option BadCrashAfter 0 0 (\<lambda>_. True) (so_crashAfter opts)) (\<lambda>crash.
     and_then (int_option BadSessionTimeout 60000 MIN_SESSION_TIMEOUT_MS (\<lambda>i. i \<le> MAX_SESSION_TIMEOUT_MS)
       (so_sessionTimeoutMs opts)) (\<lambda>session.
     and_then (mode_option (so_commitMode opts)) (\<lambda>mode.
     and_then (group_option (so_groupId opts)) (\<lambda>group.
       Inr \<lparr>ro_groupId = group, ro_instances = n, ro_processingDelayMs = delay, ro_commitMode = mode,
            ro_commitDelayMs = commitDelay, ro_fromBeginning = or_default (so_fromBeginning opts) (Bool False),
            ro_crashAfter = crash, ro_sessionTimeoutMs = session\<rparr>)))))))"

definition child_env :: "(jsnum \<Rightarrow> string) \<Rightarrow> env \<Rightarrow> RequiredOptions \<Rightarrow> env" where
  "child_env num_text e r =
     e(''ORDER_DB_PATH'' \<mapsto> (case e ''ORDER_DB_PATH'' of None \<Rightarrow> ''.orders.sqlite'' | Some p \<Rightarrow> p),
       ''CONSUMER_GROUP_ID'' \<mapsto> ro_groupId r,
       ''CONSUMER_COUNT'' \<mapsto> num_text (num_of_int (ro_instances r)),
       ''CONSUMER_DELAY_MS'' \<mapsto> num_text (num_of_int (ro_processingDelayMs r)),
       ''CONSUMER_COMMIT_MODE'' \<mapsto> commit_mode_name (ro_commitMode r),
       ''CONSUMER_COMMIT_DELAY_MS'' \<mapsto> num_text (num_of_int (ro_commitDelayMs r)),
       ''CONSUMER_FROM_BEGINNING'' \<mapsto> js_text num_text (ro_fromBeginning r),
       ''CONSUMER_CRASH_AFTER'' \<mapsto> num_text (num_of_int (ro_crashAfter r)),
       ''CONSUMER_SESSION_TIMEOUT_MS'' \<mapsto> num_text (num_of_int (ro_sessionTimeoutMs r)),
       ''CONSUMER_REPORT_INTERVAL_MS'' \<mapsto> ''5000'')"

section \<open>The manager\<close>

record ConsumerProcessInfo =
  pi_pid :: int
  pi_groupId :: string
  pi_instances :: int
  pi_startedAt :: int
  pi_options :: RequiredOptions
  alive :: bool
  exitCode :: "int option"
  exitSignal :: "string option"
  recentLogs :: "string list"

record ConsumerProcessManager =
  processes :: "(int \<times> nat) list"
  handles :: "(int \<times> nat) list"
  infos :: "ConsumerProcessInfo list"
  kills :: "(nat \<times> string) list"

definition new_manager :: ConsumerProcessManager where
  "new_manager = \<lparr>processes = [], handles = [], infos = [], kills = []\<rparr>"

datatype spawn_outcome = SpawnError string | NoPid | Pid int

definition spawnConsumer ::
  "bool \<Rightarrow> spawn_outcome \<Rightarrow> int \<Rightarrow> SpawnConsumerOptions \<Rightarrow> ConsumerProcessManager \<Rightarrow>
     (lab_error + ConsumerProcessInfo) \<times> ConsumerProcessManager" where
  "spawnConsumer script_exists outcome now opts m =
     (if \<not> script_exists then (Inl ScriptMissing, m)
      else case normalize opts of
             Inl e \<Rightarrow> (Inl e, m)
           | Inr normalized \<Rightarrow>
               (case outcome of
                  SpawnError e \<Rightarrow> (Inl (SpawnThrew e), m)
                | NoPid \<Rightarrow> (Inl NotSpawned, m)
                | Pid pid \<Rightarrow>
                    let info = \<lparr>pi_pid = pid, pi_groupId = ro_groupId normalized, pi_instances = ro_instances normalized,
                                pi_startedAt = now, pi_options = normalized, alive = True, exitCode = None,
                                exitSignal = None, recentLogs = []\<rparr>;
                        k = length (infos m)
                    in (Inr info,
                        m\<lparr>processes := AList.update pid k (processes m), handles := AList.update pid k (handles m),
                          infos := infos m @ [info]\<rparr>)))"

definition push_line :: "string list \<Rightarrow> string \<Rightarrow> string list" where
  "push_line logs line =
     (if trim line = [] then logs
      else let logs = logs @ [line] in if length logs > MAX_LOG_LINES then tl logs else logs)"

text \<open>The \<open>data\<close> listener of an instance, on stdout and on stderr.\<close>

definition collect :: "string \<Rightarrow> nat \<Rightarrow> ConsumerProcessManager \<Rightarrow> ConsumerProcessManager" where
  "collect chunk k m =
     (let info = infos m ! k in
      m\<lparr>infos := (infos m)[k := info\<lparr>recentLogs := foldl push_line (recentLogs info) (split_on (CHR 0x0A) chunk)\<rparr>]\<rparr>)"

text \<open>The \<open>exit\<close> listener.\<close>

definition on_exit :: "int option \<Rightarrow> string option \<Rightarrow> nat \<Rightarrow> ConsumerProcessManager \<Rightarrow> ConsumerProcessManager" where
  "on_exit code signal k m =
     (let info = infos m ! k in
      m\<lparr>infos := (infos m)[k := info\<lparr>alive := False, exitCode := code, exitSignal := signal\<rparr>],
        handles := AList.delete (pi_pid info) (handles m)\<rparr>)"

definition stop :: "int \<Rightarrow> string \<Rightarrow> ConsumerProcessManager \<Rightarrow> (lab_error + ConsumerProcessInfo) \<times> ConsumerProcessManager" where
  "stop pid signal m =
     (case map_of (processes m) pid of
        None \<Rightarrow> (Inl (UnknownProcess pid), m)
      | Some k \<Rightarrow>
          (case map_of (handles m) pid of
             None \<Rightarrow> (Inl (AlreadyExited pid), m)
           | Some h \<Rightarrow> (Inr (infos m ! k), m\<lparr>kills := kills m @ [(h, signal)]\<rparr>)))"

text \<open>\<open>stopAll\<close> swallows what \<open>stop\<close> throws; \<open>onModuleDestroy\<close> does not.\<close>

definition stopAll :: "string \<Rightarrow> ConsumerProcessManager \<Rightarrow> nat \<times> ConsumerProcessManager" where
  "stopAll signal m =
     (let pids = map fst (handles m) in (length pids, fold (\<lambda>pid m. snd (stop pid signal m)) pids m))"

fun stop_each :: "int list \<Rightarrow> ConsumerProcessManager \<Rightarrow> (lab_error + unit) \<times> ConsumerProcessManager" where
  "stop_each [] m = (Inr (), m)"
| "stop_each (pid # pids) m =
     (case stop pid ''SIGTERM'' m of (Inl e, m') \<Rightarrow> (Inl e, m') | (Inr _, m') \<Rightarrow> stop_each pids m')"

definition lab_onModuleDestroy :: "ConsumerProcessManager \<Rightarrow> (lab_error + unit) \<times> ConsumerProcessManager" where
  "lab_onModuleDestroy m = stop_each (map fst (handles m)) m"

definition listed :: "ConsumerProcessManager \<Rightarrow> ConsumerProcessInfo list" where
  "listed m = sort_key (\<lambda>info. - pi_startedAt info) (map (\<lambda>(_, k). infos m ! k) (processes m))"

definition clearFinished :: "ConsumerProcessManager \<Rightarrow> nat \<times> ConsumerProcessManager" where
  "clearFinished m =
     (let finished = filter (\<lambda>info. \<not> alive info) (map (\<lambda>(_, k). infos m ! k) (processes m)) in
      (length finished, m\<lparr>processes := fold (\<lambda>info ps. AList.delete (pi_pid info) ps) finished (processes m)\<rparr>))"

section \<open>Routes\<close>

fun body_field :: "jsval \<Rightarrow> string \<Rightarrow> jsval" where
  "body_field (Obj ob) k = prop_of ob k"
| "body_field _ k = Undefined"

text \<open>\<open>POST /lab/consumers\<close>: the body is used as it came.\<close>

definition spawn_options :: "jsval \<Rightarrow> SpawnConsumerOptions" where
  "spawn_options body =
     \<lparr>so_groupId = body_field body ''groupId'', so_instances = body_field body ''instances'',
      so_processingDelayMs = body_field body ''processingDelayMs'', so_commitMode = body_field body ''commitMode'',
      so_commitDelayMs = body_field body ''commitDelayMs'', so_fromBeginning = body_field body ''fromBeginning'',
      so_crashAfter = body_field body ''crashAfter'', so_sessionTimeoutMs = body_field body ''sessionTimeoutMs''\<rparr>"

text \<open>\<open>DELETE /lab/consumers\<close>: with no process number, or an empty one, every child is signalled.\<close>

datatype stop_reply = StoppedAll nat string | StoppedOne int string

definition stop_route ::
  "string option \<Rightarrow> string option \<Rightarrow> ConsumerProcessManager \<Rightarrow> (lab_error + stop_reply) \<times> ConsumerProcessManager" where
  "stop_route pid signal m =
     (let resolvedSignal = (case signal of None \<Rightarrow> ''SIGKILL'' | Some s \<Rightarrow> s) in
      if resolvedSignal \<noteq> ''SIGKILL'' \<and> resolvedSignal \<noteq> ''SIGTERM'' then (Inl BadSignal, m)
      else
        let all = (let (n, m') = stopAll resolvedSignal m in (Inr (StoppedAll n resolvedSignal), m')) in
        case pid of
          None \<Rightarrow> all
        | Some raw \<Rightarrow>
            if raw = [] then all
            else (case as_integer (string_to_number raw) of
                    Some parsed \<Rightarrow>
                      if parsed \<le> 0 then (Inl (BadPid raw), m)
                      else (case stop parsed resolvedSignal m of
                              (Inr info, m') \<Rightarrow> (Inr (StoppedOne (pi_pid info) resolvedSignal), m')
                            | (Inl e, m') \<Rightarrow> (Inl e, m'))
                  | None \<Rightarrow> (Inl (BadPid raw), m)))"

section \<open>State machine\<close>

record Lab =
  manager :: ConsumerProcessManager
  children :: "(int \<times> nat) list"

definition new_lab :: Lab where
  "new_lab = \<lparr>manager = new_manager, children = []\<rparr>"

datatype lab_event =
    LSpawn bool spawn_outcome int jsval
  | LOutput nat string
  | LExit nat "int option" "string option"
  | LStop "string option" "string option"
  | LClear
  | LDestroy

fun lab_enabled :: "lab_event \<Rightarrow> Lab \<Rightarrow> bool" where
  "lab_enabled (LSpawn script (Pid pid) now body) w = (pid \<notin> fst ` set (children w))"
| "lab_enabled (LOutput k chunk) w = (k < length (infos (manager w)))"
| "lab_enabled (LExit k code signal) w = (k \<in> snd ` set (children w))"
| "lab_enabled _ w = True"

text \<open>The children table changes with the operating system alone: a \<open>spawn\<close> that gave a process number
  adds the child, and its end takes it away.\<close>

fun lab_handle :: "lab_event \<Rightarrow> Lab \<Rightarrow> Lab" where
  "lab_handle (LSpawn script outcome now body) w =
     (case (spawnConsumer script outcome now (spawn_options body) (manager w), outcome) of
        ((Inr _, m), Pid pid) \<Rightarrow> w\<lparr>manager := m, children := (pid, length (infos (manager w))) # children w\<rparr>
      | ((_, m), _) \<Rightarrow> w\<lparr>manager := m\<rparr>)"
| "lab_handle (LOutput k chunk) w = w\<lparr>manager := collect chunk k (manager w)\<rparr>"
| "lab_handle (LExit k code signal) w =
     w\<lparr>manager := on_exit code signal k (manager w), children := filter (\<lambda>(_, j). j \<noteq> k) (children w)\<rparr>"
| "lab_handle (LStop pid signal) w = w\<lparr>manager := snd (stop_route pid signal (manager w))\<rparr>"
| "lab_handle LClear w = w\<lparr>manager := snd (clearFinished (manager w))\<rparr>"
| "lab_handle LDestroy w = w\<lparr>manager := snd (lab_onModuleDestroy (manager w))\<rparr>"

inductive lab_step :: "Lab \<Rightarrow> Lab \<Rightarrow> bool" where
  lab_stepI: "lab_enabled ev w \<Longrightarrow> lab_step w (lab_handle ev w)"

fun lab_run :: "lab_event list \<Rightarrow> Lab \<Rightarrow> Lab option" where
  "lab_run [] w = Some w"
| "lab_run (ev # evs) w = (if lab_enabled ev w then lab_run evs (lab_handle ev w) else None)"

section \<open>The manager knows its children\<close>

definition lab_inv :: "ConsumerProcessManager \<Rightarrow> bool" where
  "lab_inv m =
     (distinct (map fst (processes m)) \<and> distinct (map fst (handles m)) \<and>
      (\<forall>pid k. map_of (handles m) pid = Some k \<longrightarrow> map_of (processes m) pid = Some k) \<and>
      (\<forall>pid k. map_of (processes m) pid = Some k \<longrightarrow> k < length (infos m) \<and> pi_pid (infos m ! k) = pid) \<and>
      (\<forall>k < length (infos m). alive (infos m ! k) \<longleftrightarrow> map_of (handles m) (pi_pid (infos m ! k)) = Some k) \<and>
      list_all (\<lambda>info. length (recentLogs info) \<le> MAX_LOG_LINES) (infos m))"

text \<open>Stopping children only sends signals.\<close>

definition same_children :: "ConsumerProcessManager \<Rightarrow> ConsumerProcessManager \<Rightarrow> bool" where
  "same_children m' m = (processes m' = processes m \<and> handles m' = handles m \<and> infos m' = infos m)"

lemma same_children_inv: "same_children m' m \<Longrightarrow> lab_inv m' = lab_inv m"
  by (simp add: same_children_def lab_inv_def)

lemma same_children_trans: "same_children m'' m' \<Longrightarrow> same_children m' m \<Longrightarrow> same_children m'' m"
  by (simp add: same_children_def)

lemma stop_same: "same_children (snd (stop pid signal m)) m"
  by (auto simp: stop_def same_children_def split: option.split)

lemma stopAll_same: "same_children (snd (stopAll signal m)) m"
proof -
  have "same_children (fold (\<lambda>pid m. snd (stop pid signal m)) pids m) m" for pids
    by (induction pids arbitrary: m) (auto simp: same_children_def stop_same [unfolded same_children_def])
  then show ?thesis by (simp add: stopAll_def Let_def)
qed

lemma stop_each_same: "same_children (snd (stop_each pids m)) m"
proof (induction pids arbitrary: m)
  case (Cons pid pids)
  obtain r m' where s: "stop pid ''SIGTERM'' m = (r, m')" by fastforce
  have "same_children m' m" using stop_same [of pid "''SIGTERM''" m] s by simp
  then show ?case using Cons.IH [of m'] s by (cases r) (auto intro: same_children_trans)
qed (simp add: same_children_def)

lemma stop_route_same: "same_children (snd (stop_route pid signal m)) m"
proof -
  let ?signal = "case signal of None \<Rightarrow> ''SIGKILL'' | Some s \<Rightarrow> s"
  obtain n m1 where all: "stopAll ?signal m = (n, m1)" by fastforce
  have "same_children m1 m" using stopAll_same [of ?signal m] all by simp
  moreover have "same_children m' m" if "stop parsed ?signal m = (r, m')" for parsed r m'
    using stop_same [of parsed ?signal m] that by simp
  moreover have "same_children m m" by (simp add: same_children_def)
  ultimately show ?thesis
    unfolding stop_route_def Let_def all by (auto split: option.split sum.split prod.split)
qed

lemma push_line_bounded: "length logs \<le> MAX_LOG_LINES \<Longrightarrow> length (foldl push_line logs ls) \<le> MAX_LOG_LINES"
  by (induction ls arbitrary: logs) (auto simp: push_line_def Let_def)

lemma map_of_fold_delete:
  "map_of (fold (\<lambda>info ps. AList.delete (pi_pid info) ps) dead ps) =
     (\<lambda>pid. if pid \<in> pi_pid ` set dead then None else map_of ps pid)"
  by (induction dead arbitrary: ps) (auto simp: fun_eq_iff AList.delete_conv')

lemma distinct_fold_delete:
  "distinct (map fst ps) \<Longrightarrow> distinct (map fst (fold (\<lambda>info ps. AList.delete (pi_pid info) ps) dead ps))"
  by (induction dead arbitrary: ps) (simp_all add: AList.distinct_delete)

lemma spawn_inv:
  assumes "lab_inv m" and "\<And>pid. outcome = Pid pid \<Longrightarrow> map_of (handles m) pid = None"
  shows "lab_inv (snd (spawnConsumer script outcome now opts m))"
proof (cases "\<exists>r pid. script \<and> normalize opts = Inr r \<and> outcome = Pid pid")
  case True
  then obtain r pid where s: "script" "normalize opts = Inr r" "outcome = Pid pid" by blast
  have fresh: "map_of (handles m) pid = None" using assms(2) s(3) .
  show ?thesis
    using assms(1) fresh unfolding lab_inv_def spawnConsumer_def
    by (auto simp: s Let_def AList.update_conv' AList.distinct_update nth_append less_Suc_eq)
next
  case False
  then have "snd (spawnConsumer script outcome now opts m) = m"
    by (auto simp: spawnConsumer_def split: sum.split spawn_outcome.split)
  then show ?thesis using assms(1) by simp
qed

lemma exit_inv:
  assumes "lab_inv m" and k: "k < length (infos m)" "map_of (handles m) (pi_pid (infos m ! k)) = Some k"
  shows "lab_inv (on_exit code signal k m)"
proof -
  show ?thesis
    using assms unfolding lab_inv_def on_exit_def
    by (auto simp: Let_def AList.delete_conv' AList.distinct_delete nth_list_update list_all_iff
        set_update_subset_insert [THEN subsetD] split: if_splits dest!: set_update_subset_insert [THEN subsetD])
qed

lemma collect_inv:
  assumes "lab_inv m" and "k < length (infos m)"
  shows "lab_inv (collect chunk k m)"
proof -
  have "length (recentLogs (infos m ! k)) \<le> MAX_LOG_LINES"
    using assms by (simp add: lab_inv_def list_all_length)
  from push_line_bounded [OF this] show ?thesis
    using assms unfolding lab_inv_def collect_def
    by (auto simp: Let_def nth_list_update list_all_length)
qed

lemma clear_inv:
  assumes "lab_inv m"
  shows "lab_inv (snd (clearFinished m))"
proof -
  let ?dead = "filter (\<lambda>info. \<not> alive info) (map (\<lambda>(_, k). infos m ! k) (processes m))"
  have "map_of (handles m) pid = None" if "pid \<in> pi_pid ` set ?dead" for pid
  proof -
    from that obtain pid' k where k: "(pid', k) \<in> set (processes m)" "\<not> alive (infos m ! k)" "pi_pid (infos m ! k) = pid"
      by auto
    then have "map_of (processes m) pid' = Some k" using assms by (simp add: lab_inv_def)
    then have "map_of (processes m) pid = Some k" "k < length (infos m)" using assms k(3) by (auto simp: lab_inv_def)
    then show ?thesis using assms k by (cases "map_of (handles m) pid") (auto simp: lab_inv_def)
  qed
  then have "map_of (handles m) pid = Some k \<Longrightarrow> pid \<notin> pi_pid ` set ?dead" for pid k by force
  moreover have "map_of (processes (snd (clearFinished m))) =
      (\<lambda>pid. if pid \<in> pi_pid ` set ?dead then None else map_of (processes m) pid)"
    by (simp add: clearFinished_def Let_def map_of_fold_delete)
  moreover have "distinct (map fst (processes (snd (clearFinished m))))"
    using assms by (simp add: clearFinished_def Let_def distinct_fold_delete lab_inv_def)
  ultimately show ?thesis
    using assms unfolding lab_inv_def
    by (auto simp: clearFinished_def Let_def simp del: map_of_eq_Some_iff Some_eq_map_of_iff split: if_splits)
qed

text \<open>What the manager has noted agrees with the operating system: it has a handle for a process number
  exactly when a child with that number runs, and then it is the handle of that child.\<close>

definition world_inv :: "Lab \<Rightarrow> bool" where
  "world_inv w \<longleftrightarrow> lab_inv (manager w) \<and> distinct (map fst (children w)) \<and>
     map_of (handles (manager w)) = map_of (children w)"

lemma world_child:
  assumes "world_inv w" and "(pid, k) \<in> set (children w)"
  shows "map_of (handles (manager w)) pid = Some k" "map_of (processes (manager w)) pid = Some k"
    "k < length (infos (manager w))" "pi_pid (infos (manager w) ! k) = pid"
proof -
  show h: "map_of (handles (manager w)) pid = Some k" using assms by (simp add: world_inv_def)
  then show p: "map_of (processes (manager w)) pid = Some k" using assms(1) by (simp add: world_inv_def lab_inv_def)
  then show "k < length (infos (manager w))" "pi_pid (infos (manager w) ! k) = pid"
    using assms(1) by (auto simp: world_inv_def lab_inv_def)
qed

lemma map_of_other_children:
  assumes "distinct (map fst xs)" and "(p, k) \<in> set xs" and "\<And>q j. (q, j) \<in> set xs \<Longrightarrow> j = k \<Longrightarrow> q = p"
  shows "map_of (filter (\<lambda>(_, j). j \<noteq> k) xs) = (map_of xs)(p := None)"
proof
  fix q
  have d: "distinct (map fst (filter (\<lambda>(_, j). j \<noteq> k) xs))" using assms(1) by (rule distinct_map_filter)
  show "map_of (filter (\<lambda>(_, j). j \<noteq> k) xs) q = ((map_of xs)(p := None)) q"
  proof (cases "map_of (filter (\<lambda>(_, j). j \<noteq> k) xs) q")
    case None
    then have none: "q \<notin> fst ` set (filter (\<lambda>(_, j). j \<noteq> k) xs)" by (simp add: map_of_eq_None_iff)
    have "j = k" if "(q, j) \<in> set xs" for j
    proof (rule ccontr)
      assume "j \<noteq> k"
      then have "(q, j) \<in> set (filter (\<lambda>(_, j). j \<noteq> k) xs)" using that by simp
      then have "fst (q, j) \<in> fst ` set (filter (\<lambda>(_, j). j \<noteq> k) xs)" by (rule imageI)
      then show False using none by simp
    qed
    then show ?thesis using None assms(3) by (cases "map_of xs q") (auto dest: map_of_SomeD)
  next
    case (Some j)
    then have "(q, j) \<in> set xs" "j \<noteq> k" using d by auto
    then show ?thesis using Some assms(1,2) by (auto simp: eq_key_imp_eq_value)
  qed
qed

lemma world_spawn:
  assumes inv: "world_inv w" and fresh: "\<And>pid. outcome = Pid pid \<Longrightarrow> pid \<notin> fst ` set (children w)"
  shows "world_inv (lab_handle (LSpawn script outcome now body) w)"
proof -
  have same: "map_of (handles (manager w)) = map_of (children w)" and d: "distinct (map fst (children w))"
    using inv by (simp_all add: world_inv_def)
  have new: "map_of (handles (manager w)) pid = None" if "outcome = Pid pid" for pid
    using fresh [OF that] by (simp add: same map_of_eq_None_iff)
  have keep: "lab_inv (snd (spawnConsumer script outcome now (spawn_options body) (manager w)))"
    using inv new by (intro spawn_inv) (simp_all add: world_inv_def)
  show ?thesis
  proof (cases "\<exists>r pid. script \<and> normalize (spawn_options body) = Inr r \<and> outcome = Pid pid")
    case True
    then obtain r pid where s: "script" "normalize (spawn_options body) = Inr r" "outcome = Pid pid" by blast
    show ?thesis
      using keep fresh [OF s(3)] same d by (simp add: world_inv_def s spawnConsumer_def Let_def AList.update_conv')
  next
    case False
    then have "\<exists>e. spawnConsumer script outcome now (spawn_options body) (manager w) = (Inl e, manager w)"
      by (auto simp: spawnConsumer_def split: sum.split spawn_outcome.split)
    then show ?thesis using inv by auto
  qed
qed

lemma world_exit:
  assumes inv: "world_inv w" and "k \<in> snd ` set (children w)"
  shows "world_inv (lab_handle (LExit k code signal) w)"
proof -
  obtain pid where c: "(pid, k) \<in> set (children w)" using assms(2) by auto
  note f = world_child [OF inv c]
  have d: "distinct (map fst (children w))" and same: "map_of (handles (manager w)) = map_of (children w)"
    and linv: "lab_inv (manager w)" using inv by (simp_all add: world_inv_def)
  have "q = pid" if "(q, j) \<in> set (children w)" "j = k" for q j
    using world_child(4) [OF inv that(1)] f(4) that(2) by simp
  then have "map_of (filter (\<lambda>(_, j). j \<noteq> k) (children w)) = (map_of (children w))(pid := None)"
    by (rule map_of_other_children [OF d c])
  moreover have "lab_inv (on_exit code signal k (manager w))" using exit_inv [OF linv f(3)] f(1,4) by simp
  moreover have "map_of (handles (on_exit code signal k (manager w))) = (map_of (children w))(pid := None)"
    by (simp add: on_exit_def Let_def f(4) AList.delete_conv' same)
  ultimately show ?thesis using d by (simp add: world_inv_def distinct_map_filter)
qed

lemma lab_handle_inv:
  assumes "world_inv w" and "lab_enabled ev w"
  shows "world_inv (lab_handle ev w)"
proof (cases ev)
  case (LSpawn script outcome now body)
  have "pid \<notin> fst ` set (children w)" if "outcome = Pid pid" for pid using assms(2) LSpawn that by simp
  then show ?thesis unfolding LSpawn by (rule world_spawn [OF assms(1)])
next
  case (LOutput k chunk)
  then show ?thesis using collect_inv assms by (simp add: world_inv_def) (simp add: collect_def Let_def)
next
  case (LExit k code signal)
  then show ?thesis using world_exit assms by simp
next
  case (LStop pid signal)
  then show ?thesis
    using same_children_inv [OF stop_route_same] assms stop_route_same [of pid signal "manager w"]
    by (simp add: world_inv_def same_children_def)
next
  case LClear
  then show ?thesis using clear_inv assms by (simp add: world_inv_def) (simp add: clearFinished_def Let_def)
next
  case LDestroy
  then show ?thesis
    using same_children_inv [OF stop_each_same] assms stop_each_same [of "map fst (handles (manager w))" "manager w"]
    by (simp add: world_inv_def lab_onModuleDestroy_def same_children_def)
qed

inductive_cases lab_stepE: "lab_step w w'"

interpretation lab: inductive_invariant "\<lambda>w. w = new_lab" lab_step world_inv
proof unfold_locales
  show "world_inv s" if "s = new_lab" for s
    using that by (simp add: new_lab_def new_manager_def world_inv_def lab_inv_def)
  show "world_inv t" if "world_inv s" "lab_step s t" for s t
    using that(2) by (rule lab_stepE) (use that(1) lab_handle_inv in blast)
qed

lemma stop_each_kills:
  assumes "lab_inv m" and "set pids \<subseteq> set (map fst (handles m))"
  shows "fst (stop_each pids m) = Inr () \<and>
         kills (snd (stop_each pids m)) = kills m @ map (\<lambda>pid. (the (map_of (handles m) pid), ''SIGTERM'')) pids"
  using assms
proof (induction pids arbitrary: m)
  case (Cons pid pids)
  obtain h where h: "map_of (handles m) pid = Some h"
    using Cons.prems(2) by (auto simp: image_iff dest: weak_map_of_SomeI)
  then have p: "map_of (processes m) pid = Some h" using Cons.prems(1) by (simp add: lab_inv_def)
  let ?m = "m\<lparr>kills := kills m @ [(h, ''SIGTERM'')]\<rparr>"
  have "lab_inv ?m" using Cons.prems(1) by (simp add: lab_inv_def)
  then have "fst (stop_each pids ?m) = Inr () \<and>
      kills (snd (stop_each pids ?m)) = kills ?m @ map (\<lambda>pid. (the (map_of (handles ?m) pid), ''SIGTERM'')) pids"
    using Cons.prems(2) by (intro Cons.IH) auto
  then show ?case using h p by (simp add: stop_def)
qed simp

lemma child_listed:
  "world_inv w \<Longrightarrow> (pid, k) \<in> set (children w) \<Longrightarrow> infos (manager w) ! k \<in> set (listed (manager w))"
  using map_of_SomeD [OF world_child(2)] by (force simp: listed_def)

lemma child_cleared:
  assumes "world_inv w" and "(pid, k) \<in> set (children w)"
  shows "infos (manager w) ! k \<in> set (listed (snd (clearFinished (manager w))))"
proof -
  have "world_inv (lab_handle LClear w)" using assms(1) by (rule lab_handle_inv) simp
  from child_listed [OF this, of pid k] show ?thesis using assms(2) by (simp add: clearFinished_def Let_def)
qed

lemma child_alive:
  assumes "world_inv w" and "k < length (infos (manager w))"
  shows "alive (infos (manager w) ! k) \<longleftrightarrow> k \<in> snd ` set (children w)"
proof -
  have "alive (infos (manager w) ! k) \<longleftrightarrow> map_of (handles (manager w)) (pi_pid (infos (manager w) ! k)) = Some k"
    using assms by (simp add: world_inv_def lab_inv_def)
  also have "\<dots> \<longleftrightarrow> (pi_pid (infos (manager w) ! k), k) \<in> set (children w)" using assms(1) by (simp add: world_inv_def)
  also have "\<dots> \<longleftrightarrow> k \<in> snd ` set (children w)" using world_child(4) [OF assms(1)] by force
  finally show ?thesis .
qed

lemma stop_child:
  "world_inv w \<Longrightarrow> (pid, k) \<in> set (children w) \<Longrightarrow>
   stop pid signal (manager w) = (Inr (infos (manager w) ! k), (manager w)\<lparr>kills := kills (manager w) @ [(k, signal)]\<rparr>)"
  using world_child(1,2) [of w pid k] by (simp only: stop_def) simp

lemma stop_gone:
  assumes "world_inv w" and "pid \<notin> fst ` set (children w)"
  shows "\<exists>e. stop pid signal (manager w) = (Inl e, manager w)"
proof -
  have "map_of (handles (manager w)) pid = None" using assms by (simp add: world_inv_def map_of_eq_None_iff)
  then show ?thesis by (simp add: stop_def split: option.split)
qed

lemma destroy_signals:
  assumes "world_inv w"
  shows "fst (lab_onModuleDestroy (manager w)) = Inr () \<and>
         (\<exists>ks. distinct ks \<and> set ks = snd ` set (children w) \<and>
            kills (snd (lab_onModuleDestroy (manager w))) = kills (manager w) @ map (\<lambda>k. (k, ''SIGTERM'')) ks)"
proof (intro conjI exI)
  let ?h = "handles (manager w)"
  let ?ks = "map snd ?h"
  have inv: "lab_inv (manager w)" and d: "distinct (map fst ?h)" using assms by (simp_all add: world_inv_def lab_inv_def)
  have same: "set ?h = set (children w)" 
    using map_of_inject_set [of "handles (manager w)" "children w"] assms d by (simp add: world_inv_def)
  show "set ?ks = snd ` set (children w)" by (simp add: same)
  have "map fst ?h = map (\<lambda>k. pi_pid (infos (manager w) ! k)) ?ks"
    using world_child(4) [OF assms] by (auto simp: same)
  then show "distinct ?ks" using d by (metis distinct_map)
  have "map (\<lambda>pid. (the (map_of ?h pid), ''SIGTERM'')) (map fst ?h) = map (\<lambda>k. (k, ''SIGTERM'')) ?ks"
    using d by auto
  then show "fst (lab_onModuleDestroy (manager w)) = Inr ()"
    and "kills (snd (lab_onModuleDestroy (manager w))) = kills (manager w) @ map (\<lambda>k. (k, ''SIGTERM'')) ?ks"
    using stop_each_kills [OF inv order_refl] by (simp_all add: lab_onModuleDestroy_def)
qed

text \<open>C22. The manager knows exactly the children that run in the operating system. In every reachable
  state, whatever is started, stopped and cleared and in whatever order the children end, each running
  child is in the list, under its own number, which no other running child has; an entry is marked alive
  exactly when its child runs. \<open>stop\<close> sends one signal, to the running child of that number, and
  otherwise throws and sends none, so it never signals a number whose child is gone. Clearing the
  finished entries keeps every running child listed, the shutdown hook sends one SIGTERM to each running
  child without throwing, and no log holds more than fifty lines.\<close>

theorem manager_tracks_living_children:
  assumes "lab_step\<^sup>*\<^sup>* new_lab w" and "m = manager w"
  shows "(\<forall>(pid, k) \<in> set (children w). k < length (infos m) \<and> pi_pid (infos m ! k) = pid \<and>
            infos m ! k \<in> set (listed m) \<and> infos m ! k \<in> set (listed (snd (clearFinished m))) \<and>
            stop pid signal m = (Inr (infos m ! k), m\<lparr>kills := kills m @ [(k, signal)]\<rparr>)) \<and>
         distinct (map fst (children w)) \<and>
         (\<forall>k < length (infos m). alive (infos m ! k) \<longleftrightarrow> k \<in> snd ` set (children w)) \<and>
         (\<forall>pid. pid \<notin> fst ` set (children w) \<longrightarrow> (\<exists>e. stop pid signal m = (Inl e, m))) \<and>
         fst (lab_onModuleDestroy m) = Inr () \<and>
         (\<exists>ks. distinct ks \<and> set ks = snd ` set (children w) \<and>
            kills (snd (lab_onModuleDestroy m)) = kills m @ map (\<lambda>k. (k, ''SIGTERM'')) ks) \<and>
         (\<forall>info \<in> set (infos m). length (recentLogs info) \<le> 50)"
proof -
  have inv: "world_inv w" using lab.inv_reachable [OF refl assms(1)] .
  have logs: "\<forall>info \<in> set (infos m). length (recentLogs info) \<le> 50"
    using inv by (simp add: assms(2) world_inv_def lab_inv_def list_all_iff MAX_LOG_LINES_def)
  have numbers: "distinct (map fst (children w))" using inv by (simp add: world_inv_def)
  have "\<forall>(pid, k) \<in> set (children w). k < length (infos m) \<and> pi_pid (infos m ! k) = pid \<and>
      infos m ! k \<in> set (listed m) \<and> infos m ! k \<in> set (listed (snd (clearFinished m))) \<and>
      stop pid signal m = (Inr (infos m ! k), m\<lparr>kills := kills m @ [(k, signal)]\<rparr>)"
  proof (clarify, intro conjI)
    fix pid k assume c: "(pid, k) \<in> set (children w)"
    show "k < length (infos m)" "pi_pid (infos m ! k) = pid" using world_child(3,4) [OF inv c] by (simp_all add: assms(2))
    show "infos m ! k \<in> set (listed m)" "infos m ! k \<in> set (listed (snd (clearFinished m)))"
      using child_listed [OF inv c] child_cleared [OF inv c] by (simp_all add: assms(2))
    show "stop pid signal m = (Inr (infos m ! k), m\<lparr>kills := kills m @ [(k, signal)]\<rparr>)"
      using stop_child [OF inv c] by (simp add: assms(2))
  qed
  moreover have "\<forall>k < length (infos m). alive (infos m ! k) \<longleftrightarrow> k \<in> snd ` set (children w)"
    using child_alive [OF inv] by (simp add: assms(2))
  moreover have "\<forall>pid. pid \<notin> fst ` set (children w) \<longrightarrow> (\<exists>e. stop pid signal m = (Inl e, m))"
    using stop_gone [OF inv] by (simp add: assms(2))
  ultimately show ?thesis
    using destroy_signals [OF inv] logs numbers unfolding assms(2) by (elim conjE, intro conjI)
qed

lemma lab_run_steps: "lab_run evs w = Some w' \<Longrightarrow> lab_step\<^sup>*\<^sup>* w w'"
  by (induction evs arbitrary: w) (auto split: if_splits intro: converse_rtranclp_into_rtranclp lab_stepI)

text \<open>Two children are started, the first writes a line and ends, and its number is used again.\<close>

definition lab_sample :: "lab_event list" where
  "lab_sample =
     [LSpawn True (Pid 41) 100 (Obj []), LSpawn True (Pid 42) 101 (Obj [(''instances'', Num (Fin 3))]),
      LOutput 0 ''started'', LExit 0 (Some 0) None, LSpawn True (Pid 41) 102 Null]"

theorem manager_tracks_living_children_witness:
  "\<exists>w. lab_run lab_sample new_lab = Some w \<and> children w = [(41, 2), (42, 1)] \<and> length (infos (manager w)) = 3 \<and>
       map alive (infos (manager w)) = [False, True, True] \<and>
       fst (stop 41 ''SIGKILL'' (manager w)) = Inr (infos (manager w) ! 2) \<and>
       (\<exists>e. stop 7 ''SIGKILL'' (manager w) = (Inl e, manager w))"
proof -
  let ?w = "the (lab_run lab_sample new_lab)"
  have "lab_run lab_sample new_lab \<noteq> None" by code_simp
  then have r: "lab_run lab_sample new_lab = Some ?w" by simp
  have c: "length (infos (manager ?w)) = 3" "children ?w = [(41, 2), (42, 1)]" "map alive (infos (manager ?w)) = [False, True, True]"
    by code_simp+
  note t = manager_tracks_living_children [OF lab_run_steps [OF r] refl, of "''SIGKILL''"]
  have "fst (stop 41 ''SIGKILL'' (manager ?w)) = Inr (infos (manager ?w) ! 2)" using t unfolding c(2) by auto
  moreover have "\<exists>e. stop 7 ''SIGKILL'' (manager ?w) = (Inl e, manager ?w)" using t unfolding c(2) by auto
  ultimately show ?thesis using r c by (intro exI [of _ ?w] conjI)
qed

section \<open>From the panel to the consumer\<close>

text \<open>What ECMAScript documents of \<open>String(n)\<close>: an integer below \<open>10 ^ 21\<close> is printed in decimal.\<close>

definition prints_integers :: "(jsnum \<Rightarrow> string) \<Rightarrow> bool" where
  "prints_integers num_text = (\<forall>i. 0 \<le> i \<and> i < 10 ^ 21 \<longrightarrow> num_text (num_of_int i) = show_int i)"

lemma printed_number:
  assumes "prints_integers num_text" and "0 \<le> i" and "i < 10 ^ 21" and "e name = Some (num_text (num_of_int i))"
  shows "raw_env e name = Some (show_int i)" and "parse_int (show_int i) = Some i"
proof -
  have "show_int i = show_digits (nat i)" using assms(2) by (simp add: show_int_def)
  moreover have "parse_int (show_digits (nat i)) = Some (int (nat i))"
    using assms(2,3) by (intro parse_int_show_digits) (simp add: DOUBLE_OVERFLOW_def)
  ultimately show "parse_int (show_int i) = Some i" "raw_env e name = Some (show_int i)"
    using assms by (simp_all add: raw_env_def prints_integers_def)
qed

lemma printed_positive:
  "prints_integers num_text \<Longrightarrow> 0 < i \<Longrightarrow> i < 10 ^ 21 \<Longrightarrow> e name = Some (num_text (num_of_int i)) \<Longrightarrow>
     readPositiveIntEnv e name fallback = i"
  using printed_number [of num_text i e name] by (simp add: readPositiveIntEnv_def)

lemma printed_non_negative:
  "prints_integers num_text \<Longrightarrow> 0 \<le> i \<Longrightarrow> i < 10 ^ 21 \<Longrightarrow> e name = Some (num_text (num_of_int i)) \<Longrightarrow>
     number_env e name = Inr i"
  using printed_number [of num_text i e name] by (simp add: number_env_def readNonNegativeIntEnv_def)

lemma parseCommitMode_name: "parseCommitMode (Some (commit_mode_name mode)) = Inr mode"
proof -
  have "parseCommitMode (Some ''after-process'') = Inr AfterProcess" "parseCommitMode (Some ''before-process'') = Inr BeforeProcess"
    by code_simp+
  then show ?thesis by (cases mode) simp_all
qed

lemma int_option_Inr: "int_option e preset lo below v = Inr i \<Longrightarrow> lo \<le> i \<and> below i"
  by (cases "or_default v (Num (num_of_int preset))")
    (auto simp: int_option_def checked_def split: option.splits if_splits)

lemma normalize_Inr:
  assumes "normalize opts = Inr r"
  shows "1 \<le> ro_instances r \<and> ro_instances r \<le> 20 \<and> 0 \<le> ro_processingDelayMs r \<and> ro_processingDelayMs r \<le> 60000 \<and>
         0 \<le> ro_commitDelayMs r \<and> ro_commitDelayMs r \<le> 60000 \<and> 0 \<le> ro_crashAfter r \<and>
         6000 \<le> ro_sessionTimeoutMs r \<and> ro_sessionTimeoutMs r \<le> 1800000 \<and> ro_groupId r \<noteq> [] \<and>
         ro_fromBeginning r = or_default (so_fromBeginning opts) (Bool False)"
  using assms
  by (auto simp: normalize_def and_then_Inr group_option_def MAX_INSTANCES_def MAX_DELAY_MS_def MIN_SESSION_TIMEOUT_MS_def
      MAX_SESSION_TIMEOUT_MS_def dest!: int_option_Inr split: jsval.splits if_splits)

text \<open>C23. A consumer started from the panel runs with the options the panel accepted: the options
  that pass \<open>normalize\<close> are within their documented ranges, and \<open>consumerConfigFromEnv\<close>, run in the
  child on the environment the manager gives it, reads exactly them (the crash point below
  \<open>10 ^ 21\<close>, from where \<open>String\<close> uses an exponent), with brokers, client name and topics from the
  server's own environment.\<close>

theorem spawned_consumer_reads_its_options:
  assumes "normalize opts = Inr r" and "prints_integers num_text" and "ro_crashAfter r < 10 ^ 21"
    and "parseTopics (e ''CONSUMER_TOPICS'') = Inr topics"
  shows "consumerConfigFromEnv (child_env num_text e r) =
           Inr \<lparr>cc_brokers = readKafkaBrokersEnv e ''localhost:9092'',
                cc_clientId = (case e ''CONSUMER_CLIENT_ID'' of None \<Rightarrow> ''order-consumer'' | Some c \<Rightarrow> c),
                cc_groupId = ro_groupId r, cc_topics = topics, cc_instances = ro_instances r,
                cc_processingDelayMs = ro_processingDelayMs r, commitMode = ro_commitMode r,
                commitDelayMs = ro_commitDelayMs r,
                fromBeginning = (js_text num_text (ro_fromBeginning r) = ''true''),
                crashAfter = ro_crashAfter r, sessionTimeoutMs = ro_sessionTimeoutMs r\<rparr> \<and>
         (so_fromBeginning opts = Bool b \<longrightarrow> (js_text num_text (ro_fromBeginning r) = ''true'') = b) \<and>
         1 \<le> ro_instances r \<and> ro_instances r \<le> 20 \<and> 0 \<le> ro_crashAfter r \<and> ro_groupId r \<noteq> [] \<and>
         6000 \<le> ro_sessionTimeoutMs r \<and> ro_sessionTimeoutMs r \<le> 1800000"
proof -
  let ?e = "child_env num_text e r"
  note n = normalize_Inr [OF assms(1)]
  have "number_env ?e ''CONSUMER_DELAY_MS'' = Inr (ro_processingDelayMs r)"
    "number_env ?e ''CONSUMER_COMMIT_DELAY_MS'' = Inr (ro_commitDelayMs r)"
    "number_env ?e ''CONSUMER_CRASH_AFTER'' = Inr (ro_crashAfter r)"
    using n assms(2,3) by (auto intro!: printed_non_negative [of num_text] simp: child_env_def)
  moreover have "readPositiveIntEnv ?e ''CONSUMER_COUNT'' 1 = ro_instances r"
    "readPositiveIntEnv ?e ''CONSUMER_SESSION_TIMEOUT_MS'' 60000 = ro_sessionTimeoutMs r"
    using n assms(2) by (auto intro!: printed_positive [of num_text] simp: child_env_def)
  moreover have "parseCommitMode (?e ''CONSUMER_COMMIT_MODE'') = Inr (ro_commitMode r)"
    using parseCommitMode_name by (simp add: child_env_def)
  moreover have "?e ''CONSUMER_TOPICS'' = e ''CONSUMER_TOPICS''" "?e ''CONSUMER_CLIENT_ID'' = e ''CONSUMER_CLIENT_ID''"
    "?e ''CONSUMER_GROUP_ID'' = Some (ro_groupId r)" "readKafkaBrokersEnv ?e = readKafkaBrokersEnv e"
    "?e ''CONSUMER_FROM_BEGINNING'' = Some (js_text num_text (ro_fromBeginning r))"
    by (simp_all add: child_env_def readKafkaBrokersEnv_def fun_eq_iff)
  ultimately show ?thesis using assms(4) n by (auto simp: consumerConfigFromEnv_def or_default_def)
qed

definition integer_text :: "jsnum \<Rightarrow> string" where
  "integer_text n = (case as_integer n of Some i \<Rightarrow> show_int i | None \<Rightarrow> ''NaN'')"

theorem spawned_consumer_reads_its_options_witness:
  "\<exists>r cfg. normalize (spawn_options (Obj [(''instances'', Num (Fin 3)), (''commitMode'', Str ''before-process'')])) = Inr r \<and>
     consumerConfigFromEnv (child_env integer_text (\<lambda>_. None) r) = Inr cfg \<and>
     cc_instances cfg = 3 \<and> commitMode cfg = BeforeProcess \<and> sessionTimeoutMs cfg = 60000"
proof -
  let ?o = "spawn_options (Obj [(''instances'', Num (Fin 3)), (''commitMode'', Str ''before-process'')])"
  let ?r = "\<lparr>ro_groupId = ''order-processor'', ro_instances = 3, ro_processingDelayMs = 0, ro_commitMode = BeforeProcess,
    ro_commitDelayMs = 0, ro_fromBeginning = Bool False, ro_crashAfter = 0, ro_sessionTimeoutMs = 60000\<rparr>"
  have n: "normalize ?o = Inr ?r" by code_simp
  have t: "parseTopics ((\<lambda>_. None) ''CONSUMER_TOPICS'') = Inr DEFAULT_TOPICS" by (simp add: parseTopics_def)
  have p: "prints_integers integer_text" by (simp add: prints_integers_def integer_text_def)
  obtain cfg :: ConsumerConfig where "consumerConfigFromEnv (child_env integer_text (\<lambda>_. None) ?r) = Inr cfg"
    "cc_instances cfg = 3" "commitMode cfg = BeforeProcess" "sessionTimeoutMs cfg = 60000"
    using spawned_consumer_reads_its_options [OF n p _ t, THEN conjunct1] by simp
  then show ?thesis using n by blast
qed

end
