(* ===== verification/LabRoutes.thy ===== *)
theory LabRoutes
  imports KafkaAdmin ConsumerLab JsOps
begin

text \<open>
  The rest of the experiment panel: the groups and the group lag of
  \<open>src/orders/lab/kafka-inspector.ts\<close> and the routes of \<open>src/orders/lab/lab.controller.ts\<close> that use the
  inspector and the process manager.

  \<open>GroupCalls\<close> holds the calls of the kafkajs admin client on groups. A repeated query parameter is
  not modelled. \<open>bad\<close> is what kafkajs throws at a group or topic that is not a text.
\<close>

section \<open>Inspector\<close>

record InspectorConfig =
  in_brokers :: "string list"
  in_clientId :: string

definition inspectorConfigFromEnv :: "env \<Rightarrow> InspectorConfig" where
  "inspectorConfigFromEnv e =
     \<lparr>in_brokers = readKafkaBrokersEnv e ''localhost:9092'',
      in_clientId = (case e ''LAB_ADMIN_CLIENT_ID'' of None \<Rightarrow> ''kafka-lab-inspector'' | Some c \<Rightarrow> c)\<rparr>"

record GroupMemberInfo =
  gm_memberId :: string
  gm_clientId :: string
  gm_host :: string

record GroupDescription =
  gd_state :: "string option"
  gd_members :: "GroupMemberInfo list option"

record 'k GroupCalls =
  gl_listGroups :: "'k \<Rightarrow> string + (string \<times> string) list"
  gl_describeGroups :: "string list \<Rightarrow> 'k \<Rightarrow> string + GroupDescription list"

record GroupInfo =
  gi_groupId :: string
  gi_state :: string
  gi_members :: "GroupMemberInfo list"
  gi_topics :: "TopicLag list"

definition listGroups ::
  "'k Admin \<Rightarrow> 'k GroupCalls \<Rightarrow> string list \<Rightarrow> 'k \<Rightarrow> (admin_error + (string \<times> string) list) \<times> 'k" where
  "listGroups admin calls brokers = with_admin admin brokers (\<lambda>k. (admin_call (gl_listGroups calls k), k))"

fun lag_each :: "'k Admin \<Rightarrow> string \<Rightarrow> 'k \<Rightarrow> string list \<Rightarrow> admin_error + TopicLag list" where
  "lag_each admin groupId k [] = Inr []"
| "lag_each admin groupId k (topic # topics) =
     and_then (topicLag admin groupId topic k) (\<lambda>lag.
     and_then (lag_each admin groupId k topics) (\<lambda>rest. Inr (lag # rest)))"

text \<open>A group the broker does not describe has the state \<open>Unknown\<close> and no members.\<close>

definition describeGroup ::
  "'k Admin \<Rightarrow> 'k GroupCalls \<Rightarrow> string list \<Rightarrow> string \<Rightarrow> string list \<Rightarrow> 'k \<Rightarrow> (admin_error + GroupInfo) \<times> 'k" where
  "describeGroup admin calls brokers groupId topics =
     with_admin admin brokers (\<lambda>k.
       (and_then (admin_call (gl_describeGroups calls [groupId] k)) (\<lambda>groups.
        and_then (admin_call (ad_listTopics admin k)) (\<lambda>existing.
        and_then (lag_each admin groupId k (filter (\<lambda>t. t \<in> set existing) topics)) (\<lambda>lags.
          let state = (case groups of [] \<Rightarrow> None | g # _ \<Rightarrow> gd_state g);
              members = (case groups of [] \<Rightarrow> None | g # _ \<Rightarrow> gd_members g) in
          Inr \<lparr>gi_groupId = groupId, gi_state = (case state of None \<Rightarrow> ''Unknown'' | Some st \<Rightarrow> st),
               gi_members = (case members of None \<Rightarrow> [] | Some ms \<Rightarrow> ms), gi_topics = lags\<rparr>))), k))"

section \<open>Routes\<close>

definition DEFAULT_GROUP :: string where
  "DEFAULT_GROUP = ''order-processor''"

record SpawnReply =
  sr_pid :: int
  sr_groupId :: string
  sr_instances :: int
  sr_options :: RequiredOptions

definition spawn_route ::
  "bool \<Rightarrow> spawn_outcome \<Rightarrow> int \<Rightarrow> jsval \<Rightarrow> ConsumerProcessManager \<Rightarrow> (lab_error + SpawnReply) \<times> ConsumerProcessManager" where
  "spawn_route script outcome now body m =
     map_prod (map_sum id (\<lambda>info. \<lparr>sr_pid = pi_pid info, sr_groupId = pi_groupId info, sr_instances = pi_instances info,
                                    sr_options = pi_options info\<rparr>)) id
       (spawnConsumer script outcome now (spawn_options body) m)"

definition list_route :: "ConsumerProcessManager \<Rightarrow> ConsumerProcessInfo list" where
  "list_route m = listed m"

definition clear_route :: "ConsumerProcessManager \<Rightarrow> nat \<times> ConsumerProcessManager" where
  "clear_route m = clearFinished m"

definition topics_route ::
  "'k Admin \<Rightarrow> string list \<Rightarrow> 'k \<Rightarrow> (admin_error + TopicDescription list \<times> string list) \<times> 'k" where
  "topics_route admin brokers = describeTopics admin brokers wanted"

definition groups_route ::
  "'k Admin \<Rightarrow> 'k GroupCalls \<Rightarrow> string list \<Rightarrow> 'k \<Rightarrow> (admin_error + (string \<times> string) list) \<times> 'k" where
  "groups_route admin calls brokers = listGroups admin calls brokers"

text \<open>The errors of these routes are bad requests: the missing topic, the wrong target, or what the
  inspector throws.\<close>

datatype route_error = TopicRequired | BadTarget | InspectorFailed admin_error

definition lag_route ::
  "'k Admin \<Rightarrow> 'k GroupCalls \<Rightarrow> string list \<Rightarrow> string option \<Rightarrow> 'k \<Rightarrow> (route_error + GroupInfo) \<times> 'k" where
  "lag_route admin calls brokers groupId k =
     (let g = (case groupId of None \<Rightarrow> DEFAULT_GROUP | Some s \<Rightarrow> if s = [] then DEFAULT_GROUP else s)
      in map_prod (map_sum InspectorFailed id) id (describeGroup admin calls brokers g wanted k))"

record ResetReply =
  rr_groupId :: string
  rr_topic :: string
  rr_target :: target
  rr_offsets :: "(int \<times> int) list"

definition reset_route ::
  "'k Admin \<Rightarrow> string list \<Rightarrow> string \<Rightarrow> jsval \<Rightarrow> 'k \<Rightarrow> (route_error + ResetReply) \<times> 'k" where
  "reset_route admin brokers bad body k =
     (let topic = body_field body ''topic'';
          tgt = (let v = body_field body ''target'' in if nullish v then Str ''earliest'' else v)
      in if \<not> truthy topic then (Inl TopicRequired, k)
         else if tgt \<noteq> Str ''earliest'' \<and> tgt \<noteq> Str ''latest'' then (Inl BadTarget, k)
         else
           let t = (if tgt = Str ''earliest'' then Earliest else Latest) in
           case (js_or (body_field body ''groupId'') (Str DEFAULT_GROUP), topic) of
             (Str g, Str name) \<Rightarrow>
               map_prod (map_sum InspectorFailed (\<lambda>offs. \<lparr>rr_groupId = g, rr_topic = name, rr_target = t, rr_offsets = offs\<rparr>)) id
                 (resetOffsets admin brokers g name t k)
           | _ \<Rightarrow> map_prod (map_sum InspectorFailed id) id (with_admin admin brokers (\<lambda>k. (Inl (AdminFailed bad), k)) k))"

section \<open>What the panel shows after a rewind\<close>

lemma admin_call_Inr: "admin_call r = Inr a \<longleftrightarrow> r = Inr a"
  by (cases r) simp_all

lemma lag_each_Inr:
  assumes "lag_each admin g k topics = Inr lags"
  shows "map tl_topic lags = topics" and "\<forall>lag \<in> set lags. topicLag admin g (tl_topic lag) k = Inr lag"
proof -
  have topic: "tl_topic lag = t" if "topicLag admin g t k = Inr lag" for t lag
    using that by (auto simp: topicLag_def Let_def and_then_Inr)
  have "map tl_topic lags = topics \<and> (\<forall>lag \<in> set lags. topicLag admin g (tl_topic lag) k = Inr lag)"
    using assms by (induction topics arbitrary: lags) (auto simp: and_then_Inr topic)
  then show "map tl_topic lags = topics" "\<forall>lag \<in> set lags. topicLag admin g (tl_topic lag) k = Inr lag" by blast+
qed

lemma reset_route_Inr:
  assumes "reset_route admin brokers bad body k = (Inr rep, k')"
  shows "resetOffsets admin brokers (rr_groupId rep) (rr_topic rep) (rr_target rep) k = (Inr (rr_offsets rep), k')"
    and "rr_groupId rep \<noteq> []"
proof -
  let ?f = "\<lambda>g name t offs. \<lparr>rr_groupId = g, rr_topic = name, rr_target = t, rr_offsets = offs\<rparr>"
  have bad: "map_prod (map_sum InspectorFailed id) id (with_admin admin brokers (\<lambda>k. (Inl (AdminFailed bad), k)) k) \<noteq> (Inr rep, k')"
    by (auto simp: with_admin_def Let_def split: option.splits)
  obtain t g name where r: "js_or (body_field body ''groupId'') (Str DEFAULT_GROUP) = Str g"
      "map_prod (map_sum InspectorFailed (?f g name t)) id (resetOffsets admin brokers g name t k) = (Inr rep, k')"
    using assms bad unfolding reset_route_def Let_def
    by (auto split: if_splits jsval.splits)
  have "g \<noteq> []" using r(1) by (auto simp: js_or_def DEFAULT_GROUP_def split: if_splits)
  then show "resetOffsets admin brokers (rr_groupId rep) (rr_topic rep) (rr_target rep) k = (Inr (rr_offsets rep), k')"
    "rr_groupId rep \<noteq> []"
    using r(2) by (cases "resetOffsets admin brokers g name t k"; cases "fst (resetOffsets admin brokers g name t k)"; auto)+
qed

lemma describeGroup_Inr:
  assumes "describeGroup admin calls brokers g topics k = (Inr info, k')"
  shows "k' = k \<and> gi_groupId info = g \<and> (\<exists>existing. ad_listTopics admin k = Inr existing \<and>
           lag_each admin g k (filter (\<lambda>t. t \<in> set existing) topics) = Inr (gi_topics info))"
proof -
  note w = conjunct1 [OF with_admin_Inr [OF assms [unfolded describeGroup_def]], unfolded prod.inject and_then_Inr admin_call_Inr]
  then obtain groups existing lags where e: "ad_listTopics admin k = Inr existing"
      "lag_each admin g k (filter (\<lambda>t. t \<in> set existing) topics) = Inr lags" "gi_groupId info = g" "gi_topics info = lags"
    unfolding Let_def by (elim conjE exE) (auto)
  then show ?thesis using w by blast
qed

text \<open>C24. A rewind through the panel shows in the panel's lag: for the group and topic that the reset
  route answered with, the lag route reports the messages the topic still holds after a rewind to
  the earliest offset, and zero after one to the latest, in whatever order the client lists the
  partitions and whatever the group had committed before. The lag route changes nothing, and reports
  exactly the order topics the broker has.\<close>

theorem reset_shows_in_the_lag_route:
  assumes "offsets_as_documented stored commits admin" and "reset_route admin brokers bad body k = (Inr rep, k1)"
    and "lag_route admin calls brokers (Some (rr_groupId rep)) k1 = (Inr info, k2)"
    and "ad_fetchTopicOffsets admin (rr_topic rep) k = Inr before"
  shows "k2 = k1 \<and> gi_groupId info = rr_groupId rep \<and>
         (\<exists>existing. ad_listTopics admin k1 = Inr existing \<and> map tl_topic (gi_topics info) = filter (\<lambda>t. t \<in> set existing) wanted) \<and>
         (\<forall>lag \<in> set (gi_topics info). tl_topic lag = rr_topic rep \<longrightarrow>
            tl_totalLag lag = (if rr_target rep = Earliest then td_messages (describe_topic (rr_topic rep) before) else 0))"
proof -
  note reset = reset_route_Inr [OF assms(2)]
  have lag: "tl_totalLag lag = (if rr_target rep = Earliest then td_messages (describe_topic (rr_topic rep) before) else 0)"
    if "topicLag admin (rr_groupId rep) (rr_topic rep) k1 = Inr lag" for lag
    using rewind_sets_the_lag [OF assms(1) reset(1) that assms(4)] by blast
  have d: "describeGroup admin calls brokers (rr_groupId rep) wanted k1 = (Inr info, k2)"
    using assms(3) reset(2) by (cases "describeGroup admin calls brokers (rr_groupId rep) wanted k1"; cases "fst (describeGroup admin calls brokers (rr_groupId rep) wanted k1)")
      (auto simp: lag_route_def Let_def)
  obtain existing lags where e: "ad_listTopics admin k1 = Inr existing" "k2 = k1" "gi_groupId info = rr_groupId rep"
      "lag_each admin (rr_groupId rep) k1 (filter (\<lambda>t. t \<in> set existing) wanted) = Inr lags" "gi_topics info = lags"
    using describeGroup_Inr [OF d] by blast
  note each = lag_each_Inr [OF e(4)]
  show ?thesis using e each lag by auto
qed

section \<open>Example\<close>

definition lab_broker :: Broker where
  "lab_broker =
     \<lparr>bk_topics = [(''other'', 2), (hd wanted, 1)],
      bk_offsets = [(hd wanted, [\<lparr>po_partition = 1, po_low = 2, po_high = 7\<rparr>, \<lparr>po_partition = 0, po_low = 0, po_high = 3\<rparr>])],
      bk_committed = []\<rparr>"

definition lab_groups :: "Broker GroupCalls" where
  "lab_groups = \<lparr>gl_listGroups = (\<lambda>_. Inr [(DEFAULT_GROUP, ''consumer'')]), gl_describeGroups = (\<lambda>_ _. Inr [])\<rparr>"

theorem reset_shows_in_the_lag_route_witness:
  "\<exists>rep k1 info. reset_route broker_admin [''b''] ''bad'' (Obj [(''topic'', Str (hd wanted))]) lab_broker = (Inr rep, k1) \<and>
     lag_route broker_admin lab_groups [''b''] (Some DEFAULT_GROUP) k1 = (Inr info, k1) \<and> length (gi_topics info) = 1 \<and>
     gi_groupId info = DEFAULT_GROUP \<and>
     (\<forall>lag \<in> set (gi_topics info). tl_topic lag = hd wanted \<longrightarrow> tl_totalLag lag = 8)"
proof -
  let ?x = "reset_route broker_admin [''b''] ''bad'' (Obj [(''topic'', Str (hd wanted))]) lab_broker"
  let ?rep = "projr (fst ?x)" and ?k1 = "snd ?x"
  let ?y = "lag_route broker_admin lab_groups [''b''] (Some DEFAULT_GROUP) ?k1"
  let ?latest = "[\<lparr>po_partition = 1, po_low = 2, po_high = 7\<rparr>, \<lparr>po_partition = 0, po_low = 0, po_high = 3\<rparr>]"
  have c: "\<not> isl (fst ?x)" "\<not> isl (fst ?y)" "rr_groupId ?rep = DEFAULT_GROUP" "rr_topic ?rep = hd wanted" "rr_target ?rep = Earliest"
    "ad_fetchTopicOffsets broker_admin (hd wanted) lab_broker = Inr ?latest"
    "td_messages (describe_topic (hd wanted) ?latest) = 8" "length (gi_topics (projr (fst ?y))) = 1"
    by code_simp+
  have x: "?x = (Inr ?rep, ?k1)" and y: "?y = (Inr (projr (fst ?y)), snd ?y)"
    using c(1,2) by (cases "fst ?x"; cases "fst ?y"; simp add: prod_eq_iff)+
  have y': "lag_route broker_admin lab_groups [''b''] (Some (rr_groupId ?rep)) ?k1 = (Inr (projr (fst ?y)), snd ?y)"
    and latest: "ad_fetchTopicOffsets broker_admin (rr_topic ?rep) lab_broker = Inr ?latest" using y c(3,4,6) by simp_all
  note r = reset_shows_in_the_lag_route [OF broker_documented(2) x y' latest, unfolded c(3-5,7)]
  show ?thesis
    using x y r c(8) by (intro exI [of _ ?rep] exI [of _ ?k1] exI [of _ "projr (fst ?y)"]) auto
qed

end
