(* ===== verification/Engines.thy ===== *)
theory Engines
  imports QueueTypes Env
begin

text \<open>
  The other engines a task can be sent to: the Kafka task producer
  (\<open>src/queue/kafka-producer.backend.ts\<close>), the gRPC client of the Go engine
  (\<open>src/queue/go-engine.client.ts\<close>, \<open>go-engine.backend.ts\<close>) and the router between them
  (\<open>src/queue/engine-router.service.ts\<close>).

  kafkajs and gRPC are arguments: \<open>send\<close> answers a message for a topic with the places of the
  written records or an error, a Go call ends with a response or an error. The text of a number is
  \<open>num_text\<close>, and \<open>parse\<close> is \<open>JSON.parse\<close>, \<open>None\<close> when it throws.
\<close>

datatype engine_error =
    ProducerBrokersEmpty
  | ProducerNotConnected
  | ProducerFailed string
  | GoNotInitialised
  | GoCallFailed string
  | GoStatsFailed string
  | GoHealthFailed string

text \<open>\<open>WorkerBackendResult\<close>: the two modes of a backend's answer.\<close>

datatype WorkerBackendResult =
    Sync (sync_taskId: string) (sync_success: bool) (sync_result: jsval) (sync_error: "string option")
      (sync_durationMs: rat) (sync_backend: string)
  | Async (async_taskId: string) (async_topic: string) (async_partition: int) (async_offset: string)
      (async_backend: string)

section \<open>Kafka\<close>

definition TOPIC_HIGH :: string where "TOPIC_HIGH = ''tasks.high''"
definition TOPIC_NORMAL :: string where "TOPIC_NORMAL = ''tasks.normal''"
definition TOPIC_LOW :: string where "TOPIC_LOW = ''tasks.low''"

definition pickTopic :: "int \<Rightarrow> string" where
  "pickTopic p = (if p \<ge> 5 then TOPIC_HIGH else if p \<ge> 0 then TOPIC_NORMAL else TOPIC_LOW)"

record KafkaProducerConfig =
  kp_brokers :: "string list"
  kp_clientId :: string
  kp_enabled :: bool

definition kafkaProducerConfigFromEnv :: "env \<Rightarrow> bool \<Rightarrow> KafkaProducerConfig" where
  "kafkaProducerConfigFromEnv e enabled =
     \<lparr>kp_brokers = readKafkaBrokersEnv e ''localhost:9092'',
      kp_clientId = (case e ''KAFKA_CLIENT_ID'' of None \<Rightarrow> ''bulk-traffic-producer'' | Some c \<Rightarrow> c),
      kp_enabled = enabled\<rparr>"

text \<open>The configuration \<open>QueueModule\<close> injects: enabled for the kafka engine only.\<close>

definition producer_config :: "env \<Rightarrow> KafkaProducerConfig" where
  "producer_config e = kafkaProducerConfigFromEnv e (readWorkerEngineEnv e = KafkaEngine)"

record TaskMessage =
  tm_topic :: string
  tm_key :: string
  tm_payload :: jsobj

text \<open>\<open>kp_sent\<close> logs the messages whose \<open>send\<close> succeeded.\<close>

record KafkaProducerBackend =
  kp_config :: KafkaProducerConfig
  kp_connected :: bool
  kp_sent :: "TaskMessage list"

definition new_producer :: "KafkaProducerConfig \<Rightarrow> KafkaProducerBackend" where
  "new_producer c = \<lparr>kp_config = c, kp_connected = False, kp_sent = []\<rparr>"

definition kp_connect :: "string option \<Rightarrow> KafkaProducerBackend \<Rightarrow> engine_error + KafkaProducerBackend" where
  "kp_connect fault b =
     (if kp_brokers (kp_config b) = [] then Inl ProducerBrokersEmpty
      else case fault of Some e \<Rightarrow> Inl (ProducerFailed e) | None \<Rightarrow> Inr (b\<lparr>kp_connected := True\<rparr>))"

definition kp_onModuleInit :: "string option \<Rightarrow> KafkaProducerBackend \<Rightarrow> engine_error + KafkaProducerBackend" where
  "kp_onModuleInit fault b = (if \<not> kp_enabled (kp_config b) then Inr b else kp_connect fault b)"

definition kp_onModuleDestroy :: "string option \<Rightarrow> KafkaProducerBackend \<Rightarrow> engine_error + KafkaProducerBackend" where
  "kp_onModuleDestroy fault b =
     (if kp_connected b then
        (case fault of Some e \<Rightarrow> Inl (ProducerFailed e) | None \<Rightarrow> Inr (b\<lparr>kp_connected := False\<rparr>))
      else Inr b)"

record TaskRecord =
  tk_topicName :: string
  tk_partition :: int
  tk_baseOffset :: "string option"

type_synonym 'k task_send = "TaskMessage \<Rightarrow> 'k \<Rightarrow> (string + TaskRecord list) \<times> 'k"

definition opt_num :: "int option \<Rightarrow> jsval" where
  "opt_num n = (case n of None \<Rightarrow> Undefined | Some i \<Rightarrow> Num (num_of_int i))"

definition opt_text :: "string option \<Rightarrow> jsval" where
  "opt_text s = (case s of None \<Rightarrow> Undefined | Some t \<Rightarrow> Str t)"

definition task_payload :: "QueueTask \<Rightarrow> jsobj" where
  "task_payload t =
     [(''taskId'', Num (num_of_int (int (task_id t)))), (''requestId'', requestId t),
      (''priority'', Num (num_of_int (priority t))),
      (''workloadType'', opt_text (map_option workload_name (workloadType t))),
      (''category'', opt_text (category t)), (''size'', opt_num (task_size t)),
      (''params'', Obj (case params t of None \<Rightarrow> [] | Some ps \<Rightarrow> ps)),
      (''functionCode'', opt_text (functionCode t)), (''timeout'', opt_num (task_timeout t)),
      (''enqueuedAt'', Num (num_of_int (timestamp t)))]"

definition task_key :: "(jsnum \<Rightarrow> string) \<Rightarrow> QueueTask \<Rightarrow> string" where
  "task_key num_text t =
     (case requestId t of
        Undefined \<Rightarrow> show_int (int (task_id t))
      | Null \<Rightarrow> show_int (int (task_id t))
      | v \<Rightarrow> js_text num_text v)"

definition kp_execute ::
  "(jsnum \<Rightarrow> string) \<Rightarrow> 'k task_send \<Rightarrow> QueueTask \<Rightarrow> KafkaProducerBackend \<times> 'k \<Rightarrow>
     (engine_error + WorkerBackendResult) \<times> KafkaProducerBackend \<times> 'k" where
  "kp_execute num_text send t = (\<lambda>(b, k).
     if \<not> kp_connected b then (Inl ProducerNotConnected, b, k)
     else
       let msg = \<lparr>tm_topic = pickTopic (priority t), tm_key = task_key num_text t, tm_payload = task_payload t\<rparr> in
       case send msg k of
         (Inl e, k') \<Rightarrow> (Inl (ProducerFailed e), b, k')
       | (Inr [], k') \<Rightarrow> (Inl (ProducerFailed ''TypeError''), b\<lparr>kp_sent := kp_sent b @ [msg]\<rparr>, k')
       | (Inr (md # _), k') \<Rightarrow>
           (Inr (Async (show_int (int (task_id t))) (tk_topicName md) (tk_partition md)
                   (case tk_baseOffset md of None \<Rightarrow> ''undefined'' | Some off \<Rightarrow> off) ''kafka''),
            b\<lparr>kp_sent := kp_sent b @ [msg]\<rparr>, k'))"

text \<open>\<open>healthCheck\<close>: \<open>probe\<close> is what connecting an admin client and listing the topics throws.\<close>

definition kp_healthCheck :: "string option \<Rightarrow> KafkaProducerBackend \<Rightarrow> bool" where
  "kp_healthCheck probe b = (kp_connected b \<and> probe = None)"

section \<open>Go\<close>

definition DEFAULT_TASK_TIMEOUT_MS :: int where
  "DEFAULT_TASK_TIMEOUT_MS = 30000"

record GoRequest =
  gq_taskId :: string
  gq_workloadType :: WorkloadType
  gq_priority :: int
  gq_payload :: jsobj
  gq_timeoutMs :: int

record TaskResponse =
  rs_taskId :: string
  rs_success :: bool
  rs_result :: string
  rs_error :: string
  rs_durationMs :: rat
  rs_engine :: string

record GoEngineResult =
  gr_taskId :: string
  gr_success :: bool
  gr_result :: jsval
  gr_error :: string
  gr_durationMs :: rat
  gr_engine :: string

record GoEngineClient =
  gc_client :: bool
  gc_connected :: bool

text \<open>The address, and the life of the client: \<open>load\<close> is what loading the protocol definition throws,
  \<open>fault\<close> what the callback of \<open>waitForReady\<close> gets. \<open>go_closes\<close>: the client is closed at the end.\<close>

definition go_host :: "env \<Rightarrow> string" where
  "go_host e = (case e ''GO_ENGINE_HOST'' of None \<Rightarrow> ''localhost'' | Some h \<Rightarrow> if h = [] then ''localhost'' else h)"

definition go_port :: "env \<Rightarrow> int option" where
  "go_port e = parse_int (case e ''GO_ENGINE_PORT'' of None \<Rightarrow> ''50051'' | Some p \<Rightarrow> if p = [] then ''50051'' else p)"

definition go_address :: "(int option \<Rightarrow> string) \<Rightarrow> env \<Rightarrow> string" where
  "go_address port_text e = go_host e @ '':'' @ port_text (go_port e)"

definition new_go_client :: GoEngineClient where
  "new_go_client = \<lparr>gc_client = False, gc_connected = False\<rparr>"

definition go_connect :: "string option \<Rightarrow> GoEngineClient \<Rightarrow> string + GoEngineClient" where
  "go_connect load c = (case load of Some err \<Rightarrow> Inl err | None \<Rightarrow> Inr (c\<lparr>gc_client := True\<rparr>))"

definition go_ready :: "string option \<Rightarrow> GoEngineClient \<Rightarrow> GoEngineClient" where
  "go_ready fault c = c\<lparr>gc_connected := (fault = None)\<rparr>"

definition go_isConnected :: "GoEngineClient \<Rightarrow> bool" where
  "go_isConnected c = gc_connected c"

definition go_closes :: "GoEngineClient \<Rightarrow> bool" where
  "go_closes c = gc_client c"

text \<open>The two other calls: they answer or throw, and leave the connection flag alone.\<close>

record PoolStatsProto =
  ps_activeWorkers :: nat
  ps_queueLength :: nat
  ps_processed :: nat
  ps_failed :: nat
  ps_avgLatencyMs :: rat
  ps_p99LatencyMs :: rat

record EngineStatsProto =
  es_totalProcessed :: nat
  es_totalFailed :: nat
  es_activeTasks :: nat
  es_pools :: "(string \<times> PoolStatsProto) list"

record HealthResponseProto =
  hr_healthy :: bool
  hr_version :: string
  hr_uptimeSeconds :: rat

definition go_getStats :: "string + EngineStatsProto \<Rightarrow> GoEngineClient \<Rightarrow> engine_error + EngineStatsProto" where
  "go_getStats answer c =
     (if \<not> gc_client c then Inl GoNotInitialised
      else case answer of Inl e \<Rightarrow> Inl (GoStatsFailed e) | Inr st \<Rightarrow> Inr st)"

definition go_healthCheck :: "string + HealthResponseProto \<Rightarrow> GoEngineClient \<Rightarrow> engine_error + HealthResponseProto" where
  "go_healthCheck answer c =
     (if \<not> gc_client c then Inl GoNotInitialised
      else case answer of Inl e \<Rightarrow> Inl (GoHealthFailed e) | Inr h \<Rightarrow> Inr h)"

definition go_request :: "QueueTask \<Rightarrow> GoRequest" where
  "go_request t =
     \<lparr>gq_taskId = show_int (int (task_id t)),
      gq_workloadType = (case workloadType t of None \<Rightarrow> UNKNOWN | Some w \<Rightarrow> w),
      gq_priority = priority t,
      gq_payload = (case params t of None \<Rightarrow> [] | Some ps \<Rightarrow> ps),
      gq_timeoutMs = (case task_timeout t of None \<Rightarrow> DEFAULT_TASK_TIMEOUT_MS | Some ms \<Rightarrow> ms)\<rparr>"

definition parsed_result :: "(string \<Rightarrow> jsval option) \<Rightarrow> string \<Rightarrow> jsval" where
  "parsed_result parse raw =
     (if raw = [] then Null else case parse raw of Some v \<Rightarrow> v | None \<Rightarrow> Str raw)"

definition go_execute ::
  "(string \<Rightarrow> jsval option) \<Rightarrow> (GoRequest \<Rightarrow> string + TaskResponse) \<Rightarrow> QueueTask \<Rightarrow> GoEngineClient \<Rightarrow>
     (engine_error + GoEngineResult) \<times> GoEngineClient" where
  "go_execute parse call t c =
     (if \<not> gc_client c then (Inl GoNotInitialised, c)
      else case call (go_request t) of
             Inl e \<Rightarrow> (Inl (GoCallFailed e), c\<lparr>gc_connected := False\<rparr>)
           | Inr r \<Rightarrow>
               (Inr \<lparr>gr_taskId = rs_taskId r, gr_success = rs_success r, gr_result = parsed_result parse (rs_result r),
                     gr_error = rs_error r, gr_durationMs = rs_durationMs r, gr_engine = rs_engine r\<rparr>,
                c\<lparr>gc_connected := True\<rparr>))"

definition backend_result :: "GoEngineResult \<Rightarrow> WorkerBackendResult" where
  "backend_result r =
     Sync (gr_taskId r) (gr_success r) (gr_result r) (if gr_error r = [] then None else Some (gr_error r))
       (gr_durationMs r) ''go''"

definition go_backend_execute ::
  "(string \<Rightarrow> jsval option) \<Rightarrow> (GoRequest \<Rightarrow> string + TaskResponse) \<Rightarrow> QueueTask \<Rightarrow> GoEngineClient \<Rightarrow>
     (engine_error + WorkerBackendResult) \<times> GoEngineClient" where
  "go_backend_execute parse call t c = (let (r, c') = go_execute parse call t c in (map_sum id backend_result r, c'))"

definition go_backend_healthCheck :: "string + HealthResponseProto \<Rightarrow> GoEngineClient \<Rightarrow> bool" where
  "go_backend_healthCheck answer c = (case go_healthCheck answer c of Inl _ \<Rightarrow> False | Inr h \<Rightarrow> hr_healthy h)"

section \<open>Router\<close>

datatype backend = KafkaBackend | GoBackend

fun getBackend :: "WorkerEngine \<Rightarrow> backend option" where
  "getBackend KafkaEngine = Some KafkaBackend"
| "getBackend GoEngine = Some GoBackend"
| "getBackend _ = None"

text \<open>Direct calls, whatever the engine mode.\<close>

definition dispatchToGo ::
  "(string \<Rightarrow> jsval option) \<Rightarrow> (GoRequest \<Rightarrow> string + TaskResponse) \<Rightarrow> QueueTask \<Rightarrow> GoEngineClient \<Rightarrow>
     (engine_error + GoEngineResult) \<times> GoEngineClient" where
  "dispatchToGo parse call t c = go_execute parse call t c"

definition isBackendWired :: bool where
  "isBackendWired = False"

section \<open>Where a task goes\<close>

fun level_topic :: "level \<Rightarrow> string" where
  "level_topic High = ''tasks.high''"
| "level_topic Normal = ''tasks.normal''"
| "level_topic Low = ''tasks.low''"

lemma pickTopic_level: "pickTopic p = level_topic (level_of p)"
  by (simp add: pickTopic_def level_of_def TOPIC_HIGH_def TOPIC_NORMAL_def TOPIC_LOW_def)

lemma inj_level_topic: "inj level_topic"
  by (rule injI) (auto elim!: level_topic.elims)

lemma started_producer:
  assumes "kp_onModuleInit fault (new_producer (producer_config e)) = Inr b"
  shows "kp_connected b \<longleftrightarrow> getBackend (readWorkerEngineEnv e) = Some KafkaBackend" and "kp_sent b = []"
  using assms
  by (cases "readWorkerEngineEnv e";
      auto simp: kp_onModuleInit_def kp_connect_def new_producer_def producer_config_def kafkaProducerConfigFromEnv_def
      split: if_splits option.splits)+

text \<open>A task published to Kafka goes to the topic of its queue level. A producer started by the
  module publishes exactly in the engine mode whose backend it is; then one message is sent per
  task, to the topic of the level at which the queue itself would serve the priority (tasks of two
  levels never share a topic), with the request id or else the task id as key, and the answer is
  the place of the first written record. In any other mode, and when \<open>send\<close> throws, nothing counts
  as sent.\<close>

theorem kafka_tasks_go_to_their_level:
  assumes "kp_onModuleInit fault (new_producer (producer_config e)) = Inr b"
    and "kp_execute num_text send t (b, k) = (r, b', k')"
    and "msg = \<lparr>tm_topic = level_topic (level_of (priority t)), tm_key = task_key num_text t, tm_payload = task_payload t\<rparr>"
  shows "inj level_topic \<and>
         (if getBackend (readWorkerEngineEnv e) \<noteq> Some KafkaBackend then r = Inl ProducerNotConnected \<and> b' = b \<and> k' = k
          else k' = snd (send msg k) \<and>
            (case fst (send msg k) of
               Inl err \<Rightarrow> r = Inl (ProducerFailed err) \<and> b' = b
             | Inr records \<Rightarrow>
                 kp_sent b' = [msg] \<and> kp_connected b' \<and>
                 (\<forall>md rest. records = md # rest \<longrightarrow>
                    (\<exists>off. r = Inr (Async (show_int (int (task_id t))) (tk_topicName md) (tk_partition md) off ''kafka'')))))"
  using assms(2) started_producer [OF assms(1)] inj_level_topic
  by (auto simp: kp_execute_def pickTopic_level assms(3) Let_def split: if_splits prod.splits sum.splits list.splits)

definition kafka_env :: env where
  "kafka_env = (\<lambda>_. None)(''WORKER_ENGINE'' \<mapsto> ''kafka'')"

definition sample_task :: QueueTask where
  "sample_task =
     \<lparr>task_id = 7, requestId = Str ''r'', timestamp = 0, priority = 5, category = None, task_size = None,
      workloadType = None, params = None, functionCode = None, task_timeout = None\<rparr>"

definition echo_send :: "nat task_send" where
  "echo_send = (\<lambda>msg k. (Inr [\<lparr>tk_topicName = tm_topic msg, tk_partition = 0, tk_baseOffset = Some (show_int (int k))\<rparr>], k + 1))"

theorem kafka_tasks_go_to_their_level_witness:
  "\<exists>b. kp_onModuleInit None (new_producer (producer_config kafka_env)) = Inr b \<and>
     map tm_topic (kp_sent (fst (snd (kp_execute (\<lambda>_. []) echo_send sample_task (b, 3))))) = [''tasks.high''] \<and>
     snd (snd (kp_execute (\<lambda>_. []) echo_send sample_task (b, 3))) = 4"
proof -
  let ?b = "projr (kp_onModuleInit None (new_producer (producer_config kafka_env)))"
  have "\<not> isl (kp_onModuleInit None (new_producer (producer_config kafka_env)))" by code_simp
  then have b: "kp_onModuleInit None (new_producer (producer_config kafka_env)) = Inr ?b"
    by (cases "kp_onModuleInit None (new_producer (producer_config kafka_env))") simp_all
  have engine: "getBackend (readWorkerEngineEnv kafka_env) = Some KafkaBackend" by code_simp
  obtain r b' k' where x: "kp_execute (\<lambda>_. []) echo_send sample_task (?b, 3) = (r, b', k')" by (metis surj_pair)
  have "kp_sent b' = [\<lparr>tm_topic = level_topic (level_of (priority sample_task)), tm_key = task_key (\<lambda>_. []) sample_task,
      tm_payload = task_payload sample_task\<rparr>]" "k' = 4"
    using kafka_tasks_go_to_their_level [OF b x refl] engine by (simp_all add: echo_send_def)
  moreover have "level_topic (level_of (priority sample_task)) = ''tasks.high''" by code_simp
  ultimately show ?thesis using b x by (intro exI [of _ ?b]) simp
qed

end
