(* ===== verification/Snapshot.thy ===== *)
theory Snapshot
  imports QueueState Env
begin

text \<open>
  Persistence of the queue's counters: \<open>src/queue/queue-snapshot.manager.ts\<close> over the interface
  \<open>src/queue/persistence/persistence.interface.ts\<close> and its implementation
  \<open>src/queue/persistence/file-persistence.service.ts\<close>. The interface is the locale
  \<open>queue_persistence\<close>; the manager's theorems are proved in it and reach the file implementation
  through the interpretation \<open>file_store\<close>. The file is the parsed document it holds, after the
  losses of \<open>JSON.stringify\<close>; a file that is absent, is not JSON, or cannot be read are the other
  cases.
\<close>

section \<open>The snapshot\<close>

text \<open>A value after \<open>JSON.parse(JSON.stringify(v))\<close>: numbers that are not finite become null,
  \<open>undefined\<close> becomes null in an array and disappears from an object.\<close>

primrec json_value :: "jsval \<Rightarrow> jsval" where
  "json_value Undefined = Undefined"
| "json_value Null = Null"
| "json_value (Bool b) = Bool b"
| "json_value (Num n) = (case n of Fin _ \<Rightarrow> Num n | _ \<Rightarrow> Null)"
| "json_value (Str s) = Str s"
| "json_value (Arr vs) = Arr (map (\<lambda>v. if v = Undefined then Null else v) (map json_value vs))"
| "json_value (Obj kvs) = Obj (filter (\<lambda>(_, v). v \<noteq> Undefined) (map (map_prod id json_value) kvs))"

definition serializeTask :: "QueueTask \<Rightarrow> SerializedTask" where
  "serializeTask t =
     \<lparr>ser_id = task_id t, ser_requestId = requestId t, ser_timestamp = timestamp t,
      ser_priority = priority t, ser_category = category t, ser_size = task_size t\<rparr>"

definition serializeQueue :: "QueueTask list \<Rightarrow> SerializedTask list" where
  "serializeQueue queue = map serializeTask queue"

definition json_task :: "SerializedTask \<Rightarrow> SerializedTask" where
  "json_task t = t\<lparr>ser_requestId := json_value (ser_requestId t)\<rparr>"

definition json_snapshot :: "QueueSnapshot \<Rightarrow> QueueSnapshot" where
  "json_snapshot s =
     s\<lparr>snap_high := map json_task (snap_high s), snap_normal := map json_task (snap_normal s),
       snap_low := map json_task (snap_low s)\<rparr>"

section \<open>The interface\<close>

text \<open>What the manager relies on. \<open>saveSnapshot\<close> and \<open>clearSnapshot\<close> may throw (\<open>Inl\<close>);
  \<open>usable\<close> says when the medium accepts a write, \<open>fresh\<close> when a snapshot is young enough.\<close>

locale queue_persistence =
  fixes saveSnapshot :: "QueueSnapshot \<Rightarrow> 'm \<Rightarrow> string + 'm"
    and loadSnapshot :: "int \<Rightarrow> 'm \<Rightarrow> (string + QueueSnapshot option) \<times> 'm"
    and clearSnapshot :: "'m \<Rightarrow> string + 'm"
    and usable :: "'m \<Rightarrow> bool"
    and fresh :: "int \<Rightarrow> QueueSnapshot \<Rightarrow> bool"
    and stored :: "QueueSnapshot \<Rightarrow> QueueSnapshot"
  assumes load_saved: "usable m \<Longrightarrow> saveSnapshot snap m = Inr m' \<Longrightarrow> fresh now snap \<Longrightarrow>
      fst (loadSnapshot now m') = Inr (Some (stored snap))"
    and save_usable: "usable m \<Longrightarrow> \<exists>m'. saveSnapshot snap m = Inr m' \<and> usable m'"
    and load_usable: "usable m \<Longrightarrow> usable (snd (loadSnapshot now m))"
    and clear_usable: "usable m \<Longrightarrow> \<exists>m'. clearSnapshot m = Inr m' \<and> usable m' \<and>
      fst (loadSnapshot now m') = Inr None"
    and stored_counts: "snap_totalProcessed (stored s) = snap_totalProcessed s"
      "snap_totalRejected (stored s) = snap_totalRejected s"
      "snap_totalTimeout (stored s) = snap_totalTimeout s"
      "snap_taskIdCounter (stored s) = snap_taskIdCounter s" "snap_timestamp (stored s) = snap_timestamp s"
      "length (snap_high (stored s)) = length (snap_high s)"

section \<open>The manager\<close>

record SnapshotManager =
  ms_stats :: QueueStats
  lastSnapshotAt :: "int option"

definition snapshot_of :: "int \<Rightarrow> QueueState \<Rightarrow> QueueStats \<Rightarrow> QueueSnapshot" where
  "snapshot_of now q st =
     \<lparr>snap_timestamp = now, snap_high = serializeQueue (highPriorityQueue q),
      snap_normal = serializeQueue (normalPriorityQueue q), snap_low = serializeQueue (lowPriorityQueue q),
      snap_totalProcessed = totalProcessed st, snap_totalRejected = totalRejected st,
      snap_totalTimeout = totalTimeout st, snap_taskIdCounter = taskIdCounter q\<rparr>"

text \<open>\<open>save\<close> with persistence enabled: the clock is read once for the snapshot and once after it.\<close>

definition manager_save ::
  "(QueueSnapshot \<Rightarrow> 'm \<Rightarrow> string + 'm) \<Rightarrow> int \<Rightarrow> int \<Rightarrow> QueueState \<Rightarrow> SnapshotManager \<times> 'm \<Rightarrow> SnapshotManager \<times> 'm" where
  "manager_save saveSnapshot now later q = (\<lambda>(mg, m).
     case saveSnapshot (snapshot_of now q (ms_stats mg)) m of
       Inl err \<Rightarrow> (mg, m)
     | Inr m' \<Rightarrow> (mg\<lparr>lastSnapshotAt := Some later\<rparr>, m'))"

definition manager_restore ::
  "(int \<Rightarrow> 'm \<Rightarrow> (string + QueueSnapshot option) \<times> 'm) \<Rightarrow> ('m \<Rightarrow> string + 'm) \<Rightarrow> int \<Rightarrow>
   SnapshotManager \<times> 'm \<Rightarrow> nat option \<times> SnapshotManager \<times> 'm" where
  "manager_restore loadSnapshot clearSnapshot now = (\<lambda>(mg, m).
     case loadSnapshot now m of
       (Inl err, m1) \<Rightarrow> (None, mg, m1)
     | (Inr None, m1) \<Rightarrow> (None, mg, m1)
     | (Inr (Some snap), m1) \<Rightarrow>
         (let mg' = mg\<lparr>ms_stats := (ms_stats mg)\<lparr>totalProcessed := snap_totalProcessed snap,
                          totalRejected := snap_totalRejected snap, totalTimeout := snap_totalTimeout snap\<rparr>,
                       lastSnapshotAt := Some (snap_timestamp snap)\<rparr>;
              m2 = (case clearSnapshot m1 of Inl err \<Rightarrow> m1 | Inr m' \<Rightarrow> m')
          in (Some (snap_taskIdCounter snap), mg', m2)))"

context queue_persistence
begin

text \<open>A snapshot saved before a restart and read back in time restores the totals and the task
  counter, and is used up: a second restart finds none.\<close>

lemma save_restore:
  assumes "usable m" and "manager_save saveSnapshot now later q (mg, m) = (mg1, m1)"
    and "fresh now' (snapshot_of now q (ms_stats mg))"
    and "manager_restore loadSnapshot clearSnapshot now' (mg0, m1) = (counter, mg2, m2)"
  shows "counter = Some (taskIdCounter q) \<and>
         totalProcessed (ms_stats mg2) = totalProcessed (ms_stats mg) \<and>
         totalRejected (ms_stats mg2) = totalRejected (ms_stats mg) \<and>
         totalTimeout (ms_stats mg2) = totalTimeout (ms_stats mg) \<and>
         lastSnapshotAt mg1 = Some later \<and> lastSnapshotAt mg2 = Some now \<and>
         fst (manager_restore loadSnapshot clearSnapshot now'' (mg3, m2)) = None"
proof -
  let ?snap = "snapshot_of now q (ms_stats mg)"
  obtain m' where sv: "saveSnapshot ?snap m = Inr m'" "usable m'" using save_usable [OF assms(1)] by blast
  then have m1: "m1 = m'" "lastSnapshotAt mg1 = Some later" using assms(2) by (auto simp: manager_save_def)
  obtain m3 where ld: "loadSnapshot now' m' = (Inr (Some (stored ?snap)), m3)"
    using load_saved [OF assms(1) sv(1) assms(3)] by (cases "loadSnapshot now' m'") auto
  have "usable m3" using load_usable [OF sv(2), of now'] ld by simp
  then obtain m4 where cl: "clearSnapshot m3 = Inr m4" "fst (loadSnapshot now'' m4) = Inr None"
    using clear_usable [of m3 now''] by blast
  have "m2 = m4" using assms(4) m1 ld cl(1) by (auto simp: manager_restore_def Let_def)
  with assms(4) m1 ld cl show ?thesis
    by (auto simp: manager_restore_def Let_def stored_counts snapshot_of_def split: prod.splits sum.splits)
qed

lemma nothing_saved:
  assumes "fst (loadSnapshot now m) = Inr None"
  shows "fst (manager_restore loadSnapshot clearSnapshot now (mg, m)) = None \<and>
         fst (snd (manager_restore loadSnapshot clearSnapshot now (mg, m))) = mg"
  using assms by (auto simp: manager_restore_def split: prod.splits)

end

section \<open>The file implementation\<close>

datatype snapshot_file = Absent | Document QueueSnapshot | NotJson | Unreadable

record FileStore =
  snapshotFile :: snapshot_file
  writable :: bool

definition maxSnapshotAgeMs :: "env \<Rightarrow> int" where
  "maxSnapshotAgeMs e = readPositiveIntEnv e ''QUEUE_SNAPSHOT_MAX_AGE_MS'' (5 * 60 * 1000)"

text \<open>Every method catches what the file system throws, so none of them throws.\<close>

definition file_saveSnapshot :: "QueueSnapshot \<Rightarrow> FileStore \<Rightarrow> string + FileStore" where
  "file_saveSnapshot snap fs =
     Inr (if writable fs then fs\<lparr>snapshotFile := Document (json_snapshot snap)\<rparr> else fs)"

definition file_clearSnapshot :: "FileStore \<Rightarrow> string + FileStore" where
  "file_clearSnapshot fs = Inr (if writable fs then fs\<lparr>snapshotFile := Absent\<rparr> else fs)"

definition file_loadSnapshot ::
  "int \<Rightarrow> int \<Rightarrow> FileStore \<Rightarrow> (string + QueueSnapshot option) \<times> FileStore" where
  "file_loadSnapshot maxAge now fs =
     (case snapshotFile fs of
        Document snap \<Rightarrow>
          if now - snap_timestamp snap > maxAge then
            (Inr None, case file_clearSnapshot fs of Inr fs' \<Rightarrow> fs' | Inl _ \<Rightarrow> fs)
          else (Inr (Some snap), fs)
      | Absent \<Rightarrow> (Inr None, fs)
      | NotJson \<Rightarrow> (Inr None, fs)
      | Unreadable \<Rightarrow> (Inr None, fs))"

text \<open>The module's choice of an implementation.\<close>

definition persistence_enabled :: "env \<Rightarrow> bool" where
  "persistence_enabled e = (e ''QUEUE_PERSISTENCE'' = Some ''file'')"

interpretation file_store: queue_persistence file_saveSnapshot "file_loadSnapshot maxAge" file_clearSnapshot
  writable "\<lambda>now snap. now - snap_timestamp snap \<le> maxAge" json_snapshot for maxAge
  by unfold_locales
     (auto simp: file_saveSnapshot_def file_loadSnapshot_def file_clearSnapshot_def json_snapshot_def
       split: snapshot_file.splits)

section \<open>Theorems\<close>

text \<open>A restart keeps the books: with a writable snapshot file, what \<open>save\<close> wrote before
  shutdown is what \<open>restore\<close> reads within the maximal age, so the task counter and the three totals
  continue from their old values; the snapshot is then gone, and a further restart restores
  nothing.\<close>

lemma snapshot_survives_restart:
  assumes "writable fs" and "manager_save file_saveSnapshot now later q (mg, fs) = (mg1, fs1)"
    and "now' - now \<le> maxAge"
    and "manager_restore (file_loadSnapshot maxAge) file_clearSnapshot now' (mg0, fs1) = (counter, mg2, fs2)"
  shows "counter = Some (taskIdCounter q) \<and>
         totalProcessed (ms_stats mg2) = totalProcessed (ms_stats mg) \<and>
         totalRejected (ms_stats mg2) = totalRejected (ms_stats mg) \<and>
         totalTimeout (ms_stats mg2) = totalTimeout (ms_stats mg) \<and>
         fst (manager_restore (file_loadSnapshot maxAge) file_clearSnapshot now'' (mg3, fs2)) = None"
  using file_store.save_restore [OF assms(1,2) _ assms(4), of now'' mg3] assms(3)
  by (simp add: snapshot_of_def)

lemma snapshot_survives_restart_witness:
  "let mg = \<lparr>ms_stats = init_stats\<lparr>totalProcessed := 9\<rparr>, lastSnapshotAt = None\<rparr>;
       q = init_queue_state\<lparr>taskIdCounter := 12\<rparr>;
       (_, fs1) = manager_save file_saveSnapshot 100 101 q (mg, \<lparr>snapshotFile = Absent, writable = True\<rparr>)
   in fst (manager_restore (file_loadSnapshot 1000) file_clearSnapshot 500
        (\<lparr>ms_stats = init_stats, lastSnapshotAt = None\<rparr>, fs1)) = Some 12"
proof -
  define mg where "mg = \<lparr>ms_stats = init_stats\<lparr>totalProcessed := 9\<rparr>, lastSnapshotAt = None\<rparr>"
  define q where "q = init_queue_state\<lparr>taskIdCounter := 12\<rparr>"
  obtain mg1 fs1 where s: "manager_save file_saveSnapshot 100 101 q (mg, \<lparr>snapshotFile = Absent, writable = True\<rparr>) = (mg1, fs1)"
    by fastforce
  obtain c mg2 fs2 where r: "manager_restore (file_loadSnapshot 1000) file_clearSnapshot 500
        (\<lparr>ms_stats = init_stats, lastSnapshotAt = None\<rparr>, fs1) = (c, mg2, fs2)"
    by (cases "manager_restore (file_loadSnapshot 1000) file_clearSnapshot 500
        (\<lparr>ms_stats = init_stats, lastSnapshotAt = None\<rparr>, fs1)") auto
  have "c = Some 12"
    using snapshot_survives_restart [OF _ s _ r] by (simp add: q_def)
  then show ?thesis using s r unfolding mg_def q_def Let_def by simp
qed

text \<open>A failed write is reported as a successful snapshot: the file service swallows the error,
  so the manager records a new \<open>lastSnapshotAt\<close> although the file still holds the old contents.\<close>

theorem failed_write_updates_lastSnapshotAt:
  assumes "\<not> writable fs"
  shows "manager_save file_saveSnapshot now later q (mg, fs) = (mg\<lparr>lastSnapshotAt := Some later\<rparr>, fs)"
  using assms by (simp add: manager_save_def file_saveSnapshot_def)

theorem failed_write_updates_lastSnapshotAt_witness:
  "manager_save file_saveSnapshot 1 2 init_queue_state
     (\<lparr>ms_stats = init_stats, lastSnapshotAt = None\<rparr>, \<lparr>snapshotFile = Absent, writable = False\<rparr>) =
   (\<lparr>ms_stats = init_stats, lastSnapshotAt = Some 2\<rparr>, \<lparr>snapshotFile = Absent, writable = False\<rparr>)"
  using failed_write_updates_lastSnapshotAt [of "\<lparr>snapshotFile = Absent, writable = False\<rparr>" 1 2 init_queue_state
    "\<lparr>ms_stats = init_stats, lastSnapshotAt = None\<rparr>"] by simp

end
