(* ===== verification/QueueService.thy ===== *)
theory QueueService
  imports QueueBounds Snapshot
begin

text \<open>
  The parts of \<open>src/queue/queue.service.ts\<close> around the state machine: start-up with the restored
  snapshot, saving a snapshot, and the statistics view.
\<close>

section \<open>Start-up and shutdown\<close>

text \<open>\<open>onModuleInit\<close>: restore if persistence is on, take over the counter, start the intervals and
  the workers. The statistics object is new and gets the restored totals.\<close>

definition onModuleInit :: "env \<Rightarrow> int \<Rightarrow> FileStore \<Rightarrow> Sys \<times> SnapshotManager \<times> FileStore" where
  "onModuleInit e now fs =
     (let mg = \<lparr>ms_stats = init_stats, lastSnapshotAt = None\<rparr>;
          (restored, mg', fs') =
            (if persistence_enabled e
             then manager_restore (file_loadSnapshot (maxSnapshotAgeMs e)) file_clearSnapshot now (mg, fs)
             else (None, mg, fs));
          counter = (case restored of None \<Rightarrow> 0 | Some c \<Rightarrow> c)
      in (sys_init e counter (ms_stats mg'), mg', fs'))"

definition save_snapshot :: "env \<Rightarrow> int \<Rightarrow> int \<Rightarrow> Sys \<Rightarrow> SnapshotManager \<times> FileStore \<Rightarrow> SnapshotManager \<times> FileStore" where
  "save_snapshot e now later s = (\<lambda>(mg, fs).
     if persistence_enabled e
     then manager_save file_saveSnapshot now later (queue s) (mg\<lparr>ms_stats := stats s\<rparr>, fs)
     else (mg, fs))"

section \<open>The statistics view\<close>

record QueueStatsView =
  v_highPriorityQueueLength :: nat
  v_normalPriorityQueueLength :: nat
  v_lowPriorityQueueLength :: nat
  v_batchQueueCount :: nat
  v_batchTaskCount :: nat
  v_totalQueueLength :: nat
  v_activeRequests :: int
  v_totalProcessed :: nat
  v_totalRejected :: nat
  v_totalTimeout :: nat
  v_fallbackCount :: nat
  v_recentProcessed :: nat
  v_recentRejected :: nat
  v_recentTimeout :: nat
  v_memoryPressure :: bool
  v_workerPool :: PoolStats
  v_persistence :: "bool \<times> int option \<times> int option"

definition getQueueStats :: "env \<Rightarrow> SnapshotManager \<Rightarrow> Sys \<Rightarrow> QueueStatsView" where
  "getQueueStats e mg s =
     \<lparr>v_highPriorityQueueLength = length (highPriorityQueue (queue s)),
      v_normalPriorityQueueLength = length (normalPriorityQueue (queue s)),
      v_lowPriorityQueueLength = length (lowPriorityQueue (queue s)),
      v_batchQueueCount = length (batchQueues (queue s)),
      v_batchTaskCount = getBatchTaskCount (queue s),
      v_totalQueueLength = getTotalQueueLength (queue s),
      v_activeRequests = activeRequests (queue s),
      v_totalProcessed = totalProcessed (stats s), v_totalRejected = totalRejected (stats s),
      v_totalTimeout = totalTimeout (stats s), v_fallbackCount = fallbackCount s,
      v_recentProcessed = recentProcessed (stats s), v_recentRejected = recentRejected (stats s),
      v_recentTimeout = recentTimeout (stats s), v_memoryPressure = memoryPressure s,
      v_workerPool = getPoolStats (pool s),
      v_persistence =
        (persistence_enabled e,
         if persistence_enabled e then Some (readPositiveIntEnv e ''QUEUE_SNAPSHOT_INTERVAL_MS'' 30000) else None,
         lastSnapshotAt mg)\<rparr>"

section \<open>Facts\<close>

lemma onModuleInit_start: "onModuleInit e now fs = (s, mg, fs') \<Longrightarrow> start_state s"
  by (auto simp: onModuleInit_def start_state_def Let_def split: prod.splits)

lemma restart_counter:
  assumes "persistence_enabled e" and "writable fs"
    and "save_snapshot e now later s (mg, fs) = (mg1, fs1)" and "now' - now \<le> maxSnapshotAgeMs e"
    and "onModuleInit e now' fs1 = (s1, mg2, fs2)"
  shows "taskIdCounter (queue s1) = taskIdCounter (queue s)" "totalProcessed (stats s1) = totalProcessed (stats s)"
    "totalRejected (stats s1) = totalRejected (stats s)" "totalTimeout (stats s1) = totalTimeout (stats s)"
proof -
  let ?mg = "\<lparr>ms_stats = init_stats, lastSnapshotAt = None\<rparr>"
  have sv: "manager_save file_saveSnapshot now later (queue s) (mg\<lparr>ms_stats := stats s\<rparr>, fs) = (mg1, fs1)"
    using assms(1,3) by (simp add: save_snapshot_def)
  obtain c mg3 fs3 where rs: "manager_restore (file_loadSnapshot (maxSnapshotAgeMs e)) file_clearSnapshot now'
      (?mg, fs1) = (c, mg3, fs3)"
    by (cases "manager_restore (file_loadSnapshot (maxSnapshotAgeMs e)) file_clearSnapshot now' (?mg, fs1)") auto
  have "now' - snap_timestamp (snapshot_of now (queue s) (ms_stats (mg\<lparr>ms_stats := stats s\<rparr>))) \<le> maxSnapshotAgeMs e"
    using assms(4) by (simp add: snapshot_of_def)
  note r = file_store.save_restore [OF assms(2) sv this rs]
  have "s1 = sys_init e (case c of None \<Rightarrow> 0 | Some n \<Rightarrow> n) (ms_stats mg3)"
    using assms(1,5) rs by (auto simp: onModuleInit_def Let_def)
  then show "taskIdCounter (queue s1) = taskIdCounter (queue s)" "totalProcessed (stats s1) = totalProcessed (stats s)"
    "totalRejected (stats s1) = totalRejected (stats s)" "totalTimeout (stats s1) = totalTimeout (stats s)"
    using r by (simp_all add: sys_init_def init_queue_state_def)
qed

lemma reachable_ids:
  assumes "reachable s0 s" and "i \<in># ids s"
  shows "taskIdCounter (queue s0) < i \<and> i \<le> taskIdCounter (queue s)"
  using reachable_inv [OF assms(1)] assms(2) mset_subset_eqD by (fastforce simp: sys_inv_def)

end
