(* ===== verification/ServerTexts.thy ===== *)
theory ServerTexts
  imports Main
begin

text \<open>
  The Korean texts of the consumer process and of the server (\<open>src/consumer.ts\<close>, \<open>src/main.ts\<close> and the
  exception filter), as UTF-8 bytes.
\<close>

definition TXT_CFG_INSTANCES :: string where
  "TXT_CFG_INSTANCES =
     [CHR 0xEC, CHR 0x9D, CHR 0xB8, CHR 0xEC, CHR 0x8A, CHR 0xA4, CHR 0xED, CHR 0x84, CHR 0xB4,
      CHR 0xEC, CHR 0x8A, CHR 0xA4] @ ''=''"

definition TXT_CFG_COMMIT :: string where
  "TXT_CFG_COMMIT =
     [CHR 0xEC, CHR 0xBB, CHR 0xA4, CHR 0xEB, CHR 0xB0, CHR 0x8B] @ ''=''"

definition TXT_CFG_DELAY :: string where
  "TXT_CFG_DELAY =
     [CHR 0xEC, CHR 0xB2, CHR 0x98, CHR 0xEB, CHR 0xA6, CHR 0xAC, CHR 0xEC, CHR 0xA7, CHR 0x80,
      CHR 0xEC, CHR 0x97, CHR 0xB0] @ ''=''"

definition TXT_CFG_COMMIT_DELAY :: string where
  "TXT_CFG_COMMIT_DELAY =
     [CHR 0xEC, CHR 0xBB, CHR 0xA4, CHR 0xEB, CHR 0xB0, CHR 0x8B, CHR 0xEC, CHR 0xA7, CHR 0x80,
      CHR 0xEC, CHR 0x97, CHR 0xB0] @ ''=''"

definition TXT_CFG_FROM_START :: string where
  "TXT_CFG_FROM_START =
     [CHR 0xEC, CHR 0xB2, CHR 0x98, CHR 0xEC, CHR 0x9D, CHR 0x8C, CHR 0xEB, CHR 0xB6, CHR 0x80,
      CHR 0xED, CHR 0x84, CHR 0xB0]"

definition TXT_CFG_CRASH :: string where
  "TXT_CFG_CRASH =
     [CHR 0xEA, CHR 0xB1, CHR 0xB4] @ '' '' @ [CHR 0xED, CHR 0x9B, CHR 0x84] @ '' '' @ [CHR 0xEA,
      CHR 0xB0, CHR 0x95, CHR 0xEC, CHR 0xA0, CHR 0x9C, CHR 0xEC, CHR 0xA2, CHR 0x85, CHR 0xEB,
      CHR 0xA3, CHR 0x8C]"

definition TXT_CFG_SESSION :: string where
  "TXT_CFG_SESSION =
     [CHR 0xEC, CHR 0x84, CHR 0xB8, CHR 0xEC, CHR 0x85, CHR 0x98, CHR 0xEB, CHR 0xA7, CHR 0x8C,
      CHR 0xEB, CHR 0xA3, CHR 0x8C] @ ''=''"

definition TXT_CON_START :: string where
  "TXT_CON_START =
     ''[consumer] '' @ [CHR 0xEC, CHR 0x8B, CHR 0x9C, CHR 0xEC, CHR 0x9E, CHR 0x91] @ '' ''"

definition TXT_CON_TOPICS :: string where
  "TXT_CON_TOPICS =
     ''[consumer] '' @ [CHR 0xEA, CHR 0xB5, CHR 0xAC, CHR 0xEB, CHR 0x8F, CHR 0x85] @ '' '' @
      [CHR 0xED, CHR 0x86, CHR 0xA0, CHR 0xED, CHR 0x94, CHR 0xBD] @ '': ''"

definition TXT_CON_END :: string where
  "TXT_CON_END =
     ''[consumer] '' @ [CHR 0xEC, CHR 0xA2, CHR 0x85, CHR 0xEB, CHR 0xA3, CHR 0x8C] @ '': ''"

definition TXT_CON_SUBJECT :: string where
  "TXT_CON_SUBJECT =
     '' '' @ [CHR 0xEA, CHR 0xB0, CHR 0x80] @ '' ''"

definition TXT_CON_LEAVES :: string where
  "TXT_CON_LEAVES =
     [CHR 0xEA, CHR 0xB1, CHR 0xB4] @ '' '' @ [CHR 0xEC, CHR 0xB2, CHR 0x98, CHR 0xEB, CHR 0xA6,
      CHR 0xAC] @ '' '' @ [CHR 0xED, CHR 0x9B, CHR 0x84] @ '' '' @ [CHR 0xEC, CHR 0xBB, CHR 0xA4,
      CHR 0xEB, CHR 0xB0, CHR 0x8B] @ '' '' @ [CHR 0xEC, CHR 0x97, CHR 0x86, CHR 0xEC, CHR 0x9D,
      CHR 0xB4] @ '' '' @ [CHR 0xEB, CHR 0xB9, CHR 0xA0, CHR 0xEC, CHR 0xA7, CHR 0x91, CHR 0xEB,
      CHR 0x8B, CHR 0x88, CHR 0xEB, CHR 0x8B, CHR 0xA4] @ ''. ('' @ [CHR 0xEB, CHR 0x82, CHR 0xA8,
      CHR 0xEC, CHR 0x9D, CHR 0x80] @ '' '' @ [CHR 0xEC, CHR 0xBB, CHR 0xA8, CHR 0xEC, CHR 0x8A,
      CHR 0x88, CHR 0xEB, CHR 0xA8, CHR 0xB8, CHR 0xEA, CHR 0xB0, CHR 0x80] @ '' '' @ [CHR 0xEA,
      CHR 0xB7, CHR 0xB8] @ '' '' @ [CHR 0xED, CHR 0x8C, CHR 0x8C, CHR 0xED, CHR 0x8B, CHR 0xB0,
      CHR 0xEC, CHR 0x85, CHR 0x98, CHR 0xEC, CHR 0x9D, CHR 0x84] @ '' '' @ [CHR 0xEB, CHR 0x84,
      CHR 0x98, CHR 0xEA, CHR 0xB2, CHR 0xA8, CHR 0xEB, CHR 0xB0, CHR 0x9B, CHR 0xEC, CHR 0x95,
      CHR 0x84] @ '' '' @ [CHR 0xEB, CHR 0x8B, CHR 0xA4, CHR 0xEC, CHR 0x8B, CHR 0x9C] @ '' '' @
      [CHR 0xEC, CHR 0x9D, CHR 0xBD, CHR 0xEC, CHR 0x9C, CHR 0xBC, CHR 0xEB, CHR 0xA9, CHR 0xB4] @
      '' '' @ [CHR 0xEC, CHR 0xA4, CHR 0x91, CHR 0xEB, CHR 0xB3, CHR 0xB5, CHR 0xEC, CHR 0x9D,
      CHR 0xB4] @ '' '' @ [CHR 0xEA, CHR 0xB4, CHR 0x80, CHR 0xEC, CHR 0xB8, CHR 0xA1, CHR 0xEB,
      CHR 0x90, CHR 0xA9, CHR 0xEB, CHR 0x8B, CHR 0x88, CHR 0xEB, CHR 0x8B, CHR 0xA4] @ '')''"

definition TXT_CON_ALL_LEFT :: string where
  "TXT_CON_ALL_LEFT =
     ''[consumer] '' @ [CHR 0xEB, CHR 0xAA, CHR 0xA8, CHR 0xEB, CHR 0x93, CHR 0xA0] @ '' '' @
      [CHR 0xEC, CHR 0xBB, CHR 0xA8, CHR 0xEC, CHR 0x8A, CHR 0x88, CHR 0xEB, CHR 0xA8, CHR 0xB8,
      CHR 0xEA, CHR 0xB0, CHR 0x80] @ '' '' @ [CHR 0xEB, CHR 0xB9, CHR 0xA0, CHR 0xEC, CHR 0xA0,
      CHR 0xB8] @ '' '' @ [CHR 0xED, CHR 0x94, CHR 0x84, CHR 0xEB, CHR 0xA1, CHR 0x9C, CHR 0xEC,
      CHR 0x84, CHR 0xB8, CHR 0xEC, CHR 0x8A, CHR 0xA4, CHR 0xEB, CHR 0xA5, CHR 0xBC] @ '' '' @
      [CHR 0xEC, CHR 0xA2, CHR 0x85, CHR 0xEB, CHR 0xA3, CHR 0x8C, CHR 0xED, CHR 0x95, CHR 0xA9,
      CHR 0xEB, CHR 0x8B, CHR 0x88, CHR 0xEB, CHR 0x8B, CHR 0xA4] @ ''.''"

definition TXT_CON_CRASH_REASON :: string where
  "TXT_CON_CRASH_REASON =
     ''crashAfter '' @ [CHR 0xEB, CHR 0x8F, CHR 0x84, CHR 0xEB, CHR 0x8B, CHR 0xAC]"

definition TXT_CON_READY :: string where
  "TXT_CON_READY =
     '' '' @ [CHR 0xEC, CHR 0xA4, CHR 0x80, CHR 0xEB, CHR 0xB9, CHR 0x84, CHR 0xEB, CHR 0x90,
      CHR 0xA8]"

definition TXT_FATAL_EXCEPTION :: string where
  "TXT_FATAL_EXCEPTION =
     [CHR 0xEC, CHR 0xB2, CHR 0x98, CHR 0xEB, CHR 0xA6, CHR 0xAC, CHR 0xEB, CHR 0x90, CHR 0x98,
      CHR 0xEC, CHR 0xA7, CHR 0x80] @ '' '' @ [CHR 0xEC, CHR 0x95, CHR 0x8A, CHR 0xEC, CHR 0x9D,
      CHR 0x80] @ '' '' @ [CHR 0xEC, CHR 0x98, CHR 0x88, CHR 0xEC, CHR 0x99, CHR 0xB8] @ '' '' @
      [CHR 0xEB, CHR 0xB0, CHR 0x9C, CHR 0xEC, CHR 0x83, CHR 0x9D] @ '': ''"

definition TXT_FATAL_EXIT :: string where
  "TXT_FATAL_EXIT =
     [CHR 0xEB, CHR 0xB3, CHR 0xB5, CHR 0xEA, CHR 0xB5, CHR 0xAC] @ '' '' @ [CHR 0xEB, CHR 0xB6,
      CHR 0x88, CHR 0xEA, CHR 0xB0, CHR 0x80, CHR 0xEB, CHR 0x8A, CHR 0xA5, CHR 0xED, CHR 0x95,
      CHR 0x9C] @ '' '' @ [CHR 0xEC, CHR 0x97, CHR 0x90, CHR 0xEB, CHR 0x9F, CHR 0xAC, CHR 0xEB,
      CHR 0xA1, CHR 0x9C] @ '' '' @ [CHR 0xEC, CHR 0x9D, CHR 0xB8, CHR 0xED, CHR 0x95, CHR 0xB4] @
      '' '' @ [CHR 0xED, CHR 0x94, CHR 0x84, CHR 0xEB, CHR 0xA1, CHR 0x9C, CHR 0xEC, CHR 0x84,
      CHR 0xB8, CHR 0xEC, CHR 0x8A, CHR 0xA4, CHR 0xEB, CHR 0xA5, CHR 0xBC] @ '' '' @ [CHR 0xEC,
      CHR 0xA2, CHR 0x85, CHR 0xEB, CHR 0xA3, CHR 0x8C, CHR 0xED, CHR 0x95, CHR 0xA9, CHR 0xEB,
      CHR 0x8B, CHR 0x88, CHR 0xEB, CHR 0x8B, CHR 0xA4] @ ''.''"

definition TXT_GOES_ON :: string where
  "TXT_GOES_ON =
     [CHR 0xEC, CHR 0x97, CHR 0x90, CHR 0xEB, CHR 0x9F, CHR 0xAC, CHR 0xEA, CHR 0xB0, CHR 0x80] @
      '' '' @ [CHR 0xEB, CHR 0xB0, CHR 0x9C, CHR 0xEC, CHR 0x83, CHR 0x9D, CHR 0xED, CHR 0x96,
      CHR 0x88, CHR 0xEC, CHR 0xA7, CHR 0x80, CHR 0xEB, CHR 0xA7, CHR 0x8C] @ '' '' @ [CHR 0xEC,
      CHR 0x84, CHR 0x9C, CHR 0xEB, CHR 0xB9, CHR 0x84, CHR 0xEC, CHR 0x8A, CHR 0xA4, CHR 0xEB,
      CHR 0x8A, CHR 0x94] @ '' '' @ [CHR 0xEA, CHR 0xB3, CHR 0x84, CHR 0xEC, CHR 0x86, CHR 0x8D] @
      '' '' @ [CHR 0xEC, CHR 0x8B, CHR 0xA4, CHR 0xED, CHR 0x96, CHR 0x89, CHR 0xEB, CHR 0x90,
      CHR 0xA9, CHR 0xEB, CHR 0x8B, CHR 0x88, CHR 0xEB, CHR 0x8B, CHR 0xA4] @ ''.''"

definition TXT_REJECTION :: string where
  "TXT_REJECTION =
     [CHR 0xEC, CHR 0xB2, CHR 0x98, CHR 0xEB, CHR 0xA6, CHR 0xAC, CHR 0xEB, CHR 0x90, CHR 0x98,
      CHR 0xEC, CHR 0xA7, CHR 0x80] @ '' '' @ [CHR 0xEC, CHR 0x95, CHR 0x8A, CHR 0xEC, CHR 0x9D,
      CHR 0x80] @ '' Promise '' @ [CHR 0xEA, CHR 0xB1, CHR 0xB0, CHR 0xEB, CHR 0xB6, CHR 0x80] @
      '': ''"

definition TXT_FATAL_REJECTION :: string where
  "TXT_FATAL_REJECTION =
     [CHR 0xEB, CHR 0xB3, CHR 0xB5, CHR 0xEA, CHR 0xB5, CHR 0xAC] @ '' '' @ [CHR 0xEB, CHR 0xB6,
      CHR 0x88, CHR 0xEA, CHR 0xB0, CHR 0x80, CHR 0xEB, CHR 0x8A, CHR 0xA5, CHR 0xED, CHR 0x95,
      CHR 0x9C] @ '' Promise '' @ [CHR 0xEA, CHR 0xB1, CHR 0xB0, CHR 0xEB, CHR 0xB6, CHR 0x80,
      CHR 0xEB, CHR 0xA1, CHR 0x9C] @ '' '' @ [CHR 0xEC, CHR 0x9D, CHR 0xB8, CHR 0xED, CHR 0x95,
      CHR 0xB4] @ '' '' @ [CHR 0xED, CHR 0x94, CHR 0x84, CHR 0xEB, CHR 0xA1, CHR 0x9C, CHR 0xEC,
      CHR 0x84, CHR 0xB8, CHR 0xEC, CHR 0x8A, CHR 0xA4, CHR 0xEB, CHR 0xA5, CHR 0xBC] @ '' '' @
      [CHR 0xEC, CHR 0xA2, CHR 0x85, CHR 0xEB, CHR 0xA3, CHR 0x8C, CHR 0xED, CHR 0x95, CHR 0xA9,
      CHR 0xEB, CHR 0x8B, CHR 0x88, CHR 0xEB, CHR 0x8B, CHR 0xA4] @ ''.''"

definition TXT_POOL_SIZE :: string where
  "TXT_POOL_SIZE =
     ''libuv '' @ [CHR 0xEC, CHR 0x8A, CHR 0xA4, CHR 0xEB, CHR 0xA0, CHR 0x88, CHR 0xEB,
      CHR 0x93, CHR 0x9C, CHR 0xED, CHR 0x92, CHR 0x80] @ '' '' @ [CHR 0xED, CHR 0x81, CHR 0xAC,
      CHR 0xEA, CHR 0xB8, CHR 0xB0] @ '' '' @ [CHR 0xEC, CHR 0x84, CHR 0xA4, CHR 0xEC, CHR 0xA0,
      CHR 0x95] @ '': ''"

definition TXT_MEMORY :: string where
  "TXT_MEMORY =
     [CHR 0xEB, CHR 0xA9, CHR 0x94, CHR 0xEB, CHR 0xAA, CHR 0xA8, CHR 0xEB, CHR 0xA6, CHR 0xAC] @
      '' '' @ [CHR 0xEC, CHR 0x82, CHR 0xAC, CHR 0xEC, CHR 0x9A, CHR 0xA9, CHR 0xEB, CHR 0x9F,
      CHR 0x89] @ '': ''"

definition TXT_HIGH_MEMORY :: string where
  "TXT_HIGH_MEMORY =
     [CHR 0xEB, CHR 0x86, CHR 0x92, CHR 0xEC, CHR 0x9D, CHR 0x80] @ '' '' @ [CHR 0xEB, CHR 0xA9,
      CHR 0x94, CHR 0xEB, CHR 0xAA, CHR 0xA8, CHR 0xEB, CHR 0xA6, CHR 0xAC] @ '' '' @ [CHR 0xEC,
      CHR 0x82, CHR 0xAC, CHR 0xEC, CHR 0x9A, CHR 0xA9, CHR 0xEB, CHR 0x9F, CHR 0x89] @ '' '' @
      [CHR 0xEA, CHR 0xB0, CHR 0x90, CHR 0xEC, CHR 0xA7, CHR 0x80] @ '': ''"

definition TXT_SLOW :: string where
  "TXT_SLOW =
     ''['' @ [CHR 0xEC, CHR 0x84, CHR 0xB1, CHR 0xEB, CHR 0x8A, CHR 0xA5] @ '' '' @ [CHR 0xEA,
      CHR 0xB2, CHR 0xBD, CHR 0xEA, CHR 0xB3, CHR 0xA0] @ ''] ''"

definition TXT_TOOK :: string where
  "TXT_TOOK =
     ''ms '' @ [CHR 0xEC, CHR 0x86, CHR 0x8C, CHR 0xEC, CHR 0x9A, CHR 0x94]"

definition TXT_SERVER_STARTED :: string where
  "TXT_SERVER_STARTED =
     [CHR 0xEC, CHR 0x84, CHR 0x9C, CHR 0xEB, CHR 0xB2, CHR 0x84] @ '' '' @ [CHR 0xEC, CHR 0x8B,
      CHR 0x9C, CHR 0xEC, CHR 0x9E, CHR 0x91, CHR 0xEB, CHR 0x90, CHR 0xA8] @ '' - '' @ [CHR 0xED,
      CHR 0x8F, CHR 0xAC, CHR 0xED, CHR 0x8A, CHR 0xB8] @ '': ''"

definition TXT_PROCESS_ID :: string where
  "TXT_PROCESS_ID =
     '', '' @ [CHR 0xED, CHR 0x94, CHR 0x84, CHR 0xEB, CHR 0xA1, CHR 0x9C, CHR 0xEC, CHR 0x84,
      CHR 0xB8, CHR 0xEC, CHR 0x8A, CHR 0xA4] @ '' ID: ''"

definition TXT_SIGTERM :: string where
  "TXT_SIGTERM =
     ''SIGTERM '' @ [CHR 0xEC, CHR 0x8B, CHR 0xA0, CHR 0xED, CHR 0x98, CHR 0xB8] @ '' '' @
      [CHR 0xEC, CHR 0x88, CHR 0x98, CHR 0xEC, CHR 0x8B, CHR 0xA0] @ ''. '' @ [CHR 0xEC, CHR 0x84,
      CHR 0x9C, CHR 0xEB, CHR 0xB2, CHR 0x84] @ '' '' @ [CHR 0xEC, CHR 0xA0, CHR 0x95, CHR 0xEC,
      CHR 0x83, CHR 0x81] @ '' '' @ [CHR 0xEC, CHR 0xA2, CHR 0x85, CHR 0xEB, CHR 0xA3, CHR 0x8C] @
      '' '' @ [CHR 0xEC, CHR 0xA4, CHR 0x91] @ ''...''"

definition TXT_INTERNAL :: string where
  "TXT_INTERNAL =
     [CHR 0xEC, CHR 0x84, CHR 0x9C, CHR 0xEB, CHR 0xB2, CHR 0x84] @ '' '' @ [CHR 0xEB, CHR 0x82,
      CHR 0xB4, CHR 0xEB, CHR 0xB6, CHR 0x80] @ '' '' @ [CHR 0xEC, CHR 0x98, CHR 0xA4, CHR 0xEB,
      CHR 0xA5, CHR 0x98, CHR 0xEA, CHR 0xB0, CHR 0x80] @ '' '' @ [CHR 0xEB, CHR 0xB0, CHR 0x9C,
      CHR 0xEC, CHR 0x83, CHR 0x9D, CHR 0xED, CHR 0x96, CHR 0x88, CHR 0xEC, CHR 0x8A, CHR 0xB5,
      CHR 0xEB, CHR 0x8B, CHR 0x88, CHR 0xEB, CHR 0x8B, CHR 0xA4] @ ''.''"

definition TXT_UNHANDLED :: string where
  "TXT_UNHANDLED =
     [CHR 0xEC, CHR 0xB2, CHR 0x98, CHR 0xEB, CHR 0xA6, CHR 0xAC, CHR 0xEB, CHR 0x90, CHR 0x98,
      CHR 0xEC, CHR 0xA7, CHR 0x80] @ '' '' @ [CHR 0xEC, CHR 0x95, CHR 0x8A, CHR 0xEC, CHR 0x9D,
      CHR 0x80] @ '' '' @ [CHR 0xEC, CHR 0x98, CHR 0x88, CHR 0xEC, CHR 0x99, CHR 0xB8] @ '': ''"

end
