(* ===== verification/Server.thy ===== *)
theory Server
  imports Engines QueueService RequestAnalyzer JsOps Texts ServerTexts
begin

text \<open>
  The server process and its edge: \<open>src/main.ts\<close>, the exception filter
  (\<open>src/filters/all-exceptions.filter.ts\<close>), the routes the queue middleware leaves alone
  (\<open>src/app.module.ts\<close>), and the replies of \<open>queue-stats.controller.ts\<close> and of \<open>ping\<close> of
  \<open>load-test.controller.ts\<close>.

  What Node reports (memory, load, clocks, versions) is an argument of the operations that read it.
  Nest and Express call the handlers; a line of the logger is its level and text.
\<close>

section \<open>Uncaught errors\<close>

datatype log_level = LogError | LogWarn | LogInfo | LogDebug

type_synonym log_line = "log_level \<times> string"

text \<open>\<open>exits\<close> holds the exit codes of the timers that are set; \<open>memory_timer\<close> is the memory log.\<close>

record Server =
  sv_log :: "log_line list"
  exit_timers :: "int list"
  memory_timer :: bool
  sv_exited :: "int option"

definition log_line :: "log_level \<Rightarrow> string \<Rightarrow> Server \<Rightarrow> Server" where
  "log_line lv line s = s\<lparr>sv_log := sv_log s @ [(lv, line)]\<rparr>"

definition exit_later :: "int \<Rightarrow> Server \<Rightarrow> Server" where
  "exit_later code s = s\<lparr>exit_timers := exit_timers s @ [code]\<rparr>"

text \<open>An \<open>Error\<close> with its name, message and stack.\<close>

record JsError =
  er_name :: string
  er_message :: string
  er_stack :: string

definition fatal_exception :: "JsError \<Rightarrow> bool" where
  "fatal_exception e =
     (er_name e = ''ReferenceError'' \<or> er_name e = ''TypeError'' \<or> str_includes (er_message e) ''ENOTFOUND'' \<or>
      str_includes (er_message e) ''ECONNREFUSED'' \<or> str_includes (er_message e) ''EADDRINUSE'')"

definition on_uncaughtException :: "JsError \<Rightarrow> Server \<Rightarrow> Server" where
  "on_uncaughtException e s =
     (let s1 = log_line LogError (er_stack e) (log_line LogError (TXT_FATAL_EXCEPTION @ er_message e) s) in
      if fatal_exception e then exit_later 1 (log_line LogError TXT_FATAL_EXIT s1)
      else log_line LogWarn TXT_GOES_ON s1)"

text \<open>The reason of a rejection: an \<open>Error\<close>, whose text is \<open>name: message\<close>, or another value.\<close>

datatype reason = ErrorReason JsError | OtherReason jsval

fun reason_text :: "reason \<Rightarrow> string" where
  "reason_text (ErrorReason e) = (if er_message e = [] then er_name e else er_name e @ '': '' @ er_message e)"
| "reason_text (OtherReason v) = val_text v"

definition fatal_rejection :: "JsError \<Rightarrow> bool" where
  "fatal_rejection e =
     (er_name e = ''ReferenceError'' \<or> er_name e = ''TypeError'' \<or> str_includes (er_message e) ''ENOTFOUND'' \<or>
      str_includes (er_message e) ''ECONNREFUSED'')"

definition on_unhandledRejection :: "reason \<Rightarrow> Server \<Rightarrow> Server" where
  "on_unhandledRejection r s =
     (let s1 = log_line LogError (TXT_REJECTION @ reason_text r) s in
      case r of
        ErrorReason e \<Rightarrow> if fatal_rejection e then exit_later 1 (log_line LogError TXT_FATAL_REJECTION s1) else s1
      | OtherReason v \<Rightarrow> s1)"

section \<open>Start-up and shutdown\<close>

definition config_get :: "env \<Rightarrow> string \<Rightarrow> string \<Rightarrow> string" where
  "config_get e key preset = (case e key of None \<Rightarrow> preset | Some v \<Rightarrow> v)"

definition threadPoolSize :: "env \<Rightarrow> string" where
  "threadPoolSize e = config_get e ''UV_THREADPOOL_SIZE'' ''64''"

definition allowedOrigins :: "env \<Rightarrow> string list" where
  "allowedOrigins e = split_on (CHR '','') (config_get e ''ALLOWED_ORIGINS'' ''http://localhost:3000'')"

definition server_port :: "env \<Rightarrow> string" where
  "server_port e = config_get e ''PORT'' ''3000''"

definition server_before_listen :: "env \<Rightarrow> Server" where
  "server_before_listen e =
     log_line LogInfo (TXT_POOL_SIZE @ threadPoolSize e) \<lparr>sv_log = [], exit_timers = [], memory_timer = True, sv_exited = None\<rparr>"

text \<open>\<open>app.listen\<close> answers or throws; nothing catches what \<open>bootstrap\<close> throws.\<close>

definition bootstrap :: "env \<Rightarrow> int \<Rightarrow> JsError option \<Rightarrow> Server" where
  "bootstrap e pid listen =
     (case listen of
        Some err \<Rightarrow> on_unhandledRejection (ErrorReason err) (server_before_listen e)
      | None \<Rightarrow> log_line LogInfo (TXT_SERVER_STARTED @ server_port e @ TXT_PROCESS_ID @ show_int pid) (server_before_listen e))"

definition on_SIGTERM :: "Server \<Rightarrow> Server" where
  "on_SIGTERM s = (log_line LogInfo TXT_SIGTERM s)\<lparr>memory_timer := False\<rparr>"

definition on_closed :: "Server \<Rightarrow> Server" where
  "on_closed s = s\<lparr>sv_exited := Some 0\<rparr>"

section \<open>Memory, slow requests and health\<close>

record MemoryUsage =
  mu_heapUsed :: nat
  mu_heapTotal :: nat
  mu_rss :: nat
  mu_external :: nat

text \<open>\<open>Math.round(bytes / 1024 / 1024)\<close> and \<open>Math.round(ratio * 100)\<close>.\<close>

definition megabytes :: "nat \<Rightarrow> int" where
  "megabytes b = \<lfloor>(of_nat b / 1024 / 1024 :: rat) + 1 / 2\<rfloor>"

definition usage_ratio :: "MemoryUsage \<Rightarrow> rat" where
  "usage_ratio m = of_nat (mu_heapUsed m) / of_nat (mu_heapTotal m)"

definition percent :: "rat \<Rightarrow> int" where
  "percent r = \<lfloor>r * 100 + 1 / 2\<rfloor>"

definition megabyte_text :: "nat \<Rightarrow> string" where
  "megabyte_text b = show_int (megabytes b) @ ''MB''"

definition memory_log :: "MemoryUsage \<Rightarrow> Server \<Rightarrow> Server" where
  "memory_log m s =
     (let s1 = log_line LogDebug (TXT_MEMORY @ megabyte_text (mu_heapUsed m) @ '' / '' @ megabyte_text (mu_heapTotal m)) s in
      if usage_ratio m > 85 / 100 then log_line LogWarn (TXT_HIGH_MEMORY @ show_int (percent (usage_ratio m)) @ ''%'') s1
      else s1)"

definition on_finish :: "string \<Rightarrow> string \<Rightarrow> int \<Rightarrow> int \<Rightarrow> Server \<Rightarrow> Server" where
  "on_finish method url startTime now s =
     (let duration = now - startTime in
      if duration > 1000 then log_line LogWarn (TXT_SLOW @ method @ '' '' @ url @ '' - '' @ show_int duration @ TXT_TOOK) s
      else s)"

record HostInfo =
  ho_now :: string
  ho_uptime :: rat
  ho_arch :: string
  ho_platform :: string
  ho_cpus :: nat
  ho_load :: "rat list"
  ho_free :: nat
  ho_total :: nat
  ho_pid :: int
  ho_version :: string

definition health_reply :: "env \<Rightarrow> MemoryUsage \<Rightarrow> HostInfo \<Rightarrow> nat \<times> jsobj" where
  "health_reply e m h =
     (200,
      [(''status'', Str ''ok''), (''timestamp'', Str (ho_now h)), (''uptime'', num_val (of_int \<lfloor>ho_uptime h\<rfloor>)),
       (''memory'', Obj
         [(''used'', Str (megabyte_text (mu_heapUsed m))), (''total'', Str (megabyte_text (mu_heapTotal m))),
          (''percent'', Str (show_int (percent (usage_ratio m)) @ ''%'')), (''rss'', Str (megabyte_text (mu_rss m)))]),
       (''system'', Obj
         [(''arch'', Str (ho_arch h)), (''platform'', Str (ho_platform h)), (''cpus'', num_val (of_nat (ho_cpus h))),
          (''loadAvg'', Arr (map num_val (ho_load h))), (''freeMemory'', Str (megabyte_text (ho_free h))),
          (''totalMemory'', Str (megabyte_text (ho_total h)))]),
       (''processId'', num_val (of_int (ho_pid h))), (''nodeVersion'', Str (ho_version h)),
       (''workersEnabled'', Bool (e ''DISABLE_WORKERS'' \<noteq> Some ''true''))])"

section \<open>The exception filter\<close>

text \<open>An \<open>HttpException\<close> has a status, a response that is a text or an object, and a message.\<close>

datatype http_response = TextResponse string | ObjectResponse jsobj

datatype exception =
    HttpError nat http_response string
  | PlainError JsError
  | OtherThrown jsval

definition filter_message :: "http_response \<Rightarrow> string \<Rightarrow> string" where
  "filter_message response message =
     (case response of
        TextResponse t \<Rightarrow> t
      | ObjectResponse ob \<Rightarrow>
          (let v = prop_of ob ''message''; t = (if nullish v then [] else val_text v) in if t = [] then message else t))"

text \<open>The reply, \<open>None\<close> when the headers were sent before, and what is logged.\<close>

definition catch_exception :: "bool \<Rightarrow> string \<Rightarrow> exception \<Rightarrow> (nat \<times> jsobj) option \<times> log_line list" where
  "catch_exception headersSent now ex =
     (if headersSent then (None, [])
      else
        let (status, message, lines) =
              (case ex of
                 HttpError st response m \<Rightarrow> (st, filter_message response m, [])
               | PlainError err \<Rightarrow> (500, TXT_INTERNAL, [(LogError, TXT_UNHANDLED @ er_message err)])
               | OtherThrown v \<Rightarrow> (500, TXT_INTERNAL, []))
        in (Some (status, [(''statusCode'', num_val (of_nat status)), (''message'', Str message), (''timestamp'', Str now)]),
            lines))"

section \<open>Routes outside the queue\<close>

definition excluded_routes :: "string list" where
  "excluded_routes =
     [''health'', ''queue-stats'', ''benchmark-stats'', ''go-engine-stats'', ''load-test/(.*)'', ''orders'', ''orders/(.*)'', ''lab/(.*)'']"

text \<open>\<open>matches path pattern\<close> is how Nest compares a path with a pattern.\<close>

definition middleware_applies :: "(string \<Rightarrow> string \<Rightarrow> bool) \<Rightarrow> string \<Rightarrow> bool" where
  "middleware_applies matches path = (\<not> list_ex (matches path) excluded_routes)"

section \<open>Statistics and ping\<close>

record StatsReply = QueueStatsView +
  st_timestamp :: string
  st_engineMode :: string
  st_engineBackendWired :: bool
  st_goEngineConnected :: bool
  st_memory :: "int \<times> int \<times> int \<times> int"
  st_uptime :: rat

definition getStats ::
  "env \<Rightarrow> SnapshotManager \<Rightarrow> Sys \<Rightarrow> GoEngineClient \<Rightarrow> string \<Rightarrow> (nat \<Rightarrow> MemoryUsage) \<Rightarrow> rat \<Rightarrow> StatsReply" where
  "getStats e mg s go now usage uptime =
     QueueStatsView.extend (getQueueStats e mg s)
       (StatsReply.fields now (engine_name (readWorkerEngineEnv e)) isBackendWired (gc_connected go)
          (megabytes (mu_heapTotal (usage 0)), megabytes (mu_heapUsed (usage 1)), megabytes (mu_rss (usage 2)),
           megabytes (mu_external (usage 3)))
          uptime)"

text \<open>The reply has the fields of the statistics beside \<open>connected\<close>, or the text of the error.\<close>

datatype GoStatsReply = GoConnected EngineStatsProto | GoDisconnected engine_error

definition getGoEngineStats :: "string + EngineStatsProto \<Rightarrow> GoEngineClient \<Rightarrow> GoStatsReply" where
  "getGoEngineStats answer go = (case go_getStats answer go of Inl e \<Rightarrow> GoDisconnected e | Inr st \<Rightarrow> GoConnected st)"

definition ping_reply :: "env \<Rightarrow> int \<Rightarrow> jsobj" where
  "ping_reply e now =
     [(''ok'', Bool True), (''engine'', Str (engine_name (readWorkerEngineEnv e))),
      (''dbDriver'', Str (or_else (e ''BENCH_DB_DRIVER'') ''sqlite'')), (''timestamp'', num_val (of_int now))]"

section \<open>Facts\<close>

text \<open>A busy port ends the process when it is thrown, but not when \<open>bootstrap\<close> rejects with it, which
  is how \<open>app.listen\<close> reports it.\<close>

definition busy_port :: JsError where
  "busy_port = \<lparr>er_name = ''Error'', er_message = ''listen EADDRINUSE: address already in use :::3000'', er_stack = []\<rparr>"

lemma busy_port_is_not_fatal:
  "exit_timers (on_uncaughtException busy_port (server_before_listen e)) = [1]"
  "exit_timers (bootstrap e pid (Some busy_port)) = []" "memory_timer (bootstrap e pid (Some busy_port))"
proof -
  have f: "fatal_exception busy_port" "\<not> fatal_rejection busy_port" by code_simp+
  show "exit_timers (on_uncaughtException busy_port (server_before_listen e)) = [1]"
    "exit_timers (bootstrap e pid (Some busy_port)) = []" "memory_timer (bootstrap e pid (Some busy_port))"
    using f by (simp_all add: on_uncaughtException_def bootstrap_def on_unhandledRejection_def server_before_listen_def
        log_line_def exit_later_def Let_def)
qed

end
