(* ===== verification/ConsumerProcess.thy ===== *)
theory ConsumerProcess
  imports OrderConsumer JsOps Texts ServerTexts
begin

text \<open>
  The consumer process: its entry point \<open>src/consumer.ts\<close>, the report texts of
  \<open>src/orders/consumer/consumer-report.ts\<close> and \<open>describeConfig\<close> of \<open>consumer-config.ts\<close>.

  The process is a state machine over its consumers (theory \<open>OrderConsumer\<close>): they start one after
  another, handle messages, leave at their crash point, and a signal or the last crash shuts the
  process down. What Kafka and the database throw are arguments of the events. The texts written
  to the console are the log.
\<close>

section \<open>Report texts\<close>

definition report_ms :: "rat option \<Rightarrow> string" where
  "report_ms value = (case value of None \<Rightarrow> TXT_NOT_MEASURED | Some r \<Rightarrow> to_fixed 3 r @ ''ms'')"

definition formatThroughput :: "rat option \<Rightarrow> string" where
  "formatThroughput value = (case value of None \<Rightarrow> TXT_NOT_MEASURED | Some r \<Rightarrow> to_fixed 1 r @ TXT_PER_SECOND)"

definition formatPartitions :: "(int \<times> nat) list \<Rightarrow> string" where
  "formatPartitions counts =
     (let entries = sort_key fst counts in
      if entries = [] then TXT_NO_PARTITION
      else join_text '' '' (map (\<lambda>(p, n). ''p'' @ show_int p @ '':'' @ show_int (int n)) entries))"

definition formatConsumerLine :: "ConsumerStats \<Rightarrow> bool \<Rightarrow> string" where
  "formatConsumerLine st left =
     (let perf = summarizePerformance st; state = (if left then TXT_LEFT else []) in
      ''  '' @ cs_consumerId st @ TXT_DID @ show_int (int (cs_processed st)) @ '' '' @
      formatPartitions (cs_partitionCounts st) @ '' '' @
      TXT_MEAN @ report_ms (avgMs perf) @ '' p95='' @ report_ms (p95Ms perf) @ '' '' @
      formatThroughput (throughputPerSec perf) @ state)"

definition formatReport :: "(ConsumerStats \<times> bool) list \<Rightarrow> string list" where
  "formatReport entries =
     (let all = sum_list (map (\<lambda>(st, left). cs_processed st) entries);
          failed = sum_list (map (\<lambda>(st, left). cs_failed st) entries)
      in if all = 0 \<and> failed = 0 then []
         else (TXT_TOTAL @ show_int (int all) @ TXT_FAILS @ show_int (int failed) @ TXT_CASES) #
              map (\<lambda>(st, left). formatConsumerLine st left) entries)"

definition describeConfig :: "ConsumerConfig \<Rightarrow> string" where
  "describeConfig cfg =
     join_text '' ''
       ([TXT_CONFIG_GROUP @ cc_groupId cfg, TXT_CFG_INSTANCES @ show_int (cc_instances cfg),
         TXT_CFG_COMMIT @ commit_mode_name (commitMode cfg)] @
        (if cc_processingDelayMs cfg > 0 then [TXT_CFG_DELAY @ show_int (cc_processingDelayMs cfg) @ ''ms''] else []) @
        (if commitDelayMs cfg > 0 then [TXT_CFG_COMMIT_DELAY @ show_int (commitDelayMs cfg) @ ''ms''] else []) @
        (if fromBeginning cfg then [TXT_CFG_FROM_START] else []) @
        (if crashAfter cfg > 0 then [show_int (crashAfter cfg) @ TXT_CFG_CRASH] else []) @
        [TXT_CFG_SESSION @ show_int (sessionTimeoutMs cfg) @ ''ms''])"

section \<open>The process\<close>

text \<open>\<open>starting\<close>: the last consumer was pushed and its \<open>start\<close> is awaited. \<open>ready\<close>: the start-up loop
  is over, the signal handlers and the report timer are set. \<open>ending\<close> is the exit code that the
  first shutdown chose; \<open>exited\<close> is the code of \<open>process.exit\<close>.\<close>

record Process =
  pr_config :: ConsumerConfig
  pr_pid :: int
  pr_interval :: jsnum
  pr_consumers :: "OrderConsumer list"
  pr_db :: Db
  starting :: bool
  ready :: bool
  reporting :: bool
  ending :: "int option"
  exited :: "int option"
  pr_log :: "string list"

definition printLine :: "string \<Rightarrow> Process \<Rightarrow> Process" where
  "printLine line p = p\<lparr>pr_log := pr_log p @ [line]\<rparr>"

definition printStats :: "Process \<Rightarrow> Process" where
  "printStats p =
     p\<lparr>pr_log := pr_log p @ formatReport (map (\<lambda>c. (con_stats c, crashed c)) (pr_consumers p))\<rparr>"

text \<open>\<open>Number(process.env.CONSUMER_REPORT_INTERVAL_MS ?? 10000)\<close>.\<close>

definition report_interval :: "env \<Rightarrow> jsnum" where
  "report_interval e =
     (case e ''CONSUMER_REPORT_INTERVAL_MS'' of None \<Rightarrow> Fin 10000 | Some s \<Rightarrow> string_to_number s)"

definition process_begin :: "env \<Rightarrow> ConsumerConfig \<Rightarrow> int \<Rightarrow> Db \<Rightarrow> Process" where
  "process_begin e cfg pid db =
     printLine (TXT_CON_TOPICS @ join_text '', '' (cc_topics cfg))
       (printLine (TXT_CON_START @ describeConfig cfg)
          \<lparr>pr_config = cfg, pr_pid = pid, pr_interval = report_interval e, pr_consumers = [], pr_db = db,
           starting = False, ready = False, reporting = False, ending = None, exited = None, pr_log = []\<rparr>)"

text \<open>\<open>shutdown\<close> up to its first \<open>await\<close>, and the rest of it. A \<open>stop\<close> that throws is ignored.\<close>

definition shutdown_begin :: "string \<Rightarrow> int \<Rightarrow> Process \<Rightarrow> Process" where
  "shutdown_begin reason exitCode p =
     (if ending p \<noteq> None then p
      else printStats (printLine (TXT_CON_END @ reason) (p\<lparr>ending := Some exitCode\<rparr>)))"

definition stop_caught :: "string option \<Rightarrow> OrderConsumer \<Rightarrow> OrderConsumer" where
  "stop_caught fault c = (case con_stop fault c of Inl err \<Rightarrow> c | Inr c' \<Rightarrow> c')"

definition shutdown_end :: "(nat \<Rightarrow> string option) \<Rightarrow> Process \<Rightarrow> Process" where
  "shutdown_end faults p =
     p\<lparr>pr_consumers := map (\<lambda>(i, c). stop_caught (faults i) c) (enumerate 0 (pr_consumers p)), exited := ending p\<rparr>"

definition onCrashPoint :: "ConsumerStats \<Rightarrow> Process \<Rightarrow> Process" where
  "onCrashPoint st p =
     (let p1 = printStats (printLine (''[consumer] '' @ cs_consumerId st @ TXT_CON_SUBJECT @ show_int (int (cs_processed st)) @
                 TXT_CON_LEAVES) p)
      in if list_all (\<lambda>c. \<not> con_running c) (pr_consumers p1)
         then shutdown_begin TXT_CON_CRASH_REASON 137 (printLine TXT_CON_ALL_LEFT p1)
         else p1)"

text \<open>One round of the start-up loop up to the \<open>await\<close>, and after it. A start that throws ends the
  process with code 1; after the last round the handlers and the timer are set.\<close>

definition consumer_id :: "Process \<Rightarrow> nat \<Rightarrow> string" where
  "consumer_id p i = cc_groupId (pr_config p) @ ''/'' @ show_int (pr_pid p) @ ''-'' @ show_int (int i)"

definition start_begin :: "int \<Rightarrow> Process \<Rightarrow> Process" where
  "start_begin now p =
     p\<lparr>pr_consumers := pr_consumers p @ [new_consumer (pr_config p) (consumer_id p (length (pr_consumers p))) now],
       starting := True\<rparr>"

definition start_end :: "string option \<Rightarrow> Process \<Rightarrow> Process" where
  "start_end fault p =
     (let i = length (pr_consumers p) - 1 in
      case con_start fault (pr_consumers p ! i) of
        Inl err \<Rightarrow> p\<lparr>exited := Some 1\<rparr>
      | Inr c \<Rightarrow>
          let p1 = printLine (''[consumer] '' @ consumerId c @ TXT_CON_READY) (p\<lparr>pr_consumers := (pr_consumers p)[i := c], starting := False\<rparr>)
          in if int (length (pr_consumers p1)) < cc_instances (pr_config p1) then p1
             else p1\<lparr>ready := True, reporting := num_less (Fin 0) (pr_interval p1)\<rparr>)"

text \<open>A message of consumer \<open>i\<close>: the hook runs after a leave without commit.\<close>

definition on_consumed ::
  "(jsval \<Rightarrow> string option) \<Rightarrow> nat \<Rightarrow> string option \<Rightarrow> string option \<Rightarrow> Clocks \<Rightarrow> Message \<Rightarrow> Process \<Rightarrow> Process" where
  "on_consumed bind i fault_before fault_after ck msg p =
     (let (res, c, db) = handleMessage bind fault_before fault_after ck msg (pr_consumers p ! i) (pr_db p);
          p1 = p\<lparr>pr_consumers := (pr_consumers p)[i := c], pr_db := db\<rparr>
      in if con_running c then p1 else onCrashPoint (con_stats c) p1)"

datatype process_event =
    StartNext int
  | Started "string option"
  | Consumed nat "string option" "string option" Clocks Message
  | ReportTick
  | Signal string
  | Stopped "nat \<Rightarrow> string option"

fun process_enabled :: "process_event \<Rightarrow> Process \<Rightarrow> bool" where
  "process_enabled (StartNext now) p = (\<not> starting p \<and> int (length (pr_consumers p)) < cc_instances (pr_config p))"
| "process_enabled (Started fault) p = starting p"
| "process_enabled (Consumed i fault_before fault_after ck msg) p =
     (i < length (pr_consumers p) \<and> con_running (pr_consumers p ! i))"
| "process_enabled ReportTick p = reporting p"
| "process_enabled (Signal name) p = (ready p \<and> name \<in> {''SIGINT'', ''SIGTERM''})"
| "process_enabled (Stopped faults) p = (ending p \<noteq> None)"

fun process_handle :: "(jsval \<Rightarrow> string option) \<Rightarrow> process_event \<Rightarrow> Process \<Rightarrow> Process" where
  "process_handle bind (StartNext now) p = start_begin now p"
| "process_handle bind (Started fault) p = start_end fault p"
| "process_handle bind (Consumed i fault_before fault_after ck msg) p = on_consumed bind i fault_before fault_after ck msg p"
| "process_handle bind ReportTick p = printStats p"
| "process_handle bind (Signal name) p = shutdown_begin name 0 p"
| "process_handle bind (Stopped faults) p = shutdown_end faults p"

text \<open>Nothing happens after the process has exited.\<close>

inductive process_step :: "(jsval \<Rightarrow> string option) \<Rightarrow> Process \<Rightarrow> Process \<Rightarrow> bool" for bind where
  process_step: "exited p = None \<Longrightarrow> process_enabled ev p \<Longrightarrow> process_step bind p (process_handle bind ev p)"

inductive_cases process_stepE: "process_step bind p q"

fun process_run :: "(jsval \<Rightarrow> string option) \<Rightarrow> process_event list \<Rightarrow> Process \<Rightarrow> Process option" where
  "process_run bind [] p = Some p"
| "process_run bind (ev # evs) p =
     (if exited p = None \<and> process_enabled ev p then process_run bind evs (process_handle bind ev p) else None)"

lemma process_run_steps: "process_run bind evs p = Some q \<Longrightarrow> (process_step bind)\<^sup>*\<^sup>* p q"
  by (induction evs arbitrary: p)
     (auto split: if_splits intro: process_step converse_rtranclp_into_rtranclp)

section \<open>Facts\<close>

text \<open>\<open>to_fixed\<close> on integers, for evaluation.\<close>

lemma to_fixed_code [code]:
  "to_fixed d x =
     (let n = \<lfloor>\<bar>x\<bar> * 10 ^ d + 1 / 2\<rfloor>; p = 10 ^ d
      in (if x < 0 then ''-'' else []) @ show_int (n div p) @
         (if d = 0 then [] else CHR ''.'' # pad_zeros d (show_int (n mod p))))"
proof -
  let ?n = "\<lfloor>\<bar>x\<bar> * 10 ^ d + 1 / 2\<rfloor>"
  have n: "0 \<le> ?n" by simp
  have "nat ?n div 10 ^ d = nat (?n div 10 ^ d)" "nat ?n mod 10 ^ d = nat (?n mod 10 ^ d)"
    using n by (simp_all add: nat_div_distrib nat_mod_distrib nat_power_eq)
  moreover have "\<not> ?n div 10 ^ d < 0" "\<not> ?n mod 10 ^ d < 0" using n by (simp_all add: pos_imp_zdiv_nonneg_iff not_less)
  ultimately show ?thesis by (simp only: to_fixed_def fixed_digits_def show_int_def Let_def if_False)
qed

lemma update_count:
  fixes xs :: "('a \<times> nat) list"
  shows "sum_list (map snd (AList.update k ((case map_of xs k of None \<Rightarrow> 0 | Some n \<Rightarrow> n) + 1) xs)) = sum_list (map snd xs) + 1"
  by (induction xs) (auto split: option.splits)

text \<open>The figures of a consumer agree: the partitions and the latencies account for every message.\<close>

definition counts_agree :: "ConsumerStats \<Rightarrow> bool" where
  "counts_agree st \<longleftrightarrow>
     distinct (map fst (cs_partitionCounts st)) \<and> sum_list (map snd (cs_partitionCounts st)) = cs_processed st \<and>
     length (latenciesMs st) = cs_processed st"

lemma count_processed_agrees: "counts_agree st \<Longrightarrow> counts_agree (count_processed ck p st)"
  by (simp add: counts_agree_def count_processed_def update_count [simplified] distinct_update)

lemma handleMessage_consumer:
  assumes "handleMessage bind fb fa ck msg c db = (res, c', db')"
  shows "con_config c' = con_config c" "consumerId c' = consumerId c"
    "counts_agree (con_stats c) \<Longrightarrow> counts_agree (con_stats c')"
    "con_running c \<Longrightarrow> \<not> con_running c' \<Longrightarrow> crashed c' \<and> at_crash_point c'"
    "crashed c \<Longrightarrow> crashed c'"
  using assms
  by (auto simp: handleMessage_def process_caught_def finish_message_def at_crash_point_def counts_agree_def
      Let_def count_processed_agrees [unfolded counts_agree_def] split: sum.splits if_splits option.splits prod.splits)

definition process_ok :: "Process \<Rightarrow> bool" where
  "process_ok p \<longleftrightarrow>
     map consumerId (pr_consumers p) = map (consumer_id p) [0..<length (pr_consumers p)] \<and>
     int (length (pr_consumers p)) \<le> cc_instances (pr_config p) \<and>
     (\<forall>c \<in> set (pr_consumers p). con_config c = pr_config p \<and> counts_agree (con_stats c)) \<and>
     (starting p \<longrightarrow> pr_consumers p \<noteq> []) \<and> ending p \<in> {None, Some 0, Some 137} \<and>
     (exited p = None \<or> exited p = ending p \<or> exited p = Some 1 \<and> starting p)"

lemma process_frame [simp]:
  "pr_consumers (printLine l p) = pr_consumers p" "pr_consumers (printStats p) = pr_consumers p"
  "pr_config (printLine l p) = pr_config p" "pr_config (printStats p) = pr_config p"
  "pr_pid (printLine l p) = pr_pid p" "pr_pid (printStats p) = pr_pid p"
  "starting (printLine l p) = starting p" "starting (printStats p) = starting p"
  "ready (printLine l p) = ready p" "ready (printStats p) = ready p"
  "ending (printLine l p) = ending p" "ending (printStats p) = ending p"
  "exited (printLine l p) = exited p" "exited (printStats p) = exited p"
  "consumer_id (printLine l p) = consumer_id p" "consumer_id (printStats p) = consumer_id p"
  by (simp_all add: printLine_def printStats_def consumer_id_def fun_eq_iff)

lemma shutdown_begin_frame [simp]:
  "pr_consumers (shutdown_begin r x p) = pr_consumers p" "pr_config (shutdown_begin r x p) = pr_config p"
  "starting (shutdown_begin r x p) = starting p" "exited (shutdown_begin r x p) = exited p"
  "consumer_id (shutdown_begin r x p) = consumer_id p"
  "ending (shutdown_begin r x p) = (if ending p \<noteq> None then ending p else Some x)"
  by (simp_all add: shutdown_begin_def consumer_id_def fun_eq_iff)

lemma onCrashPoint_frame [simp]:
  "pr_consumers (onCrashPoint st p) = pr_consumers p" "pr_config (onCrashPoint st p) = pr_config p"
  "starting (onCrashPoint st p) = starting p" "exited (onCrashPoint st p) = exited p"
  "consumer_id (onCrashPoint st p) = consumer_id p"
  "ending (onCrashPoint st p) =
     (if ending p = None \<and> list_all (\<lambda>c. \<not> con_running c) (pr_consumers p) then Some 137 else ending p)"
  by (simp_all add: onCrashPoint_def Let_def)

lemma consumer_id_update:
  "consumer_id (p\<lparr>pr_consumers := cs\<rparr>) = consumer_id p" "consumer_id (p\<lparr>starting := b\<rparr>) = consumer_id p"
  "consumer_id (p\<lparr>pr_db := db\<rparr>) = consumer_id p" "consumer_id (p\<lparr>exited := x\<rparr>) = consumer_id p"
  "consumer_id (p\<lparr>ready := b\<rparr>) = consumer_id p" "consumer_id (p\<lparr>reporting := b\<rparr>) = consumer_id p"
  by (simp_all add: consumer_id_def fun_eq_iff)

lemma process_ok_update:
  assumes "process_ok p" "i < length (pr_consumers p)" "consumerId c = consumerId (pr_consumers p ! i)"
    and "con_config c = pr_config p" "counts_agree (con_stats c)"
  shows "process_ok (p\<lparr>pr_consumers := (pr_consumers p)[i := c]\<rparr>)"
proof -
  have "map consumerId ((pr_consumers p)[i := c]) = map consumerId (pr_consumers p)"
    using assms(2,3) by (simp add: map_update list_update_same_conv)
  then show ?thesis
    using assms by (auto simp: process_ok_def consumer_id_update dest: set_update_subset_insert [THEN subsetD])
qed

lemma process_ok_cong:
  assumes "process_ok p" "pr_consumers q = pr_consumers p" "pr_config q = pr_config p" "consumer_id q = consumer_id p"
    and "starting q \<longrightarrow> starting p" "ending q \<in> {None, Some 0, Some 137}"
    and "exited q = None \<or> exited q = ending q \<or> exited q = Some 1 \<and> starting q"
  shows "process_ok q"
  using assms by (simp add: process_ok_def)

lemma process_ok_nth:
  "process_ok p \<Longrightarrow> i < length (pr_consumers p) \<Longrightarrow>
     con_config (pr_consumers p ! i) = pr_config p \<and> counts_agree (con_stats (pr_consumers p ! i))"
  by (simp add: process_ok_def)

lemma process_ok_handle:
  assumes "process_ok p" "exited p = None" "process_enabled ev p"
  shows "process_ok (process_handle bind ev p)"
proof (cases ev)
  case (StartNext now)
  then show ?thesis
    using assms by (auto simp: process_ok_def start_begin_def new_consumer_def counts_agree_def consumer_id_update
        consumer_id_def [of "starting_update _ _"] fun_eq_iff consumer_id_def)
next
  case (Started fault)
  let ?i = "length (pr_consumers p) - 1"
  have i: "?i < length (pr_consumers p)" using assms(1,3) Started by (simp add: process_ok_def)
  show ?thesis
  proof (cases fault)
    case None
    let ?c = "(pr_consumers p ! ?i)\<lparr>con_running := True\<rparr>"
    have "process_ok (p\<lparr>pr_consumers := (pr_consumers p)[?i := ?c]\<rparr>)"
      using process_ok_update [OF assms(1) i] process_ok_nth [OF assms(1) i] by simp
    then show ?thesis
      using assms(1,2) None Started
      by (auto simp: start_end_def con_start_def Let_def consumer_id_update process_ok_def)
  next
    case (Some err)
    then show ?thesis
      using assms Started by (auto simp: start_end_def con_start_def Let_def process_ok_def consumer_id_update)
  qed
next
  case (Consumed i fb fa ck msg)
  obtain res c db where h: "handleMessage bind fb fa ck msg (pr_consumers p ! i) (pr_db p) = (res, c, db)" by (metis prod_cases3)
  have i: "i < length (pr_consumers p)" using assms(3) Consumed by simp
  let ?p = "p\<lparr>pr_consumers := (pr_consumers p)[i := c]\<rparr>"
  have ok: "process_ok ?p"
    using process_ok_update [OF assms(1) i] process_ok_nth [OF assms(1) i] handleMessage_consumer [OF h] by simp
  have q: "process_handle bind ev p = (if con_running c then ?p\<lparr>pr_db := db\<rparr> else onCrashPoint (con_stats c) (?p\<lparr>pr_db := db\<rparr>))"
    by (simp add: Consumed on_consumed_def h)
  show ?thesis
    unfolding q using ok assms(2) by (intro process_ok_cong [OF ok]) (auto simp: process_ok_def consumer_id_update)
next
  case ReportTick
  then show ?thesis using assms by (auto simp: intro: process_ok_cong [OF assms(1)] simp: process_ok_def)
next
  case (Signal name)
  then show ?thesis using assms by (auto simp: process_ok_def)
next
  case (Stopped faults)
  have stop: "consumerId (stop_caught f c) = consumerId c \<and> con_config (stop_caught f c) = con_config c \<and>
      con_stats (stop_caught f c) = con_stats c" for f c
    by (auto simp: stop_caught_def con_stop_def split: sum.splits option.splits if_splits)
  let ?cs = "pr_consumers p" and ?q = "shutdown_end faults p"
  have len: "length (pr_consumers ?q) = length ?cs" by (simp add: shutdown_end_def)
  have nth: "pr_consumers ?q ! i = stop_caught (faults i) (?cs ! i)" if "i < length ?cs" for i
    using that by (simp add: shutdown_end_def nth_enumerate_eq)
  have ids: "map consumerId (pr_consumers ?q) = map consumerId ?cs"
    by (rule nth_equalityI) (simp_all add: len nth stop)
  have "\<forall>c \<in> set (pr_consumers ?q). con_config c = pr_config p \<and> counts_agree (con_stats c)"
    using process_ok_nth [OF assms(1)] by (auto simp: all_set_conv_all_nth len nth stop)
  moreover have "pr_config ?q = pr_config p" "consumer_id ?q = consumer_id p" "starting ?q = starting p" "ending ?q = ending p"
    "exited ?q = ending p"
    by (simp_all add: shutdown_end_def consumer_id_update)
  moreover have "pr_consumers ?q = [] \<longleftrightarrow> ?cs = []" using len by (metis length_0_conv)
  ultimately show ?thesis
    using assms(1) unfolding Stopped process_handle.simps process_ok_def ids len by auto
qed

section \<open>Every run of the process\<close>

definition process_start :: "Process \<Rightarrow> bool" where
  "process_start p \<longleftrightarrow> (\<exists>e cfg pid db. p = process_begin e cfg pid db \<and> 0 \<le> cc_instances cfg)"

lemma process_ok_start: "process_start p \<Longrightarrow> process_ok p"
  by (auto simp: process_start_def process_begin_def process_ok_def printLine_def)

interpretation consumer_process: inductive_invariant process_start "process_step bind" process_ok
proof
  show "process_ok p" if "process_start p" for p using that by (rule process_ok_start)
  show "process_ok q" if "process_ok p" "process_step bind p q" for p q
    using that by (auto elim!: process_stepE intro: process_ok_handle)
qed

text \<open>A shutdown that has begun keeps its exit code.\<close>

lemma ending_kept: "process_step bind p q \<Longrightarrow> ending p = Some code \<Longrightarrow> ending q = Some code"
proof (elim process_stepE)
  fix ev
  assume "ending p = Some code" "q = process_handle bind ev p"
  then show "ending q = Some code"
    by (cases ev) (auto simp: start_begin_def start_end_def on_consumed_def shutdown_end_def Let_def split: sum.splits prod.splits)
qed

text \<open>C27. In every run of the consumer process: it has at most the configured number of consumers, with the
  ids of their positions; the report figures of each agree, the messages of its partitions adding up
  to those it processed; the process ends with the code of the first shutdown, 0 or 137, or with 1 when a
  start fails.\<close>

theorem consumer_process_is_consistent:
  assumes "0 \<le> cc_instances cfg" and "(process_step bind)\<^sup>*\<^sup>* (process_begin e cfg pid db) p" and "(process_step bind)\<^sup>*\<^sup>* p q"
  shows "int (length (pr_consumers q)) \<le> cc_instances (pr_config q) \<and>
         map consumerId (pr_consumers q) = map (consumer_id q) [0..<length (pr_consumers q)] \<and>
         (\<forall>c \<in> set (pr_consumers q).
            sum_list (map snd (cs_partitionCounts (con_stats c))) = cs_processed (con_stats c) \<and>
            length (latenciesMs (con_stats c)) = cs_processed (con_stats c)) \<and>
         (\<forall>code. ending p = Some code \<longrightarrow> ending q = Some code) \<and>
         (\<forall>code. exited q = Some code \<longrightarrow> code = 1 \<and> starting q \<or> ending q = Some code \<and> code \<in> {0, 137})"
proof -
  have "process_start (process_begin e cfg pid db)" using assms(1) by (auto simp: process_start_def)
  then have ok: "process_ok q" using consumer_process.inv_reachable assms(2,3) by (meson rtranclp_trans)
  have kept: "ending q = Some code" if "ending p = Some code" for code
    using assms(3) that by (induction rule: rtranclp_induct) (auto intro: ending_kept)
  show ?thesis using ok kept by (auto simp: process_ok_def counts_agree_def)
qed

text \<open>C28. A consumer that leaves at its crash point begins the shutdown of the process exactly when no
  other consumer is running, unless one has begun.\<close>

theorem last_crash_ends_the_process:
  assumes "i < length (pr_consumers p)" "con_running (pr_consumers p ! i)"
    and "q = process_handle bind (Consumed i fb fa ck msg) p" and "\<not> con_running (pr_consumers q ! i)"
  shows "crashed (pr_consumers q ! i) \<and>
         ending q = (if ending p = None \<and> (\<forall>j < length (pr_consumers p). j \<noteq> i \<longrightarrow> \<not> con_running (pr_consumers p ! j))
                     then Some 137 else ending p)"
proof -
  obtain res c db where h: "handleMessage bind fb fa ck msg (pr_consumers p ! i) (pr_db p) = (res, c, db)" by (metis prod_cases3)
  have q: "pr_consumers q = (pr_consumers p)[i := c]"
    by (simp add: assms(3) on_consumed_def h Let_def)
  then have c: "\<not> con_running c" "pr_consumers q ! i = c" using assms(1,4) by simp_all
  have "list_all (\<lambda>c. \<not> con_running c) ((pr_consumers p)[i := c]) \<longleftrightarrow>
      (\<forall>j < length (pr_consumers p). j \<noteq> i \<longrightarrow> \<not> con_running (pr_consumers p ! j))"
    using assms(1) c(1) by (auto simp: list_all_length nth_list_update)
  moreover have "ending q = (if ending p = None \<and> list_all (\<lambda>c. \<not> con_running c) ((pr_consumers p)[i := c]) then Some 137 else ending p)"
    using c(1) by (simp add: assms(3) on_consumed_def h Let_def)
  ultimately show ?thesis using handleMessage_consumer(4) [OF h assms(2) c(1)] c(2) by simp
qed

section \<open>Runs\<close>

definition crashing_config :: ConsumerConfig where
  "crashing_config = (sample_consumer_config AfterProcess)\<lparr>cc_instances := 2, crashAfter := 1, sessionTimeoutMs := 9\<rparr>"

definition message_of :: "nat \<Rightarrow> Message" where
  "message_of n = \<lparr>m_topic = ''orders.created'', m_partition = 0, m_offset = n, m_value = sample_body\<rparr>"

definition crash_at :: "nat \<Rightarrow> nat \<Rightarrow> process_event" where
  "crash_at i n = Consumed i None None sample_clocks (message_of n)"

definition after_process :: "process_event list \<Rightarrow> Process" where
  "after_process evs = the (process_run text_bind evs (process_begin (\<lambda>_. None) crashing_config 7 empty_db))"

definition process_runs :: "process_event list \<Rightarrow> bool" where
  "process_runs evs \<longleftrightarrow> process_run text_bind evs (process_begin (\<lambda>_. None) crashing_config 7 empty_db) \<noteq> None"

lemma after_process_steps:
  "process_runs evs \<Longrightarrow> (process_step text_bind)\<^sup>*\<^sup>* (process_begin (\<lambda>_. None) crashing_config 7 empty_db) (after_process evs)"
  by (auto simp: process_runs_def after_process_def intro: process_run_steps)

definition both_started :: "process_event list" where
  "both_started = [StartNext 1, Started None, StartNext 2, Started None]"

definition both_crash :: "process_event list" where
  "both_crash = both_started @ [crash_at 0 0, crash_at 1 0]"

theorem consumer_process_is_consistent_witness:
  "\<exists>p q. (process_step text_bind)\<^sup>*\<^sup>* (process_begin (\<lambda>_. None) crashing_config 7 empty_db) p \<and> ending p = Some 137 \<and>
     process_step text_bind p q \<and> ready p \<and> length (pr_consumers p) = 2 \<and> ending q = Some 137"
proof -
  define p where "p = after_process both_crash"
  have r: "process_runs both_crash" by code_simp
  have "let p = after_process both_crash in length (pr_consumers p) = 2 \<and> ending p = Some 137 \<and> ready p \<and> exited p = None"
    by code_simp
  then have c: "length (pr_consumers p) = 2" "ending p = Some 137" "ready p" "exited p = None" by (simp_all add: p_def Let_def)
  have n: "0 \<le> cc_instances crashing_config" by code_simp
  let ?q = "process_handle text_bind (Signal ''SIGTERM'') p"
  have st: "process_step text_bind p ?q" by (rule process_step) (simp_all add: c)
  note steps = after_process_steps [OF r, folded p_def]
  have "ending ?q = Some 137"
    using consumer_process_is_consistent [OF n steps r_into_rtranclp [of "process_step text_bind", OF st]] c(2) by blast
  then show ?thesis using steps st c by blast
qed

theorem last_crash_ends_the_process_witness:
  "\<exists>p. (process_step text_bind)\<^sup>*\<^sup>* (process_begin (\<lambda>_. None) crashing_config 7 empty_db) p \<and> ending p = None \<and>
     ending (process_handle text_bind (crash_at 1 0) p) = Some 137"
proof -
  let ?evs = "both_started @ [crash_at 0 0]"
  define p where "p = after_process ?evs"
  have r: "process_runs ?evs" by code_simp
  have "let p = after_process ?evs in length (pr_consumers p) = 2 \<and> con_running (pr_consumers p ! 1) \<and>
      \<not> con_running (pr_consumers p ! 0) \<and> ending p = None \<and>
      \<not> con_running (pr_consumers (process_handle text_bind (crash_at 1 0) p) ! 1)"
    by code_simp
  then have c: "length (pr_consumers p) = 2" "con_running (pr_consumers p ! 1)" "\<not> con_running (pr_consumers p ! 0)" "ending p = None"
    "\<not> con_running (pr_consumers (process_handle text_bind (crash_at 1 0) p) ! 1)"
    by (simp_all add: p_def Let_def)
  have "ending (process_handle text_bind (crash_at 1 0) p) = Some 137"
    using last_crash_ends_the_process [OF _ c(2) refl [of "process_handle text_bind (crash_at 1 0) p", unfolded crash_at_def] c(5) [unfolded crash_at_def]]
      c(1,3,4)
    unfolding crash_at_def by (auto simp: less_2_cases_iff)
  then show ?thesis using after_process_steps [OF r, folded p_def] c(4) by blast
qed

text \<open>A crash while the next consumer still starts ends the process, though that consumer has not left:
  it is pushed before its start is awaited, and it is not running until then.\<close>

definition startup_crash :: "process_event list" where
  "startup_crash = [StartNext 1, Started None, StartNext 2, crash_at 0 0, Started None]"

lemma crash_during_startup:
  "let p = after_process startup_crash
   in process_runs startup_crash \<and> ending p = Some 137 \<and> map con_running (pr_consumers p) = [False, True]"
  by code_simp

text \<open>The report is empty exactly when nothing was processed and nothing failed; otherwise it has a line
  for every consumer after the totals.\<close>

lemma report_lines:
  "formatReport entries =
     [] \<longleftrightarrow> (\<forall>(st, left) \<in> set entries. cs_processed st = 0 \<and> cs_failed st = 0)"
  "formatReport entries \<noteq> [] \<Longrightarrow> length (formatReport entries) = length entries + 1"
  by (force simp: formatReport_def Let_def split: if_splits)+

end
