(* ===== verification/OrderService.thy ===== *)
theory OrderService
  imports OrderDispatch
begin

text \<open>
  The order service (\<open>src/orders/order.service.ts\<close>) over the interfaces of the store and of the
  channel, the wiring of both (\<open>src/orders/order.module.ts\<close>) and the argument checks of
  \<open>src/orders/order.controller.ts\<close>. The service's operations take the records \<open>OrderStore\<close> and
  \<open>OrderDispatcher\<close>, as the class takes the two injected objects; the locale \<open>order_service\<close> holds
  what is proved from the interfaces alone, and \<open>order_world\<close> is its interpretation on the SQLite
  store with either channel. An operation is one sequence of its awaited calls; the clock, the
  random UUID and the random user number are arguments.
\<close>

section \<open>The world the service runs in\<close>

record 'k OrderWorld =
  w_db :: Db
  w_pub :: OrderPublisher
  w_kafka :: 'k
  w_mem :: MemoryOrderDispatcher

definition store_in :: "('w \<Rightarrow> 'd) \<Rightarrow> ('d \<Rightarrow> 'w \<Rightarrow> 'w) \<Rightarrow> 'd OrderStore \<Rightarrow> 'w OrderStore" where
  "store_in get put st =
     \<lparr>st_saveOrder = (\<lambda>ord w. map_sum id (\<lambda>d. put d w) (st_saveOrder st ord (get w))),
      st_findOrder = (\<lambda>i w. st_findOrder st i (get w)),
      st_updateStatus = (\<lambda>now i s w. map_sum id (\<lambda>d. put d w) (st_updateStatus st now i s (get w))),
      st_recordEvent = (\<lambda>r w. map_sum id (\<lambda>d. put d w) (st_recordEvent st r (get w))),
      st_findEvents = (\<lambda>i limit w. st_findEvents st i limit (get w)),
      st_findDuplicates = (\<lambda>w. st_findDuplicates st (get w)),
      st_countByGroup = (\<lambda>w. st_countByGroup st (get w)),
      st_countOrders = (\<lambda>w. st_countOrders st (get w)),
      st_countEvents = (\<lambda>w. st_countEvents st (get w)),
      st_reset = (\<lambda>w. map_prod id (\<lambda>d. put d w) (st_reset st (get w)))\<rparr>"

definition world_store :: "arrange \<Rightarrow> arrange_groups \<Rightarrow> 'k OrderWorld OrderStore" where
  "world_store arrange arrange_groups =
     store_in w_db (\<lambda>d w. w\<lparr>w_db := d\<rparr>) (sqlite_store arrange arrange_groups)"

definition kafka_dispatch ::
  "'k send \<Rightarrow> OrderEventPayload \<Rightarrow> 'k OrderWorld \<Rightarrow> (order_error + DispatchResult) \<times> 'k OrderWorld" where
  "kafka_dispatch send p w =
     (case publish send p (w_pub w, w_kafka w) of
        (Inl err, pub, k) \<Rightarrow> (Inl err, w\<lparr>w_pub := pub, w_kafka := k\<rparr>)
      | (Inr r, pub, k) \<Rightarrow>
          (Inr \<lparr>destination = pr_topic r, dr_partition = Some (pr_partition r), dr_offset = Some (pr_offset r),
                dr_key = pr_key r\<rparr>,
           w\<lparr>w_pub := pub, w_kafka := k\<rparr>))"

definition kafka_dispatcher :: "'k send \<Rightarrow> 'k OrderWorld OrderDispatcher" where
  "kafka_dispatcher send =
     \<lparr>dis_name = ''kafka'', dis_isReady = (\<lambda>w. connected (w_pub w)),
      dis_dispatch = (\<lambda>now. kafka_dispatch send)\<rparr>"

definition memory_dispatcher :: "'k OrderWorld OrderDispatcher" where
  "memory_dispatcher =
     \<lparr>dis_name = ''memory'', dis_isReady = (\<lambda>w. mem_isReady (w_mem w)),
      dis_dispatch = (\<lambda>now p w.
        case mem_dispatch now p (w_db w, w_mem w) of (r, db, m) \<Rightarrow> (r, w\<lparr>w_db := db, w_mem := m\<rparr>))\<rparr>"

text \<open>The module's choice of the channel.\<close>

fun channel :: "DispatcherMode \<Rightarrow> 'k send \<Rightarrow> 'k OrderWorld OrderDispatcher" where
  "channel KafkaMode send = kafka_dispatcher send"
| "channel MemoryMode send = memory_dispatcher"

text \<open>The publisher the module creates: it is switched on for the Kafka worker engine only.\<close>

definition publisher_at_boot :: "env \<Rightarrow> OrderPublisher" where
  "publisher_at_boot e =
     \<lparr>pub_config = orderPublisherConfigFromEnv e (readWorkerEngineEnv e = KafkaEngine), connected = False, published = []\<rparr>"

section \<open>The service\<close>

record CreateOrderInput =
  in_userId :: "string option"
  in_items :: "OrderItem list option"

definition DEFAULT_ITEM :: OrderItem where
  "DEFAULT_ITEM = \<lparr>productId = ''prod-default'', quantity = 1, unitPrice = 10000\<rparr>"

definition LIFECYCLE_EVENT_TYPES :: "OrderEventType list" where
  "LIFECYCLE_EVENT_TYPES = [EV_INVENTORY_RESERVED, EV_PAYMENT_APPROVED, EV_SHIPMENT_STARTED]"

text \<open>What the environment supplies to one order: \<open>randomUUID()\<close>, the random user number, and the
  clock at creation, in \<open>toPayload\<close>, in \<open>dispatch\<close> and in \<open>updateStatus\<close>.\<close>

record Fresh =
  fr_uuid :: string
  fr_user :: int
  fr_now :: int
  fr_emit :: "OrderEventType \<Rightarrow> int"
  fr_disp :: "OrderEventType \<Rightarrow> int"
  fr_upd :: "OrderEventType \<Rightarrow> int"

definition toPayload :: "Fresh \<Rightarrow> Order \<Rightarrow> OrderEventType \<Rightarrow> OrderEventPayload" where
  "toPayload fr ord ty =
     \<lparr>p_eventType = ty, p_orderId = orderId ord, p_userId = userId ord, p_amount = amount ord,
      p_items = items ord, emittedAt = fr_emit fr ty\<rparr>"

definition new_order :: "Fresh \<Rightarrow> CreateOrderInput \<Rightarrow> Order" where
  "new_order fr input =
     (let its = (case in_items input of None \<Rightarrow> [DEFAULT_ITEM] | Some [] \<Rightarrow> [DEFAULT_ITEM] | Some its \<Rightarrow> its) in
      \<lparr>orderId = ''ord-'' @ fr_uuid fr,
       userId = (case in_userId input of Some u \<Rightarrow> u | None \<Rightarrow> ''user-'' @ show_int (fr_user fr)),
       amount = foldl (\<lambda>total item. total + quantity item * unitPrice item) 0 its,
       items = its, status = ST_CREATED, order_createdAt = fr_now fr, updatedAt = fr_now fr\<rparr>)"

definition createOrder ::
  "'w OrderStore \<Rightarrow> 'w OrderDispatcher \<Rightarrow> Fresh \<Rightarrow> CreateOrderInput \<Rightarrow> 'w \<Rightarrow>
   (order_error + Order \<times> DispatchResult) \<times> 'w" where
  "createOrder st dis fr input w =
     (let ord = new_order fr input in
      case st_saveOrder st ord w of
        Inl err \<Rightarrow> (Inl err, w)
      | Inr w1 \<Rightarrow>
          (case dis_dispatch dis (fr_disp fr EV_CREATED) (toPayload fr ord EV_CREATED) w1 of
             (Inl err, w2) \<Rightarrow> (Inl err, w2)
           | (Inr dispatch, w2) \<Rightarrow> (Inr (ord, dispatch), w2)))"

record LifecycleStep =
  ls_eventType :: OrderEventType
  ls_destination :: string
  ls_partition :: "int option"
  ls_offset :: "string option"
  ls_key :: "string option"

record LifecycleResult =
  lc_orderId :: string
  lc_steps :: "LifecycleStep list"

text \<open>The loop of \<open>dispatchLifecycle\<close>: publish, raise the status, remember the step.\<close>

fun lifecycle_loop ::
  "'w OrderStore \<Rightarrow> 'w OrderDispatcher \<Rightarrow> Fresh \<Rightarrow> Order \<Rightarrow> string \<Rightarrow> OrderEventType list \<Rightarrow> LifecycleStep list \<Rightarrow> 'w \<Rightarrow>
   (order_error + LifecycleStep list) \<times> 'w" where
  "lifecycle_loop st dis fr ord i [] steps w = (Inr steps, w)"
| "lifecycle_loop st dis fr ord i (ty # tys) steps w =
     (case dis_dispatch dis (fr_disp fr ty) (toPayload fr ord ty) w of
        (Inl err, w1) \<Rightarrow> (Inl err, w1)
      | (Inr d, w1) \<Rightarrow>
          (case st_updateStatus st (fr_upd fr ty) i (statusAfter ty) w1 of
             Inl err \<Rightarrow> (Inl err, w1)
           | Inr w2 \<Rightarrow>
               lifecycle_loop st dis fr ord i tys
                 (steps @ [\<lparr>ls_eventType = ty, ls_destination = destination d, ls_partition = dr_partition d,
                            ls_offset = dr_offset d, ls_key = dr_key d\<rparr>]) w2))"

definition dispatchLifecycle ::
  "'w OrderStore \<Rightarrow> 'w OrderDispatcher \<Rightarrow> Fresh \<Rightarrow> string \<Rightarrow> 'w \<Rightarrow> (order_error + LifecycleResult) \<times> 'w" where
  "dispatchLifecycle st dis fr i w =
     (case st_findOrder st i w of
        Inl err \<Rightarrow> (Inl err, w)
      | Inr None \<Rightarrow> (Inl (OrderNotFound i), w)
      | Inr (Some ord) \<Rightarrow>
          (case lifecycle_loop st dis fr ord i LIFECYCLE_EVENT_TYPES [] w of
             (Inl err, w') \<Rightarrow> (Inl err, w')
           | (Inr steps, w') \<Rightarrow> (Inr \<lparr>lc_orderId = i, lc_steps = steps\<rparr>, w')))"

section \<open>Bulk operations\<close>

definition MAX_REPORTED_ERRORS :: nat where
  "MAX_REPORTED_ERRORS = 5"

record 'a RepeatOutcome =
  ro_results :: "'a list"
  ro_failed :: rat
  ro_elapsedMs :: int
  ro_errors :: "order_error list"

text \<open>\<open>for (let i = 0; i < count; i++)\<close>: \<open>count\<close> is any number, not only a whole one.\<close>

function repeat_from ::
  "rat \<Rightarrow> (nat \<Rightarrow> 'w \<Rightarrow> (order_error + 'a) \<times> 'w) \<Rightarrow> nat \<Rightarrow> 'a list \<Rightarrow> order_error list \<Rightarrow> 'w \<Rightarrow>
   'a list \<times> order_error list \<times> 'w" where
  "repeat_from reps work i results errors w =
     (if of_nat i < reps then
        (case work i w of
           (Inr r, w') \<Rightarrow> repeat_from reps work (Suc i) (results @ [r]) errors w'
         | (Inl err, w') \<Rightarrow>
             repeat_from reps work (Suc i) results
               (if length errors < MAX_REPORTED_ERRORS then errors @ [err] else errors) w')
      else (results, errors, w))"
  by pat_completeness auto

lemma ceiling_step:
  fixes reps :: rat
  assumes "of_nat i < reps"
  shows "nat \<lceil>reps\<rceil> - Suc i < nat \<lceil>reps\<rceil> - i"
proof -
  have "int i < \<lceil>reps\<rceil>" using assms by (simp add: less_ceiling_iff)
  then show ?thesis by linarith
qed

termination repeat_from
  by (relation "measure (\<lambda>(reps, _, i, _). nat \<lceil>reps\<rceil> - i)") (auto intro: ceiling_step)

declare repeat_from.simps [simp del]

definition repeatCollecting ::
  "int \<Rightarrow> int \<Rightarrow> rat \<Rightarrow> (nat \<Rightarrow> 'w \<Rightarrow> (order_error + 'a) \<times> 'w) \<Rightarrow> 'w \<Rightarrow> 'a RepeatOutcome \<times> 'w" where
  "repeatCollecting startedAt finishedAt reps work w =
     (let (results, errors, w') = repeat_from reps work 0 [] [] w in
      (\<lparr>ro_results = results, ro_failed = reps - of_nat (length results),
        ro_elapsedMs = finishedAt - startedAt, ro_errors = errors\<rparr>, w'))"

record BulkOrderResult =
  bo_requested :: rat
  bo_created :: nat
  bo_failed :: rat
  bo_elapsedMs :: int
  bo_partitionCounts :: "(int \<times> nat) list"
  bo_errors :: "order_error list"

text \<open>\<open>partitionCounts[p] = (partitionCounts[p] ?? 0) + 1\<close>, skipping results without a partition.\<close>

fun count_partitions :: "DispatchResult list \<Rightarrow> (int \<times> nat) list \<Rightarrow> (int \<times> nat) list" where
  "count_partitions [] counts = counts"
| "count_partitions (d # ds) counts =
     (case dr_partition d of
        None \<Rightarrow> count_partitions ds counts
      | Some p \<Rightarrow>
          count_partitions ds
            (AList.update p ((case map_of counts p of None \<Rightarrow> 0 | Some n \<Rightarrow> n) + 1) counts))"

definition empty_input :: CreateOrderInput where
  "empty_input = \<lparr>in_userId = None, in_items = None\<rparr>"

definition createBulk ::
  "'w OrderStore \<Rightarrow> 'w OrderDispatcher \<Rightarrow> (nat \<Rightarrow> Fresh) \<Rightarrow> int \<Rightarrow> int \<Rightarrow> rat \<Rightarrow> 'w \<Rightarrow> BulkOrderResult \<times> 'w" where
  "createBulk st dis fr startedAt finishedAt reps w =
     (let (out, w') = repeatCollecting startedAt finishedAt reps
            (\<lambda>i w. map_prod (map_sum id snd) id (createOrder st dis (fr i) empty_input w)) w in
      (\<lparr>bo_requested = reps, bo_created = length (ro_results out), bo_failed = ro_failed out,
        bo_elapsedMs = ro_elapsedMs out, bo_partitionCounts = count_partitions (ro_results out) [],
        bo_errors = ro_errors out\<rparr>, w'))"

record ScatterSummary =
  singlePartition :: nat
  multiPartition :: nat
  avgPartitionsPerOrder :: "rat option"

definition partitions_of :: "LifecycleResult \<Rightarrow> int list" where
  "partitions_of lc = remdups (List.map_filter ls_partition (lc_steps lc))"

fun scatter_loop :: "LifecycleResult list \<Rightarrow> nat \<Rightarrow> nat \<Rightarrow> nat \<Rightarrow> nat \<Rightarrow> ScatterSummary" where
  "scatter_loop [] single multi partitionTotal counted =
     \<lparr>singlePartition = single, multiPartition = multi,
      avgPartitionsPerOrder = (if counted > 0 then Some (of_nat partitionTotal / of_nat counted) else None)\<rparr>"
| "scatter_loop (lc # lcs) single multi partitionTotal counted =
     (let size = length (partitions_of lc) in
      if size = 0 then scatter_loop lcs single multi partitionTotal counted
      else scatter_loop lcs (if size = 1 then single + 1 else single) (if size = 1 then multi else multi + 1)
             (partitionTotal + size) (counted + 1))"

definition summarizeScatter :: "LifecycleResult list \<Rightarrow> ScatterSummary" where
  "summarizeScatter lifecycles = scatter_loop lifecycles 0 0 0 0"

record LifecycleBulkResult =
  lb_requested :: rat
  lb_completed :: nat
  lb_failed :: rat
  lb_elapsedMs :: int
  lb_orderIds :: "string list"
  lb_errors :: "order_error list"
  lb_scatter :: ScatterSummary
  lb_samples :: "LifecycleResult list"

definition order_with_lifecycle ::
  "'w OrderStore \<Rightarrow> 'w OrderDispatcher \<Rightarrow> Fresh \<Rightarrow> 'w \<Rightarrow> (order_error + LifecycleResult) \<times> 'w" where
  "order_with_lifecycle st dis fr w =
     (case createOrder st dis fr empty_input w of
        (Inl err, w1) \<Rightarrow> (Inl err, w1)
      | (Inr (ord, _), w1) \<Rightarrow> dispatchLifecycle st dis fr (orderId ord) w1)"

definition createWithLifecycle ::
  "'w OrderStore \<Rightarrow> 'w OrderDispatcher \<Rightarrow> (nat \<Rightarrow> Fresh) \<Rightarrow> int \<Rightarrow> int \<Rightarrow> rat \<Rightarrow> 'w \<Rightarrow> LifecycleBulkResult \<times> 'w" where
  "createWithLifecycle st dis fr startedAt finishedAt reps w =
     (let (out, w') = repeatCollecting startedAt finishedAt reps (\<lambda>i. order_with_lifecycle st dis (fr i)) w in
      (\<lparr>lb_requested = reps, lb_completed = length (ro_results out), lb_failed = ro_failed out,
        lb_elapsedMs = ro_elapsedMs out, lb_orderIds = map lc_orderId (ro_results out),
        lb_errors = ro_errors out, lb_scatter = summarizeScatter (ro_results out),
        lb_samples = take 3 (ro_results out)\<rparr>, w'))"

section \<open>Statistics and the controller\<close>

record OrderStats =
  os_orderCount :: nat
  os_eventCount :: nat
  os_duplicateGroups :: nat
  os_duplicateExtra :: nat
  os_dispatcher :: "string \<times> bool"
  os_connected :: bool
  os_idempotent :: bool
  os_acks :: jsnum
  os_keyEnabled :: bool

definition order_getStats :: "'w OrderStore \<Rightarrow> 'w OrderDispatcher \<Rightarrow> OrderPublisher \<Rightarrow> 'w \<Rightarrow> OrderStats" where
  "order_getStats st dis pub w =
     (let duplicates = st_findDuplicates st w in
      \<lparr>os_orderCount = st_countOrders st w, os_eventCount = st_countEvents st w,
       os_duplicateGroups = length duplicates,
       os_duplicateExtra = foldl (\<lambda>total d. total + (dup_count d - 1)) 0 duplicates,
       os_dispatcher = (dis_name dis, dis_isReady dis w), os_connected = connected pub,
       os_idempotent = idempotent (pub_config pub), os_acks = acks (pub_config pub),
       os_keyEnabled = (\<not> disableKey (pub_config pub))\<rparr>)"

text \<open>The clamped arguments of the bulk routes and of the event query.\<close>

definition bulk_count :: "rat option \<Rightarrow> rat" where
  "bulk_count c = min (max (case c of None \<Rightarrow> 100 | Some n \<Rightarrow> n) 1) 10000"

definition bulk_delay :: "rat option \<Rightarrow> rat" where
  "bulk_delay d = max (case d of None \<Rightarrow> 0 | Some n \<Rightarrow> n) 0"

definition lifecycle_count :: "rat option \<Rightarrow> rat" where
  "lifecycle_count c = min (max (case c of None \<Rightarrow> 10 | Some n \<Rightarrow> n) 1) 500"

fun safe_limit :: "jsnum \<Rightarrow> rat option" where
  "safe_limit (Fin r) = (if 0 < r then Some (min r 1000) else None)"
| "safe_limit _ = None"

definition event_limit :: "string option \<Rightarrow> rat option" where
  "event_limit limit =
     (case limit of None \<Rightarrow> None | Some l \<Rightarrow> if l = [] then None else safe_limit (string_to_number l))"

section \<open>The service over its interfaces\<close>

locale order_service =
  order_store st wf orders_of log_of + order_dispatcher dis accepted wf orders_of
  for st :: "'w OrderStore" and dis :: "'w OrderDispatcher" and wf orders_of log_of accepted +
  assumes save_accepted: "wf w \<Longrightarrow> st_saveOrder st ord w = Inr w' \<Longrightarrow> accepted w' = accepted w"
    and update_accepted: "wf w \<Longrightarrow> st_updateStatus st now i s w = Inr w' \<Longrightarrow> accepted w' = accepted w"

text \<open>The status an order has after some events.\<close>

definition status_reached :: "OrderStatus \<Rightarrow> OrderEventType list \<Rightarrow> OrderStatus" where
  "status_reached s tys = foldl (\<lambda>_ ty. statusAfter ty) s tys"

lemma status_reached_simps [simp]:
  "status_reached s [] = s" "status_reached s (ty # tys) = status_reached (statusAfter ty) tys"
  by (simp_all add: status_reached_def)

context order_service
begin

text \<open>One step of the lifecycle loop, on every branch.\<close>

lemma lifecycle_step_cases:
  assumes "wf w" and "orders_of w i = Some cur"
    and "lifecycle_loop st dis fr ord i (ty # tys) steps w = (r, w')"
  obtains (unsent) err where "r = Inl err" "wf w'" "accepted w' = accepted w" "orders_of w' = orders_of w"
    | (unraised) err where "r = Inl err" "wf w'" "accepted w' = accepted w @ [toPayload fr ord ty]"
        "orders_of w' = orders_of w"
    | (advanced) d :: DispatchResult and w2 where "wf w2" "accepted w2 = accepted w @ [toPayload fr ord ty]"
        "orders_of w2 = (orders_of w)(i \<mapsto> cur\<lparr>status := statusAfter ty, updatedAt := fr_upd fr ty\<rparr>)"
        "lifecycle_loop st dis fr ord i tys
           (steps @ [\<lparr>ls_eventType = ty, ls_destination = destination d, ls_partition = dr_partition d,
                      ls_offset = dr_offset d, ls_key = dr_key d\<rparr>]) w2 = (r, w')"
proof -
  obtain res w1 where d: "dis_dispatch dis (fr_disp fr ty) (toPayload fr ord ty) w = (res, w1)" by fastforce
  have w1: "wf w1" "orders_of w1 = orders_of w" using dispatch_orders [OF assms(1) d] by auto
  show thesis
  proof (cases res)
    case (Inl err)
    have "r = Inl err" "w' = w1" using Inl d assms(3) by simp_all
    moreover have "accepted w1 = accepted w" using dispatch_err [OF assms(1)] d Inl by simp
    ultimately show thesis using unsent w1 by simp
  next
    case (Inr dr)
    have acc: "accepted w1 = accepted w @ [toPayload fr ord ty]"
      using dispatch_ok [OF assms(1)] d Inr by simp
    show thesis
    proof (cases "st_updateStatus st (fr_upd fr ty) i (statusAfter ty) w1")
      case (Inl err)
      have "r = Inl err" "w' = w1" using Inl Inr d assms(3) by simp_all
      then show thesis using unraised acc w1 by simp
    next
      case u: (Inr w2)
      have "wf w2" "orders_of w2 = (orders_of w)(i \<mapsto> cur\<lparr>status := statusAfter ty, updatedAt := fr_upd fr ty\<rparr>)"
        using update_law [OF w1(1) u] assms(2) w1(2) by auto
      moreover have "accepted w2 = accepted w @ [toPayload fr ord ty]"
        using update_accepted [OF w1(1) u] acc by simp
      ultimately show thesis using advanced [of w2 dr] d Inr u assms(3) by simp
    qed
  qed
qed

lemma lifecycle_loop_outcome:
  "wf w \<Longrightarrow> orders_of w i = Some cur \<Longrightarrow> lifecycle_loop st dis fr ord i tys steps w = (r, w') \<Longrightarrow>
   wf w' \<and> (\<exists>k n cur'. k \<le> length tys \<and> (n = k \<or> n = Suc k) \<and>
     accepted w' = accepted w @ map (toPayload fr ord) (take n tys) \<and>
     orders_of w' = (orders_of w)(i \<mapsto> cur') \<and> status cur' = status_reached (status cur) (take k tys) \<and>
     cur'\<lparr>status := status cur, updatedAt := updatedAt cur\<rparr> = cur \<and>
     (case r of Inr steps' \<Rightarrow> k = length tys \<and> map ls_eventType steps' = map ls_eventType steps @ tys
      | Inl _ \<Rightarrow> k < length tys))"
proof (induction tys arbitrary: w cur steps)
  case Nil
  then show ?case by (auto intro!: exI [of _ cur])
next
  case (Cons ty tys)
  show ?case
  proof (rule lifecycle_step_cases [OF Cons.prems], goal_cases)
    case (1 err)
    then show ?thesis using Cons.prems(2)
      by (intro conjI exI [of _ 0] exI [of _ cur]) (auto simp: fun_upd_idem)
  next
    case (2 err)
    then show ?thesis using Cons.prems(2)
      by (intro conjI exI [of _ "0 :: nat"] exI [of _ "1 :: nat"] exI [of _ cur]) (auto simp: fun_upd_idem)
  next
    case advanced: (3 d w2)
    let ?cur = "cur\<lparr>status := statusAfter ty, updatedAt := fr_upd fr ty\<rparr>"
    have o2: "orders_of w2 i = Some ?cur" using advanced(3) by simp
    let ?steps = "steps @ [\<lparr>ls_eventType = ty, ls_destination = destination d, ls_partition = dr_partition d,
      ls_offset = dr_offset d, ls_key = dr_key d\<rparr>]"
    from Cons.IH [OF advanced(1) o2 advanced(4)] obtain k n cur' where ih: "wf w'" "k \<le> length tys"
      "n = k \<or> n = Suc k" "accepted w' = accepted w2 @ map (toPayload fr ord) (take n tys)"
      "orders_of w' = (orders_of w2)(i \<mapsto> cur')" "status cur' = status_reached (status ?cur) (take k tys)"
      "cur'\<lparr>status := status ?cur, updatedAt := updatedAt ?cur\<rparr> = ?cur"
      "case r of Inr steps' \<Rightarrow> k = length tys \<and> map ls_eventType steps' = map ls_eventType ?steps @ tys
       | Inl _ \<Rightarrow> k < length tys"
      by (elim conjE exE)
    have "cur'\<lparr>status := status cur, updatedAt := updatedAt cur\<rparr> = cur"
      using ih(7) by (cases cur; cases cur') auto
    then show ?thesis using ih(1-6,8) advanced(2,3)
      by (intro conjI exI [of _ "Suc k"] exI [of _ "Suc n"] exI [of _ cur']) (auto split: sum.splits)
  qed
qed

lemma createOrder_outcome:
  assumes "wf w" and "createOrder st dis fr input w = (r, w')" and "ord = new_order fr input"
  shows "wf w' \<and>
    (case r of
       Inr (saved, _) \<Rightarrow> saved = ord \<and> orders_of w (orderId ord) = None \<and>
         orders_of w' = (orders_of w)(orderId ord \<mapsto> ord) \<and> accepted w' = accepted w @ [toPayload fr ord EV_CREATED]
     | Inl _ \<Rightarrow> accepted w' = accepted w \<and>
         (orders_of w' = orders_of w \<or> orders_of w' = (orders_of w)(orderId ord \<mapsto> ord)))"
proof (cases "st_saveOrder st ord w")
  case (Inl err)
  then show ?thesis using assms by (auto simp: createOrder_def)
next
  case (Inr w1)
  have w1: "wf w1" "orders_of w (orderId ord) = None" "orders_of w1 = (orders_of w)(orderId ord \<mapsto> ord)"
    "accepted w1 = accepted w"
    using save_law [OF assms(1) Inr] save_accepted [OF assms(1) Inr] by auto
  obtain res w2 where d: "dis_dispatch dis (fr_disp fr EV_CREATED) (toPayload fr ord EV_CREATED) w1 = (res, w2)"
    by fastforce
  have "wf w2" "orders_of w2 = orders_of w1" using dispatch_orders [OF w1(1) d] by auto
  then show ?thesis
    using assms(2,3) Inr d w1 dispatch_ok [OF w1(1)] dispatch_err [OF w1(1)]
    by (cases res) (auto simp: createOrder_def)
qed

lemma dispatchLifecycle_outcome:
  assumes "wf w" and "orders_of w i = Some ord" and "dispatchLifecycle st dis fr i w = (r, w')"
  shows "wf w' \<and> (\<exists>k n ord'. k \<le> 3 \<and> (n = k \<or> n = Suc k) \<and>
     accepted w' = accepted w @ map (toPayload fr ord) (take n LIFECYCLE_EVENT_TYPES) \<and>
     orders_of w' = (orders_of w)(i \<mapsto> ord') \<and>
     status ord' = status_reached (status ord) (take k LIFECYCLE_EVENT_TYPES) \<and>
     ord'\<lparr>status := status ord, updatedAt := updatedAt ord\<rparr> = ord \<and>
     (case r of Inr lc \<Rightarrow> k = 3 \<and> map ls_eventType (lc_steps lc) = LIFECYCLE_EVENT_TYPES | Inl _ \<Rightarrow> k < 3))"
proof -
  obtain r1 where l: "lifecycle_loop st dis fr ord i LIFECYCLE_EVENT_TYPES [] w = (r1, w')"
    and r: "r = (case r1 of Inl err \<Rightarrow> Inl err | Inr steps \<Rightarrow> Inr \<lparr>lc_orderId = i, lc_steps = steps\<rparr>)"
    using assms(2,3) find_law [OF assms(1), of i]
    by (auto simp: dispatchLifecycle_def split: prod.splits sum.splits)
  have len: "length LIFECYCLE_EVENT_TYPES = 3" by (simp add: LIFECYCLE_EVENT_TYPES_def)
  show ?thesis
    using lifecycle_loop_outcome [OF assms(1,2) l] unfolding len
    by (cases r1) (simp_all add: r)
qed

end

section \<open>The service on the SQLite store with either channel\<close>

definition world_wf :: "'k OrderWorld \<Rightarrow> bool" where
  "world_wf w \<longleftrightarrow> wf_db (w_db w) \<and> draining (w_mem w) = (in_hand (w_mem w) \<noteq> None)"

fun world_accepted :: "DispatcherMode \<Rightarrow> 'k OrderWorld \<Rightarrow> OrderEventPayload list" where
  "world_accepted KafkaMode w = published (w_pub w)"
| "world_accepted MemoryMode w = mem_accepted (w_mem w)"

lemma world_store_simps [simp]:
  "st_findOrder (world_store a g) i w = findOrder i (w_db w)"
  "st_saveOrder (world_store a g) ord w = map_sum id (\<lambda>d. w\<lparr>w_db := d\<rparr>) (saveOrder ord (w_db w))"
  "st_updateStatus (world_store a g) now i s w = map_sum id (\<lambda>d. w\<lparr>w_db := d\<rparr>) (updateStatus now i s (w_db w))"
  "st_recordEvent (world_store a g) r w = map_sum id (\<lambda>d. w\<lparr>w_db := d\<rparr>) (recordEvent r (w_db w))"
  "st_countEvents (world_store a g) w = countEvents (w_db w)"
  "st_countOrders (world_store a g) w = countOrders (w_db w)"
  "st_findDuplicates (world_store a g) w = findDuplicates a (w_db w)"
  by (simp_all add: world_store_def store_in_def)

lemma map_sum_Inr: "map_sum id f x = Inr y \<longleftrightarrow> (\<exists>d. x = Inr d \<and> y = f d)"
  by (cases x) auto

text \<open>A call of \<open>dispatch\<close> on the memory queue: what it keeps of the store and of the queue.\<close>

lemma record_call_orders: "wf_db db \<Longrightarrow> record_call now p (db, m) = (db', m') \<Longrightarrow>
    wf_db db' \<and> db_orders db' = db_orders db"
  by (auto simp: record_call_def dest: recordEvent_wf split: sum.splits)

lemma drain_loop_orders:
  assumes "wf_db db" and "in_hand m = None" and "draining m" and "drain_loop now (db, m) = (db', m')"
  shows "wf_db db' \<and> db_orders db' = db_orders db \<and> draining m' = (in_hand m' \<noteq> None) \<and>
         mem_accepted m' = mem_accepted m"
proof (cases "mem_queue m = [] \<or> stopped m \<or> processingDelayMs m > 0")
  case True
  then show ?thesis using assms
    by (auto simp: drain_loop_def mem_accepted_def split: list.splits if_splits)
next
  case False
  then obtain event rest where q: "mem_queue m = event # rest" by (cases "mem_queue m") auto
  then have r: "record_call now event (db, m\<lparr>mem_queue := rest\<rparr>) = (db', m')"
    using assms(4) False by (simp add: drain_loop_def)
  note k = record_call_keeps [OF r]
  show ?thesis using record_call_orders [OF assms(1) r] k(1,2,7,8) q assms(2,3)
    by (auto simp: mem_accepted_def)
qed

lemma mem_dispatch_world:
  assumes "wf_db db" and "draining m = (in_hand m \<noteq> None)" and "mem_dispatch now p (db, m) = (r, db', m')"
  shows "wf_db db' \<and> db_orders db' = db_orders db \<and> draining m' = (in_hand m' \<noteq> None) \<and>
         mem_accepted m' = mem_accepted m @ (case r of Inr _ \<Rightarrow> [p] | Inl _ \<Rightarrow> [])"
proof (cases "stopped m \<or> draining m")
  case True
  then show ?thesis using assms by (auto simp: mem_dispatch_def drain_def mem_accepted_def split: if_splits)
next
  case False
  let ?m = "m\<lparr>mem_queue := mem_queue m @ [p], enqueued := enqueued m + 1, draining := True\<rparr>"
  have l: "drain_loop now (db, ?m) = (db', m')" and "\<exists>d. r = Inr d"
    using False assms(3) by (auto simp: mem_dispatch_def drain_def)
  then show ?thesis using drain_loop_orders [OF assms(1) _ _ l] False assms(2)
    by (auto simp: mem_accepted_def)
qed

lemma kafka_dispatch_world:
  assumes "kafka_dispatch send p w = (r, w')"
  shows "w_db w' = w_db w \<and> w_mem w' = w_mem w \<and>
         published (w_pub w') = published (w_pub w) @ (case r of Inr _ \<Rightarrow> [p] | Inl _ \<Rightarrow> []) \<and>
         connected (w_pub w') = connected (w_pub w) \<and> pub_config (w_pub w') = pub_config (w_pub w)"
  using assms
  by (auto simp: kafka_dispatch_def publish_def split: prod.splits sum.splits list.splits if_splits)

lemma channel_dispatch_world:
  assumes "world_wf w" and "dis_dispatch (channel mode send) now p w = (r, w')"
  shows "world_wf w' \<and> db_orders (w_db w') = db_orders (w_db w) \<and>
         world_accepted mode w' = world_accepted mode w @ (case r of Inr _ \<Rightarrow> [p] | Inl _ \<Rightarrow> [])"
proof (cases mode)
  case KafkaMode
  then show ?thesis using assms kafka_dispatch_world [of send p w r w']
    by (simp add: kafka_dispatcher_def world_wf_def)
next
  case MemoryMode
  then obtain db m where d: "mem_dispatch now p (w_db w, w_mem w) = (r, db, m)"
    and w': "w' = w\<lparr>w_db := db, w_mem := m\<rparr>"
    using assms(2) by (auto simp: memory_dispatcher_def split: prod.splits)
  show ?thesis using mem_dispatch_world [OF _ _ d] assms(1) by (simp add: MemoryMode w' world_wf_def)
qed

interpretation order_world: order_service "world_store a g" "channel mode send" world_wf "db_orders \<circ> w_db"
    "db_log \<circ> w_db" "world_accepted mode"
proof unfold_locales
  fix w w' :: "'a OrderWorld" and i ord now s r p res err
  assume wf: "world_wf w"
  then have db: "wf_db (w_db w)" by (simp add: world_wf_def)
  show "st_findOrder (world_store a g) i w = Inr ((db_orders \<circ> w_db) w i)"
    using findOrder_wf [OF db] by simp
  show "world_wf w' \<and> (db_orders \<circ> w_db) w (orderId ord) = None \<and>
      (db_orders \<circ> w_db) w' = ((db_orders \<circ> w_db) w)(orderId ord \<mapsto> ord) \<and> (db_log \<circ> w_db) w' = (db_log \<circ> w_db) w"
    and "world_accepted mode w' = world_accepted mode w"
    if "st_saveOrder (world_store a g) ord w = Inr w'"
    using that saveOrder_wf [OF db] wf by (cases mode; auto simp: map_sum_Inr world_wf_def)+
  show "world_wf w' \<and> (db_log \<circ> w_db) w' = (db_log \<circ> w_db) w \<and> (\<exists>ord. (db_orders \<circ> w_db) w i = Some ord \<and>
      (db_orders \<circ> w_db) w' = ((db_orders \<circ> w_db) w)(i \<mapsto> ord\<lparr>status := s, updatedAt := now\<rparr>))"
    and "world_accepted mode w' = world_accepted mode w"
    if "st_updateStatus (world_store a g) now i s w = Inr w'"
    using that updateStatus_wf [OF db] wf by (cases mode; auto simp: map_sum_Inr world_wf_def)+
  show "world_wf w' \<and> (db_orders \<circ> w_db) w' = (db_orders \<circ> w_db) w \<and>
      (\<exists>n. (db_log \<circ> w_db) w' = (db_log \<circ> w_db) w @ [r\<lparr>rec_id := Some n\<rparr>])"
    if "st_recordEvent (world_store a g) r w = Inr w'"
    using that recordEvent_wf [OF db] wf by (auto simp: map_sum_Inr world_wf_def)
  show "st_countEvents (world_store a g) w = length ((db_log \<circ> w_db) w)"
    by (simp add: countEvents_def db_log_def)
  show "world_accepted mode w' = world_accepted mode w @ [p]"
    if "dis_dispatch (channel mode send) now p w = (Inr res, w')"
    using channel_dispatch_world [OF wf that] by simp
  show "world_accepted mode w' = world_accepted mode w"
    if "dis_dispatch (channel mode send) now p w = (Inl err, w')"
    using channel_dispatch_world [OF wf that] by simp
next
  fix w w' :: "'a OrderWorld" and now p res
  assume "world_wf w" and "dis_dispatch (channel mode send) now p w = (res, w')"
  then show "world_wf w' \<and> (db_orders \<circ> w_db) w' = (db_orders \<circ> w_db) w"
    using channel_dispatch_world by (metis comp_apply)
qed

section \<open>Bulk runs\<close>

lemma below_ceiling: "of_nat i < (reps :: rat) \<longleftrightarrow> i < nat \<lceil>reps\<rceil>"
  by (metis less_ceiling_iff nat_less_iff of_int_of_nat_eq of_nat_0_le_iff zless_nat_eq_int_zless)

text \<open>One induction for every bulk run: \<open>work\<close> keeps \<open>P\<close>, its results have \<open>Q\<close>, and each
  success adds \<open>c\<close> to \<open>f\<close>.\<close>

lemma repeat_from_outcome:
  assumes step: "\<And>i w r w'. P w \<Longrightarrow> work i w = (r, w') \<Longrightarrow>
      P w' \<and> (case r of Inr x \<Rightarrow> Q x \<and> f w' = f w + c | Inl _ \<Rightarrow> f w' = (f w :: nat))"
  shows "repeat_from reps work i res errs w = (rs, es, w') \<Longrightarrow> P w \<Longrightarrow> list_all Q res \<Longrightarrow>
    length errs \<le> MAX_REPORTED_ERRORS \<Longrightarrow>
    P w' \<and> list_all Q rs \<and>
    (\<exists>ok \<le> nat \<lceil>reps\<rceil> - i. length rs = length res + ok \<and> f w' = f w + ok * c \<and>
       length es = min MAX_REPORTED_ERRORS (length errs + (nat \<lceil>reps\<rceil> - i - ok)))"
proof (induction "nat \<lceil>reps\<rceil> - i" arbitrary: i res errs w)
  case 0
  then show ?case by (simp add: repeat_from.simps [of reps] below_ceiling)
next
  case (Suc n)
  then have less: "i < nat \<lceil>reps\<rceil>" and n: "n = nat \<lceil>reps\<rceil> - Suc i" by simp_all
  obtain r w1 where work: "work i w = (r, w1)" by fastforce
  note st = step [OF Suc.prems(2) work]
  show ?case
  proof (cases r)
    case (Inr x)
    then have run: "repeat_from reps work (Suc i) (res @ [x]) errs w1 = (rs, es, w')"
      using Suc.prems(1) work less by (simp add: repeat_from.simps [of reps _ i] below_ceiling)
    obtain ok where ok: "ok \<le> n" "length rs = length res + Suc ok" "f w' = f w + Suc ok * c"
      "length es = min MAX_REPORTED_ERRORS (length errs + (n - ok))" "P w'" "list_all Q rs"
      using Suc.hyps(1) [OF n run] st Suc.prems(3,4) unfolding n [symmetric] by (auto simp: Inr)
    then show ?thesis using Suc.hyps(2) by (intro conjI exI [of _ "Suc ok"]) auto
  next
    case (Inl err)
    let ?errs = "if length errs < MAX_REPORTED_ERRORS then errs @ [err] else errs"
    have short: "length ?errs \<le> MAX_REPORTED_ERRORS" using Suc.prems(4) by simp
    have run: "repeat_from reps work (Suc i) res ?errs w1 = (rs, es, w')"
      using Suc.prems(1) work less Inl by (simp add: repeat_from.simps [of reps _ i] below_ceiling)
    obtain ok where ok: "ok \<le> n" "length rs = length res + ok" "f w' = f w + ok * c"
      "length es = min MAX_REPORTED_ERRORS (length ?errs + (n - ok))" "P w'" "list_all Q rs"
      using Suc.hyps(1) [OF n run _ Suc.prems(3) short] st unfolding n [symmetric] by (auto simp: Inl simp del: if_split)
    then have "length es = min MAX_REPORTED_ERRORS (length errs + (Suc n - ok))"
      using Suc.prems(4) by auto
    then show ?thesis using ok unfolding Suc.hyps(2) [symmetric] by (intro conjI exI [of _ ok]) simp_all
  qed
qed

lemma count_partitions_keys: "distinct (map fst counts) \<Longrightarrow> distinct (map fst (count_partitions ds counts))"
  by (induction ds counts rule: count_partitions.induct) (auto simp: AList.distinct_update split: option.splits)

lemma sum_update_count:
  assumes "distinct (map fst counts)"
  shows "sum_list (map snd (AList.update p ((case map_of counts p of None \<Rightarrow> 0 | Some n \<Rightarrow> n) + 1) counts)) =
         Suc (sum_list (map snd counts))"
proof (cases "map_of counts p")
  case None
  then have "p \<notin> set (map fst counts)" by (simp add: map_of_eq_None_iff)
  then show ?thesis by (simp add: alist_update_absent None)
next
  case (Some n)
  then obtain xs ys where "counts = xs @ (p, n) # ys" "p \<notin> set (map fst xs)" "p \<notin> set (map fst ys)"
    using assms by (rule alist_split)
  then show ?thesis using Some by (simp add: alist_update_present)
qed

lemma count_partitions_sum:
  "distinct (map fst counts) \<Longrightarrow>
   sum_list (map snd (count_partitions ds counts)) =
     sum_list (map snd counts) + length (filter (\<lambda>d. dr_partition d \<noteq> None) ds)"
proof (induction ds counts rule: count_partitions.induct)
  case (2 d ds counts)
  then show ?case using sum_update_count [OF 2(3)]
    by (auto simp: AList.distinct_update split: option.splits)
qed simp

text \<open>A bulk run of \<open>createOrder\<close> on the world.\<close>

lemma createBulk_step:
  assumes "world_wf w"
    and "map_prod (map_sum id snd) id (createOrder (world_store a g) (channel mode send) fr input w) = (r, w')"
  shows "world_wf w' \<and> (case r of Inr d \<Rightarrow> (mode = KafkaMode \<longrightarrow> dr_partition d \<noteq> None) \<and>
           length (world_accepted mode w') = length (world_accepted mode w) + 1
         | Inl _ \<Rightarrow> length (world_accepted mode w') = length (world_accepted mode w))"
proof -
  obtain r0 where c: "createOrder (world_store a g) (channel mode send) fr input w = (r0, w')"
    and r: "r = map_sum id snd r0"
    using assms(2) by (cases "createOrder (world_store a g) (channel mode send) fr input w") auto
  note out = order_world.createOrder_outcome [OF assms(1) c refl]
  have "dr_partition d \<noteq> None" if "r = Inr d" "mode = KafkaMode" for d
    using c r that
    by (auto simp: createOrder_def kafka_dispatcher_def kafka_dispatch_def Let_def
        split: sum.splits prod.splits)
  with out show ?thesis by (cases r0) (auto simp: r)
qed

text \<open>What a bulk run reports. Every attempt is made, each success has published exactly one
  event, at most five error messages are kept, and the partition counts cover the results that have
  a partition (all of them with Kafka). For a whole number of orders \<open>failed\<close> is the number of failed
  attempts; for a fractional number, which the controller lets through, the loop runs once more than
  the whole part and \<open>failed\<close> is negative when every attempt succeeds.\<close>

theorem bulk_report:
  assumes "world_wf w" and "0 \<le> reps"
    and "createBulk (world_store a g) (channel mode send) fr t0 t1 reps w = (out, w')"
    and "attempts = nat \<lceil>reps\<rceil>"
  shows "bo_created out \<le> attempts \<and>
         length (world_accepted mode w') = length (world_accepted mode w) + bo_created out \<and>
         length (bo_errors out) = min 5 (attempts - bo_created out) \<and>
         sum_list (map snd (bo_partitionCounts out)) \<le> bo_created out \<and>
         (mode = KafkaMode \<longrightarrow> sum_list (map snd (bo_partitionCounts out)) = bo_created out) \<and>
         (reps \<in> \<int> \<longrightarrow> bo_failed out = of_nat (attempts - bo_created out)) \<and>
         (reps \<notin> \<int> \<and> bo_created out = attempts \<longrightarrow> bo_failed out < 0)"
proof -
  let ?work = "\<lambda>i w. map_prod (map_sum id snd) id (createOrder (world_store a g) (channel mode send) (fr i) empty_input w)"
  obtain rs es where run: "repeat_from reps ?work 0 [] [] w = (rs, es, w')"
    and out: "out = \<lparr>bo_requested = reps, bo_created = length rs, bo_failed = reps - of_nat (length rs),
      bo_elapsedMs = t1 - t0, bo_partitionCounts = count_partitions rs [], bo_errors = es\<rparr>"
    using assms(3) by (auto simp: createBulk_def repeatCollecting_def split: prod.splits)
  have rep: "list_all (\<lambda>d. mode = KafkaMode \<longrightarrow> dr_partition d \<noteq> None) rs \<and>
    (\<exists>ok \<le> attempts. length rs = ok \<and> length (world_accepted mode w') = length (world_accepted mode w) + ok \<and>
       length es = min MAX_REPORTED_ERRORS (attempts - ok))"
    using repeat_from_outcome [where P = world_wf and Q = "\<lambda>d. mode = KafkaMode \<longrightarrow> dr_partition d \<noteq> None"
        and f = "\<lambda>w. length (world_accepted mode w)" and c = 1, OF createBulk_step run assms(1)]
    by (auto simp: assms(4))
  then have le: "length rs \<le> attempts" by blast
  have parts: "sum_list (map snd (count_partitions rs [])) = length (filter (\<lambda>d. dr_partition d \<noteq> None) rs)"
    using count_partitions_sum [of "[]" rs] by simp
  have up: "of_nat attempts = (of_int \<lceil>reps\<rceil> :: rat)" using assms(2,4) by (simp add: zero_le_ceiling)
  have "reps - of_nat (length rs) = of_nat (attempts - length rs)" if "reps \<in> \<int>"
    using that le up by (auto simp: of_nat_diff elim!: Ints_cases)
  moreover have "reps - of_nat (length rs) < 0" if "reps \<notin> \<int>" "length rs = attempts"
  proof -
    have "reps \<noteq> of_int \<lceil>reps\<rceil>" using that(1) by (metis Ints_of_int)
    then have "reps < of_nat attempts" unfolding up using le_of_int_ceiling [of reps] by linarith
    then show ?thesis using that(2) by simp
  qed
  moreover have "length (filter (\<lambda>d. dr_partition d \<noteq> None) rs) = length rs" if "mode = KafkaMode"
    using that rep by (simp add: list_all_iff filter_id_conv)
  ultimately show ?thesis using rep le parts by (auto simp: out MAX_REPORTED_ERRORS_def)
qed

definition sample_config :: OrderPublisherConfig where
  "sample_config = \<lparr>pc_brokers = [''b:9092''], pc_clientId = ''c'', pc_enabled = True, idempotent = True,
     acks = num_of_int (- 1), disableKey = False\<rparr>"

text \<open>A broker for evaluation: one partition per key length modulo 3, offsets by a counter.\<close>

definition sample_send :: "nat send" where
  "sample_send topic ack key p k =
     (Inr [\<lparr>topicName = topic, md_partition = (case key of None \<Rightarrow> int k mod 3 | Some s \<Rightarrow> int (length s) mod 3),
            baseOffset = Some (show_int (int k))\<rparr>], Suc k)"

definition sample_world :: "nat OrderWorld" where
  "sample_world = \<lparr>w_db = empty_db, w_pub = \<lparr>pub_config = sample_config, connected = True, published = []\<rparr>,
     w_kafka = 0, w_mem = idle_memory 0\<rparr>"

definition sample_fresh :: "nat \<Rightarrow> Fresh" where
  "sample_fresh i = \<lparr>fr_uuid = show_int (int i), fr_user = 7, fr_now = 1, fr_emit = (\<lambda>_. 2), fr_disp = (\<lambda>_. 3), fr_upd = (\<lambda>_. 4)\<rparr>"

lemma sample_world_wf: "world_wf sample_world"
  by (simp add: world_wf_def sample_world_def wf_empty_db idle_memory_def)

theorem bulk_report_witness:
  "\<exists>out w'. createBulk (world_store rev rev) (channel KafkaMode sample_send) sample_fresh 0 9 (3 / 2) sample_world = (out, w') \<and>
     bo_created out = 2 \<and> bo_failed out < 0"
proof -
  obtain out w' where run: "createBulk (world_store rev rev) (channel KafkaMode sample_send) sample_fresh 0 9 (3 / 2) sample_world = (out, w')"
    by fastforce
  have "bo_created (fst (createBulk (world_store rev rev) (channel KafkaMode sample_send) sample_fresh 0 9 (3 / 2) sample_world)) = 2"
    by code_simp
  then have c: "bo_created out = 2" unfolding run by simp
  have "(3 / 2 :: rat) \<notin> \<int>"
  proof
    assume "(3 / 2 :: rat) \<in> \<int>"
    then obtain k where "(3 / 2 :: rat) = of_int k" by (rule Ints_cases)
    then have "3 = 2 * k" by (metis (mono_tags) mult.commute nonzero_eq_divide_eq of_int_eq_iff of_int_mult
          of_int_numeral zero_neq_numeral)
    then show False by presburger
  qed
  moreover have "nat \<lceil>3 / 2 :: rat\<rceil> = 2" by code_simp
  ultimately have "bo_failed out < 0"
    using bulk_report [OF sample_world_wf _ run refl] c by simp
  with run c show ?thesis by blast
qed

section \<open>The life of an order\<close>

lemma event_types_split: "event_types = EV_CREATED # LIFECYCLE_EVENT_TYPES"
  by (simp add: event_types_def LIFECYCLE_EVENT_TYPES_def)

lemma lifecycle_rank:
  "k \<le> 3 \<Longrightarrow> status_rank (status_reached ST_CREATED (take k LIFECYCLE_EVENT_TYPES)) = k"
  by (auto simp: LIFECYCLE_EVENT_TYPES_def take_Cons' le_Suc_eq numeral_3_eq_3)

text \<open>C19. The life of an order, on either channel. When creating an order with its lifecycle
  succeeds, exactly the four events of the order were handed to the channel, in the order created,
  inventory, payment, shipment, and the stored order is shipped. When it fails, the events handed
  over are a prefix of these, the stored order (if it was saved) is never ahead of them and at most
  one event behind, and no other order is touched.\<close>

theorem lifecycle_keeps_status_and_events_together:
  assumes "world_wf w" and "order_with_lifecycle (world_store a g) (channel mode send) fr w = (r, w')"
    and "ord = new_order fr empty_input"
  shows "\<exists>n \<le> 4. world_accepted mode w' = world_accepted mode w @ map (toPayload fr ord) (take n event_types) \<and>
     ((\<exists>err. r = Inl err) \<and> n = 0 \<and> db_orders (w_db w') = db_orders (w_db w) \<or>
      (\<exists>stored. db_orders (w_db w') = (db_orders (w_db w))(orderId ord \<mapsto> stored) \<and>
         stored\<lparr>status := status ord, updatedAt := updatedAt ord\<rparr> = ord \<and>
         status_rank (status stored) + 1 \<le> max 1 n \<and> n \<le> status_rank (status stored) + 2 \<and>
         (case r of Inr _ \<Rightarrow> n = 4 \<and> status stored = ST_SHIPPED | Inl _ \<Rightarrow> status stored \<noteq> ST_SHIPPED)))"
proof -
  let ?st = "world_store a g" and ?dis = "channel mode send" and ?pay = "toPayload fr ord"
  have created: "status ord = ST_CREATED" by (simp add: assms(3) new_order_def Let_def)
  obtain c w1 where c: "createOrder ?st ?dis fr empty_input w = (c, w1)" by fastforce
  note out = order_world.createOrder_outcome [OF assms(1) c assms(3)]
  show ?thesis
  proof (cases c)
    case (Inl err)
    then have "r = Inl err" "w' = w1" using assms(2) c by (auto simp: order_with_lifecycle_def)
    then show ?thesis using out Inl created by (intro exI [of _ 0]) auto
  next
    case (Inr x)
    then obtain d where x: "x = (ord, d)" and w1: "world_wf w1"
      "db_orders (w_db w1) = (db_orders (w_db w))(orderId ord \<mapsto> ord)"
      "world_accepted mode w1 = world_accepted mode w @ [?pay EV_CREATED]"
      using out by (cases x) auto
    have l: "dispatchLifecycle ?st ?dis fr (orderId ord) w1 = (r, w')"
      using assms(2) c by (simp add: order_with_lifecycle_def Inr x)
    have found: "(db_orders \<circ> w_db) w1 (orderId ord) = Some ord" using w1(2) by simp
    from order_world.dispatchLifecycle_outcome [OF w1(1) found l] obtain k n stored where
      lc: "k \<le> 3" "n = k \<or> n = Suc k"
        "world_accepted mode w' = world_accepted mode w1 @ map ?pay (take n LIFECYCLE_EVENT_TYPES)"
        "(db_orders \<circ> w_db) w' = ((db_orders \<circ> w_db) w1)(orderId ord \<mapsto> stored)"
        "status stored = status_reached (status ord) (take k LIFECYCLE_EVENT_TYPES)"
        "stored\<lparr>status := status ord, updatedAt := updatedAt ord\<rparr> = ord"
        "case r of Inr lc \<Rightarrow> k = 3 \<and> map ls_eventType (lc_steps lc) = LIFECYCLE_EVENT_TYPES | Inl _ \<Rightarrow> k < 3"
      by (elim conjE exE)
    have rank: "status_rank (status stored) = k" using lc(5) lifecycle_rank [OF lc(1)] created by simp
    have shipped: "status stored = ST_SHIPPED \<longleftrightarrow> k = 3" using rank by (cases "status stored") auto
    define m where "m = min (Suc n) 4"
    have ev: "map ?pay (take m event_types) = ?pay EV_CREATED # map ?pay (take n LIFECYCLE_EVENT_TYPES)"
      by (simp add: m_def event_types_split min_def LIFECYCLE_EVENT_TYPES_def)
    have "m \<le> 4" "k + 1 \<le> max 1 m" "m \<le> k + 2" using lc(1,2) by (auto simp: m_def)
    moreover have "case r of Inr _ \<Rightarrow> m = 4 \<and> status stored = ST_SHIPPED | Inl _ \<Rightarrow> status stored \<noteq> ST_SHIPPED"
      using lc(2,7) shipped by (cases r) (auto simp: m_def)
    ultimately show ?thesis using lc(3,4,6) w1(2,3) ev rank by (intro exI [of _ m]) auto
  qed
qed

theorem lifecycle_keeps_status_and_events_together_witness:
  "\<exists>r w' stored. order_with_lifecycle (world_store rev rev) (channel MemoryMode sample_send) (sample_fresh 0) sample_world = (r, w') \<and>
     map p_eventType (world_accepted MemoryMode w') = event_types \<and>
     db_orders (w_db w') ''ord-0'' = Some stored \<and> status stored = ST_SHIPPED"
proof -
  let ?ord = "new_order (sample_fresh 0) empty_input"
  obtain r w' where run: "order_with_lifecycle (world_store rev rev) (channel MemoryMode sample_send) (sample_fresh 0) sample_world = (r, w')"
    by fastforce
  have start: "world_accepted MemoryMode sample_world = []"
    by (simp add: sample_world_def idle_memory_def mem_accepted_def)
  have "\<not> isl (fst (order_with_lifecycle (world_store rev rev) (channel MemoryMode sample_send) (sample_fresh 0) sample_world))"
    by code_simp
  then obtain lc where r: "r = Inr lc" unfolding run by (cases r) auto
  have i: "orderId ?ord = ''ord-0''" by code_simp
  have "\<exists>stored. world_accepted MemoryMode w' = map (toPayload (sample_fresh 0) ?ord) event_types \<and>
      db_orders (w_db w') (orderId ?ord) = Some stored \<and> status stored = ST_SHIPPED"
    using lifecycle_keeps_status_and_events_together [OF sample_world_wf run refl] start r
    by (auto simp: event_types_def)
  then show ?thesis unfolding i using run by (auto simp: toPayload_def comp_def)
qed

section \<open>Where the events of an order go\<close>

text \<open>A broker that places a message by its key, the same way for every topic.\<close>

definition keyed_by :: "(string \<Rightarrow> int) \<Rightarrow> 'k send \<Rightarrow> bool" where
  "keyed_by part send \<longleftrightarrow>
     (\<forall>topic ack key p k md mds k'. send topic ack (Some key) p k = (Inr (md # mds), k') \<longrightarrow> md_partition md = part key)"

definition keys_on :: "'k OrderWorld \<Rightarrow> bool" where
  "keys_on w \<longleftrightarrow> world_wf w \<and> \<not> disableKey (pub_config (w_pub w))"

definition key_of :: "Order \<Rightarrow> OrderEventType \<Rightarrow> string" where
  "key_of ord ty = (if ty = EV_INVENTORY_RESERVED then productId (hd (items ord)) else orderId ord)"

lemma keyed_byD:
  "keyed_by part send \<Longrightarrow> send topic ack (Some key) p k = (Inr (md # mds), k') \<Longrightarrow> md_partition md = part key"
  unfolding keyed_by_def by blast

lemma keyed_dispatch:
  assumes "keyed_by part send" and "keys_on w" and "kafka_dispatch send (toPayload fr ord ty) w = (Inr d, w')"
  shows "dr_partition d = Some (part (key_of ord ty))"
proof -
  have cfg: "\<not> disableKey (pub_config (w_pub w))" using assms(2) by (simp add: keys_on_def)
  obtain key where k: "pickEventKey (toPayload fr ord ty) = Inr key"
    using assms(3) cfg
    by (cases "pickEventKey (toPayload fr ord ty)")
       (auto simp: kafka_dispatch_def publish_def message_key_def and_then_Inr split: sum.splits prod.splits if_splits)
  then have key: "key = key_of ord ty" by (auto simp: pickEventKey_Inr key_of_def toPayload_def split: if_splits)
  show ?thesis
    using assms(1,3) cfg k key
    by (auto simp: kafka_dispatch_def publish_def message_key_def topicFor_name
        dest: keyed_byD split: sum.splits prod.splits if_splits list.splits)
qed

lemma keys_on_kept:
  assumes "keys_on w"
  shows "kafka_dispatch send p w = (r, w') \<Longrightarrow> keys_on w'"
    and "st_updateStatus (world_store a g) now i s w = Inr w' \<Longrightarrow> keys_on w'"
    and "st_saveOrder (world_store a g) ord w = Inr w' \<Longrightarrow> keys_on w'"
proof -
  have wf: "world_wf w" using assms by (simp add: keys_on_def)
  show "kafka_dispatch send p w = (r, w') \<Longrightarrow> keys_on w'"
    using assms kafka_dispatch_world [of send p w r w'] by (auto simp: keys_on_def world_wf_def)
  show "st_updateStatus (world_store a g) now i s w = Inr w' \<Longrightarrow> keys_on w'"
    using assms order_world.update_law [OF wf] by (auto simp: keys_on_def map_sum_Inr)
  show "st_saveOrder (world_store a g) ord w = Inr w' \<Longrightarrow> keys_on w'"
    using assms order_world.save_law [OF wf] by (auto simp: keys_on_def map_sum_Inr)
qed

lemma keyed_lifecycle_loop:
  "keys_on w \<Longrightarrow> keyed_by part send \<Longrightarrow>
   lifecycle_loop (world_store a g) (kafka_dispatcher send) fr ord i tys steps w = (r, w') \<Longrightarrow>
   keys_on w' \<and> (case r of Inr steps' \<Rightarrow>
     map ls_partition steps' = map ls_partition steps @ map (\<lambda>ty. Some (part (key_of ord ty))) tys | Inl _ \<Rightarrow> True)"
proof (induction tys arbitrary: steps w)
  case (Cons ty tys)
  obtain res w1 where d: "kafka_dispatch send (toPayload fr ord ty) w = (res, w1)" by fastforce
  have k1: "keys_on w1" using keys_on_kept(1) [OF Cons.prems(1) d] .
  show ?case
  proof (cases res)
    case (Inl err)
    then show ?thesis using Cons.prems(3) d k1 by (auto simp: kafka_dispatcher_def)
  next
    case (Inr dr)
    note part = keyed_dispatch [OF Cons.prems(2,1) d [unfolded Inr]]
    show ?thesis
    proof (cases "st_updateStatus (world_store a g) (fr_upd fr ty) i (statusAfter ty) w1")
      case u: (Inl err)
      then show ?thesis using Cons.prems(3) d k1 Inr by (auto simp: kafka_dispatcher_def simp del: world_store_simps)
    next
      case u: (Inr w2)
      show ?thesis
        using Cons.IH [OF keys_on_kept(2) [OF k1 u] Cons.prems(2)] Cons.prems(3) d u part Inr
        by (fastforce simp: kafka_dispatcher_def simp del: world_store_simps split: sum.splits)
    qed
  qed
qed (auto split: sum.splits)

lemma set_partitions_of: "set (partitions_of lc) = {p. Some p \<in> ls_partition ` set (lc_steps lc)}"
  by (auto simp: partitions_of_def map_filter_def image_iff) (metis option.sel option.simps(3))+

lemma keyed_order:
  assumes "keys_on w" and "keyed_by part send"
    and "order_with_lifecycle (world_store a g) (kafka_dispatcher send) fr w = (r, w')"
  shows "keys_on w' \<and> (case r of Inr lc \<Rightarrow>
      set (partitions_of lc) = {part ''prod-default'', part (lc_orderId lc)} | Inl _ \<Rightarrow> True)"
proof -
  let ?st = "world_store a g" and ?ord = "new_order fr empty_input"
  have wf: "world_wf w" using assms(1) by (simp add: keys_on_def)
  obtain c w1 where c: "createOrder ?st (kafka_dispatcher send) fr empty_input w = (c, w1)" by fastforce
  have c': "createOrder ?st (channel KafkaMode send) fr empty_input w = (c, w1)" using c by simp
  note out = order_world.createOrder_outcome [OF wf c' refl]
  have k1: "keys_on w1"
    using c assms(1)
    by (auto simp: createOrder_def Let_def kafka_dispatcher_def simp del: world_store_simps
        split: sum.splits prod.splits intro: keys_on_kept(1) [OF keys_on_kept(3)])
  show ?thesis
  proof (cases c)
    case (Inl err)
    then show ?thesis using assms(3) c k1 by (auto simp: order_with_lifecycle_def)
  next
    case (Inr x)
    then obtain d where x: "x = (?ord, d)" and f: "db_orders (w_db w1) (orderId ?ord) = Some ?ord"
      and wf1: "world_wf w1" using out by (cases x) auto
    have found: "st_findOrder ?st (orderId ?ord) w1 = Inr (Some ?ord)"
      using order_world.find_law [OF wf1] f by simp
    have l: "dispatchLifecycle ?st (kafka_dispatcher send) fr (orderId ?ord) w1 = (r, w')"
      using assms(3) c by (simp add: order_with_lifecycle_def Inr x)
    obtain r1 where loop: "lifecycle_loop ?st (kafka_dispatcher send) fr ?ord (orderId ?ord) LIFECYCLE_EVENT_TYPES [] w1 = (r1, w')"
      and r: "r = (case r1 of Inl err \<Rightarrow> Inl err | Inr steps \<Rightarrow> Inr \<lparr>lc_orderId = orderId ?ord, lc_steps = steps\<rparr>)"
      using l found by (auto simp: dispatchLifecycle_def simp del: world_store_simps split: prod.splits sum.splits)
    have keys: "map (\<lambda>ty. part (key_of ?ord ty)) LIFECYCLE_EVENT_TYPES =
        [part ''prod-default'', part (orderId ?ord), part (orderId ?ord)]"
      by (simp add: LIFECYCLE_EVENT_TYPES_def key_of_def new_order_def Let_def empty_input_def DEFAULT_ITEM_def)
    have "ls_partition ` set steps = Some ` {part ''prod-default'', part (orderId ?ord)}" if "r1 = Inr steps" for steps
    proof -
      have "map ls_partition steps = map Some (map (\<lambda>ty. part (key_of ?ord ty)) LIFECYCLE_EVENT_TYPES)"
        using keyed_lifecycle_loop [OF k1 assms(2) loop] that by (simp add: comp_def)
      from arg_cong [OF this, of set] show ?thesis unfolding keys by (simp add: insert_commute)
    qed
    then show ?thesis
      using keyed_lifecycle_loop [OF k1 assms(2) loop]
      by (cases r1) (auto simp: r set_partitions_of)
  qed
qed

lemma scatter_loop_counts:
  "singlePartition (scatter_loop lcs s m t c) = s + length (filter (\<lambda>lc. length (partitions_of lc) = 1) lcs)"
  "multiPartition (scatter_loop lcs s m t c) = m + length (filter (\<lambda>lc. length (partitions_of lc) > 1) lcs)"
  by (induction lcs s m t c rule: scatter_loop.induct) (auto simp: Let_def simp flip: length_greater_0_conv)

lemma length_partitions_of: "length (partitions_of lc) = card (set (partitions_of lc))"
  by (simp add: partitions_of_def length_remdups_card_conv)

text \<open>Keys gather payment and shipment, not the whole order. With keys switched on and a broker
  that places messages by key, each completed order has its events in the partition of its own id
  and in that of the default product, because inventory events are keyed by product. So the report
  counts an order as gathered exactly when its id happens to share the product's partition.\<close>

theorem keys_do_not_gather_an_order:
  assumes "keyed_by part send" and "keys_on w"
    and "createWithLifecycle (world_store a g) (channel KafkaMode send) fr t0 t1 reps w = (out, w')"
  shows "singlePartition (lb_scatter out) = length (filter (\<lambda>i. part i = part ''prod-default'') (lb_orderIds out)) \<and>
         multiPartition (lb_scatter out) = length (filter (\<lambda>i. part i \<noteq> part ''prod-default'') (lb_orderIds out)) \<and>
         singlePartition (lb_scatter out) + multiPartition (lb_scatter out) = lb_completed out"
proof -
  let ?Q = "\<lambda>lc. set (partitions_of lc) = {part ''prod-default'', part (lc_orderId lc)}"
  let ?work = "\<lambda>i. order_with_lifecycle (world_store a g) (channel KafkaMode send) (fr i)"
  obtain rs es where run: "repeat_from reps ?work 0 [] [] w = (rs, es, w')"
    and out: "lb_orderIds out = map lc_orderId rs" "lb_scatter out = summarizeScatter rs" "lb_completed out = length rs"
    using assms(3) by (auto simp: createWithLifecycle_def repeatCollecting_def split: prod.splits)
  have st: "keys_on w' \<and> (case r of Inr x \<Rightarrow> ?Q x | Inl _ \<Rightarrow> True)"
    if "keys_on w" "?work i w = (r, w')" for i w r w'
    using keyed_order [OF that(1) assms(1)] that(2) by simp
  have Q: "list_all ?Q rs"
    using repeat_from_outcome [where P = keys_on and Q = ?Q and f = "\<lambda>_. 0" and c = 0, OF _ run assms(2)] st
    by (force split: sum.splits)
  have "length (partitions_of lc) = (if part (lc_orderId lc) = part ''prod-default'' then 1 else 2)"
    if "lc \<in> set rs" for lc
  proof -
    have "?Q lc" using Q that by (simp add: list_all_iff)
    then show ?thesis by (simp add: length_partitions_of)
  qed
  then have "filter (\<lambda>lc. length (partitions_of lc) = 1) rs = filter (\<lambda>lc. part (lc_orderId lc) = part ''prod-default'') rs"
    "filter (\<lambda>lc. length (partitions_of lc) > 1) rs = filter (\<lambda>lc. part (lc_orderId lc) \<noteq> part ''prod-default'') rs"
    by (auto intro!: filter_cong split: if_splits)
  then show ?thesis
    using sum_length_filter_compl [of "\<lambda>lc. part (lc_orderId lc) = part ''prod-default''" rs]
    by (simp add: out summarizeScatter_def scatter_loop_counts filter_map comp_def)
qed

theorem keys_do_not_gather_an_order_witness:
  "\<exists>out w'. createWithLifecycle (world_store rev rev) (channel KafkaMode sample_send) sample_fresh 0 9 2 sample_world = (out, w') \<and>
     lb_completed out = 2 \<and> multiPartition (lb_scatter out) = 2"
proof -
  let ?part = "\<lambda>s. int (length s) mod 3"
  let ?run = "createWithLifecycle (world_store rev rev) (channel KafkaMode sample_send) sample_fresh 0 9 2 sample_world"
  obtain out w' where run: "?run = (out, w')" by fastforce
  have "lb_orderIds (fst ?run) = [''ord-0'', ''ord-1'']" "lb_completed (fst ?run) = 2" by code_simp+
  then have ids: "lb_orderIds out = [''ord-0'', ''ord-1'']" and c: "lb_completed out = 2" unfolding run by simp_all
  have "keyed_by ?part sample_send" by (simp add: keyed_by_def sample_send_def)
  moreover have "keys_on sample_world"
    using sample_world_wf by (simp add: keys_on_def) (simp add: sample_world_def sample_config_def)
  ultimately have "multiPartition (lb_scatter out) = length (filter (\<lambda>i. ?part i \<noteq> ?part ''prod-default'') (lb_orderIds out))"
    using keys_do_not_gather_an_order [OF _ _ run] by blast
  then show ?thesis using run c by (auto simp: ids)
qed

text \<open>Without the Kafka worker engine no order can be published, although Kafka is the default
  channel: the module switches the publisher off, so every \<open>createOrder\<close> stores its order and then
  fails, and the stored order never has an event.\<close>

theorem orders_without_kafka_engine_have_no_event:
  assumes "readWorkerEngineEnv e \<noteq> KafkaEngine" and "readDispatcherModeEnv e = Inr mode" and "e ''ORDER_DISPATCHER'' = None"
    and "pub_onModuleInit fault (publisher_at_boot e) = Inr (w_pub w)" and "world_wf w" and "db_fault (w_db w) = None"
    and "ord = new_order fr input" and "db_orders (w_db w) (orderId ord) = None"
    and "createOrder (world_store a g) (channel mode send) fr input w = (r, w')"
  shows "r = Inl NotConnected \<and> findOrder (orderId ord) (w_db w') = Inr (Some ord) \<and> published (w_pub w') = []"
proof -
  have mode: "mode = KafkaMode" using assms(2,3) by (simp add: readDispatcherModeEnv_def)
  have "\<not> pc_enabled (pub_config (publisher_at_boot e))"
    using assms(1) by (simp add: publisher_at_boot_def orderPublisherConfigFromEnv_def Let_def)
  then have "w_pub w = publisher_at_boot e" using assms(4) by (simp add: pub_onModuleInit_def)
  then have off: "\<not> connected (w_pub w)" "published (w_pub w) = []"
    by (simp_all add: publisher_at_boot_def)
  have "orderId ord \<notin> order_id ` set (orders (w_db w))"
    using assms(8) by (auto simp: db_orders_def find_None_iff)
  then obtain db1 where s: "saveOrder ord (w_db w) = Inr db1" using assms(6) by (simp add: saveOrder_def)
  have wf: "wf_db (w_db w)" using assms(5) by (simp add: world_wf_def)
  have "wf_db db1 \<and> db_orders db1 (orderId ord) = Some ord" using saveOrder_wf [OF wf s] by simp
  moreover have "r = Inl NotConnected" "w_db w' = db1" "published (w_pub w') = []"
    using assms(9) s off
    by (auto simp: mode createOrder_def assms(7) [symmetric] kafka_dispatcher_def kafka_dispatch_def publish_def)
  ultimately show ?thesis by (simp add: findOrder_wf)
qed

theorem orders_without_kafka_engine_have_no_event_witness:
  "let w = sample_world\<lparr>w_pub := publisher_at_boot (\<lambda>_. None)\<rparr> in
   fst (createOrder (world_store rev rev) (channel KafkaMode sample_send) (sample_fresh 0) empty_input w) = Inl NotConnected"
proof -
  let ?e = "\<lambda>_ :: string. None :: string option"
  let ?w = "sample_world\<lparr>w_pub := publisher_at_boot ?e\<rparr>"
  obtain r w' where run: "createOrder (world_store rev rev) (channel KafkaMode sample_send) (sample_fresh 0) empty_input ?w = (r, w')"
    by fastforce
  have eng: "readWorkerEngineEnv ?e \<noteq> KafkaEngine"
    by (simp add: readWorkerEngineEnv_def parseWorkerEngine_def DEFAULT_WORKER_ENGINE_def)
  have pub: "pub_onModuleInit None (publisher_at_boot ?e) = Inr (w_pub ?w)"
    using eng by (simp add: pub_onModuleInit_def publisher_at_boot_def orderPublisherConfigFromEnv_def Let_def)
  have wf: "world_wf ?w" using sample_world_wf by (simp add: world_wf_def)
  have db: "db_fault (w_db ?w) = None" "db_orders (w_db ?w) i = None" for i
    by (simp_all add: sample_world_def empty_db_def db_orders_def)
  have mode: "readDispatcherModeEnv ?e = Inr KafkaMode" by (simp add: readDispatcherModeEnv_def)
  have "r = Inl NotConnected"
    using orders_without_kafka_engine_have_no_event [OF eng mode refl pub wf db(1) refl db(2) run] by blast
  then show ?thesis unfolding Let_def run by simp
qed

end
