(* ===== verification/OrderRoutes.thy ===== *)
theory OrderRoutes
  imports OrderService
begin

text \<open>
  The routes of \<open>src/orders/order.controller.ts\<close> over the order service and its store. The bodies of the
  bulk routes are checked numbers or missing, as in the service. Which handler a \<open>GET\<close> path reaches
  follows from the order in which the controller declares them.
\<close>

section \<open>Handlers\<close>

datatype order_route_error = NoSuchOrder string | ServiceFailed order_error

record CreateReply =
  cp_orderId :: string
  cp_status :: OrderStatus
  cp_amount :: rat
  cp_dispatch :: DispatchResult

definition create_route ::
  "'w OrderStore \<Rightarrow> 'w OrderDispatcher \<Rightarrow> Fresh \<Rightarrow> CreateOrderInput \<Rightarrow> 'w \<Rightarrow> (order_route_error + CreateReply) \<times> 'w" where
  "create_route st dis f input w =
     map_prod (map_sum ServiceFailed (\<lambda>(ord, dispatch).
         \<lparr>cp_orderId = orderId ord, cp_status = status ord, cp_amount = amount ord, cp_dispatch = dispatch\<rparr>)) id
       (createOrder st dis f input w)"

definition stats_route :: "'w OrderStore \<Rightarrow> 'w OrderDispatcher \<Rightarrow> OrderPublisher \<Rightarrow> 'w \<Rightarrow> OrderStats" where
  "stats_route st dis pub w = order_getStats st dis pub w"

text \<open>A limit may have a fraction: \<open>to_limit\<close> is what the database makes of one, or what it throws.\<close>

definition events_route ::
  "(rat \<Rightarrow> order_error + int) \<Rightarrow> 'w OrderStore \<Rightarrow> string option \<Rightarrow> string option \<Rightarrow> 'w \<Rightarrow>
     order_route_error + OrderEventRecord list" where
  "events_route to_limit st oid limit w =
     (case event_limit limit of
        None \<Rightarrow> Inr (st_findEvents st oid None w)
      | Some r \<Rightarrow>
          (case to_limit r of Inl e \<Rightarrow> Inl (ServiceFailed e) | Inr n \<Rightarrow> Inr (st_findEvents st oid (Some n) w)))"

record DuplicatesReply =
  du_groups :: nat
  du_extra :: nat
  du_duplicates :: "DuplicateEventSummary list"

definition duplicates_route :: "'w OrderStore \<Rightarrow> 'w \<Rightarrow> DuplicatesReply" where
  "duplicates_route st w =
     (let duplicates = st_findDuplicates st w in
      \<lparr>du_groups = length duplicates, du_extra = foldl (\<lambda>total d. total + (dup_count d - 1)) 0 duplicates,
       du_duplicates = duplicates\<rparr>)"

definition order_groups_route :: "'w OrderStore \<Rightarrow> 'w \<Rightarrow> nat \<times> GroupConsumptionSummary list" where
  "order_groups_route st w = (let groups = st_countByGroup st w in (length groups, groups))"

definition order_reset_route :: "'w OrderStore \<Rightarrow> 'w \<Rightarrow> (order_route_error + bool) \<times> 'w" where
  "order_reset_route st w =
     (case st_reset st w of (Inl e, w') \<Rightarrow> (Inl (ServiceFailed e), w') | (Inr _, w') \<Rightarrow> (Inr True, w'))"

definition findOne_route :: "'w OrderStore \<Rightarrow> string \<Rightarrow> 'w \<Rightarrow> order_route_error + Order" where
  "findOne_route st oid w =
     (case st_findOrder st oid w of
        Inl e \<Rightarrow> Inl (ServiceFailed e)
      | Inr None \<Rightarrow> Inl (NoSuchOrder oid)
      | Inr (Some ord) \<Rightarrow> Inr ord)"

section \<open>Routing\<close>

datatype get_handler = Stats | Events | Duplicates | Groups | FindOne

text \<open>A declared path is a text or a parameter, which matches a segment that is not empty.\<close>

datatype segment = Fixed string | Param

fun matches_segment :: "string \<Rightarrow> segment \<Rightarrow> bool" where
  "matches_segment s (Fixed t) = (s = t)"
| "matches_segment s Param = (s \<noteq> [] \<and> CHR ''/'' \<notin> set s)"

definition get_routes :: "(segment \<times> get_handler) list" where
  "get_routes =
     [(Fixed ''stats'', Stats), (Fixed ''events'', Events), (Fixed ''duplicates'', Duplicates), (Fixed ''groups'', Groups),
      (Param, FindOne)]"

definition get_handler_of :: "string \<Rightarrow> get_handler option" where
  "get_handler_of s = map_option snd (find (\<lambda>(p, h). matches_segment s p) get_routes)"

lemma get_handler_of_simps:
  "get_handler_of ''stats'' = Some Stats" "get_handler_of ''events'' = Some Events"
  "get_handler_of ''duplicates'' = Some Duplicates" "get_handler_of ''groups'' = Some Groups"
  by code_simp+

lemma get_handler_of_order:
  "get_handler_of s = Some FindOne \<longleftrightarrow>
     s \<noteq> [] \<and> CHR ''/'' \<notin> set s \<and> s \<notin> {''stats'', ''events'', ''duplicates'', ''groups''}"
  by (simp add: get_handler_of_def get_routes_def)

section \<open>What the routes show\<close>

lemma foldl_excess: "foldl (\<lambda>total d. total + f d) a ds = a + sum_list (map f ds)" for a :: nat
  by (induction ds arbitrary: a) simp_all

text \<open>C31. The routes agree with each other and with the store. An order is found exactly when it is stored,
  and is otherwise a missing order with its id; the duplicate figures of the statistics are those of
  the duplicates route, and count the consumed events beyond the first of each kind; after a reset that
  succeeds every count is zero and no order is found.\<close>

theorem order_routes_agree:
  assumes "wf_db db" and "\<And>xs. mset (arrange xs) = mset xs" and "\<And>xs. mset (arrange_groups xs) = mset xs"
    and "st = sqlite_store arrange arrange_groups" and "order_reset_route st db = (Inr done', db')"
  shows "(\<forall>oid. findOne_route st oid db = (case db_orders db oid of None \<Rightarrow> Inl (NoSuchOrder oid) | Some ord \<Rightarrow> Inr ord)) \<and>
         os_duplicateGroups (stats_route st dis pub db) = du_groups (duplicates_route st db) \<and>
         os_duplicateExtra (stats_route st dis pub db) = du_extra (duplicates_route st db) \<and>
         du_extra (duplicates_route st db) + card ((\<lambda>r. (rec_orderId r, rec_eventType r)) ` set (db_log db)) =
           os_eventCount (stats_route st dis pub db) \<and>
         sum_list (map grp_count (snd (order_groups_route st db))) = os_eventCount (stats_route st dis pub db) \<and>
         (\<forall>oid. findOne_route st oid db' = Inl (NoSuchOrder oid)) \<and>
         os_orderCount (stats_route st dis pub db') = 0 \<and> os_eventCount (stats_route st dis pub db') = 0 \<and>
         du_groups (duplicates_route st db') = 0 \<and> fst (order_groups_route st db') = 0"
proof -
  let ?keys = "map (\<lambda>r. (rec_orderId r, rec_eventType r)) (db_log db)"
  have find: "st_findOrder st oid d = Inr (db_orders d oid)" if "wf_db d" for d oid
    using sqlite.find_law [OF that] by (simp add: assms(4))
  have reset: "db' = db\<lparr>order_events := [], orders := []\<rparr>"
    using assms(5) by (auto simp: order_reset_route_def assms(4) sqlite_store_def reset_def Let_def split: option.splits)
  have wf': "wf_db db'" "db_orders db' oid = None" for oid by (simp_all add: reset wf_db_def db_orders_def)
  have empty: "findDuplicates arrange db' = [] \<and> countByGroup arrange_groups db' = [] \<and> countOrders db' = 0 \<and> countEvents db' = 0"
  proof -
    have nil: "arrange [] = []" "arrange_groups [] = []" using assms(2) [of "[]"] assms(3) [of "[]"] by simp_all
    show ?thesis by (simp add: reset findDuplicates_def countByGroup_def group_count_def nil countOrders_def countEvents_def)
  qed
  note report = duplicate_report_is_exact [OF assms(2,3) refl [of ?keys]]
  have "findOne_route st oid db = (case db_orders db oid of None \<Rightarrow> Inl (NoSuchOrder oid) | Some ord \<Rightarrow> Inr ord)" for oid
    by (simp add: findOne_route_def find [OF assms(1)])
  moreover have "findOne_route st oid db' = Inl (NoSuchOrder oid)" for oid
    by (simp add: findOne_route_def find [OF wf'(1)] wf'(2))
  moreover have "du_extra (duplicates_route st db) + card ((\<lambda>r. (rec_orderId r, rec_eventType r)) ` set (db_log db)) =
      os_eventCount (stats_route st dis pub db)"
    using report by (simp add: duplicates_route_def stats_route_def order_getStats_def assms(4) sqlite_store_def Let_def foldl_excess)
  moreover have "sum_list (map grp_count (snd (order_groups_route st db))) = os_eventCount (stats_route st dis pub db)"
    using report by (simp add: order_groups_route_def stats_route_def order_getStats_def assms(4) sqlite_store_def Let_def)
  moreover have "du_groups (duplicates_route st db') = 0" "fst (order_groups_route st db') = 0"
      "os_orderCount (stats_route st dis pub db') = 0" "os_eventCount (stats_route st dis pub db') = 0"
    using empty by (simp_all add: duplicates_route_def order_groups_route_def stats_route_def order_getStats_def assms(4)
        sqlite_store_def Let_def)
  ultimately show ?thesis by (simp add: duplicates_route_def stats_route_def order_getStats_def Let_def)
qed

theorem order_routes_agree_witness:
  "\<exists>db db'. wf_db db \<and> order_reset_route (sqlite_store rev rev) db = (Inr True, db') \<and>
     findOne_route (sqlite_store rev rev) ''ord-1'' db = Inr sample_order \<and>
     findOne_route (sqlite_store rev rev) ''ord-1'' db' = Inl (NoSuchOrder ''ord-1'')"
proof -
  define db where "db = projr (saveOrder sample_order empty_db)"
  have w: "wf_db db" "db_orders db ''ord-1'' = Some sample_order" unfolding db_def by code_simp+
  have "fst (order_reset_route (sqlite_store rev rev) db) = Inr True" unfolding db_def by code_simp
  then obtain db' where r: "order_reset_route (sqlite_store rev rev) db = (Inr True, db')" by (metis prod.collapse)
  note agree = order_routes_agree [OF w(1) mset_rev mset_rev refl r]
  have "findOne_route (sqlite_store rev rev) ''ord-1'' db = Inr sample_order"
    "findOne_route (sqlite_store rev rev) ''ord-1'' db' = Inl (NoSuchOrder ''ord-1'')"
    using agree w(2) by simp_all
  then show ?thesis using w(1) r by blast
qed

end
