(* ===== verification/Spec2Isabelle.thy ===== *)
theory Spec2Isabelle
  imports QueueLifecycle Middleware DashboardTabs Runner LabRoutes Server ConsumerProcess OrderRoutes
begin

text \<open>
  A verification development for the bulk-traffic server: a NestJS server with a request queue in
  front of its HTTP handlers, a pool of worker threads, and an order service that publishes events
  to Kafka (or to a queue inside the process) and consumes them. Paths below are relative to
  \<open>src/src/\<close>, those of the browser to \<open>src/public/js\<close>. This theory holds the properties that span the queue components; every other theory
  models the parts its own header names.

  \<^bold>\<open>The parts and how they interact.\<close> An HTTP request passes the middleware, which has the request
  analyzer choose its options and calls \<open>QueueService.enqueue\<close>. The options parser validates them;
  the task then waits in one of three level queues or in a batch. \<open>processQueue\<close> moves waiting tasks
  into free slots: to the main thread, or through the worker pool and its router to a worker thread.
  Timers reject tasks that wait too long, the memory service sheds tasks under pressure, and
  snapshots carry the totals over a restart. The order service stores orders in SQLite and hands
  their events to a dispatcher; consumers read the events from Kafka and log them. The experiment
  panel starts and stops consumer processes, creates topics and moves offsets, the load tests
  measure the queue and the two engines, and the dashboard in the browser starts all of them and
  shows what they stream back.

  \<^bold>\<open>Theories.\<close>
  \<^item> \<open>Prelude\<close>, \<open>JsValue\<close>: JavaScript strings, numbers and maps; the locales \<open>ordered_map\<close> and
    \<open>inductive_invariant\<close>; \<open>ErrorMessages\<close>: the texts of the errors.
  \<^item> \<open>QueueTypes\<close> (\<open>queue/interfaces\<close>), \<open>QueueState\<close> (\<open>queue-state.holder.ts\<close>,
    \<open>queue-stats.service.ts\<close>), \<open>BatchService\<close>, \<open>MemoryService\<close>, \<open>OptionsParser\<close>, \<open>Env\<close>
    (\<open>queue/utils/env.ts\<close>, \<open>config/env.validation.ts\<close>), \<open>WorkerRouter\<close>, \<open>WorkerPool\<close> (with the
    ping book-keeping of \<open>worker-health.service.ts\<close>): the services of the queue, one by one.
  \<^item> \<open>QueueSystem\<close>: \<open>queue.service.ts\<close> and \<open>queue-processor.service.ts\<close> composed with all of them.
    The state \<open>Sys\<close> is the union of the services' fields, the tasks in flight and the log of settled
    promises. \<open>handle\<close> gives one function per thing that can happen (a call of \<open>enqueue\<close>, a timer, a
    promise that settles, a message, failure or exit of a worker, shutdown) and \<open>step\<close> interleaves
    them freely, so that \<open>reachable\<close> covers every order in which the event loop can run them.
    \<open>careful_step\<close> leaves out the two races of the worker pool and the end of shutdown.
  \<^item> \<open>QueueProcessing\<close>, \<open>QueueInvariants\<close>, \<open>QueueSafety\<close>, \<open>QueueBounds\<close>: what one pass of
    \<open>processQueue\<close> does, how each operation moves tasks, and the invariants by rule induction;
    \<open>Scenarios\<close>: concrete runs for the witnesses; \<open>QueueLifecycle\<close>: the queue refines the life of a
    task, by the locale \<open>forward_simulation\<close>.
  \<^item> \<open>Snapshot\<close> (\<open>queue-snapshot.manager.ts\<close>, \<open>persistence\<close>), \<open>QueueService\<close> (start-up and restart),
    \<open>RequestAnalyzer\<close> and \<open>Middleware\<close> (\<open>queue/middleware\<close>): the edges of the queue.
  \<^item> \<open>Worker\<close> (\<open>queue/worker.js\<close>): the workloads and the message handler of a worker thread.
  \<^item> \<open>LoadTest\<close> (\<open>queue/load-test\<close>): metrics, event streams, comparison of the two engines;
    \<open>Runner\<close> (\<open>load-test-runner.service.ts\<close>, \<open>simulation.service.ts\<close>): the one-shot tasks, the mixed
    burst and the simulations they run; \<open>Bench\<close> (\<open>sqlite-bench.driver.ts\<close>, \<open>pg-bench.driver.ts\<close>):
    the database workloads, behind the contract \<open>bench_driver\<close>.
  \<^item> \<open>Json\<close> (\<open>JSON.stringify\<close> and \<open>JSON.parse\<close>), \<open>JsOps\<close> (conversions of values), \<open>EventStream\<close>
    (\<open>sse-stream.util.ts\<close> and the reader in \<open>common.js\<close>), \<open>Texts\<close> and \<open>ServerTexts\<close> (the Korean texts,
    as bytes), \<open>Dashboard\<close> (\<open>common.js\<close>, \<open>perf-tab.js\<close>) and \<open>DashboardTabs\<close> (\<open>compare-tab.js\<close>,
    \<open>kafka-tab.js\<close>, \<open>app.js\<close>): the way of a result from the server's writer to the page. The page is a
    record of what the elements show; \<open>ui_step\<close> interleaves clicks, replies, stream messages and timers.
  \<^item> \<open>Server\<close>: the process and its edge (\<open>main.ts\<close>, the exception filter, the routes outside the
    queue, \<open>queue-stats.controller.ts\<close>).
  \<^item> \<open>Engines\<close>: the Kafka task producer, the Go engine's client and the engine router, which the
    queue itself does not use (\<open>kafka-producer.backend.ts\<close>, \<open>go-engine.*.ts\<close>,
    \<open>engine-router.service.ts\<close>).
  \<^item> \<open>OrderEvents\<close>, \<open>OrderStore\<close> (\<open>sqlite-order.store.ts\<close>), \<open>OrderDispatch\<close> (\<open>order-publisher.ts\<close>,
    \<open>dispatch/\<close>), \<open>OrderService\<close> (with the routes of \<open>order.controller.ts\<close> and the wiring of
    \<open>order.module.ts\<close>), \<open>OrderConsumer\<close> (\<open>consumer/\<close>): the order side. A store is a record of
    operations with the contract \<open>order_store\<close>, a dispatcher one with \<open>order_dispatcher\<close>; the locale
    \<open>order_service\<close> builds on both and is interpreted on the SQLite store with either dispatcher.
    \<open>OrderRoutes\<close>: the replies of \<open>order.controller.ts\<close> and which handler a path reaches;
    \<open>ConsumerProcess\<close> (\<open>consumer.ts\<close>, \<open>consumer/consumer-report.ts\<close>): a process with several
    consumers, its report and its end, as a machine over start-ups, messages, crashes and signals.
  \<^item> \<open>KafkaAdmin\<close> (\<open>order-topic.provisioner.ts\<close>, \<open>lab/kafka-inspector.ts\<close>), \<open>ConsumerLab\<close>
    (\<open>lab/consumer-process.manager.ts\<close>) and \<open>LabRoutes\<close> (\<open>lab/lab.controller.ts\<close>): the experiment panel.

  \<^bold>\<open>What is shown.\<close> For the queue: no task is settled twice, none is lost in careful runs, the slot
  counter, the statistics and the queue bound are exact, the workers stay within the limit of each type in
  careful runs, tasks are served by level and in order, every branch of admission, timeout, shedding and batching does what the code
  says, and each run is, per task, a run of a small machine (waits, runs, is done). For the edges: validated options and configuration are used unchanged, a request gets
  at most one answer, and a restart continues the ids from the snapshot. For the worker: the sieve finds the primes
  and every request of the pool is answered. For orders: the tables refine a map with a log, the
  status of an order and its events stay together, the in-process queue accounts for every message
  and drains, a consumer is at least once or, without a crash point, at most once by its commit mode, a consumer process
  ends once and with its last crash, and the panel's options, topics and offsets reach the consumer
  and the broker as given and show in its lag. For the measurements: the figures of a load test and
  of a comparison reach the page as the server computed them, however the stream is cut into
  chunks; the dashboard runs one test of a kind at a time; the bench drivers write all rows or none, whichever
  statement fails;
  the hash loop of the CPU simulation is exact in double arithmetic; a mixed burst reports every
  task. Where the code does not do what it means to, a lemma exhibits it: \<open>late_initialized_message_misroutes_a_result\<close>,
  \<open>failed_worker_is_given_the_next_task\<close>, \<open>process_signal_spins\<close>, \<open>worker_requests_get_no_answer\<close>,
  \<open>execution_timeout_is_a_503\<close>, \<open>failed_write_updates_lastSnapshotAt\<close>,
  \<open>failed_message_is_committed_and_lost\<close>, \<open>pending_misses_the_message_in_hand\<close>,
  \<open>orders_without_kafka_engine_have_no_event\<close>, \<open>load_test_tab_ignores_errors\<close>,
  \<open>error_reply_leaves_a_label\<close>, \<open>worker_ignores_iterations\<close>, \<open>write_rounds_rows\<close>,
  \<open>crash_during_startup\<close>, \<open>busy_port_is_not_fatal\<close>, \<open>late_initialized_message_breaks_a_limit\<close>,
  \<open>ids_after_the_snapshot_are_reused\<close>, \<open>crash_point_repeats_an_offset\<close>, \<open>failed_vacuum_empties_the_table\<close>;
  that resetting the order tables is not atomic is part of \<open>store_refines_specification\<close>.

  \<^bold>\<open>Bounds and fuel.\<close> Loops are structural recursions or have termination proofs, except
  \<open>process_items\<close> (Runner): the batch simulation counts with a number that may be NaN, so it is a
  partial function, and \<open>simulated_batches_end\<close> says exactly when it returns. The fuelled functions
  are \<open>strip\<close> (for \<open>trim\<close>), which takes at most one step per character, \<open>parse_value\<close> of \<open>Json\<close>, whose
  fuel is twice the length of the text where two units go with each character, and \<open>frac_digits\<close>, which
  prints twenty digits after the point, more than any value printed here has. JavaScript numbers are exact rationals with
  infinities and NaN: the rounding of doubles is not modelled, except where a result depends on it
  staying exact (\<open>simulated_hash_is_exact\<close>). Strings are UTF-8 bytes.

  \<^bold>\<open>Not modelled.\<close> Third-party code is a parameter with its documented behaviour as a hypothesis
  (kafkajs, better-sqlite3, pg, gRPC, Chart.js and the DOM, Node's worker threads, child processes and
  timers, V8's text of numbers). Logging is left out where it has no other effect, except in the
  consumer process and the server process, whose output is what they are for. Not modelled:
  the decorators and provider lists of the Nest modules, which hold no code; the CORS, static-file and
  body-parser set-up of the server; the empty \<open>app.service.ts\<close>; the drawing of charts beyond their data.
\<close>

text \<open>C4. In every reachable state the number of active requests is between 0 and the configured
  maximum.\<close>

theorem slots_never_exceeded:
  assumes "reachable s0 s"
  shows "0 \<le> activeRequests (queue s) \<and> activeRequests (queue s) \<le> maxConcurrentRequests (config s0)"
  using reachable_inv [OF assms] by (auto simp: sys_inv_def core_def active_ok_def)

theorem slots_never_exceeded_witness:
  "activeRequests (queue (after (take 5 ordinary))) = 2 \<and>
   activeRequests (queue (after (take 5 ordinary))) \<le> maxConcurrentRequests (config boot)"
proof -
  show ?thesis using slots_never_exceeded [OF after_reachable [of "take 5 ordinary"]] ordinary_states(1) by simp
qed

text \<open>C1. No task is ever in two places or settled twice, whatever the workers, timers and promises
  do: in every reachable state the ids of the tasks that wait, run, are with the worker pool or have
  been resolved or rejected are pairwise distinct, and each was handed out since start-up.\<close>

theorem tasks_settle_at_most_once:
  assumes "reachable s0 s"
  shows "distinct (map task_id (waiting (queue s) @ running s @ pool_tasks (pool s)) @ map fst (settled s)) \<and>
         set (map task_id (waiting (queue s) @ running s @ pool_tasks (pool s)) @ map fst (settled s))
           \<subseteq> {taskIdCounter (queue s0)<..taskIdCounter (queue s)}"
proof -
  let ?xs = "map task_id (waiting (queue s) @ running s @ pool_tasks (pool s)) @ map fst (settled s)"
  let ?A = "{taskIdCounter (queue s0)<..taskIdCounter (queue s)}"
  have sub: "mset ?xs \<subseteq># mset (sorted_list_of_set ?A)"
    using reachable_inv [OF assms] by (simp add: sys_inv_def ids_def held_def mset_sorted_list ac_simps)
  have "distinct ?xs" using sub by (rule distinct_subset_mset) simp
  moreover have "set ?xs \<subseteq> ?A"
    using set_mset_mono [OF sub] by simp
  ultimately show ?thesis ..
qed

theorem tasks_settle_at_most_once_witness:
  "map fst (settled (after ordinary)) = [1, 2] \<and>
   distinct (map task_id (waiting (queue (after ordinary)) @ running (after ordinary) @
     pool_tasks (pool (after ordinary))) @ map fst (settled (after ordinary)))"
  using tasks_settle_at_most_once [OF after_reachable [of ordinary]] ordinary_result(1) by simp

text \<open>C2. Nothing is lost and the slot counter is exact in every run without the two worker races
  and the end of shutdown: each task handed out since start-up waits, runs, is with the worker pool,
  or has been settled, exactly one of these; and the active requests are the tasks in flight.\<close>

theorem careful_runs_lose_nothing:
  assumes "careful_reachable s0 s"
  shows "set (map task_id (waiting (queue s) @ running s @ pool_tasks (pool s)) @ map fst (settled s))
           = {taskIdCounter (queue s0)<..taskIdCounter (queue s)} \<and>
         distinct (map task_id (waiting (queue s) @ running s @ pool_tasks (pool s)) @ map fst (settled s)) \<and>
         activeRequests (queue s) = int (length (mainRuns s) +
           sum_list (map run_dispatched (batchRuns s)) + length (pool_tasks (pool s)))"
proof -
  let ?xs = "map task_id (waiting (queue s) @ running s @ pool_tasks (pool s)) @ map fst (settled s)"
  let ?A = "{taskIdCounter (queue s0)<..taskIdCounter (queue s)}"
  have inv: "careful_inv s0 s" using careful_reachable_inv [OF assms] .
  then have eq: "mset ?xs = mset_set ?A" by (simp add: careful_inv_def ids_def held_def ac_simps)
  have "set ?xs = ?A" using arg_cong [OF eq, of set_mset] by simp
  moreover have "distinct ?xs"
    by (rule distinct_subset_mset [of ?xs "sorted_list_of_set ?A"]) (simp_all only: eq mset_sorted_list
        finite_greaterThanAtMost subset_mset.order_refl distinct_sorted_list_of_set)
  moreover have "activeRequests (queue s) = int (in_flight s)" using inv by (simp add: careful_inv_def tight_def)
  ultimately show ?thesis by (simp add: in_flight_def)
qed

theorem careful_runs_lose_nothing_witness:
  "activeRequests (queue (after ordinary)) = 0 \<and>
   set (map task_id (waiting (queue (after ordinary)) @ running (after ordinary) @
     pool_tasks (pool (after ordinary))) @ map fst (settled (after ordinary))) = {0<..3}"
proof -
  show ?thesis
    using ordinary_states(4,5) careful_runs_lose_nothing [OF after_careful [OF ordinary_runs(2)]] ordinary_result(3) by simp
qed

text \<open>C5. The statistics are exact: at any moment the totals grew since start-up by the number of
  tasks resolved, timed out, and rejected for another reason (plus the requests refused at the
  door), except for the counts of batches whose tasks are not all done yet.\<close>

theorem statistics_are_exact:
  assumes "reachable s0 s"
  shows "int (totalProcessed (stats s)) + int (sum_list (map run_processed (batchRuns s))) =
           int (totalProcessed (stats s0)) + settled_as is_resolved s \<and>
         int (totalRejected (stats s)) + int (sum_list (map run_failed (batchRuns s))) =
           int (totalRejected (stats s0)) + int (admissionRejected s) + settled_as refused_outcome s \<and>
         int (totalTimeout (stats s)) = int (totalTimeout (stats s0)) + settled_as timeout_outcome s"
proof -
  have "ledger s = ledger s0" using reachable_inv [OF assms] by (simp add: sys_inv_def)
  moreover have "ledger s0 =
      (int (totalProcessed (stats s0)), int (totalRejected (stats s0)), int (totalTimeout (stats s0)))"
    using assms by (auto simp: reachable_def start_state_def ledger_def settled_as_def sys_init_def)
  ultimately show ?thesis by (simp add: ledger_def)
qed

theorem statistics_are_exact_witness:
  "totalProcessed (stats (after ordinary)) = 2 \<and> settled_as is_resolved (after ordinary) = 2"
proof -
  show ?thesis
    using ordinary_states(6-8) statistics_are_exact [OF after_reachable [of ordinary]] by simp
qed

text \<open>C6. The number of waiting tasks, as \<open>getTotalQueueLength\<close> reports it, never exceeds the
  configured overflow threshold, and no reachable state is left inside \<open>processQueue\<close>.\<close>

theorem queue_length_bounded:
  assumes "reachable s0 s"
  shows "int (getTotalQueueLength (queue s)) \<le> queueOverflowThreshold (config s) \<and>
         \<not> isProcessingQueue (queue s)"
  using reachable_bounded [OF assms] by (simp add: bounded_def getTotalQueueLength_waiting)

theorem queue_length_bounded_witness:
  "getTotalQueueLength (queue (after (take 4 ordinary))) = 3 \<and>
   \<not> isProcessingQueue (queue (after (take 4 ordinary)))"
proof -
  show ?thesis using ordinary_states(2) queue_length_bounded [OF after_reachable [of "take 4 ordinary"]] by simp
qed

text \<open>C8. In runs without the worker races and the end of shutdown the workers never have more tasks of
  a workload type than its limit, and the router's counter is the number they have. The counter itself
  never exceeds the limit in any run; with a late \<open>initialized\<close> message it may be below the number of
  tasks, and the limit is broken then: \<open>late_initialized_message_breaks_a_limit\<close>.\<close>

theorem worker_limits_respected:
  assumes "reachable s0 s" and "isDispatchableType ty"
  shows "int (activeByType (router_state (pool s)) ty) \<le> getConcurrencyLimit (routerCaps (pool s)) ty \<and>
         (careful_reachable s0 s \<longrightarrow>
            int (length (filter (\<lambda>(_, d). determineTaskType d = ty) (assignedTasks (pool s))))
              \<le> getConcurrencyLimit (routerCaps (pool s)) ty \<and>
            activeByType (router_state (pool s)) ty =
              length (filter (\<lambda>(_, d). determineTaskType d = ty) (assignedTasks (pool s))))"
proof
  show limit: "int (activeByType (router_state (pool s)) ty) \<le> getConcurrencyLimit (routerCaps (pool s)) ty"
    using reachable_inv [OF assms(1)] assms(2)
    by (simp add: sys_inv_def core_def wf_pool_def within_caps_def)
  show "careful_reachable s0 s \<longrightarrow>
      int (length (filter (\<lambda>(_, d). determineTaskType d = ty) (assignedTasks (pool s))))
        \<le> getConcurrencyLimit (routerCaps (pool s)) ty \<and>
      activeByType (router_state (pool s)) ty =
        length (filter (\<lambda>(_, d). determineTaskType d = ty) (assignedTasks (pool s)))"
  proof
    assume "careful_reachable s0 s"
    then have exact: "activeByType (router_state (pool s)) ty =
        length (filter (\<lambda>(_, d). determineTaskType d = ty) (assignedTasks (pool s)))"
      using careful_reachable_inv [of s0 s] assms(2)
      by (simp add: careful_inv_def tight_def pool_consistent_def assigned_of_type_def)
    show "int (length (filter (\<lambda>(_, d). determineTaskType d = ty) (assignedTasks (pool s))))
          \<le> getConcurrencyLimit (routerCaps (pool s)) ty \<and>
        activeByType (router_state (pool s)) ty =
          length (filter (\<lambda>(_, d). determineTaskType d = ty) (assignedTasks (pool s)))"
      using limit unfolding exact by (rule conjI) (rule refl)
  qed
qed

theorem worker_limits_respected_witness:
  "length (filter (\<lambda>(_, d). determineTaskType d = CPU) (assignedTasks (pool (after (take 5 ordinary))))) = 1 \<and>
   (1 :: int) \<le> getConcurrencyLimit (routerCaps (pool (after (take 5 ordinary)))) CPU"
proof -
  have "careful_reachable boot (after (take 5 ordinary))" by (rule after_careful [OF careful_run_take [OF ordinary_runs(2)]])
  then show ?thesis
    using ordinary_states(3) worker_limits_respected [OF after_reachable [of "take 5 ordinary"], of CPU]
    by (simp add: isDispatchableType_def)
qed

text \<open>In every reachable state each batch is filed under its own category, is not empty, holds
  only tasks of that category below the high priority, and carries the sum of their sizes; and every
  queued task is in the queue of its priority level.\<close>

theorem batches_and_levels_well_formed:
  assumes "reachable s0 s"
  shows "distinct (map fst (batchQueues (queue s))) \<and>
         list_all (\<lambda>(k, b). batch_category b = k \<and> tasks b \<noteq> [] \<and>
            list_all (\<lambda>t. category t = Some k \<and> priority t < 5) (tasks b) \<and>
            totalSize b = sum_list (map size_nullish (tasks b))) (batchQueues (queue s)) \<and>
         list_all (\<lambda>t. 5 \<le> priority t) (highPriorityQueue (queue s)) \<and>
         list_all (\<lambda>t. 0 \<le> priority t \<and> priority t < 5) (normalPriorityQueue (queue s)) \<and>
         list_all (\<lambda>t. priority t < 0) (lowPriorityQueue (queue s))"
proof -
  have "wf_queues (queue s)" using reachable_inv [OF assms] by (simp add: sys_inv_def core_def)
  then show ?thesis
    by (auto simp: wf_queues_def wf_levels_def wf_batches_def wf_batch_def list_all_iff level_of_def
        split: if_splits)
qed

theorem batches_and_levels_well_formed_witness:
  "map fst (batchQueues (queue (after ordinary))) = [''default''] \<and>
   list_all (\<lambda>(k, b). totalSize b = sum_list (map size_nullish (tasks b))) (batchQueues (queue (after ordinary)))"
proof -
  show ?thesis
    using ordinary_states(9) batches_and_levels_well_formed [OF after_reachable [of ordinary]] by (auto simp: list_all_iff)
qed

text \<open>C10. What \<open>enqueue\<close> does on every branch. Invalid options are refused and change nothing but
  the fallback count. Under memory pressure a negative priority is refused, and so is any task when
  the queue is full; both count as rejections and touch no queue. Otherwise one new task with the
  next id waits: in the batch of its category, or at the end of the queue of its level; its wait
  timer is armed and the processor is signalled.\<close>

theorem enqueue_admission:
  assumes "reachable s0 s" and "enqueue now options s = (result, s')"
    and "normalizeEnqueueOptions (customAllowed s) options (executionTimeoutMs (config s)) (fallbackCount s) =
           (parsed, fb)"
  shows "case parsed of
      Inl err \<Rightarrow> result = Inl err \<and> s' = s\<lparr>fallbackCount := fb\<rparr>
    | Inr n \<Rightarrow>
        let t = new_task now (taskIdCounter (queue s) + 1) n in
        if memoryPressure s \<and> n_priority n < 0 then
          result = Inl ServerOverloaded \<and> queue s' = queue s \<and> settled s' = settled s \<and>
          totalRejected (stats s') = totalRejected (stats s) + 1
        else if queueOverflowThreshold (config s) \<le> int (length (waiting (queue s))) then
          result = Inl QueueFull \<and> queue s' = queue s \<and> settled s' = settled s \<and>
          totalRejected (stats s') = totalRejected (stats s) + 1
        else
          result = Inr (taskIdCounter (queue s) + 1) \<and>
          mset (waiting (queue s')) = add_mset t (mset (waiting (queue s))) \<and>
          taskIdCounter (queue s) + 1 \<in> set (queueTimers s') \<and> processSignalPending (queue s') \<and>
          (if n_batch n \<and> shouldAddToBatch t (batchQueues (queue s))
           then \<exists>b. map_of (batchQueues (queue s')) (n_category n) = Some b \<and> last (tasks b) = t
           else queue_at (level_of (n_priority n)) (queue s') =
                queue_at (level_of (n_priority n)) (queue s) @ [t])"
proof (cases rule: enqueue_cases [of s options now])
  case (invalid err fb')
  then show ?thesis using assms(2,3) by simp
next
  case (pressured n fb')
  then show ?thesis using assms(2,3) by (auto simp: refuse_def incrementRejected_def Let_def)
next
  case (full n fb')
  then show ?thesis
    using assms(2,3) by (auto simp: refuse_def incrementRejected_def getTotalQueueLength_waiting Let_def)
next
  case (admitted n fb')
  let ?s = "s\<lparr>fallbackCount := fb'\<rparr>"
  let ?t = "new_task now (taskIdCounter (queue s) + 1) n"
  have "core ?s = core s" by (rule core_cong) simp_all
  then have core: "core ?s" using reachable_inv [OF assms(1)] by (simp add: sys_inv_def)
  have s': "s' = admit now n ?s" "result = Inr (taskIdCounter (queue s) + 1)" "parsed = Inr n"
    using admitted assms(2,3) by auto
  note f = admit_facts [OF core admitted(4) s'(1)]
  define s1 where "s1 = ?s\<lparr>queue := (queue s)\<lparr>taskIdCounter := taskIdCounter (queue s) + 1\<rparr>,
    queueTimers := queueTimers s @ [taskIdCounter (queue s) + 1]\<rparr>"
  have adm: "s' = requestProcessQueue (place_task now (n_batch n) ?t s1)"
    by (simp add: s'(1) admit_def Let_def s1_def)
  have tn: "priority (new_task now i n) = n_priority n" "category_or_empty (new_task now i n) = n_category n" for i
    by (simp_all add: new_task_def category_or_empty_def)
  have "if n_batch n \<and> shouldAddToBatch ?t (batchQueues (queue s))
     then \<exists>b. map_of (batchQueues (queue s')) (n_category n) = Some b \<and> last (tasks b) = ?t
     else queue_at (level_of (n_priority n)) (queue s') = queue_at (level_of (n_priority n)) (queue s) @ [?t]"
    by (auto simp: s1_def adm requestProcessQueue_eq place_task_def Let_def addTaskToBatch_def tn level_of_def
        AList.update_conv' split: prod.split)
  moreover have "taskIdCounter (queue s) + 1 \<in> set (queueTimers s')" "processSignalPending (queue s')"
    by (simp_all add: adm requestProcessQueue_eq place_task_frame s1_def)
  ultimately show ?thesis
    using f(7) s'(2,3) admitted(2,3) by (auto simp: getTotalQueueLength_waiting Let_def split: if_splits)
qed

theorem enqueue_admission_witness:
  "fst (enqueue 5 batch_options (after ordinary)) = Inr 4"
proof -
  let ?s = "after ordinary"
  obtain result s' where e: "enqueue 5 batch_options ?s = (result, s')" by fastforce
  show ?thesis
    using enqueue_admission [OF after_reachable [of ordinary] e ordinary_states(13)] ordinary_states(5,11,12) e by (simp add: Let_def)
qed

text \<open>C11. The wait timer of a task settles it exactly when the task is still waiting: then the
  task leaves its queue or batch, is rejected with the wait-timeout error and counted once as a
  timeout, and every other task stays where it was. Otherwise nothing is settled or moved.\<close>

theorem wait_timeout_settles_iff_waiting:
  assumes "reachable s0 s" and "s' = handle (WaitTimeout i) s"
  shows "if i \<in> task_id ` set (waiting (queue s)) then
           (\<exists>t. task_id t = i \<and> mset (waiting (queue s)) = add_mset t (mset (waiting (queue s')))) \<and>
           settled s' = settled s @ [(i, Rejected QueueWaitTimeout)] \<and>
           totalTimeout (stats s') = totalTimeout (stats s) + 1
         else queue s' = queue s \<and> settled s' = settled s \<and> stats s' = stats s"
proof (cases "i \<in> task_id ` set (waiting (queue s))")
  case True
  have wf: "wf_queues (queue s)" using reachable_inv [OF assms(1)] by (simp add: sys_inv_def core_def)
  obtain q where rm: "removeTaskFromQueues i (queue s) = (True, q)"
    using removeTaskFromQueues_found [OF True] by (cases "removeTaskFromQueues i (queue s)") auto
  then show ?thesis
    using True removeTaskFromQueues_hit [OF wf rm]
    by (auto simp: assms(2) queue_timeout_def Let_def incrementTimeout_def)
next
  case False
  then show ?thesis by (simp add: assms(2) queue_timeout_def Let_def removeTaskFromQueues_miss)
qed

theorem wait_timeout_settles_iff_waiting_witness:
  "settled (handle (WaitTimeout 3) (after ordinary)) =
     [(1, Resolved (Str ''one'')), (2, Resolved Null), (3, Rejected QueueWaitTimeout)]"
proof -
  show ?thesis
    using ordinary_states(10) wait_timeout_settles_iff_waiting [OF after_reachable [of ordinary] refl, of 3] ordinary_result(1)
    by simp
qed

text \<open>C16. A restart continues from the snapshot: when the queue is saved to a writable file and started
  again from that file within the maximal age, the totals and the counter are those of the moment of
  the snapshot, and every task of the new run has an id above every id handed out until then. Ids
  handed out between the snapshot and a crash are handed out again: \<open>ids_after_the_snapshot_are_reused\<close>.\<close>

theorem restart_continues_the_ids:
  assumes "reachable s0 s" and "persistence_enabled e" and "writable fs"
    and "save_snapshot e now later s (mg, fs) = (mg1, fs1)" and "now' - now \<le> maxSnapshotAgeMs e"
    and "onModuleInit e now' fs1 = (s1, mg2, fs2)" and "reachable s1 t"
  shows "totalProcessed (stats s1) = totalProcessed (stats s) \<and>
         totalRejected (stats s1) = totalRejected (stats s) \<and>
         totalTimeout (stats s1) = totalTimeout (stats s) \<and>
         taskIdCounter (queue s1) = taskIdCounter (queue s) \<and>
         (\<forall>i j. i \<le> taskIdCounter (queue s) \<and> j \<in># ids t \<longrightarrow> i < j) \<and>
         (\<forall>i. i \<in># ids s \<longrightarrow> i \<le> taskIdCounter (queue s))"
proof -
  note c = restart_counter [OF assms(2-6)]
  have "i < j" if "i \<le> taskIdCounter (queue s)" "j \<in># ids t" for i j
    using that(1) reachable_ids [OF assms(7) that(2)] c(1) by simp
  then show ?thesis using c reachable_ids [OF assms(1)] by simp
qed

theorem restart_continues_the_ids_witness:
  "let e = (\<lambda>k. if k = ''QUEUE_PERSISTENCE'' then Some ''file'' else None);
       (_, fs1) = save_snapshot e 100 101 (after ordinary)
         (\<lparr>ms_stats = init_stats, lastSnapshotAt = None\<rparr>, \<lparr>snapshotFile = Absent, writable = True\<rparr>);
       (s1, _, _) = onModuleInit e 200 fs1
   in totalProcessed (stats s1) = totalProcessed (stats (after ordinary))"
proof -
  define e :: env where "e = (\<lambda>k. if k = ''QUEUE_PERSISTENCE'' then Some ''file'' else None)"
  obtain mg1 fs1 where sv: "save_snapshot e 100 101 (after ordinary)
      (\<lparr>ms_stats = init_stats, lastSnapshotAt = None\<rparr>, \<lparr>snapshotFile = Absent, writable = True\<rparr>) = (mg1, fs1)"
    by fastforce
  obtain s1 mg2 fs2 where st: "onModuleInit e 200 fs1 = (s1, mg2, fs2)"
    by (cases "onModuleInit e 200 fs1") auto
  have "persistence_enabled e" by (simp add: persistence_enabled_def e_def)
  moreover have "200 - 100 \<le> maxSnapshotAgeMs e"
    by (simp add: maxSnapshotAgeMs_def readPositiveIntEnv_def raw_env_def e_def)
  moreover have "reachable s1 s1" using onModuleInit_start [OF st] by (rule reachable_start)
  ultimately have "totalProcessed (stats s1) = totalProcessed (stats (after ordinary))"
    using restart_continues_the_ids [OF after_reachable [of ordinary] _ _ sv _ st] by simp
  then show ?thesis using sv st unfolding Let_def e_def by simp
qed

text \<open>The snapshot is written every 30 seconds: a task enqueued after it has the id that the queue started
  again after a crash gives to its first task.\<close>

theorem ids_after_the_snapshot_are_reused:
  "let e = (\<lambda>k. if k = ''QUEUE_PERSISTENCE'' then Some ''file'' else None);
       saved = after [Enqueue 0 cpu_options];
       (_, fs1) = save_snapshot e 100 101 saved
         (\<lparr>ms_stats = init_stats, lastSnapshotAt = None\<rparr>, \<lparr>snapshotFile = Absent, writable = True\<rparr>);
       (s1, _, _) = onModuleInit e 200 fs1
   in fst (enqueue 150 plain_options saved) = Inr 2 \<and> fst (enqueue 300 plain_options s1) = Inr 2"
  by code_simp

end
